(* ===== verification/VT_Prelude.thy ===== *)
theory VT_Prelude
  imports Main "HOL-Library.Word"
begin

text \<open>
  Shared vocabulary of the console model: machine integers, the result type of code that
  can fault, character cell memory with its block operations, and the generic lemmas the
  component theories use.

  Unsigned and signed 32-bit values are integers with the wrap-around written out
  (\<open>u32\<close>, \<open>s32\<close>); bytes, character cells and flag words are words, because the code works
  on their bits.
\<close>

unbundle bit_operations_syntax

named_theorems keep_intros \<open>introduction rules for state preservation\<close>
named_theorems vc_frames \<open>what an operation leaves alone\<close>

section \<open>Machine integers\<close>

type_synonym u8 = "8 word"
type_synonym u16 = "16 word"

definition u32 :: "int \<Rightarrow> int" where
  "u32 i = i mod 4294967296"

definition s32 :: "int \<Rightarrow> int" where
  "s32 i = (i + 2147483648) mod 4294967296 - 2147483648"

lemma u32_range: "0 \<le> u32 i" "u32 i < 4294967296"
  by (simp_all add: u32_def)

lemma u32_id [simp]: "0 \<le> i \<Longrightarrow> i < 4294967296 \<Longrightarrow> u32 i = i"
  by (simp add: u32_def)

lemma s32_range: "- 2147483648 \<le> s32 i" "s32 i < 2147483648"
  by (simp_all add: s32_def)

lemma s32_id [simp]: "- 2147483648 \<le> i \<Longrightarrow> i < 2147483648 \<Longrightarrow> s32 i = i"
  by (simp add: s32_def)

lemma s32_u32 [simp]: "s32 (u32 i) = s32 i"
  by (simp add: s32_def u32_def mod_add_left_eq)

section \<open>Code that can fault\<close>

text \<open>
  A fault is what the C program does not survive: a null pointer dereference, a
  pointer to freed memory, an array index out of range, a division by zero, or a loop that never ends.
\<close>

datatype fault = Null_deref | Dangling | Out_of_bounds | Div_zero | No_return

text \<open>Error codes the code returns as negative integers; success (0) is \<open>None\<close>.\<close>

datatype errno = EIO | ENOMEM | EINVAL | EFAULT | ENXIO | EPERM | ENODEV | ENOTTY | EBUSY
  | ENOSPC | ENOSYS | EINTR | EOVERFLOW | ENOIOCTLCMD | ESPIPE

type_synonym 'a res = "fault + 'a"

definition res_bind :: "'a res \<Rightarrow> ('a \<Rightarrow> 'b res) \<Rightarrow> 'b res" where
  "res_bind r f = (case r of Inl e \<Rightarrow> Inl e | Inr a \<Rightarrow> f a)"

definition res_ok :: "('a \<Rightarrow> bool) \<Rightarrow> 'a res \<Rightarrow> bool" where
  "res_ok P r = (case r of Inl e \<Rightarrow> False | Inr a \<Rightarrow> P a)"

lemma res_bind_simps [simp]:
  "res_bind (Inl e) f = Inl e"
  "res_bind (Inr a) f = f a"
  by (simp_all add: res_bind_def)

lemma res_bind_Inr: "res_bind r f = Inr b \<longleftrightarrow> (\<exists>a. r = Inr a \<and> f a = Inr b)"
  by (cases r) simp_all

lemma res_ok_simps [simp]:
  "\<not> res_ok P (Inl e)"
  "res_ok P (Inr a) = P a"
  by (simp_all add: res_ok_def)

lemma res_ok_ex: "res_ok P r \<longleftrightarrow> (\<exists>a. r = Inr a \<and> P a)"
  by (cases r) simp_all

lemma res_ok_mono: "res_ok P r \<Longrightarrow> (\<And>a. P a \<Longrightarrow> Q a) \<Longrightarrow> res_ok Q r"
  by (cases r) simp_all

lemma res_ok_bind:
  "res_ok P r \<Longrightarrow> (\<And>a. P a \<Longrightarrow> res_ok Q (f a)) \<Longrightarrow> res_ok Q (res_bind r f)"
  by (cases r) simp_all

lemma res_ok_if:
  "(b \<Longrightarrow> res_ok P r) \<Longrightarrow> (\<not> b \<Longrightarrow> res_ok P s) \<Longrightarrow> res_ok P (if b then r else s)"
  by simp

section \<open>Character cell memory\<close>

text \<open>
  Screen memory holds 16-bit cells (character in the low byte, attribute in the high
  byte). A cell is named by its byte address; neighbouring cells are two apart. The
  block operations take their length in bytes, as \<open>scr_memsetw\<close>, \<open>scr_memmovew\<close> and
  \<open>scr_memcpyw\<close> do, and are always called with even lengths.
\<close>

type_synonym memory = "int \<Rightarrow> u16"

definition scr_writew :: "u16 \<Rightarrow> int \<Rightarrow> memory \<Rightarrow> memory" where
  "scr_writew w p m = m(p := w)"

definition scr_memsetw :: "int \<Rightarrow> u16 \<Rightarrow> int \<Rightarrow> memory \<Rightarrow> memory" where
  "scr_memsetw p w n m = (\<lambda>a. if p \<le> a \<and> a < p + n then w else m a)"

definition scr_memmovew :: "int \<Rightarrow> int \<Rightarrow> int \<Rightarrow> memory \<Rightarrow> memory" where
  "scr_memmovew d s n m = (\<lambda>a. if d \<le> a \<and> a < d + n then m (s + (a - d)) else m a)"

abbreviation scr_memcpyw :: "int \<Rightarrow> int \<Rightarrow> int \<Rightarrow> memory \<Rightarrow> memory" where
  "scr_memcpyw \<equiv> scr_memmovew"

text \<open>Two memories agree outside a set of addresses.\<close>

definition same_off :: "int set \<Rightarrow> memory \<Rightarrow> memory \<Rightarrow> bool" where
  "same_off R m m' \<longleftrightarrow> (\<forall>a. a \<notin> R \<longrightarrow> m' a = m a)"

lemma same_off_refl [simp]: "same_off R m m"
  by (simp add: same_off_def)

lemma same_off_trans: "same_off R m m' \<Longrightarrow> same_off R m' m'' \<Longrightarrow> same_off R m m''"
  by (simp add: same_off_def)

lemma same_off_writew: "p \<in> R \<Longrightarrow> same_off R m m' \<Longrightarrow> same_off R m (scr_writew w p m')"
  by (auto simp: same_off_def scr_writew_def)

lemma same_off_memsetw:
  "{p ..< p + n} \<subseteq> R \<Longrightarrow> same_off R m m' \<Longrightarrow> same_off R m (scr_memsetw p w n m')"
  by (auto simp: same_off_def scr_memsetw_def)

lemma same_off_memmovew:
  "{d ..< d + n} \<subseteq> R \<Longrightarrow> same_off R m m' \<Longrightarrow> same_off R m (scr_memmovew d s n m')"
  by (auto simp: same_off_def scr_memmovew_def)

section \<open>Lists used as arrays\<close>

text \<open>Indexing a C array that is modelled by a list, faulting outside its bounds.\<close>

definition arr_get :: "'a list \<Rightarrow> int \<Rightarrow> 'a res" where
  "arr_get xs i = (if 0 \<le> i \<and> i < int (length xs) then Inr (xs ! nat i) else Inl Out_of_bounds)"

definition arr_set :: "'a list \<Rightarrow> int \<Rightarrow> 'a \<Rightarrow> 'a list res" where
  "arr_set xs i v =
     (if 0 \<le> i \<and> i < int (length xs) then Inr (xs[nat i := v]) else Inl Out_of_bounds)"

lemma arr_get_Inr: "0 \<le> i \<Longrightarrow> i < int (length xs) \<Longrightarrow> arr_get xs i = Inr (xs ! nat i)"
  by (simp add: arr_get_def)

lemma arr_set_Inr: "0 \<le> i \<Longrightarrow> i < int (length xs) \<Longrightarrow> arr_set xs i v = Inr (xs[nat i := v])"
  by (simp add: arr_set_def)

lemma arr_set_get: "arr_set xs i v = Inr ys \<Longrightarrow> arr_get ys i = Inr v"
  by (auto simp: arr_set_def arr_get_def split: if_splits)

lemma nat_less_iff_int: "0 \<le> i \<Longrightarrow> nat i < n \<longleftrightarrow> i < int n"
  by linarith

lemma row_offset_bound:
  fixes y r s :: int
  assumes "0 \<le> y" "y < r" "0 \<le> s"
  shows "y * s + s \<le> r * s"
proof -
  have "(y + 1) * s \<le> r * s"
    using assms by (intro mult_right_mono) auto
  then show ?thesis by (simp add: algebra_simps)
qed

end
