(* ===== verification/Vc_Data.thy ===== *)
theory Vc_Data
  imports VT_Prelude
begin

text \<open>
  The data of one virtual console: \<open>struct kbd_struct\<close> (include/linux/kbd_kern.h) with its
  flag operations, \<open>struct vc_data\<close> and \<open>struct vt_struct\<close> (include/linux/vt_kern.h), and
  the states of the escape sequence parser (drivers/char/decvte.c).

  Pointers become keys: a console is named by its number \<open>vc_num\<close>, a display (VT) by its
  number, a buffer by its address, the tty by its index. One-bit fields are booleans.
  Coordinates, sizes and addresses are integers; the escape sequence parameters are
  unsigned 32-bit values kept in range by \<open>u32\<close>.
\<close>

section \<open>Keyboard state of a console\<close>

datatype ledmode = LED_SHOW_FLAGS | LED_SHOW_IOCTL | LED_SHOW_MEM

datatype kbdmode = VC_XLATE | VC_MEDIUMRAW | VC_RAW | VC_UNICODE

record kbd_struct =
  lockstate :: u8
  slockstate :: u8
  ledmode :: ledmode
  ledflagstate :: "4 word"
  default_ledflagstate :: "4 word"
  kbdmode :: kbdmode
  modeflags :: "5 word"

abbreviation (input) "VC_SCROLLOCK \<equiv> (0::nat)"
abbreviation (input) "VC_NUMLOCK \<equiv> (1::nat)"
abbreviation (input) "VC_CAPSLOCK \<equiv> (2::nat)"

abbreviation (input) "VC_APPLIC \<equiv> (0::nat)"
abbreviation (input) "VC_CKMODE \<equiv> (1::nat)"
abbreviation (input) "VC_REPEAT \<equiv> (2::nat)"
abbreviation (input) "VC_CRLF \<equiv> (3::nat)"
abbreviation (input) "VC_META \<equiv> (4::nat)"

definition KBD_DEFMODE :: "5 word" where
  "KBD_DEFMODE = push_bit VC_REPEAT 1 OR push_bit VC_META 1"

definition get_kbd_mode :: "kbd_struct \<Rightarrow> nat \<Rightarrow> bool" where
  "get_kbd_mode kbd flag = (drop_bit flag (modeflags kbd) AND 1 \<noteq> 0)"

definition get_kbd_led :: "kbd_struct \<Rightarrow> nat \<Rightarrow> bool" where
  "get_kbd_led kbd flag = (drop_bit flag (ledflagstate kbd) AND 1 \<noteq> 0)"

definition set_kbd_mode :: "nat \<Rightarrow> kbd_struct \<Rightarrow> kbd_struct" where
  "set_kbd_mode flag kbd = kbd\<lparr>modeflags := modeflags kbd OR push_bit flag 1\<rparr>"

definition set_kbd_led :: "nat \<Rightarrow> kbd_struct \<Rightarrow> kbd_struct" where
  "set_kbd_led flag kbd = kbd\<lparr>ledflagstate := ledflagstate kbd OR push_bit flag 1\<rparr>"

definition clr_kbd_mode :: "nat \<Rightarrow> kbd_struct \<Rightarrow> kbd_struct" where
  "clr_kbd_mode flag kbd = kbd\<lparr>modeflags := modeflags kbd AND NOT (push_bit flag 1)\<rparr>"

definition clr_kbd_led :: "nat \<Rightarrow> kbd_struct \<Rightarrow> kbd_struct" where
  "clr_kbd_led flag kbd = kbd\<lparr>ledflagstate := ledflagstate kbd AND NOT (push_bit flag 1)\<rparr>"

definition chg_kbd_lock :: "nat \<Rightarrow> kbd_struct \<Rightarrow> kbd_struct" where
  "chg_kbd_lock flag kbd = kbd\<lparr>lockstate := lockstate kbd XOR push_bit flag 1\<rparr>"

definition chg_kbd_slock :: "nat \<Rightarrow> kbd_struct \<Rightarrow> kbd_struct" where
  "chg_kbd_slock flag kbd = kbd\<lparr>slockstate := slockstate kbd XOR push_bit flag 1\<rparr>"

definition chg_kbd_led :: "nat \<Rightarrow> kbd_struct \<Rightarrow> kbd_struct" where
  "chg_kbd_led flag kbd = kbd\<lparr>ledflagstate := ledflagstate kbd XOR push_bit flag 1\<rparr>"

section \<open>Parser states\<close>

datatype es_state =
    ESinit
  | ESesc | ESacs | ESscf | ESgzd4 | ESg1d4 | ESg2d4 | ESg3d4 | ESg1d6 | ESg2d6 | ESg3d6 | ESdocs
  | EScsi | EScsi_getpars | EScsi_gotpars | EScsi_space | EScsi_exclam | EScsi_dquote
  | EScsi_dollar | EScsi_and | EScsi_squote | EScsi_star | EScsi_plus
  | ESosc | ESpalette
  | ESfunckey | ESignore

section \<open>One virtual console\<close>

datatype kd_mode = KD_TEXT | KD_GRAPHICS

datatype vt_switch_mode = VT_AUTO | VT_PROCESS

record vt_mode =
  vtm_mode :: vt_switch_mode
  vtm_waitv :: int
  vtm_relsig :: int
  vtm_acqsig :: int
  vtm_frsig :: int

abbreviation (input) "NPAR \<equiv> (16::int)"

text \<open>Character set map numbers of include/linux/consolemap.h.\<close>

abbreviation (input) "LAT1_MAP \<equiv> (0::nat)"
abbreviation (input) "GRAF_MAP \<equiv> (1::nat)"
abbreviation (input) "IBMPC_MAP \<equiv> (2::nat)"
abbreviation (input) "USER_MAP \<equiv> (3::nat)"

abbreviation (input) "CUR_DEFAULT \<equiv> (2 :: 32 word)"

record vc_data =
  vc_num :: int
  vc_cols :: int
  vc_rows :: int
  vc_size_row :: int
  vc_scan_lines :: int
  vc_mode :: kd_mode
  vc_origin :: int
  vc_scr_end :: int
  vc_visible_origin :: int
  vc_top :: int
  vc_bottom :: int
  vc_screenbuf :: int
  vc_screenbuf_size :: int
  vc_attr :: u8
  vc_def_color :: u8
  vc_color :: u8
  vc_s_color :: u8
  vc_ulcolor :: u8
  vc_halfcolor :: u8
  vc_cursor_type :: "32 word"
  vc_complement_mask :: u16
  vc_s_complement_mask :: u16
  vc_video_erase_char :: u16
  vc_x :: int
  vc_y :: int
  vc_pos :: int
  vc_saved_x :: int
  vc_saved_y :: int
  vc_state :: es_state
  vc_npar :: int
  vc_par :: "int list"
  kbd_table :: kbd_struct
  vc_hi_font_mask :: u16
  vc_font_height :: int
  display_fg :: int
  vc_tty :: "int option"
  vt_mode :: vt_mode
  vt_pid :: int
  vt_newvt :: int
  vc_charset :: bool
  vc_s_charset :: bool
  vc_disp_ctrl :: bool
  vc_toggle_meta :: bool
  vc_decscnm :: bool
  vc_decom :: bool
  vc_decawm :: bool
  vc_dectcem :: bool
  vc_irm :: bool
  vc_intensity :: int
  vc_underline :: bool
  vc_blink :: bool
  vc_reverse :: bool
  vc_s_intensity :: int
  vc_s_underline :: bool
  vc_s_blink :: bool
  vc_s_reverse :: bool
  vc_priv1 :: bool
  vc_priv2 :: bool
  vc_priv3 :: bool
  vc_priv4 :: bool
  vc_need_wrap :: bool
  vc_can_do_color :: bool
  vc_report_mouse :: int
  vc_utf :: bool
  vc_utf_count :: int
  vc_utf_char :: int
  vc_tab_stop :: "32 word list"
  vc_palette :: "u8 list"
  vc_translate :: nat
  vc_G0_charset :: nat
  vc_G1_charset :: nat
  vc_G2_charset :: nat
  vc_G3_charset :: nat
  vc_GS_charset :: nat
  vc_saved_G0 :: nat
  vc_saved_G1 :: nat
  vc_saved_G2 :: nat
  vc_saved_G3 :: nat
  vc_bell_pitch :: int
  vc_bell_duration :: int
  vc_uni_pagedir_loc :: int
  vc_decscl :: int
  vc_c8bit :: bool
  vc_shift :: bool
  vc_decckm :: bool
  vc_decsclm :: bool
  vc_decarm :: bool
  vc_decnkm :: bool
  vc_kam :: bool
  vc_crm :: bool
  vc_lnm :: bool

section \<open>One display\<close>

datatype blank_state = blank_off | blank_normal_wait | blank_vesa_wait

record vt_struct =
  vt_num :: int
  fg_console :: "int option"
  last_console :: "int option"
  want_vc :: "int option"
  scrollback_delta :: int
  cursor_original :: "u16 option"
  kmalloced :: bool
  vt_dont_switch :: bool
  vt_blanked :: bool
  blank_mode :: int
  blank_interval :: int
  off_interval :: int
  blank_state :: blank_state
  blank_timer_expired :: bool
  timer :: "int option"
  first_vc :: int
  vc_count :: int
  vc_cons :: "int option list"
  vt_ledstate :: u8
  vt_ledioctl :: u8

end
