(* ===== verification/Consolemap.thy ===== *)
theory Consolemap
  imports Vc_Data
begin

text \<open>
  drivers/char/consolemap.c: the four character set tables and the paged table that maps
  Unicode to font positions. A \<open>struct uni_pagedir\<close> is a heap object named by its address;
  \<open>vc_uni_pagedir_loc\<close> names a location that holds such an address (0 is NULL), so that
  consoles can share a map. Freed objects disappear from the heap, and following a pointer
  to one is the fault \<open>Dangling\<close>. Whether an allocation succeeds is an input of the model
  (\<open>kmalloc_fails\<close>, indexed by the number of allocations made so far).
\<close>

section \<open>Translation tables\<close>

definition translations_lat1 :: "u16 list" where
  "translations_lat1 =
    [0x0000, 0x0001, 0x0002, 0x0003, 0x0004, 0x0005, 0x0006, 0x0007,
     0x0008, 0x0009, 0x000a, 0x000b, 0x000c, 0x000d, 0x000e, 0x000f,
     0x0010, 0x0011, 0x0012, 0x0013, 0x0014, 0x0015, 0x0016, 0x0017,
     0x0018, 0x0019, 0x001a, 0x001b, 0x001c, 0x001d, 0x001e, 0x001f,
     0x0020, 0x0021, 0x0022, 0x0023, 0x0024, 0x0025, 0x0026, 0x0027,
     0x0028, 0x0029, 0x002a, 0x002b, 0x002c, 0x002d, 0x002e, 0x002f,
     0x0030, 0x0031, 0x0032, 0x0033, 0x0034, 0x0035, 0x0036, 0x0037,
     0x0038, 0x0039, 0x003a, 0x003b, 0x003c, 0x003d, 0x003e, 0x003f,
     0x0040, 0x0041, 0x0042, 0x0043, 0x0044, 0x0045, 0x0046, 0x0047,
     0x0048, 0x0049, 0x004a, 0x004b, 0x004c, 0x004d, 0x004e, 0x004f,
     0x0050, 0x0051, 0x0052, 0x0053, 0x0054, 0x0055, 0x0056, 0x0057,
     0x0058, 0x0059, 0x005a, 0x005b, 0x005c, 0x005d, 0x005e, 0x005f,
     0x0060, 0x0061, 0x0062, 0x0063, 0x0064, 0x0065, 0x0066, 0x0067,
     0x0068, 0x0069, 0x006a, 0x006b, 0x006c, 0x006d, 0x006e, 0x006f,
     0x0070, 0x0071, 0x0072, 0x0073, 0x0074, 0x0075, 0x0076, 0x0077,
     0x0078, 0x0079, 0x007a, 0x007b, 0x007c, 0x007d, 0x007e, 0x007f,
     0x0080, 0x0081, 0x0082, 0x0083, 0x0084, 0x0085, 0x0086, 0x0087,
     0x0088, 0x0089, 0x008a, 0x008b, 0x008c, 0x008d, 0x008e, 0x008f,
     0x0090, 0x0091, 0x0092, 0x0093, 0x0094, 0x0095, 0x0096, 0x0097,
     0x0098, 0x0099, 0x009a, 0x009b, 0x009c, 0x009d, 0x009e, 0x009f,
     0x00a0, 0x00a1, 0x00a2, 0x00a3, 0x00a4, 0x00a5, 0x00a6, 0x00a7,
     0x00a8, 0x00a9, 0x00aa, 0x00ab, 0x00ac, 0x00ad, 0x00ae, 0x00af,
     0x00b0, 0x00b1, 0x00b2, 0x00b3, 0x00b4, 0x00b5, 0x00b6, 0x00b7,
     0x00b8, 0x00b9, 0x00ba, 0x00bb, 0x00bc, 0x00bd, 0x00be, 0x00bf,
     0x00c0, 0x00c1, 0x00c2, 0x00c3, 0x00c4, 0x00c5, 0x00c6, 0x00c7,
     0x00c8, 0x00c9, 0x00ca, 0x00cb, 0x00cc, 0x00cd, 0x00ce, 0x00cf,
     0x00d0, 0x00d1, 0x00d2, 0x00d3, 0x00d4, 0x00d5, 0x00d6, 0x00d7,
     0x00d8, 0x00d9, 0x00da, 0x00db, 0x00dc, 0x00dd, 0x00de, 0x00df,
     0x00e0, 0x00e1, 0x00e2, 0x00e3, 0x00e4, 0x00e5, 0x00e6, 0x00e7,
     0x00e8, 0x00e9, 0x00ea, 0x00eb, 0x00ec, 0x00ed, 0x00ee, 0x00ef,
     0x00f0, 0x00f1, 0x00f2, 0x00f3, 0x00f4, 0x00f5, 0x00f6, 0x00f7,
     0x00f8, 0x00f9, 0x00fa, 0x00fb, 0x00fc, 0x00fd, 0x00fe, 0x00ff]"

definition translations_graf :: "u16 list" where
  "translations_graf =
    [0x0000, 0x0001, 0x0002, 0x0003, 0x0004, 0x0005, 0x0006, 0x0007,
     0x0008, 0x0009, 0x000a, 0x000b, 0x000c, 0x000d, 0x000e, 0x000f,
     0x0010, 0x0011, 0x0012, 0x0013, 0x0014, 0x0015, 0x0016, 0x0017,
     0x0018, 0x0019, 0x001a, 0x001b, 0x001c, 0x001d, 0x001e, 0x001f,
     0x0020, 0x0021, 0x0022, 0x0023, 0x0024, 0x0025, 0x0026, 0x0027,
     0x0028, 0x0029, 0x002a, 0x2192, 0x2190, 0x2191, 0x2193, 0x002f,
     0x2588, 0x0031, 0x0032, 0x0033, 0x0034, 0x0035, 0x0036, 0x0037,
     0x0038, 0x0039, 0x003a, 0x003b, 0x003c, 0x003d, 0x003e, 0x003f,
     0x0040, 0x0041, 0x0042, 0x0043, 0x0044, 0x0045, 0x0046, 0x0047,
     0x0048, 0x0049, 0x004a, 0x004b, 0x004c, 0x004d, 0x004e, 0x004f,
     0x0050, 0x0051, 0x0052, 0x0053, 0x0054, 0x0055, 0x0056, 0x0057,
     0x0058, 0x0059, 0x005a, 0x005b, 0x005c, 0x005d, 0x005e, 0x00a0,
     0x25c6, 0x2592, 0x2409, 0x240c, 0x240d, 0x240a, 0x00b0, 0x00b1,
     0x2591, 0x240b, 0x2518, 0x2510, 0x250c, 0x2514, 0x253c, 0x23ba,
     0x23bb, 0x2500, 0x23bc, 0x23bd, 0x251c, 0x2524, 0x2534, 0x252c,
     0x2502, 0x2264, 0x2265, 0x03c0, 0x2260, 0x00a3, 0x00b7, 0x007f,
     0x0080, 0x0081, 0x0082, 0x0083, 0x0084, 0x0085, 0x0086, 0x0087,
     0x0088, 0x0089, 0x008a, 0x008b, 0x008c, 0x008d, 0x008e, 0x008f,
     0x0090, 0x0091, 0x0092, 0x0093, 0x0094, 0x0095, 0x0096, 0x0097,
     0x0098, 0x0099, 0x009a, 0x009b, 0x009c, 0x009d, 0x009e, 0x009f,
     0x00a0, 0x00a1, 0x00a2, 0x00a3, 0x00a4, 0x00a5, 0x00a6, 0x00a7,
     0x00a8, 0x00a9, 0x00aa, 0x00ab, 0x00ac, 0x00ad, 0x00ae, 0x00af,
     0x00b0, 0x00b1, 0x00b2, 0x00b3, 0x00b4, 0x00b5, 0x00b6, 0x00b7,
     0x00b8, 0x00b9, 0x00ba, 0x00bb, 0x00bc, 0x00bd, 0x00be, 0x00bf,
     0x00c0, 0x00c1, 0x00c2, 0x00c3, 0x00c4, 0x00c5, 0x00c6, 0x00c7,
     0x00c8, 0x00c9, 0x00ca, 0x00cb, 0x00cc, 0x00cd, 0x00ce, 0x00cf,
     0x00d0, 0x00d1, 0x00d2, 0x00d3, 0x00d4, 0x00d5, 0x00d6, 0x00d7,
     0x00d8, 0x00d9, 0x00da, 0x00db, 0x00dc, 0x00dd, 0x00de, 0x00df,
     0x00e0, 0x00e1, 0x00e2, 0x00e3, 0x00e4, 0x00e5, 0x00e6, 0x00e7,
     0x00e8, 0x00e9, 0x00ea, 0x00eb, 0x00ec, 0x00ed, 0x00ee, 0x00ef,
     0x00f0, 0x00f1, 0x00f2, 0x00f3, 0x00f4, 0x00f5, 0x00f6, 0x00f7,
     0x00f8, 0x00f9, 0x00fa, 0x00fb, 0x00fc, 0x00fd, 0x00fe, 0x00ff]"

definition translations_ibmpc :: "u16 list" where
  "translations_ibmpc =
    [0x0000, 0x263a, 0x263b, 0x2665, 0x2666, 0x2663, 0x2660, 0x2022,
     0x25d8, 0x25cb, 0x25d9, 0x2642, 0x2640, 0x266a, 0x266b, 0x263c,
     0x25b6, 0x25c0, 0x2195, 0x203c, 0x00b6, 0x00a7, 0x25ac, 0x21a8,
     0x2191, 0x2193, 0x2192, 0x2190, 0x221f, 0x2194, 0x25b2, 0x25bc,
     0x0020, 0x0021, 0x0022, 0x0023, 0x0024, 0x0025, 0x0026, 0x0027,
     0x0028, 0x0029, 0x002a, 0x002b, 0x002c, 0x002d, 0x002e, 0x002f,
     0x0030, 0x0031, 0x0032, 0x0033, 0x0034, 0x0035, 0x0036, 0x0037,
     0x0038, 0x0039, 0x003a, 0x003b, 0x003c, 0x003d, 0x003e, 0x003f,
     0x0040, 0x0041, 0x0042, 0x0043, 0x0044, 0x0045, 0x0046, 0x0047,
     0x0048, 0x0049, 0x004a, 0x004b, 0x004c, 0x004d, 0x004e, 0x004f,
     0x0050, 0x0051, 0x0052, 0x0053, 0x0054, 0x0055, 0x0056, 0x0057,
     0x0058, 0x0059, 0x005a, 0x005b, 0x005c, 0x005d, 0x005e, 0x005f,
     0x0060, 0x0061, 0x0062, 0x0063, 0x0064, 0x0065, 0x0066, 0x0067,
     0x0068, 0x0069, 0x006a, 0x006b, 0x006c, 0x006d, 0x006e, 0x006f,
     0x0070, 0x0071, 0x0072, 0x0073, 0x0074, 0x0075, 0x0076, 0x0077,
     0x0078, 0x0079, 0x007a, 0x007b, 0x007c, 0x007d, 0x007e, 0x2302,
     0x00c7, 0x00fc, 0x00e9, 0x00e2, 0x00e4, 0x00e0, 0x00e5, 0x00e7,
     0x00ea, 0x00eb, 0x00e8, 0x00ef, 0x00ee, 0x00ec, 0x00c4, 0x00c5,
     0x00c9, 0x00e6, 0x00c6, 0x00f4, 0x00f6, 0x00f2, 0x00fb, 0x00f9,
     0x00ff, 0x00d6, 0x00dc, 0x00a2, 0x00a3, 0x00a5, 0x20a7, 0x0192,
     0x00e1, 0x00ed, 0x00f3, 0x00fa, 0x00f1, 0x00d1, 0x00aa, 0x00ba,
     0x00bf, 0x2310, 0x00ac, 0x00bd, 0x00bc, 0x00a1, 0x00ab, 0x00bb,
     0x2591, 0x2592, 0x2593, 0x2502, 0x2524, 0x2561, 0x2562, 0x2556,
     0x2555, 0x2563, 0x2551, 0x2557, 0x255d, 0x255c, 0x255b, 0x2510,
     0x2514, 0x2534, 0x252c, 0x251c, 0x2500, 0x253c, 0x255e, 0x255f,
     0x255a, 0x2554, 0x2569, 0x2566, 0x2560, 0x2550, 0x256c, 0x2567,
     0x2568, 0x2564, 0x2565, 0x2559, 0x2558, 0x2552, 0x2553, 0x256b,
     0x256a, 0x2518, 0x250c, 0x2588, 0x2584, 0x258c, 0x2590, 0x2580,
     0x03b1, 0x00df, 0x0393, 0x03c0, 0x03a3, 0x03c3, 0x00b5, 0x03c4,
     0x03a6, 0x0398, 0x03a9, 0x03b4, 0x221e, 0x03c6, 0x03b5, 0x2229,
     0x2261, 0x00b1, 0x2265, 0x2264, 0x2320, 0x2321, 0x00f7, 0x2248,
     0x00b0, 0x2219, 0x00b7, 0x221a, 0x207f, 0x00b2, 0x25a0, 0x00a0]"

definition translations_user :: "u16 list" where
  "translations_user =
    [0xf000, 0xf001, 0xf002, 0xf003, 0xf004, 0xf005, 0xf006, 0xf007,
     0xf008, 0xf009, 0xf00a, 0xf00b, 0xf00c, 0xf00d, 0xf00e, 0xf00f,
     0xf010, 0xf011, 0xf012, 0xf013, 0xf014, 0xf015, 0xf016, 0xf017,
     0xf018, 0xf019, 0xf01a, 0xf01b, 0xf01c, 0xf01d, 0xf01e, 0xf01f,
     0xf020, 0xf021, 0xf022, 0xf023, 0xf024, 0xf025, 0xf026, 0xf027,
     0xf028, 0xf029, 0xf02a, 0xf02b, 0xf02c, 0xf02d, 0xf02e, 0xf02f,
     0xf030, 0xf031, 0xf032, 0xf033, 0xf034, 0xf035, 0xf036, 0xf037,
     0xf038, 0xf039, 0xf03a, 0xf03b, 0xf03c, 0xf03d, 0xf03e, 0xf03f,
     0xf040, 0xf041, 0xf042, 0xf043, 0xf044, 0xf045, 0xf046, 0xf047,
     0xf048, 0xf049, 0xf04a, 0xf04b, 0xf04c, 0xf04d, 0xf04e, 0xf04f,
     0xf050, 0xf051, 0xf052, 0xf053, 0xf054, 0xf055, 0xf056, 0xf057,
     0xf058, 0xf059, 0xf05a, 0xf05b, 0xf05c, 0xf05d, 0xf05e, 0xf05f,
     0xf060, 0xf061, 0xf062, 0xf063, 0xf064, 0xf065, 0xf066, 0xf067,
     0xf068, 0xf069, 0xf06a, 0xf06b, 0xf06c, 0xf06d, 0xf06e, 0xf06f,
     0xf070, 0xf071, 0xf072, 0xf073, 0xf074, 0xf075, 0xf076, 0xf077,
     0xf078, 0xf079, 0xf07a, 0xf07b, 0xf07c, 0xf07d, 0xf07e, 0xf07f,
     0xf080, 0xf081, 0xf082, 0xf083, 0xf084, 0xf085, 0xf086, 0xf087,
     0xf088, 0xf089, 0xf08a, 0xf08b, 0xf08c, 0xf08d, 0xf08e, 0xf08f,
     0xf090, 0xf091, 0xf092, 0xf093, 0xf094, 0xf095, 0xf096, 0xf097,
     0xf098, 0xf099, 0xf09a, 0xf09b, 0xf09c, 0xf09d, 0xf09e, 0xf09f,
     0xf0a0, 0xf0a1, 0xf0a2, 0xf0a3, 0xf0a4, 0xf0a5, 0xf0a6, 0xf0a7,
     0xf0a8, 0xf0a9, 0xf0aa, 0xf0ab, 0xf0ac, 0xf0ad, 0xf0ae, 0xf0af,
     0xf0b0, 0xf0b1, 0xf0b2, 0xf0b3, 0xf0b4, 0xf0b5, 0xf0b6, 0xf0b7,
     0xf0b8, 0xf0b9, 0xf0ba, 0xf0bb, 0xf0bc, 0xf0bd, 0xf0be, 0xf0bf,
     0xf0c0, 0xf0c1, 0xf0c2, 0xf0c3, 0xf0c4, 0xf0c5, 0xf0c6, 0xf0c7,
     0xf0c8, 0xf0c9, 0xf0ca, 0xf0cb, 0xf0cc, 0xf0cd, 0xf0ce, 0xf0cf,
     0xf0d0, 0xf0d1, 0xf0d2, 0xf0d3, 0xf0d4, 0xf0d5, 0xf0d6, 0xf0d7,
     0xf0d8, 0xf0d9, 0xf0da, 0xf0db, 0xf0dc, 0xf0dd, 0xf0de, 0xf0df,
     0xf0e0, 0xf0e1, 0xf0e2, 0xf0e3, 0xf0e4, 0xf0e5, 0xf0e6, 0xf0e7,
     0xf0e8, 0xf0e9, 0xf0ea, 0xf0eb, 0xf0ec, 0xf0ed, 0xf0ee, 0xf0ef,
     0xf0f0, 0xf0f1, 0xf0f2, 0xf0f3, 0xf0f4, 0xf0f5, 0xf0f6, 0xf0f7,
     0xf0f8, 0xf0f9, 0xf0fa, 0xf0fb, 0xf0fc, 0xf0fd, 0xf0fe, 0xf0ff]"

section \<open>Unicode maps\<close>

abbreviation (input) "MAX_GLYPH \<equiv> (512::int)"
abbreviation (input) "E_TABSZ \<equiv> (256::nat)"

type_synonym uni_page = "nat \<Rightarrow> u16"

record uni_pagedir =
  uni_pgdir :: "nat \<rightharpoonup> (nat \<rightharpoonup> uni_page)"
  refcount :: int
  usum :: int
  inverse_translations :: "nat \<rightharpoonup> (nat \<Rightarrow> u8)"
  readonly :: bool

record cmap =
  udirs :: "int \<rightharpoonup> uni_pagedir"
  locs :: "int \<Rightarrow> int"
  dflt :: int
  transl_tables :: "u16 list list"
  inv_translate :: "int \<Rightarrow> nat"
  kmalloc_fails :: "nat \<Rightarrow> bool"
  kmalloc_count :: nat
  next_dir :: int

definition kmalloc :: "cmap \<Rightarrow> bool \<times> cmap" where
  "kmalloc c = (\<not> kmalloc_fails c (kmalloc_count c), c\<lparr>kmalloc_count := Suc (kmalloc_count c)\<rparr>)"

definition deref_dir :: "cmap \<Rightarrow> int \<Rightarrow> uni_pagedir res" where
  "deref_dir c p =
     (if p = 0 then Inl Null_deref
      else case udirs c p of None \<Rightarrow> Inl Dangling | Some d \<Rightarrow> Inr d)"

definition put_dir :: "int \<Rightarrow> uni_pagedir \<Rightarrow> cmap \<Rightarrow> cmap" where
  "put_dir p d c = c\<lparr>udirs := (udirs c)(p \<mapsto> d)\<rparr>"

text \<open>\<open>conv_uni_to_pc\<close>: -1 unprintable, -2 zero width, -3 no map, -4 not found.\<close>

definition lookup_dir :: "uni_pagedir \<Rightarrow> nat \<Rightarrow> u16 option" where
  "lookup_dir d u =
     (case uni_pgdir d (drop_bit 11 u) of
        None \<Rightarrow> None
      | Some p1 \<Rightarrow> (case p1 (drop_bit 6 u AND 0x1f) of
          None \<Rightarrow> None
        | Some p2 \<Rightarrow> (if p2 (u AND 0x3f) < 512 then Some (p2 (u AND 0x3f)) else None)))"

definition conv_uni_to_pc :: "cmap \<Rightarrow> vc_data \<Rightarrow> int \<Rightarrow> int res" where
  "conv_uni_to_pc c vc ucs =
     (if ucs \<le> 0xffff \<and> (ucs < 0x20 \<or> ucs \<ge> 0xfffe) then Inr (-1)
      else if ucs \<le> 0xffff \<and> (ucs = 0xfeff \<or> (ucs \<ge> 0x200a \<and> ucs \<le> 0x200f)) then Inr (-2)
      else if ucs \<le> 0xffff \<and> ucs AND NOT 0x01ff = 0xf000 then Inr (ucs AND 0x01ff)
      else (let u = nat (if ucs > 0xffff then 0xfffd else ucs); p = locs c (vc_uni_pagedir_loc vc) in
        if p = 0 then Inr (-3)
        else res_bind (deref_dir c p) (\<lambda>d.
          case lookup_dir d u of Some h \<Rightarrow> Inr (uint h) | None \<Rightarrow> Inr (-4))))"

text \<open>\<open>set_inverse_transl\<close>: the loop over the 256 codes of table \<open>i\<close>.\<close>

fun inverse_loop ::
  "cmap \<Rightarrow> vc_data \<Rightarrow> u16 list \<Rightarrow> nat \<Rightarrow> (nat \<Rightarrow> u8) \<Rightarrow> (nat \<Rightarrow> u8) res" where
  "inverse_loop c vc [] j q = Inr q"
| "inverse_loop c vc (t # ts) j q =
     res_bind (conv_uni_to_pc c vc (uint t)) (\<lambda>glyph.
       inverse_loop c vc ts (Suc j)
         (if glyph \<ge> 0 \<and> glyph < MAX_GLYPH \<and> q (nat glyph) < 32
          then q(nat glyph := of_nat j) else q))"

definition set_inverse_transl :: "vc_data \<Rightarrow> int \<Rightarrow> nat \<Rightarrow> cmap \<Rightarrow> cmap res" where
  "set_inverse_transl vc p i c =
     (if p = 0 then Inr c
      else res_bind (deref_dir c p) (\<lambda>d.
        let (ok, c1) = (case inverse_translations d i of Some q \<Rightarrow> (True, c) | None \<Rightarrow> kmalloc c) in
        if \<not> ok then Inr c1
        else res_bind (inverse_loop c1 vc (transl_tables c1 ! i) 0 (\<lambda>_. 0)) (\<lambda>q.
          Inr (put_dir p (d\<lparr>inverse_translations := (inverse_translations d)(i \<mapsto> q)\<rparr>) c1))))"

text \<open>\<open>set_translate\<close>: select table \<open>m\<close>; the caller's console is returned with it.\<close>

definition set_translate_map :: "vc_data \<Rightarrow> nat \<Rightarrow> cmap \<Rightarrow> cmap" where
  "set_translate_map vc m c = c\<lparr>inv_translate := (inv_translate c)(vc_num vc := m)\<rparr>"

definition inverse_translate :: "cmap \<Rightarrow> vc_data \<Rightarrow> int \<Rightarrow> u8 res" where
  "inverse_translate c vc glyph =
     (if glyph < 0 \<or> glyph \<ge> MAX_GLYPH then Inr 0
      else let p = locs c (vc_uni_pagedir_loc vc) in
        if p = 0 then Inr (word_of_int glyph)
        else res_bind (deref_dir c p) (\<lambda>d.
          case inverse_translations d (inv_translate c (vc_num vc)) of
            None \<Rightarrow> Inr (word_of_int glyph)
          | Some q \<Rightarrow> Inr (q (nat glyph))))"

text \<open>\<open>update_user_maps\<close>: over the allocated consoles of the display.\<close>

fun update_user_maps :: "vc_data list \<Rightarrow> int \<Rightarrow> cmap \<Rightarrow> cmap res" where
  "update_user_maps [] q c = Inr c"
| "update_user_maps (tmp # rest) q c =
     (let p = locs c (vc_uni_pagedir_loc tmp) in
      if p \<noteq> 0 \<and> p \<noteq> q
      then res_bind (set_inverse_transl tmp p USER_MAP c) (\<lambda>c'. update_user_maps rest p c')
      else update_user_maps rest q c)"

text \<open>The \<open>GIO\<close>/\<open>PIO\<close> table operations; \<open>None\<close> for a user buffer that cannot be accessed.\<close>

definition con_set_trans_old ::
  "vc_data list \<Rightarrow> u8 list option \<Rightarrow> cmap \<Rightarrow> (errno option \<times> cmap) res" where
  "con_set_trans_old cons arg c =
     (case arg of
        None \<Rightarrow> Inr (Some EFAULT, c)
      | Some bs \<Rightarrow>
          res_bind (update_user_maps cons 0
            (c\<lparr>transl_tables := (transl_tables c)[USER_MAP := map (\<lambda>uc. 0xf000 OR ucast uc) (take E_TABSZ bs)]\<rparr>))
            (\<lambda>c'. Inr (None, c')))"

fun conv_bytes :: "cmap \<Rightarrow> vc_data \<Rightarrow> u16 list \<Rightarrow> u8 list res" where
  "conv_bytes c vc [] = Inr []"
| "conv_bytes c vc (t # ts) =
     res_bind (conv_uni_to_pc c vc (uint t)) (\<lambda>ch.
     res_bind (conv_bytes c vc ts) (\<lambda>bs.
       Inr ((if ch AND NOT 0xff \<noteq> 0 then 0 else word_of_int ch) # bs)))"

definition con_get_trans_old :: "cmap \<Rightarrow> vc_data \<Rightarrow> u8 list res" where
  "con_get_trans_old c vc = conv_bytes c vc (transl_tables c ! USER_MAP)"

definition con_set_trans_new ::
  "vc_data list \<Rightarrow> u16 list option \<Rightarrow> cmap \<Rightarrow> (errno option \<times> cmap) res" where
  "con_set_trans_new cons arg c =
     (case arg of
        None \<Rightarrow> Inr (Some EFAULT, c)
      | Some us \<Rightarrow>
          res_bind (update_user_maps cons 0
            (c\<lparr>transl_tables := (transl_tables c)[USER_MAP := take E_TABSZ us]\<rparr>))
            (\<lambda>c'. Inr (None, c')))"

definition con_get_trans_new :: "cmap \<Rightarrow> u16 list" where
  "con_get_trans_new c = transl_tables c ! USER_MAP"

text \<open>Releasing, freeing and unifying maps.\<close>

definition con_release_unimap :: "int \<Rightarrow> cmap \<Rightarrow> cmap res" where
  "con_release_unimap p c =
     res_bind (deref_dir c p) (\<lambda>d.
       Inr ((put_dir p (d\<lparr>uni_pgdir := Map.empty, inverse_translations := Map.empty\<rparr>) c)
              \<lparr>dflt := (if p = dflt c then 0 else dflt c)\<rparr>))"

definition kfree_dir :: "int \<Rightarrow> cmap \<Rightarrow> cmap" where
  "kfree_dir p c = c\<lparr>udirs := (udirs c)(p := None)\<rparr>"

definition set_loc :: "vc_data \<Rightarrow> int \<Rightarrow> cmap \<Rightarrow> cmap" where
  "set_loc vc p c = c\<lparr>locs := (locs c)(vc_uni_pagedir_loc vc := p)\<rparr>"

definition con_free_unimap :: "vc_data \<Rightarrow> cmap \<Rightarrow> cmap res" where
  "con_free_unimap vc c =
     (let p = locs c (vc_uni_pagedir_loc vc) in
      if p = 0 then Inr c
      else res_bind (deref_dir c p) (\<lambda>d.
        let c1 = put_dir p (d\<lparr>refcount := refcount d - 1\<rparr>) (set_loc vc 0 c) in
        if refcount d - 1 \<noteq> 0 then Inr c1
        else res_bind (con_release_unimap p c1) (\<lambda>c2. Inr (kfree_dir p c2))))"

definition same_page :: "uni_page option \<Rightarrow> uni_page option \<Rightarrow> bool" where
  "same_page p q =
     (case p of
        None \<Rightarrow> q = None
      | Some f \<Rightarrow> (case q of None \<Rightarrow> False | Some g \<Rightarrow> list_all (\<lambda>k. f k = g k) [0..<64]))"

definition same_row :: "(nat \<rightharpoonup> uni_page) option \<Rightarrow> (nat \<rightharpoonup> uni_page) option \<Rightarrow> bool" where
  "same_row p1 q1 =
     (case p1 of
        None \<Rightarrow> q1 = None
      | Some f \<Rightarrow> (case q1 of None \<Rightarrow> False | Some g \<Rightarrow> list_all (\<lambda>k. same_page (f k) (g k)) [0..<32]))"

definition same_dir :: "uni_pagedir \<Rightarrow> uni_pagedir \<Rightarrow> bool" where
  "same_dir d e = list_all (\<lambda>j. same_row (uni_pgdir d j) (uni_pgdir e j)) [0..<32]"

fun con_unify_unimap :: "vc_data \<Rightarrow> int \<Rightarrow> vc_data list \<Rightarrow> cmap \<Rightarrow> (bool \<times> cmap) res" where
  "con_unify_unimap vc p [] c = Inr (False, c)"
| "con_unify_unimap vc p (tmp # rest) c =
     (let q = locs c (vc_uni_pagedir_loc tmp) in
      if q = 0 \<or> q = p then con_unify_unimap vc p rest c
      else res_bind (deref_dir c q) (\<lambda>dq. res_bind (deref_dir c p) (\<lambda>dp.
        if usum dq \<noteq> usum dp \<or> \<not> same_dir dp dq then con_unify_unimap vc p rest c
        else res_bind (con_release_unimap p
                 (set_loc vc q (put_dir q (dq\<lparr>refcount := refcount dq + 1\<rparr>) c)))
               (\<lambda>c'. Inr (True, kfree_dir p c')))))"

text \<open>\<open>con_insert_unipair\<close>: the third level is created filled with 0xffff.\<close>

definition con_insert_unipair :: "int \<Rightarrow> nat \<Rightarrow> u16 \<Rightarrow> cmap \<Rightarrow> (errno option \<times> cmap) res" where
  "con_insert_unipair p unicode fontpos c =
     res_bind (deref_dir c p) (\<lambda>d.
       let n1 = drop_bit 11 unicode; n2 = drop_bit 6 unicode AND 0x1f in
       let (ok1, c1) = (case uni_pgdir d n1 of Some _ \<Rightarrow> (True, c) | None \<Rightarrow> kmalloc c) in
       if \<not> ok1 then Inr (Some ENOMEM, c1)
       else let p1 = (case uni_pgdir d n1 of Some r \<Rightarrow> r | None \<Rightarrow> Map.empty);
                (ok2, c2) = (case p1 n2 of Some _ \<Rightarrow> (True, c1) | None \<Rightarrow> kmalloc c1) in
       if \<not> ok2 then Inr (Some ENOMEM, put_dir p (d\<lparr>uni_pgdir := (uni_pgdir d)(n1 \<mapsto> p1)\<rparr>) c2)
       else let p2 = (case p1 n2 of Some pg \<Rightarrow> pg | None \<Rightarrow> (\<lambda>_. 0xffff)) in
         Inr (None, put_dir p (d\<lparr>
           uni_pgdir := (uni_pgdir d)(n1 \<mapsto> p1(n2 \<mapsto> p2(unicode AND 0x3f := fontpos))),
           usum := (usum d + s32 (push_bit 20 (uint fontpos) + int unicode)) mod 2 ^ 64\<rparr>) c2))"

definition con_clear_unimap :: "vc_data \<Rightarrow> cmap \<Rightarrow> (errno option \<times> cmap) res" where
  "con_clear_unimap vc c =
     (let p = locs c (vc_uni_pagedir_loc vc);
          fresh = (\<lambda>c1 undo.
            let (ok, c2) = kmalloc c1 in
            if \<not> ok then Inr (Some ENOMEM, undo c2)
            else let q = next_dir c2 in
              Inr (None, set_loc vc q (put_dir q
                \<lparr>uni_pgdir = Map.empty, refcount = 1, usum = 0,
                 inverse_translations = Map.empty, readonly = False\<rparr> (c2\<lparr>next_dir := q + 1\<rparr>))))
      in if p = 0 then fresh c (\<lambda>c2. c2)
      else res_bind (deref_dir c p) (\<lambda>d.
        if readonly d then Inr (Some EIO, c)
        else if refcount d - 1 \<noteq> 0
        then fresh (put_dir p (d\<lparr>refcount := refcount d - 1\<rparr>) c) (put_dir p d)
        else res_bind (con_release_unimap p (put_dir p (d\<lparr>usum := 0\<rparr>) c))
          (\<lambda>c1. Inr (None, c1))))"

text \<open>
  \<open>con_set_unimap\<close>. When the map is shared, the old entries are first copied to a fresh
  map; the code point counter \<open>l\<close> of that loop advances only over pages that exist
  (\<open>unimap_entries\<close>).
\<close>

definition unimap_pages :: "uni_pagedir \<Rightarrow> uni_page list" where
  "unimap_pages d =
     concat (map (\<lambda>i. case uni_pgdir d i of
                        None \<Rightarrow> []
                      | Some p1 \<Rightarrow> concat (map (\<lambda>j. case p1 j of None \<Rightarrow> [] | Some p2 \<Rightarrow> [p2]) [0..<32]))
        [0..<32])"

definition unimap_entries :: "uni_pagedir \<Rightarrow> (nat \<times> u16) list" where
  "unimap_entries d =
     filter (\<lambda>(l, g). g \<noteq> 0xffff)
       (enumerate 0 (concat (map (\<lambda>p2. map p2 [0..<64]) (unimap_pages d))))"

fun insert_until_error :: "int \<Rightarrow> (nat \<times> u16) list \<Rightarrow> cmap \<Rightarrow> (errno option \<times> cmap) res" where
  "insert_until_error q [] c = Inr (None, c)"
| "insert_until_error q ((l, g) # rest) c =
     res_bind (con_insert_unipair q l g c) (\<lambda>(e, c').
       if e \<noteq> None then Inr (e, c') else insert_until_error q rest c')"

fun insert_all :: "int \<Rightarrow> (nat \<times> u16) list \<Rightarrow> errno option \<Rightarrow> cmap \<Rightarrow> (errno option \<times> cmap) res" where
  "insert_all p [] err c = Inr (err, c)"
| "insert_all p ((u, g) # rest) err c =
     res_bind (con_insert_unipair p u g c) (\<lambda>(e, c').
       insert_all p rest (if e \<noteq> None then e else err) c')"

definition update_inverse_maps :: "vc_data \<Rightarrow> int \<Rightarrow> cmap \<Rightarrow> cmap res" where
  "update_inverse_maps vc p c =
     res_bind (set_inverse_transl vc p 0 c) (\<lambda>c0.
     res_bind (set_inverse_transl vc p 1 c0) (\<lambda>c1.
     res_bind (set_inverse_transl vc p 2 c1) (\<lambda>c2. set_inverse_transl vc p 3 c2)))"

definition con_set_unimap ::
  "vc_data \<Rightarrow> vc_data list \<Rightarrow> (nat \<times> u16) list \<Rightarrow> cmap \<Rightarrow> (errno option \<times> cmap) res" where
  "con_set_unimap vc cons list c =
     (let p = locs c (vc_uni_pagedir_loc vc);
          finish = (\<lambda>p c1.
            res_bind (insert_all p list None c1) (\<lambda>(err, c2).
            res_bind (con_unify_unimap vc p cons c2) (\<lambda>(unified, c3).
              if unified then Inr (err, c3)
              else res_bind (update_inverse_maps vc p c3) (\<lambda>c4. Inr (err, c4)))))
      in res_bind (deref_dir c p) (\<lambda>d.
        if readonly d then Inr (Some EIO, c)
        else if list = [] then Inr (None, c)
        else if refcount d > 1
        then res_bind (con_clear_unimap vc c) (\<lambda>(e, c1).
          if e \<noteq> None then Inr (e, c1)
          else let q = locs c1 (vc_uni_pagedir_loc vc) in
            res_bind (insert_until_error q (unimap_entries d) c1) (\<lambda>(e1, c2).
              if e1 \<noteq> None
              then res_bind (deref_dir c2 p) (\<lambda>d2.
                res_bind (con_release_unimap q
                  (set_loc vc p (put_dir p (d2\<lparr>refcount := refcount d2 + 1\<rparr>) c2)))
                  (\<lambda>c3. Inr (e1, kfree_dir q c3)))
              else finish q c2))
        else finish p (c\<lparr>dflt := (if p = dflt c then 0 else dflt c)\<rparr>)))"

text \<open>
  \<open>con_set_default_unimap\<close>. \<open>dfont_unicount\<close> and \<open>dfont_unitable\<close> come from a generated
  file and are parameters.
\<close>

fun dfont_pairs :: "nat \<Rightarrow> nat list \<Rightarrow> nat list \<Rightarrow> (nat \<times> u16) list" where
  "dfont_pairs i [] us = []"
| "dfont_pairs i (n # ns) us =
     map (\<lambda>u. (u, of_nat i)) (take n us) @ dfont_pairs (Suc i) ns (drop n us)"

definition con_set_default_unimap ::
  "nat list \<Rightarrow> nat list \<Rightarrow> vc_data \<Rightarrow> vc_data list \<Rightarrow> cmap \<Rightarrow> (errno option \<times> cmap) res" where
  "con_set_default_unimap unicount unitable vc cons c =
     (if dflt c \<noteq> 0
      then let p = locs c (vc_uni_pagedir_loc vc) in
        if p = dflt c then Inr (None, c)
        else res_bind (deref_dir c (dflt c)) (\<lambda>dd.
          let c1 = set_loc vc (dflt c) (put_dir (dflt c) (dd\<lparr>refcount := refcount dd + 1\<rparr>) c) in
          if p = 0 then Inr (None, c1)
          else res_bind (deref_dir c1 p) (\<lambda>d.
            let c2 = put_dir p (d\<lparr>refcount := refcount d - 1\<rparr>) c1 in
            if refcount d - 1 \<noteq> 0
            then res_bind (con_release_unimap p c2) (\<lambda>c3. Inr (None, kfree_dir p c3))
            else Inr (None, c2)))
      else res_bind (con_clear_unimap vc c) (\<lambda>(e, c1).
        if e \<noteq> None then Inr (e, c1)
        else let p = locs c1 (vc_uni_pagedir_loc vc) in
          res_bind (insert_all p (dfont_pairs 0 (take 256 unicount) unitable) None c1) (\<lambda>(err, c2).
          res_bind (con_unify_unimap vc p cons c2) (\<lambda>(unified, c3).
            if unified then Inr (err, c3\<lparr>dflt := locs c3 (vc_uni_pagedir_loc vc)\<rparr>)
            else res_bind (update_inverse_maps vc p c3) (\<lambda>c4. Inr (err, c4\<lparr>dflt := p\<rparr>))))))"

definition con_copy_unimap :: "vc_data \<Rightarrow> vc_data option \<Rightarrow> cmap \<Rightarrow> (errno option \<times> cmap) res" where
  "con_copy_unimap dst src c =
     (case src of
        None \<Rightarrow> Inr (Some EINVAL, c)
      | Some s \<Rightarrow>
          if locs c (vc_uni_pagedir_loc s) = 0 then Inr (Some EINVAL, c)
          else if locs c (vc_uni_pagedir_loc dst) = locs c (vc_uni_pagedir_loc s) then Inr (None, c)
          else res_bind (con_free_unimap dst c) (\<lambda>c1.
            let q = locs c1 (vc_uni_pagedir_loc s) in
            res_bind (deref_dir c1 q) (\<lambda>d.
              Inr (None, set_loc dst q (put_dir q (d\<lparr>refcount := refcount d + 1\<rparr>) c1)))))"

text \<open>\<open>con_get_unimap\<close>: the pairs stored (at most \<open>ct\<close>), the number found, the result.\<close>

definition unimap_pairs :: "uni_pagedir \<Rightarrow> (nat \<times> u16) list" where
  "unimap_pairs d =
     concat (map (\<lambda>i. case uni_pgdir d i of
         None \<Rightarrow> []
       | Some p1 \<Rightarrow> concat (map (\<lambda>j. case p1 j of
             None \<Rightarrow> []
           | Some p2 \<Rightarrow> concat (map (\<lambda>k. if p2 k < 512
                                     then [(push_bit 11 i + push_bit 6 j + k, p2 k)] else []) [0..<64]))
           [0..<32]))
       [0..<32])"

definition con_get_unimap ::
  "vc_data \<Rightarrow> nat \<Rightarrow> cmap \<Rightarrow> ((nat \<times> u16) list \<times> nat \<times> errno option) res" where
  "con_get_unimap vc ct c =
     (let p = locs c (vc_uni_pagedir_loc vc) in
      res_bind (if p = 0 then Inr [] else res_bind (deref_dir c p) (\<lambda>d. Inr (unimap_pairs d))) (\<lambda>ps.
        Inr (take ct ps, length ps, if length ps \<le> ct then None else Some ENOMEM)))"

definition con_protect_unimap :: "vc_data \<Rightarrow> bool \<Rightarrow> cmap \<Rightarrow> cmap res" where
  "con_protect_unimap vc rdonly c =
     (let p = locs c (vc_uni_pagedir_loc vc) in
      if p = 0 then Inr c
      else res_bind (deref_dir c p) (\<lambda>d. Inr (put_dir p (d\<lparr>readonly := rdonly\<rparr>) c)))"

end
