(* ===== verification/Console.thy ===== *)
theory Console
  imports Consolemap
begin

text \<open>
  The state the console code works on, the display driver interface (\<open>struct consw\<close>), and
  the console operations of drivers/char/vt.c: cursor, palette, scrolling, attributes,
  character and line insertion, screen update, inversion, selection highlight and
  blanking.

  \<open>'d con\<close> is the kernel state seen from one console: \<open>vc\<close> is the console at hand
  (the C functions' \<open>vc\<close> argument), \<open>pool\<close> holds the other allocated consoles,
  \<open>vts\<close> the displays, \<open>mem\<close> the screen memory, \<open>drv\<close> the driver's own state. Calls
  into other subsystems that return nothing the console reads (flip buffers, work queues,
  the beeper) are recorded in \<open>trace\<close>. All displays use the one driver \<open>sw\<close>.
\<close>

section \<open>State\<close>

datatype kevent =
    Flip_char int int \<comment> \<open>\<open>tty_insert_flip_char\<close> on a tty\<close>
  | Flip_break int
  | Flip_work int \<comment> \<open>\<open>schedule_work(&tty->flip.work)\<close>\<close>
  | Vt_work int \<comment> \<open>\<open>schedule_work(&vt->vt_work)\<close>\<close>
  | Set_leds \<comment> \<open>\<open>tasklet_schedule(&keyboard_tasklet)\<close>\<close>
  | Mksound int int \<comment> \<open>\<open>kd_mksound\<close>: pitch, duration\<close>
  | Blank_hook int
  | Led int bool \<comment> \<open>\<open>input_event(dev, EV_LED, led, on)\<close>\<close>
  | Input_sync
  | Show_regs
  | Show_mem
  | Show_state
  | Ctrl_alt_del
  | Do_SAK int
  | Kill_proc int int \<comment> \<open>process, signal\<close>
  | Kill_pg int int
  | Handle_sysrq u8
  | Tty_wakeup int
  | Ldisc_flush int
  | Wake_activate \<comment> \<open>\<open>wake_up(&vt_activate_queue)\<close>\<close>
  | Set_winsize int int int int \<comment> \<open>of a tty: rows, columns, scan lines\<close>

record 'd con =
  vc :: vc_data
  pool :: "int \<rightharpoonup> vc_data"
  vts :: "int \<Rightarrow> vt_struct"
  vt_list :: "int list"
  mem :: memory
  drv :: 'd
  cm :: cmap
  sel_cons :: "int option"
  sel_start :: int
  sel_end :: int
  cp_p :: "int option" \<comment> \<open>the static variables of \<open>complement_pos\<close>\<close>
  cp_old :: u16
  cp_oldx :: int
  cp_oldy :: int
  ignore_poke :: bool
  console_blank_hook :: "(int \<Rightarrow> bool) option"
  jiffies :: int
  HZ :: int
  trace :: "kevent list"

definition upd_vc :: "(vc_data \<Rightarrow> vc_data) \<Rightarrow> 'd con \<Rightarrow> 'd con" where
  "upd_vc f c = c\<lparr>vc := f (vc c)\<rparr>"

definition upd_mem :: "(memory \<Rightarrow> memory) \<Rightarrow> 'd con \<Rightarrow> 'd con" where
  "upd_mem f c = c\<lparr>mem := f (mem c)\<rparr>"

definition vt :: "'d con \<Rightarrow> vt_struct" where
  "vt c = vts c (display_fg (vc c))"

definition upd_vt :: "int \<Rightarrow> (vt_struct \<Rightarrow> vt_struct) \<Rightarrow> 'd con \<Rightarrow> 'd con" where
  "upd_vt d f c = c\<lparr>vts := (vts c)(d := f (vts c d))\<rparr>"

definition log :: "kevent \<Rightarrow> 'd con \<Rightarrow> 'd con" where
  "log e c = c\<lparr>trace := trace c @ [e]\<rparr>"

text \<open>\<open>IS_VISIBLE\<close>; \<open>DO_UPDATE\<close> is the same, \<open>VT_BUF_VRAM_ONLY\<close> not being defined.\<close>

definition is_visible :: "'d con \<Rightarrow> bool" where
  "is_visible c = (fg_console (vt c) = Some (vc_num (vc c)))"

text \<open>Run an operation on another console: the C code passes that console's pointer.\<close>

definition in_console :: "int option \<Rightarrow> ('d con \<Rightarrow> 'd con res) \<Rightarrow> 'd con \<Rightarrow> 'd con res" where
  "in_console p f c =
     (case p of
        None \<Rightarrow> Inl Null_deref
      | Some n \<Rightarrow>
          let me = vc_num (vc c) in
          if n = me then f c
          else (case pool c n of
              None \<Rightarrow> Inl Dangling
            | Some v \<Rightarrow>
                res_bind (f (c\<lparr>vc := v, pool := (pool c)(me \<mapsto> vc c)\<rparr>)) (\<lambda>c'.
                  case pool c' me of
                    None \<Rightarrow> Inl Dangling
                  | Some v0 \<Rightarrow> Inr (c'\<lparr>vc := v0, pool := (pool c')(n \<mapsto> vc c')\<rparr>))))"

section \<open>The display driver interface\<close>

datatype scroll_dir = SM_UP | SM_DOWN

datatype cursor_op = CM_DRAW | CM_ERASE | CM_CHANGE | CM_MOVE

text \<open>Members the code tests against NULL before calling are options.\<close>

record 'd consw =
  con_clear :: "(int \<Rightarrow> int \<Rightarrow> int \<Rightarrow> int \<Rightarrow> 'd con \<Rightarrow> 'd con) option"
  con_putc :: "u16 \<Rightarrow> int \<Rightarrow> int \<Rightarrow> 'd con \<Rightarrow> 'd con"
  con_putcs :: "int \<Rightarrow> int \<Rightarrow> int \<Rightarrow> int \<Rightarrow> 'd con \<Rightarrow> 'd con"
  con_cursor :: "cursor_op \<Rightarrow> 'd con \<Rightarrow> 'd con"
  con_scroll_region :: "int \<Rightarrow> int \<Rightarrow> scroll_dir \<Rightarrow> int \<Rightarrow> 'd con \<Rightarrow> bool \<times> 'd con"
  con_bmove :: "int \<Rightarrow> int \<Rightarrow> int \<Rightarrow> int \<Rightarrow> int \<Rightarrow> int \<Rightarrow> 'd con \<Rightarrow> 'd con"
  con_switch :: "'d con \<Rightarrow> bool \<times> 'd con"
  con_blank :: "int \<Rightarrow> bool \<Rightarrow> 'd con \<Rightarrow> bool \<times> 'd con"
  con_set_palette :: "('d con \<Rightarrow> 'd con) option"
  con_scroll :: "int \<Rightarrow> 'd con \<Rightarrow> 'd con"
  con_set_origin :: "('d con \<Rightarrow> bool \<times> 'd con) option"
  con_save_screen :: "('d con \<Rightarrow> 'd con) option"
  con_build_attr :: "(vc_data \<Rightarrow> u8 \<Rightarrow> int \<Rightarrow> bool \<Rightarrow> bool \<Rightarrow> bool \<Rightarrow> u8) option"
  con_invert_region :: "(int \<Rightarrow> int \<Rightarrow> 'd con \<Rightarrow> 'd con) option"
  con_screen_pos :: "(vc_data \<Rightarrow> int \<Rightarrow> int) option"
  con_getxy :: "(vc_data \<Rightarrow> int \<Rightarrow> int \<times> int \<times> int) option"
  con_resize :: "(int \<Rightarrow> int \<Rightarrow> 'd con \<Rightarrow> errno option \<times> 'd con) option"

section \<open>Loops over cells\<close>

text \<open>Apply \<open>f\<close> to \<open>n\<close> cells from \<open>p\<close> on.\<close>

fun map_cells :: "(u16 \<Rightarrow> u16) \<Rightarrow> nat \<Rightarrow> int \<Rightarrow> memory \<Rightarrow> memory" where
  "map_cells f 0 p m = m"
| "map_cells f (Suc n) p m = map_cells f n (p + 2) (scr_writew (f (m p)) p m)"

text \<open>\<open>while (--p >= q) scr_writew(scr_readw(p), p + nr)\<close>, \<open>k\<close> cells from the top down.\<close>

fun shift_right :: "int \<Rightarrow> int \<Rightarrow> nat \<Rightarrow> memory \<Rightarrow> memory" where
  "shift_right q nr 0 m = m"
| "shift_right q nr (Suc k) m =
     shift_right q nr k (scr_writew (m (q + 2 * int k)) (q + 2 * int k + 2 * nr) m)"

text \<open>\<open>while (++i <= cols - nr) { scr_writew(scr_readw(p+nr), p); p++; }\<close>.\<close>

fun shift_left :: "int \<Rightarrow> int \<Rightarrow> nat \<Rightarrow> memory \<Rightarrow> memory" where
  "shift_left p nr 0 m = m"
| "shift_left p nr (Suc k) m = shift_left (p + 2) nr k (scr_writew (m (p + 2 * nr)) p m)"

section \<open>Cursor position and palette\<close>

definition gotoxy :: "int \<Rightarrow> int \<Rightarrow> vc_data \<Rightarrow> vc_data" where
  "gotoxy new_x new_y v =
     (let x = (if new_x < 0 then 0
               else if new_x \<ge> vc_cols v then vc_cols v - 1
               else new_x);
          min_y = (if vc_decom v then vc_top v else 0);
          max_y = (if vc_decom v then vc_bottom v else vc_rows v);
          y = (if new_y < min_y then min_y
               else if new_y \<ge> max_y then max_y - 1
               else new_y)
      in v\<lparr>vc_x := x, vc_y := y,
           vc_pos := vc_origin v + y * vc_size_row v + 2 * x,
           vc_need_wrap := False\<rparr>)"

definition gotoxay :: "int \<Rightarrow> int \<Rightarrow> vc_data \<Rightarrow> vc_data" where
  "gotoxay new_x new_y v = gotoxy new_x (if vc_decom v then s32 (vc_top v + new_y) else new_y) v"

definition color_table :: "u8 list" where
  "color_table = [0, 4, 2, 6, 1, 5, 3, 7, 8, 12, 10, 14, 9, 13, 11, 15]"

definition default_red :: "u8 list" where
  "default_red = [0x00, 0xaa, 0x00, 0xaa, 0x00, 0xaa, 0x00, 0xaa,
                  0x55, 0xff, 0x55, 0xff, 0x55, 0xff, 0x55, 0xff]"

definition default_grn :: "u8 list" where
  "default_grn = [0x00, 0x00, 0xaa, 0x55, 0x00, 0x00, 0xaa, 0xaa,
                  0x55, 0x55, 0xff, 0xff, 0x55, 0x55, 0xff, 0xff]"

definition default_blu :: "u8 list" where
  "default_blu = [0x00, 0x00, 0x00, 0x00, 0xaa, 0xaa, 0xaa, 0xaa,
                  0x55, 0x55, 0x55, 0x55, 0xff, 0xff, 0xff, 0xff]"

definition set_palette :: "'d consw \<Rightarrow> 'd con \<Rightarrow> 'd con" where
  "set_palette sw c =
     (case con_set_palette sw of
        None \<Rightarrow> c
      | Some f \<Rightarrow> if is_visible c \<and> vc_mode (vc c) \<noteq> KD_GRAPHICS then f c else c)"

definition reset_palette :: "'d consw \<Rightarrow> 'd con \<Rightarrow> 'd con" where
  "reset_palette sw c =
     set_palette sw (upd_vc (\<lambda>v. v\<lparr>vc_palette :=
       concat (map (\<lambda>j. [default_red ! j, default_grn ! j, default_blu ! j]) [0..<16])\<rparr>) c)"

section \<open>Scrolling\<close>

definition scrolldelta :: "int \<Rightarrow> int \<Rightarrow> 'd con \<Rightarrow> 'd con" where
  "scrolldelta d lines c =
     log (Vt_work d) (upd_vt d (\<lambda>t. t\<lparr>scrollback_delta := scrollback_delta t + lines\<rparr>) c)"

definition scroll_up :: "int \<Rightarrow> 'd con \<Rightarrow> 'd con" where
  "scroll_up lines c =
     scrolldelta (display_fg (vc c)) (- (if lines = 0 then vc_rows (vc c) div 2 else lines)) c"

definition scroll_down :: "int \<Rightarrow> 'd con \<Rightarrow> 'd con" where
  "scroll_down lines c =
     scrolldelta (display_fg (vc c)) (if lines = 0 then vc_rows (vc c) div 2 else lines) c"

definition scroll_region_up :: "'d consw \<Rightarrow> int \<Rightarrow> int \<Rightarrow> int \<Rightarrow> 'd con \<Rightarrow> 'd con" where
  "scroll_region_up sw t b nr0 c =
     (let nr = (if t + nr0 \<ge> b then b - t - 1 else nr0) in
      if b > vc_rows (vc c) \<or> t \<ge> b \<or> nr < 1 then c
      else
        let (done, c1) = (if is_visible c then con_scroll_region sw t b SM_UP nr c else (False, c)) in
        if done then c1
        else
          let v = vc c1;
              d = vc_origin v + vc_size_row v * t;
              s = vc_origin v + vc_size_row v * (t + nr)
          in upd_mem (\<lambda>m. scr_memsetw (d + 2 * ((b - t - nr) * vc_cols v)) (vc_video_erase_char v)
                              (vc_size_row v * nr)
                           (scr_memmovew d s ((b - t - nr) * vc_size_row v) m)) c1)"

definition scroll_region_down :: "'d consw \<Rightarrow> int \<Rightarrow> int \<Rightarrow> int \<Rightarrow> 'd con \<Rightarrow> 'd con" where
  "scroll_region_down sw t b nr0 c =
     (let nr = (if t + nr0 \<ge> b then b - t - 1 else nr0) in
      if b > vc_rows (vc c) \<or> t \<ge> b \<or> nr < 1 then c
      else
        let (done, c1) = (if is_visible c then con_scroll_region sw t b SM_DOWN nr c else (False, c)) in
        if done then c1
        else
          let v = vc c1;
              s = vc_origin v + vc_size_row v * t;
              step = vc_cols v * nr
          in upd_mem (\<lambda>m. scr_memsetw s (vc_video_erase_char v) (2 * step)
                           (scr_memmovew (s + 2 * step) s ((b - t - nr) * vc_size_row v) m)) c1)"

section \<open>Attributes\<close>

definition default_attr :: "vc_data \<Rightarrow> vc_data" where
  "default_attr v =
     v\<lparr>vc_intensity := 1, vc_underline := False, vc_reverse := False, vc_blink := False,
       vc_color := (if vc_can_do_color v then vc_def_color v else vc_color v)\<rparr>"

definition swap_attr :: "u8 \<Rightarrow> u8" where
  "swap_attr a = (a AND 0x88) OR ((drop_bit 4 a OR push_bit 4 a) AND 0x77)"

definition build_attr ::
  "'d consw \<Rightarrow> vc_data \<Rightarrow> u8 \<Rightarrow> int \<Rightarrow> bool \<Rightarrow> bool \<Rightarrow> bool \<Rightarrow> u8" where
  "build_attr sw v color intensity blink underline reverse =
     (case con_build_attr sw of
        Some f \<Rightarrow> f v color intensity blink underline reverse
      | None \<Rightarrow>
          if \<not> vc_can_do_color v
          then word_of_int intensity OR (if underline then 4 else 0) OR (if reverse then 8 else 0)
               OR (if blink then 0x80 else 0)
          else
            let a0 = vc_color v;
                a1 = (if underline then (a0 AND 0xf0) OR vc_ulcolor v
                      else if intensity = 0 then (a0 AND 0xf0) OR vc_halfcolor v
                      else a0);
                a2 = (if reverse then swap_attr a1 else a1);
                a3 = (if blink then a2 XOR 0x80 else a2);
                a4 = (if intensity = 2 then a3 XOR 0x08 else a3)
            in if vc_hi_font_mask v = 0x100 then push_bit 1 a4 else a4)"

definition update_attr :: "'d consw \<Rightarrow> vc_data \<Rightarrow> vc_data" where
  "update_attr sw v =
     v\<lparr>vc_attr := build_attr sw v (vc_color v) (vc_intensity v) (vc_blink v) (vc_underline v)
                    (vc_reverse v \<noteq> vc_decscnm v),
       vc_video_erase_char :=
         push_bit 8 (ucast (build_attr sw v (vc_color v) (vc_intensity v) False False (vc_decscnm v)))
         OR 0x20\<rparr>"

definition clear_buffer_attributes :: "'d con \<Rightarrow> 'd con" where
  "clear_buffer_attributes c =
     (let v = vc c; mask = vc_hi_font_mask v OR 0xff in
      upd_mem (map_cells (\<lambda>w. (w AND mask) OR (vc_video_erase_char v AND NOT mask))
                 (nat (vc_screenbuf_size v div 2)) (vc_origin v)) c)"

section \<open>Characters and lines\<close>

text \<open>\<open>while (nr--) sw->con_putc(vc, erase, vc_y, col + nr)\<close>.\<close>

fun putc_blanks :: "'d consw \<Rightarrow> nat \<Rightarrow> (int \<Rightarrow> int) \<Rightarrow> 'd con \<Rightarrow> 'd con" where
  "putc_blanks sw 0 col c = c"
| "putc_blanks sw (Suc k) col c =
     putc_blanks sw k col (con_putc sw (vc_video_erase_char (vc c)) (vc_y (vc c)) (col (int k)) c)"

definition redraw_shift ::
  "'d consw \<Rightarrow> int \<Rightarrow> int \<Rightarrow> int \<Rightarrow> (int \<Rightarrow> int) \<Rightarrow> 'd con \<Rightarrow> 'd con" where
  "redraw_shift sw from_x to_x nr col c =
     (if \<not> is_visible c then c
      else
        let oldattr = vc_attr (vc c);
            c1 = con_bmove sw (vc_y (vc c)) from_x (vc_y (vc c)) to_x 1
                   (vc_cols (vc c) - vc_x (vc c) - nr) c;
            c2 = upd_vc (\<lambda>v. v\<lparr>vc_attr := ucast (drop_bit 8 (vc_video_erase_char v))\<rparr>) c1;
            c3 = putc_blanks sw (nat nr) col c2
        in upd_vc (\<lambda>v. v\<lparr>vc_attr := oldattr\<rparr>) c3)"

definition insert_char :: "'d consw \<Rightarrow> int \<Rightarrow> 'd con \<Rightarrow> 'd con" where
  "insert_char sw nr c =
     (let v = vc c; q = vc_pos v;
          c1 = upd_mem (\<lambda>m. scr_memsetw q (vc_video_erase_char v) (nr * 2)
                 (shift_right q nr (nat (vc_cols v - nr - vc_x v)) m)) c;
          c2 = upd_vc (\<lambda>v. v\<lparr>vc_need_wrap := False\<rparr>) c1
      in redraw_shift sw (vc_x v) (vc_x v + nr) nr (\<lambda>k. vc_x v + k) c2)"

definition delete_char :: "'d consw \<Rightarrow> int \<Rightarrow> 'd con \<Rightarrow> 'd con" where
  "delete_char sw nr c =
     (let v = vc c; p = vc_pos v; k = nat (vc_cols v - nr - vc_x v);
          c1 = upd_mem (\<lambda>m. scr_memsetw (p + 2 * int k) (vc_video_erase_char v) (nr * 2)
                 (shift_left p nr k m)) c;
          c2 = upd_vc (\<lambda>v. v\<lparr>vc_need_wrap := False\<rparr>) c1
      in redraw_shift sw (vc_x v + nr) (vc_x v) nr (\<lambda>k. vc_cols v - 1 - k) c2)"

definition insert_line :: "'d consw \<Rightarrow> int \<Rightarrow> 'd con \<Rightarrow> 'd con" where
  "insert_line sw nr c =
     upd_vc (\<lambda>v. v\<lparr>vc_need_wrap := False\<rparr>)
       (scroll_region_down sw (vc_y (vc c)) (vc_bottom (vc c)) nr c)"

definition delete_line :: "'d consw \<Rightarrow> int \<Rightarrow> 'd con \<Rightarrow> 'd con" where
  "delete_line sw nr c =
     upd_vc (\<lambda>v. v\<lparr>vc_need_wrap := False\<rparr>)
       (scroll_region_up sw (vc_y (vc c)) (vc_bottom (vc c)) nr c)"

section \<open>What is displayed\<close>

definition set_origin :: "'d consw \<Rightarrow> 'd con \<Rightarrow> 'd con" where
  "set_origin sw c =
     (let (done, c1) = (case con_set_origin sw of
            None \<Rightarrow> (False, c)
          | Some f \<Rightarrow> if is_visible c then f c else (False, c))
      in upd_vc (\<lambda>v. let o' = (if done then vc_origin v else vc_screenbuf v) in
           v\<lparr>vc_origin := o', vc_visible_origin := o',
             vc_scr_end := o' + vc_screenbuf_size v,
             vc_pos := o' + vc_size_row v * vc_y v + 2 * vc_x v\<rparr>) c1)"

definition clear_region :: "'d consw \<Rightarrow> int \<Rightarrow> int \<Rightarrow> int \<Rightarrow> int \<Rightarrow> 'd con \<Rightarrow> 'd con" where
  "clear_region sw sx sy width height c =
     (case con_clear sw of
        None \<Rightarrow> c
      | Some f \<Rightarrow> if is_visible c then f sy sx height width c else c)"

definition save_screen :: "'d consw \<Rightarrow> 'd con \<Rightarrow> 'd con" where
  "save_screen sw c = (case con_save_screen sw of None \<Rightarrow> c | Some f \<Rightarrow> f c)"

text \<open>
  \<open>do_update_region\<close> draws \<open>count\<close> cells from address \<open>start\<close> in runs of equal attribute,
  row by row. \<open>upd_row\<close> is the inner loop; its result is the cells left, the address
  reached and the state. \<open>upd_rows\<close> is the outer loop with fuel; every row but the first
  draws at least one cell, so \<open>count + 2\<close> rows are enough.
\<close>

definition flush_run :: "'d consw \<Rightarrow> int \<Rightarrow> int \<Rightarrow> int \<Rightarrow> int \<Rightarrow> 'd con \<Rightarrow> 'd con" where
  "flush_run sw q p yy startx c =
     (if p > q then con_putcs sw q ((p - q) div 2) yy startx c else c)"

fun upd_row ::
  "'d consw \<Rightarrow> nat \<Rightarrow> int \<Rightarrow> int \<Rightarrow> int \<Rightarrow> int \<Rightarrow> u16 \<Rightarrow> int \<Rightarrow> 'd con \<Rightarrow> nat \<times> int \<times> 'd con" where
  "upd_row sw 0 p q xx startx attrib yy c = (0, p, flush_run sw q p yy startx c)"
| "upd_row sw (Suc n) p q xx startx attrib yy c =
     (if xx < vc_cols (vc c)
      then if attrib \<noteq> mem c p AND 0xff00
        then let c1 = flush_run sw q p yy startx c in
             upd_row sw n (p + 2) p (xx + 1) xx (mem c1 p AND 0xff00) yy c1
        else upd_row sw n (p + 2) q (xx + 1) startx attrib yy c
      else (Suc n, p, flush_run sw q p yy startx c))"

fun upd_rows :: "'d consw \<Rightarrow> nat \<Rightarrow> nat \<Rightarrow> int \<Rightarrow> int \<Rightarrow> int \<Rightarrow> int \<Rightarrow> 'd con \<Rightarrow> 'd con res" where
  "upd_rows sw 0 count start p xx yy c = Inl No_return"
| "upd_rows sw (Suc fuel) count start p xx yy c =
     (let (left, p', c1) = upd_row sw count p p xx xx (mem c p AND 0xff00) yy c in
      if left = 0 then Inr c1
      else (case con_getxy sw of
          None \<Rightarrow> upd_rows sw fuel left start p' 0 (yy + 1) c1
        | Some f \<Rightarrow> upd_rows sw fuel left (fst (f (vc c1) start)) start 0 (yy + 1) c1))"

definition do_update_region :: "'d consw \<Rightarrow> int \<Rightarrow> int \<Rightarrow> 'd con \<Rightarrow> 'd con res" where
  "do_update_region sw start count c =
     (case con_getxy sw of
        None \<Rightarrow>
          if vc_cols (vc c) = 0 then Inl Div_zero
          else let offset = (start - vc_origin (vc c)) div 2 in
            upd_rows sw (nat count + 2) (nat count) start start
              (offset mod vc_cols (vc c)) (offset div vc_cols (vc c)) c
      | Some f \<Rightarrow>
          let (start', nxx, nyy) = f (vc c) start in
            upd_rows sw (nat count + 2) (nat count) start' start nxx nyy c)"

definition screenpos :: "'d consw \<Rightarrow> vc_data \<Rightarrow> int \<Rightarrow> bool \<Rightarrow> int" where
  "screenpos sw v offset viewed =
     (if \<not> viewed then vc_origin v + offset
      else case con_screen_pos sw of
          None \<Rightarrow> vc_visible_origin v + offset
        | Some f \<Rightarrow> f v offset)"

definition invert_cell :: "vc_data \<Rightarrow> u16 \<Rightarrow> u16" where
  "invert_cell v a =
     (if \<not> vc_can_do_color v then a XOR 0x0800
      else if vc_hi_font_mask v = 0x100
      then (a AND 0x11ff) OR drop_bit 4 (a AND 0xe000) OR push_bit 4 (a AND 0x0e00)
      else (a AND 0x88ff) OR drop_bit 4 (a AND 0x7000) OR push_bit 4 (a AND 0x0700))"

definition invert_screen :: "'d consw \<Rightarrow> int \<Rightarrow> int \<Rightarrow> bool \<Rightarrow> 'd con \<Rightarrow> 'd con res" where
  "invert_screen sw offset count0 viewed c =
     (let count = count0 div 2;
          p = screenpos sw (vc c) offset viewed;
          c1 = (case con_invert_region sw of
                  Some f \<Rightarrow> f p count c
                | None \<Rightarrow> upd_mem (map_cells (invert_cell (vc c)) (nat count) p) c)
      in if is_visible c1 then do_update_region sw p count c1 else Inr c1)"

section \<open>Selection highlight and cursor\<close>

text \<open>The first half of \<open>complement_pos\<close>: put the old cell back.\<close>

definition uncomplement :: "'d consw \<Rightarrow> 'd con \<Rightarrow> 'd con" where
  "uncomplement sw c =
     (case cp_p c of
        None \<Rightarrow> c
      | Some p \<Rightarrow>
          let c1 = upd_mem (scr_writew (cp_old c) p) c in
          if is_visible c1 then con_putc sw (cp_old c1) (cp_oldy c1) (cp_oldx c1) c1 else c1)"

definition complement_pos :: "'d consw \<Rightarrow> int \<Rightarrow> 'd con \<Rightarrow> 'd con res" where
  "complement_pos sw offset c =
     (let c1 = uncomplement sw c in
      if offset = -1 then Inr (c1\<lparr>cp_p := None\<rparr>)
      else
        let p = screenpos sw (vc c1) offset True;
            old = mem c1 p;
            new = old XOR vc_complement_mask (vc c1);
            c2 = upd_mem (scr_writew new p) (c1\<lparr>cp_p := Some p, cp_old := old\<rparr>)
        in if \<not> is_visible c2 then Inr c2
           else if vc_cols (vc c2) = 0 then Inl Div_zero
           else let ox = (offset div 2) mod vc_cols (vc c2); oy = (offset div 2) div vc_cols (vc c2) in
             Inr (con_putc sw new oy ox (c2\<lparr>cp_oldx := ox, cp_oldy := oy\<rparr>)))"

text \<open>
  \<open>highlight_pointer(-1)\<close>: with no saved position \<open>complement_pos\<close> does not touch its
  console argument, which may be NULL before the first selection.
\<close>

definition hide_pointer :: "'d consw \<Rightarrow> 'd con \<Rightarrow> 'd con res" where
  "hide_pointer sw c =
     (if cp_p c = None then Inr c else in_console (sel_cons c) (complement_pos sw (-1)) c)"

definition highlight :: "'d consw \<Rightarrow> int \<Rightarrow> int \<Rightarrow> 'd con \<Rightarrow> 'd con res" where
  "highlight sw s e c = in_console (sel_cons c) (invert_screen sw s (e - s + 2) True) c"

definition clear_selection :: "'d consw \<Rightarrow> 'd con \<Rightarrow> 'd con res" where
  "clear_selection sw c =
     res_bind (hide_pointer sw c) (\<lambda>c1.
       if sel_start c1 \<noteq> -1
       then res_bind (highlight sw (sel_start c1) (sel_end c1) c1) (\<lambda>c2. Inr (c2\<lparr>sel_start := -1\<rparr>))
       else Inr c1)"

definition softcursor_cell :: "32 word \<Rightarrow> u16 \<Rightarrow> u16" where
  "softcursor_cell type i0 =
     (let i1 = (i0 OR ucast (drop_bit 8 type AND 0xff00)) XOR ucast (type AND 0xff00);
          i2 = (if type AND 0x20 \<noteq> 0 \<and> i0 AND 0x7000 = i1 AND 0x7000 then i1 XOR 0x7000 else i1)
      in if type AND 0x40 \<noteq> 0 \<and> i2 AND 0x700 = drop_bit 4 (i2 AND 0x7000) then i2 XOR 0x0700 else i2)"

definition add_softcursor :: "'d consw \<Rightarrow> 'd con \<Rightarrow> 'd con" where
  "add_softcursor sw c =
     (let v = vc c; d = display_fg v; i = mem c (vc_pos v) in
      if vc_cursor_type v AND 0x10 = 0 \<or> cursor_original (vt c) \<noteq> None then c
      else
        let i' = softcursor_cell (vc_cursor_type v) i;
            c1 = upd_mem (scr_writew i' (vc_pos v)) (upd_vt d (\<lambda>t. t\<lparr>cursor_original := Some i\<rparr>) c)
        in if is_visible c1 then con_putc sw i' (vc_y v) (vc_x v) c1 else c1)"

definition hide_softcursor :: "'d consw \<Rightarrow> 'd con \<Rightarrow> 'd con" where
  "hide_softcursor sw c =
     (case cursor_original (vt c) of
        None \<Rightarrow> c
      | Some i \<Rightarrow>
          let v = vc c; c1 = upd_mem (scr_writew i (vc_pos v)) c;
              c2 = (if is_visible c1 then con_putc sw i (vc_y v) (vc_x v) c1 else c1)
          in upd_vt (display_fg v) (\<lambda>t. t\<lparr>cursor_original := None\<rparr>) c2)"

definition hide_cursor :: "'d consw \<Rightarrow> 'd con \<Rightarrow> 'd con res" where
  "hide_cursor sw c =
     res_bind (if sel_cons c = Some (vc_num (vc c)) then clear_selection sw c else Inr c) (\<lambda>c1.
       Inr (hide_softcursor sw (con_cursor sw CM_ERASE c1)))"

definition set_cursor :: "'d consw \<Rightarrow> 'd con \<Rightarrow> 'd con res" where
  "set_cursor sw c =
     (if \<not> is_visible c \<or> vt_blanked (vt c) \<or> vc_mode (vc c) = KD_GRAPHICS then Inr c
      else if vc_dectcem (vc c)
      then res_bind (if sel_cons c = Some (vc_num (vc c)) then clear_selection sw c else Inr c) (\<lambda>c1.
        let c2 = add_softcursor sw c1 in
        Inr (if vc_cursor_type (vc c2) AND 0x0f \<noteq> 1 then con_cursor sw CM_DRAW c2 else c2))
      else hide_cursor sw c)"

definition update_region :: "'d consw \<Rightarrow> int \<Rightarrow> int \<Rightarrow> 'd con \<Rightarrow> 'd con res" where
  "update_region sw start count c =
     (if is_visible c
      then res_bind (hide_cursor sw c) (\<lambda>c1.
           res_bind (do_update_region sw start count c1) (set_cursor sw))
      else Inr c)"

text \<open>\<open>update_screen\<close>; \<open>redraw_screen\<close> is the part after \<open>set_origin\<close>.\<close>

definition redraw_screen :: "'d consw \<Rightarrow> bool \<Rightarrow> 'd con \<Rightarrow> 'd con res" where
  "redraw_screen sw old_was_color c =
     (let (update, c2) = con_switch sw c;
          c3 = set_palette sw c2;
          c4 = (if old_was_color \<noteq> vc_can_do_color (vc c3)
                then clear_buffer_attributes (upd_vc (update_attr sw) c3) else c3)
      in res_bind (if update \<and> vc_mode (vc c4) \<noteq> KD_GRAPHICS
                   then do_update_region sw (vc_origin (vc c4)) (vc_screenbuf_size (vc c4) div 2) c4
                   else Inr c4)
           (set_cursor sw))"

definition update_screen :: "'d consw \<Rightarrow> 'd con \<Rightarrow> 'd con res" where
  "update_screen sw c =
     res_bind (hide_cursor sw c) (\<lambda>c1.
       redraw_screen sw (vc_can_do_color (vc c)) (set_origin sw c1))"

end
