(* ===== verification/Vt_Core.thy ===== *)
theory Vt_Core
  imports Console
begin

text \<open>
  More of drivers/char/vt.c: screen blanking, finding and requesting consoles, console
  reset, and the small operations other files provide to the emulator (\<open>puts_queue\<close> and
  \<open>setledstate\<close> of keyboard.c, \<open>set_translate\<close> of consolemap.c).
\<close>

section \<open>Blanking\<close>

definition mod_timer :: "int \<Rightarrow> int \<Rightarrow> 'd con \<Rightarrow> 'd con" where
  "mod_timer d delay c = upd_vt d (\<lambda>t. t\<lparr>timer := Some (jiffies c + delay)\<rparr>) c"

text \<open>VESA modes: 0 none, 1 vsync suspend, 2 hsync suspend, 3 powerdown.\<close>

definition powerdown_screen :: "'d consw \<Rightarrow> 'd con \<Rightarrow> 'd con" where
  "powerdown_screen sw c =
     (if blank_mode (vt c) = 0 then snd (con_blank sw (1 + 1) False c)
      else if blank_mode (vt c) \<in> {1, 2} then snd (con_blank sw (3 + 1) False c)
      else c)"

definition do_blank_text :: "'d consw \<Rightarrow> int \<Rightarrow> 'd con \<Rightarrow> 'd con res" where
  "do_blank_text sw d c =
     res_bind (hide_cursor sw c) (\<lambda>c1.
       let c2 = upd_vt d (\<lambda>t. t\<lparr>timer := None, blank_timer_expired := False\<rparr>) c1;
           (i, c3) = con_blank sw 1 False (save_screen sw c2);
           c4 = upd_vt d (\<lambda>t. t\<lparr>vt_blanked := True\<rparr>) c3;
           c5 = (if i then set_origin sw c4 else c4);
           hooked = (case console_blank_hook c5 of None \<Rightarrow> False | Some f \<Rightarrow> f 1);
           c6 = (if console_blank_hook c5 = None then c5 else log (Blank_hook 1) c5)
       in if hooked then Inr c6
          else
            let c7 = (if off_interval (vts c6 d) \<noteq> 0
                      then mod_timer d (off_interval (vts c6 d))
                             (upd_vt d (\<lambda>t. t\<lparr>blank_state := blank_vesa_wait\<rparr>) c6)
                      else c6)
            in Inr (if blank_mode (vts c7 d) \<noteq> 0
                    then snd (con_blank sw (blank_mode (vts c7 d) + 1) False c7) else c7))"

definition do_blank_gfx :: "'d consw \<Rightarrow> int \<Rightarrow> 'd con \<Rightarrow> 'd con res" where
  "do_blank_gfx sw d c =
     res_bind (hide_cursor sw c) (\<lambda>c1.
       let c2 = snd (con_blank sw (-1) True (save_screen sw c1))
       in Inr (set_origin sw (upd_vt d (\<lambda>t. t\<lparr>vt_blanked := True\<rparr>) c2)))"

definition do_blank_screen :: "'d consw \<Rightarrow> int \<Rightarrow> bool \<Rightarrow> 'd con \<Rightarrow> 'd con res" where
  "do_blank_screen sw d entering_gfx c =
     (if vt_blanked (vts c d)
      then if blank_state (vts c d) = blank_vesa_wait
        then in_console (fg_console (vts c d)) (\<lambda>c. Inr (powerdown_screen sw c))
               (upd_vt d (\<lambda>t. t\<lparr>blank_state := blank_off\<rparr>) c)
        else Inr c
      else if blank_state (vts c d) \<noteq> blank_normal_wait then Inr c
      else in_console (fg_console (vts c d)) (\<lambda>c.
          if entering_gfx then do_blank_gfx sw d c
          else if vc_mode (vc c) \<noteq> KD_TEXT then Inr (upd_vt d (\<lambda>t. t\<lparr>vt_blanked := True\<rparr>) c)
          else do_blank_text sw d c)
        (upd_vt d (\<lambda>t. t\<lparr>blank_state := blank_off\<rparr>) c))"

text \<open>The timer handler; whether the work queue daemon is up is an argument.\<close>

definition blank_screen_t :: "bool \<Rightarrow> int \<Rightarrow> 'd con \<Rightarrow> 'd con" where
  "blank_screen_t keventd_up d c =
     (if \<not> keventd_up then mod_timer d (off_interval (vts c d)) c
      else log (Vt_work d) (upd_vt d (\<lambda>t. t\<lparr>blank_timer_expired := True\<rparr>) c))"

definition unblank_text :: "'d consw \<Rightarrow> int \<Rightarrow> 'd con \<Rightarrow> 'd con res" where
  "unblank_text sw d c =
     (let c1 = (if blank_interval (vts c d) \<noteq> 0
                then upd_vt d (\<lambda>t. t\<lparr>blank_state := blank_normal_wait\<rparr>)
                       (mod_timer d (blank_interval (vts c d)) c)
                else c);
          (redo, c2) = con_blank sw 0 True (upd_vt d (\<lambda>t. t\<lparr>vt_blanked := False\<rparr>) c1)
      in res_bind (if redo then update_screen sw c2 else Inr c2) (\<lambda>c3.
           let c4 = (if console_blank_hook c3 = None then c3 else log (Blank_hook 0) c3)
           in set_cursor sw (set_palette sw c4)))"

definition unblank_vt :: "'d consw \<Rightarrow> int \<Rightarrow> 'd con \<Rightarrow> 'd con res" where
  "unblank_vt sw d c0 =
     (let c = c0\<lparr>ignore_poke := False\<rparr> in
      if \<not> vt_blanked (vts c d) \<or> fg_console (vts c d) = None then Inr c
      else in_console (fg_console (vts c d)) (\<lambda>c.
        if vc_mode (vc c) \<noteq> KD_TEXT then Inr c else unblank_text sw d c) c)"

fun unblank_list :: "'d consw \<Rightarrow> int list \<Rightarrow> 'd con \<Rightarrow> 'd con res" where
  "unblank_list sw [] c = Inr c"
| "unblank_list sw (d # ds) c = res_bind (unblank_vt sw d c) (unblank_list sw ds)"

definition unblank_screen :: "'d consw \<Rightarrow> 'd con \<Rightarrow> 'd con res" where
  "unblank_screen sw c = unblank_list sw (vt_list c) c"

definition get_console :: "'d con \<Rightarrow> int \<Rightarrow> vc_data option" where
  "get_console c n = (if n = vc_num (vc c) then Some (vc c) else pool c n)"

definition poke_blanked_console :: "'d consw \<Rightarrow> int \<Rightarrow> 'd con \<Rightarrow> 'd con res" where
  "poke_blanked_console sw d c0 =
     (let c = upd_vt d (\<lambda>t. t\<lparr>timer := None, blank_timer_expired := False\<rparr>) c0 in
      if ignore_poke c then Inr c
      else case fg_console (vts c d) of
        None \<Rightarrow> Inr c
      | Some n \<Rightarrow>
          (case get_console c n of
             None \<Rightarrow> Inl Dangling
           | Some v \<Rightarrow>
               if vc_mode v = KD_GRAPHICS then Inr c
               else if vt_blanked (vts c d) then unblank_vt sw d c
               else if blank_interval (vts c d) \<noteq> 0
               then Inr (upd_vt d (\<lambda>t. t\<lparr>blank_state := blank_normal_wait\<rparr>)
                          (mod_timer d (blank_interval (vts c d)) c))
               else Inr c))"

section \<open>Finding and requesting consoles\<close>

fun find_vc_in :: "vt_struct list \<Rightarrow> int \<Rightarrow> int option res" where
  "find_vc_in [] n = Inr None"
| "find_vc_in (t # ts) n =
     (if n < first_vc t + vc_count t \<and> n \<ge> first_vc t
      then arr_get (vc_cons t) (n - first_vc t)
      else find_vc_in ts n)"

definition find_vc :: "int \<Rightarrow> 'd con \<Rightarrow> int option res" where
  "find_vc n c = find_vc_in (map (vts c) (vt_list c)) n"

definition set_console :: "int option \<Rightarrow> 'd con \<Rightarrow> 'd con res" where
  "set_console p c =
     (case p of
        None \<Rightarrow> Inl Null_deref
      | Some n \<Rightarrow> (case get_console c n of
          None \<Rightarrow> Inl Dangling
        | Some v \<Rightarrow> Inr (log (Vt_work (display_fg v))
            (upd_vt (display_fg v) (\<lambda>t. t\<lparr>want_vc := Some n\<rparr>) c))))"

section \<open>Reset, input queue, leds, character set\<close>

text \<open>\<open>reset_vc\<close>; \<open>irq\<close> is \<open>in_interrupt()\<close>.\<close>

definition reset_vc :: "'d consw \<Rightarrow> bool \<Rightarrow> 'd con \<Rightarrow> 'd con" where
  "reset_vc sw irq c =
     (let c1 = upd_vc (\<lambda>v. v\<lparr>vc_mode := KD_TEXT,
            kbd_table := (kbd_table v)\<lparr>kbdmode := VC_XLATE\<rparr>,
            vt_mode := \<lparr>vtm_mode = VT_AUTO, vtm_waitv = 0, vtm_relsig = 0, vtm_acqsig = 0, vtm_frsig = 0\<rparr>,
            vt_pid := -1, vt_newvt := -1\<rparr>) c
      in if irq then c1 else reset_palette sw c1)"

text \<open>A C string as the list of its character codes, up to the terminating NUL.\<close>

definition puts_queue :: "int list \<Rightarrow> 'd con \<Rightarrow> 'd con" where
  "puts_queue s c =
     (case vc_tty (vc c) of
        None \<Rightarrow> c
      | Some tty \<Rightarrow>
          log (Flip_work tty) (fold (\<lambda>ch. log (Flip_char tty ch)) (takeWhile (\<lambda>ch. ch \<noteq> 0) s) c))"

text \<open>\<open>tty_insert_flip_char\<close> takes the character as an unsigned char.\<close>

definition put_queue :: "int \<Rightarrow> 'd con \<Rightarrow> 'd con" where
  "put_queue ch c =
     (case vc_tty (vc c) of
        None \<Rightarrow> c
      | Some tty \<Rightarrow> log (Flip_work tty) (log (Flip_char tty (ch mod 256)) c))"

definition setledstate :: "int \<Rightarrow> 'd con \<Rightarrow> 'd con" where
  "setledstate led c =
     log Set_leds
       (if led AND NOT 7 = 0
        then upd_vc (\<lambda>v. v\<lparr>kbd_table := (kbd_table v)\<lparr>ledmode := LED_SHOW_IOCTL\<rparr>\<rparr>)
               (upd_vt (display_fg (vc c)) (\<lambda>t. t\<lparr>vt_ledioctl := word_of_int led\<rparr>) c)
        else upd_vc (\<lambda>v. v\<lparr>kbd_table := (kbd_table v)\<lparr>ledmode := LED_SHOW_FLAGS\<rparr>\<rparr>) c)"

definition set_translate :: "nat \<Rightarrow> 'd con \<Rightarrow> 'd con" where
  "set_translate m c =
     upd_vc (\<lambda>v. v\<lparr>vc_translate := m\<rparr>) (c\<lparr>cm := set_translate_map (vc c) m (cm c)\<rparr>)"

definition mouse_report :: "int \<Rightarrow> int \<Rightarrow> int \<Rightarrow> 'd con \<Rightarrow> 'd con" where
  "mouse_report butt mrx mry c =
     puts_queue [0x1b, 0x5b, 0x4d, (0x20 + butt) mod 256, (0x21 + mrx) mod 256, (0x21 + mry) mod 256] c"

text \<open>Decimal output of \<open>sprintf("%d")\<close> for the values the emulator prints.\<close>

fun dec_nat :: "nat \<Rightarrow> int list" where
  "dec_nat n = (if n < 10 then [48 + int n] else dec_nat (n div 10) @ [48 + int (n mod 10)])"

declare dec_nat.simps [simp del]

definition dec_int :: "int \<Rightarrow> int list" where
  "dec_int i = (if i < 0 then 45 # dec_nat (nat (- i)) else dec_nat (nat i))"

end
