(* ===== verification/Decvte.thy ===== *)
theory Decvte
  imports Vt_Core
begin

text \<open>
  drivers/char/decvte.c: the DEC VT emulator. Each \<open>vte_\<close> function of the file is one
  definition; \<open>terminal_emulation\<close> is composed of one definition per switch of the C
  function (C0 controls, 8-bit C1 controls, then one per parser state). A switch whose
  cases may \<open>break\<close> out or not match returns an option: \<open>Some r\<close> when the C code returns
  there, \<open>None\<close> when control goes on. \<open>VTE_STRICT_ISO\<close>, \<open>VT_STRICT_ISO\<close> and
  \<open>CONFIG_VT_HP\<close> are not defined.
\<close>

section \<open>Cursor movement\<close>

definition vte_lf :: "'d consw \<Rightarrow> 'd con \<Rightarrow> 'd con" where
  "vte_lf sw c =
     upd_vc (\<lambda>v. v\<lparr>vc_need_wrap := False\<rparr>)
       (if vc_y (vc c) + 1 = vc_bottom (vc c)
        then scroll_region_up sw (vc_top (vc c)) (vc_bottom (vc c)) 1 c
        else if vc_y (vc c) < vc_rows (vc c) - 1
        then upd_vc (\<lambda>v. v\<lparr>vc_y := vc_y v + 1, vc_pos := vc_pos v + vc_size_row v\<rparr>) c
        else c)"

definition vte_ri :: "'d consw \<Rightarrow> 'd con \<Rightarrow> 'd con" where
  "vte_ri sw c =
     upd_vc (\<lambda>v. v\<lparr>vc_need_wrap := False\<rparr>)
       (if vc_y (vc c) = vc_top (vc c)
        then scroll_region_down sw (vc_top (vc c)) (vc_bottom (vc c)) 1 c
        else if vc_y (vc c) > 0
        then upd_vc (\<lambda>v. v\<lparr>vc_y := vc_y v - 1, vc_pos := vc_pos v - vc_size_row v\<rparr>) c
        else c)"

definition vte_cr :: "vc_data \<Rightarrow> vc_data" where
  "vte_cr v = v\<lparr>vc_pos := vc_pos v - 2 * vc_x v, vc_need_wrap := False, vc_x := 0\<rparr>"

definition vte_bs :: "vc_data \<Rightarrow> vc_data" where
  "vte_bs v =
     (if vc_x v \<noteq> 0
      then v\<lparr>vc_pos := vc_pos v - 2, vc_x := vc_x v - 1, vc_need_wrap := False\<rparr>
      else v)"

fun vte_cvt_loop :: "'d consw \<Rightarrow> nat \<Rightarrow> 'd con \<Rightarrow> 'd con" where
  "vte_cvt_loop sw 0 c = c"
| "vte_cvt_loop sw (Suc n) c = vte_cvt_loop sw n (vte_lf sw c)"

definition vte_cvt :: "'d consw \<Rightarrow> int \<Rightarrow> 'd con \<Rightarrow> 'd con" where
  "vte_cvt sw vpar c = vte_cvt_loop sw (nat (s32 vpar)) c"

text \<open>Tab stops: one bit per column in \<open>vc_tab_stop\<close>, which has eight words.\<close>

definition tab_at :: "32 word list \<Rightarrow> int \<Rightarrow> bool res" where
  "tab_at ts x = res_bind (arr_get ts (x div 32)) (\<lambda>w. Inr (bit w (nat (x mod 32))))"

fun tab_back :: "32 word list \<Rightarrow> nat \<Rightarrow> int res" where
  "tab_back ts 0 = Inr 0"
| "tab_back ts (Suc k) =
     res_bind (tab_at ts (int k)) (\<lambda>b. if b then Inr (int k) else tab_back ts k)"

fun tab_forward :: "32 word list \<Rightarrow> nat \<Rightarrow> int \<Rightarrow> int res" where
  "tab_forward ts 0 x = Inr x"
| "tab_forward ts (Suc n) x =
     res_bind (tab_at ts (x + 1)) (\<lambda>b. if b then Inr (x + 1) else tab_forward ts n (x + 1))"

definition move_x :: "int \<Rightarrow> vc_data \<Rightarrow> vc_data" where
  "move_x x v = v\<lparr>vc_x := x, vc_pos := vc_pos v - 2 * vc_x v + 2 * x\<rparr>"

definition back_one_tab :: "vc_data \<Rightarrow> vc_data res" where
  "back_one_tab v = res_bind (tab_back (vc_tab_stop v) (nat (vc_x v))) (\<lambda>x. Inr (move_x x v))"

definition forward_one_tab :: "vc_data \<Rightarrow> vc_data res" where
  "forward_one_tab v =
     res_bind (tab_forward (vc_tab_stop v) (nat (vc_cols v - 1 - vc_x v)) (vc_x v))
       (\<lambda>x. Inr (move_x x v))"

fun repeat_res :: "nat \<Rightarrow> ('a \<Rightarrow> 'a res) \<Rightarrow> 'a \<Rightarrow> 'a res" where
  "repeat_res 0 f a = Inr a"
| "repeat_res (Suc n) f a = res_bind (f a) (repeat_res n f)"

definition vte_cbt :: "int \<Rightarrow> vc_data \<Rightarrow> vc_data res" where
  "vte_cbt vpar v = repeat_res (nat (s32 vpar)) back_one_tab v"

definition vte_cht :: "int \<Rightarrow> vc_data \<Rightarrow> vc_data res" where
  "vte_cht vpar v = repeat_res (nat (s32 vpar)) forward_one_tab v"

definition lift_vc :: "(vc_data \<Rightarrow> vc_data res) \<Rightarrow> 'd con \<Rightarrow> 'd con res" where
  "lift_vc f c = res_bind (f (vc c)) (\<lambda>v. Inr (c\<lparr>vc := v\<rparr>))"

section \<open>Erasing\<close>

definition erase_cells :: "int \<Rightarrow> int \<Rightarrow> 'd con \<Rightarrow> 'd con" where
  "erase_cells start count c =
     upd_vc (\<lambda>v. v\<lparr>vc_need_wrap := False\<rparr>)
       (upd_mem (scr_memsetw start (vc_video_erase_char (vc c)) (2 * count)) c)"

definition vte_ed :: "'d consw \<Rightarrow> int \<Rightarrow> 'd con \<Rightarrow> 'd con" where
  "vte_ed sw vpar c =
     (let v = vc c in
      if vpar = 0
      then erase_cells (vc_pos v) ((vc_scr_end v - vc_pos v) div 2)
             (clear_region sw 0 (vc_y v + 1) (vc_cols v) (vc_rows v - vc_y v - 1)
               (clear_region sw (vc_x v) (vc_y v) (vc_cols v - vc_x v) 1 c))
      else if vpar = 1
      then erase_cells (vc_origin v) ((vc_pos v - vc_origin v) div 2 + 1)
             (clear_region sw 0 (vc_y v) (vc_x v + 1) 1
               (clear_region sw 0 0 (vc_cols v) (vc_y v) c))
      else if vpar = 2
      then erase_cells (vc_origin v) (vc_cols v * vc_rows v)
             (clear_region sw 0 0 (vc_cols v) (vc_rows v) c)
      else c)"

definition vte_el :: "'d consw \<Rightarrow> int \<Rightarrow> 'd con \<Rightarrow> 'd con" where
  "vte_el sw vpar c =
     (let v = vc c in
      if vpar = 0
      then erase_cells (vc_pos v) (vc_cols v - vc_x v)
             (clear_region sw (vc_x v) (vc_y v) (vc_cols v - vc_x v) 1 c)
      else if vpar = 1
      then erase_cells (vc_pos v - 2 * vc_x v) (vc_x v + 1)
             (clear_region sw 0 (vc_y v) (vc_x v + 1) 1 c)
      else if vpar = 2
      then erase_cells (vc_pos v - 2 * vc_x v) (vc_cols v)
             (clear_region sw 0 (vc_y v) (vc_cols v) 1 c)
      else c)"

text \<open>\<open>vpar > vc_cols - vc_x\<close> compares as unsigned, so the parameter is taken as it is.\<close>

definition vte_ech :: "'d consw \<Rightarrow> int \<Rightarrow> 'd con \<Rightarrow> 'd con" where
  "vte_ech sw vpar0 c =
     (let v = vc c;
          vpar = (if vpar0 = 0 then 1 else vpar0);
          count = (if vpar > vc_cols v - vc_x v then vc_cols v - vc_x v else vpar);
          c1 = upd_mem (scr_memsetw (vc_pos v) (vc_video_erase_char v) (2 * count)) c
      in upd_vc (\<lambda>v. v\<lparr>vc_need_wrap := False\<rparr>) (clear_region sw (vc_x v) (vc_y v) count 1 c1))"

section \<open>Graphic rendition\<close>

definition background :: "vc_data \<Rightarrow> u8" where
  "background v = vc_color v AND 0xf0"

definition foreground :: "vc_data \<Rightarrow> u8" where
  "foreground v = vc_color v AND 0x0f"

definition sgr_param :: "int \<Rightarrow> 'd con \<Rightarrow> 'd con" where
  "sgr_param p c =
     (if p = 0 then upd_vc default_attr c
      else if p = 1 then upd_vc (\<lambda>v. v\<lparr>vc_intensity := 2\<rparr>) c
      else if p = 2 then upd_vc (\<lambda>v. v\<lparr>vc_intensity := 0\<rparr>) c
      else if p = 4 then upd_vc (\<lambda>v. v\<lparr>vc_underline := True\<rparr>) c
      else if p = 5 \<or> p = 6 then upd_vc (\<lambda>v. v\<lparr>vc_blink := True\<rparr>) c
      else if p = 7 then upd_vc (\<lambda>v. v\<lparr>vc_reverse := True\<rparr>) c
      else if p = 10
      then upd_vc (\<lambda>v. v\<lparr>vc_disp_ctrl := False, vc_toggle_meta := False\<rparr>)
             (set_translate (if \<not> vc_charset (vc c) then vc_G0_charset (vc c) else vc_G1_charset (vc c)) c)
      else if p = 11
      then upd_vc (\<lambda>v. v\<lparr>vc_disp_ctrl := True, vc_toggle_meta := False\<rparr>) (set_translate IBMPC_MAP c)
      else if p = 12
      then upd_vc (\<lambda>v. v\<lparr>vc_disp_ctrl := True, vc_toggle_meta := True\<rparr>) (set_translate IBMPC_MAP c)
      else if p = 21 \<or> p = 22 then upd_vc (\<lambda>v. v\<lparr>vc_intensity := 1\<rparr>) c
      else if p = 24 then upd_vc (\<lambda>v. v\<lparr>vc_underline := False\<rparr>) c
      else if p = 25 then upd_vc (\<lambda>v. v\<lparr>vc_blink := False\<rparr>) c
      else if p = 27 then upd_vc (\<lambda>v. v\<lparr>vc_reverse := False\<rparr>) c
      else if p = 38
      then upd_vc (\<lambda>v. v\<lparr>vc_color := (vc_def_color v AND 0x0f) OR background v, vc_underline := True\<rparr>) c
      else if p = 39
      then upd_vc (\<lambda>v. v\<lparr>vc_color := (vc_def_color v AND 0x0f) OR background v, vc_underline := False\<rparr>) c
      else if p = 49
      then upd_vc (\<lambda>v. v\<lparr>vc_color := (vc_def_color v AND 0xf0) OR foreground v\<rparr>) c
      else if p \<ge> 30 \<and> p \<le> 37
      then upd_vc (\<lambda>v. v\<lparr>vc_color := color_table ! nat (p - 30) OR background v\<rparr>) c
      else if p \<ge> 40 \<and> p \<le> 47
      then upd_vc (\<lambda>v. v\<lparr>vc_color := push_bit 4 (color_table ! nat (p - 40)) OR foreground v\<rparr>) c
      else c)"

text \<open>The parameters \<open>vc_par[0]\<close> to \<open>vc_par[vc_npar]\<close>.\<close>

definition params :: "vc_data \<Rightarrow> int list" where
  "params v = take (nat (vc_npar v + 1)) (vc_par v)"

definition vte_sgr :: "'d consw \<Rightarrow> 'd con \<Rightarrow> 'd con" where
  "vte_sgr sw c = upd_vc (update_attr sw) (fold sgr_param (params (vc c)) c)"

section \<open>Reports\<close>

definition str :: "string \<Rightarrow> int list" where
  "str s = map of_char s"

definition VTE_CSI :: "vc_data \<Rightarrow> int list" where
  "VTE_CSI v = (if \<not> vc_c8bit v then [0x1b, 0x5b] else [0x9b])"

definition VTE_DCS :: "vc_data \<Rightarrow> int list" where
  "VTE_DCS v = (if \<not> vc_c8bit v then [0x1b, 0x50] else [0x90])"

definition VTE_ST :: "vc_data \<Rightarrow> int list" where
  "VTE_ST v = (if \<not> vc_c8bit v then [0x1b, 0x5c] else [0x9c])"

definition vte_fake_dec_dsr :: "string \<Rightarrow> 'd con \<Rightarrow> 'd con" where
  "vte_fake_dec_dsr reply c = puts_queue (VTE_CSI (vc c) @ str ''?'' @ str reply @ str ''n'') c"

definition vte_cpr :: "bool \<Rightarrow> 'd con \<Rightarrow> 'd con" where
  "vte_cpr ext c =
     (let v = vc c;
          row = vc_y v + (if vc_decom v then vc_top v + 1 else 1);
          col = vc_x v + 1
      in if ext
         then puts_queue (VTE_CSI v @ str ''?'' @ dec_int row @ str '';'' @ dec_int col @ str '';1R'') c
         else puts_queue (VTE_CSI v @ dec_int row @ str '';'' @ dec_int col @ str ''R'') c)"

definition vte_dsr :: "'d con \<Rightarrow> 'd con" where
  "vte_dsr c = puts_queue (VTE_CSI (vc c) @ str ''0n'') c"

definition vte_answerback :: "'d con \<Rightarrow> 'd con" where
  "vte_answerback c = puts_queue (str ''linux'') c"

definition vte_da :: "'d con \<Rightarrow> 'd con" where
  "vte_da c = puts_queue (VTE_CSI (vc c) @ str ''?62;1;2;6;7;8;9c'') c"

abbreviation (input) "VTE_VERSION \<equiv> (211::int)"

definition vte_dec_da2 :: "'d con \<Rightarrow> 'd con" where
  "vte_dec_da2 c =
     puts_queue (VTE_CSI (vc c) @ str ''>'' @ dec_int 1 @ str '';'' @ dec_int (VTE_VERSION div 10)
                 @ str '';0c'') c"

definition vte_dec_da3 :: "'d con \<Rightarrow> 'd con" where
  "vte_dec_da3 c = puts_queue (VTE_DCS (vc c) @ str ''!|'' @ str ''0'' @ VTE_ST (vc c)) c"

definition vte_decreptparm :: "'d con \<Rightarrow> 'd con" where
  "vte_decreptparm c =
     puts_queue ([0x1b, 0x5b] @ dec_int (s32 (vc_par (vc c) ! 0 + 2)) @ str '';1;1;120;120;1;0x'') c"

definition vte_decmsr :: "'d con \<Rightarrow> 'd con" where
  "vte_decmsr c = puts_queue (VTE_CSI (vc c) @ dec_int 0 @ str ''*{'') c"

definition vte_decrpm :: "bool \<Rightarrow> int \<Rightarrow> int \<Rightarrow> 'd con \<Rightarrow> 'd con" where
  "vte_decrpm priv mode status0 c =
     (let status = (if status0 = 0 then 2 else if status0 = 2 then 0 else status0) in
      if priv
      then puts_queue (VTE_CSI (vc c) @ str ''?'' @ dec_int mode @ str '';'' @ dec_int status @ str ''$y'') c
      else puts_queue (VTE_CSI (vc c) @ dec_int mode @ str '';'' @ dec_int status @ str ''$y'') c)"

definition decrqm_status :: "bool \<Rightarrow> vc_data \<Rightarrow> int \<Rightarrow> int" where
  "decrqm_status priv v p =
     (if priv
      then (if p = 1 then of_bool (vc_decckm v)
            else if p \<in> {2, 3, 4} then 4
            else if p = 5 then of_bool (vc_decscnm v)
            else if p = 6 then of_bool (vc_decom v)
            else if p = 7 then of_bool (vc_decawm v)
            else if p = 8 then of_bool (vc_decarm v)
            else if p = 25 then of_bool (vc_dectcem v)
            else if p \<in> {42, 60, 61, 64} then 4
            else if p = 66 then of_bool (vc_decnkm v)
            else if p \<in> {67, 68, 69, 73, 81} then 4
            else 2)
      else (if p = 1 then 4
            else if p = 2 then of_bool (vc_kam v)
            else if p = 3 then 4
            else if p = 4 then of_bool (vc_irm v)
            else if 5 \<le> p \<and> p \<le> 19 then 4
            else if p = 20 then of_bool (vc_lnm v)
            else if p = 21 \<or> p = 22 then 4
            else 2))"

definition vte_decrqm :: "bool \<Rightarrow> 'd con \<Rightarrow> 'd con" where
  "vte_decrqm priv c =
     (let p = vc_par (vc c) ! 0 in vte_decrpm priv (s32 p) (decrqm_status priv (vc c) p) c)"

section \<open>Modes\<close>

definition kbd_flag :: "bool \<Rightarrow> nat \<Rightarrow> vc_data \<Rightarrow> vc_data" where
  "kbd_flag on_off flag v =
     v\<lparr>kbd_table := (if on_off then set_kbd_mode flag (kbd_table v) else clr_kbd_mode flag (kbd_table v))\<rparr>"

definition set_mode_priv :: "'d consw \<Rightarrow> bool \<Rightarrow> int \<Rightarrow> 'd con \<Rightarrow> 'd con res" where
  "set_mode_priv sw on_off p c =
     (if p = 1 then Inr (upd_vc (kbd_flag on_off VC_CKMODE) c)
      else if p = 5
      then if vc_decscnm (vc c) \<noteq> on_off
        then res_bind (invert_screen sw 0 (vc_screenbuf_size (vc c)) False
                 (upd_vc (\<lambda>v. v\<lparr>vc_decscnm := on_off\<rparr>) c))
               (\<lambda>c1. Inr (upd_vc (update_attr sw) c1))
        else Inr c
      else if p = 6 then Inr (upd_vc (\<lambda>v. gotoxay 0 0 (v\<lparr>vc_decom := on_off\<rparr>)) c)
      else if p = 7 then Inr (upd_vc (\<lambda>v. v\<lparr>vc_decawm := on_off\<rparr>) c)
      else if p = 8 then Inr (upd_vc (\<lambda>v. kbd_flag on_off VC_REPEAT (v\<lparr>vc_decarm := on_off\<rparr>)) c)
      else if p = 9 then Inr (upd_vc (\<lambda>v. v\<lparr>vc_report_mouse := (if on_off then 1 else 0)\<rparr>) c)
      else if p = 25 then Inr (upd_vc (\<lambda>v. v\<lparr>vc_dectcem := on_off\<rparr>) c)
      else if p = 66 then Inr (upd_vc (\<lambda>v. kbd_flag on_off VC_APPLIC (v\<lparr>vc_decnkm := on_off\<rparr>)) c)
      else if p = 1000 then Inr (upd_vc (\<lambda>v. v\<lparr>vc_report_mouse := (if on_off then 2 else 0)\<rparr>) c)
      else Inr c)"

definition set_mode_ansi :: "bool \<Rightarrow> int \<Rightarrow> 'd con \<Rightarrow> 'd con" where
  "set_mode_ansi on_off p c =
     (if p = 3 then upd_vc (\<lambda>v. v\<lparr>vc_disp_ctrl := on_off\<rparr>) c
      else if p = 4 then upd_vc (\<lambda>v. v\<lparr>vc_irm := on_off\<rparr>) c
      else if p = 20 then upd_vc (kbd_flag on_off VC_CRLF) c
      else c)"

fun set_mode_loop :: "'d consw \<Rightarrow> bool \<Rightarrow> int list \<Rightarrow> 'd con \<Rightarrow> 'd con res" where
  "set_mode_loop sw on_off [] c = Inr c"
| "set_mode_loop sw on_off (p # ps) c =
     res_bind (if vc_priv4 (vc c) then set_mode_priv sw on_off p c else Inr (set_mode_ansi on_off p c))
       (set_mode_loop sw on_off ps)"

definition set_mode :: "'d consw \<Rightarrow> bool \<Rightarrow> 'd con \<Rightarrow> 'd con res" where
  "set_mode sw on_off c = set_mode_loop sw on_off (params (vc c)) c"

definition vte_decscl :: "vc_data \<Rightarrow> vc_data" where
  "vte_decscl v =
     (if vc_par v ! 0 = 61
      then (if vc_npar v = 1 then v\<lparr>vc_decscl := 1, vc_c8bit := False\<rparr> else v)
      else if vc_par v ! 0 \<in> {62, 63, 64}
      then (if vc_npar v \<le> 2 then v\<lparr>vc_decscl := 4, vc_c8bit := (vc_par v ! 1 \<noteq> 1)\<rparr> else v)
      else v)"

definition setterm_command :: "'d consw \<Rightarrow> 'd con \<Rightarrow> 'd con res" where
  "setterm_command sw c =
     (let v = vc c; d = display_fg v; p0 = vc_par v ! 0; p1 = vc_par v ! 1 in
      if p0 = 1
      then Inr (if vc_can_do_color v \<and> p1 < 16
        then upd_vc (\<lambda>v. let v' = v\<lparr>vc_ulcolor := color_table ! nat p1\<rparr> in
                if vc_underline v' then update_attr sw v' else v') c
        else c)
      else if p0 = 2
      then Inr (if vc_can_do_color v \<and> p1 < 16
        then upd_vc (\<lambda>v. let v' = v\<lparr>vc_halfcolor := color_table ! nat p1\<rparr> in
                if vc_intensity v' = 0 then update_attr sw v' else v') c
        else c)
      else if p0 = 8
      then Inr (upd_vc (\<lambda>v. update_attr sw (default_attr
             (v\<lparr>vc_def_color := (if vc_hi_font_mask v = 0x100 then drop_bit 1 (vc_attr v) else vc_attr v)\<rparr>))) c)
      else if p0 = 9
      then poke_blanked_console sw d
             (upd_vt d (\<lambda>t. t\<lparr>blank_interval := (if p1 < 60 then p1 else 60) * 60 * HZ c\<rparr>) c)
      else if p0 = 10
      then Inr (upd_vc (\<lambda>v. v\<lparr>vc_bell_pitch := (if vc_npar v \<ge> 1 then p1 else 750)\<rparr>) c)
      else if p0 = 11
      then Inr (upd_vc (\<lambda>v. v\<lparr>vc_bell_duration :=
             (if vc_npar v \<ge> 1 then (if p1 < 2000 then p1 * HZ c div 1000 else 0) else HZ c div 8)\<rparr>) c)
      else if p0 = 12 then res_bind (find_vc p1 c) (\<lambda>tmp. set_console tmp c)
      else if p0 = 13 then poke_blanked_console sw d c
      else if p0 = 14
      then Inr (upd_vt d (\<lambda>t. t\<lparr>off_interval := (if p1 < 60 then p1 else 60) * 60 * HZ c\<rparr>) c)
      else if p0 = 15 then set_console (last_console (vt c)) c
      else Inr c)"

section \<open>Insertion and deletion\<close>

definition clamp_count :: "int \<Rightarrow> int \<Rightarrow> int" where
  "clamp_count nr room = (if nr > room then room else if nr = 0 then 1 else nr)"

definition vte_ich :: "'d consw \<Rightarrow> int \<Rightarrow> 'd con \<Rightarrow> 'd con" where
  "vte_ich sw nr c = insert_char sw (clamp_count nr (vc_cols (vc c) - vc_x (vc c))) c"

definition vte_il :: "'d consw \<Rightarrow> int \<Rightarrow> 'd con \<Rightarrow> 'd con" where
  "vte_il sw nr c = insert_line sw (clamp_count nr (vc_rows (vc c) - vc_y (vc c))) c"

definition vte_dch :: "'d consw \<Rightarrow> int \<Rightarrow> 'd con \<Rightarrow> 'd con" where
  "vte_dch sw nr c = delete_char sw (clamp_count nr (vc_cols (vc c) - vc_x (vc c))) c"

definition vte_dl :: "'d consw \<Rightarrow> int \<Rightarrow> 'd con \<Rightarrow> 'd con" where
  "vte_dl sw nr c = delete_line sw (clamp_count nr (vc_rows (vc c) - vc_y (vc c))) c"

section \<open>Saving, restoring and resetting\<close>

definition vte_decsc :: "vc_data \<Rightarrow> vc_data" where
  "vte_decsc v =
     v\<lparr>vc_saved_x := vc_x v, vc_saved_y := vc_y v, vc_s_intensity := vc_intensity v,
       vc_s_underline := vc_underline v, vc_s_blink := vc_blink v, vc_s_reverse := vc_reverse v,
       vc_s_charset := vc_charset v, vc_s_color := vc_color v,
       vc_saved_G0 := vc_G0_charset v, vc_saved_G1 := vc_G1_charset v,
       vc_saved_G2 := vc_G2_charset v, vc_saved_G3 := vc_G3_charset v\<rparr>"

definition restore_saved :: "vc_data \<Rightarrow> vc_data" where
  "restore_saved v =
     (gotoxy (s32 (vc_saved_x v)) (s32 (vc_saved_y v)) v)
     \<lparr>vc_intensity := vc_s_intensity v, vc_underline := vc_s_underline v,
      vc_blink := vc_s_blink v, vc_reverse := vc_s_reverse v, vc_charset := vc_s_charset v,
      vc_color := vc_s_color v, vc_G0_charset := vc_saved_G0 v, vc_G1_charset := vc_saved_G1 v,
      vc_G2_charset := vc_saved_G2 v, vc_G3_charset := vc_saved_G3 v\<rparr>"

definition vte_decrc :: "'d consw \<Rightarrow> 'd con \<Rightarrow> 'd con" where
  "vte_decrc sw c =
     (let c1 = upd_vc restore_saved c;
          c2 = set_translate (if vc_charset (vc c1) then vc_G1_charset (vc c1) else vc_G0_charset (vc c1)) c1
      in upd_vc (\<lambda>v. (update_attr sw v)\<lparr>vc_need_wrap := False\<rparr>) c2)"

definition ris_kbd :: "kbd_struct \<Rightarrow> kbd_struct" where
  "ris_kbd k =
     (clr_kbd_mode VC_CRLF (clr_kbd_mode VC_APPLIC (clr_kbd_mode VC_CKMODE (set_kbd_mode VC_REPEAT k))))
     \<lparr>lockstate := 0, slockstate := 0, ledmode := LED_SHOW_FLAGS, ledflagstate := 0,
      default_ledflagstate := 0, modeflags := KBD_DEFMODE, kbdmode := VC_XLATE\<rparr>"

definition ris_vc :: "vc_data \<Rightarrow> vc_data" where
  "ris_vc v =
     v\<lparr>vc_top := 0, vc_bottom := vc_rows v, vc_state := ESinit,
       vc_priv1 := False, vc_priv2 := False, vc_priv3 := False, vc_priv4 := False,
       vc_G0_charset := LAT1_MAP, vc_G1_charset := GRAF_MAP, vc_charset := False,
       vc_need_wrap := False, vc_report_mouse := 0, vc_utf := False, vc_utf_count := 0,
       vc_disp_ctrl := False, vc_toggle_meta := False,
       vc_c8bit := False, vc_decckm := False, vc_decsclm := False, vc_decscnm := False,
       vc_decom := False, vc_decawm := True, vc_decarm := True, vc_dectcem := True,
       vc_kam := False, vc_crm := False, vc_irm := False, vc_lnm := False,
       kbd_table := ris_kbd (kbd_table v),
       vc_cursor_type := CUR_DEFAULT, vc_complement_mask := vc_s_complement_mask v\<rparr>"

definition ris_tabs :: "32 word list \<Rightarrow> 32 word list" where
  "ris_tabs ts = ts[0 := 0x01010100, 1 := 0x01010101, 2 := 0x01010101, 3 := 0x01010101, 4 := 0x01010101]"

definition vte_ris :: "'d consw \<Rightarrow> bool \<Rightarrow> 'd con \<Rightarrow> 'd con" where
  "vte_ris sw do_clear c =
     (let c1 = log Set_leds (upd_vc ris_vc (set_translate LAT1_MAP c));
          c2 = upd_vc (\<lambda>v. (update_attr sw (default_attr v))
                 \<lparr>vc_tab_stop := ris_tabs (vc_tab_stop v),
                  vc_bell_pitch := 750, vc_bell_duration := HZ c div 8\<rparr>) c1;
          c3 = upd_vc (\<lambda>v. vte_decsc (gotoxy 0 0 v)) c2
      in if do_clear then vte_ed sw 2 c3 else c3)"

definition set_tab :: "(32 word \<Rightarrow> 32 word) \<Rightarrow> vc_data \<Rightarrow> vc_data res" where
  "set_tab f v =
     res_bind (arr_get (vc_tab_stop v) (vc_x v div 32)) (\<lambda>w.
     res_bind (arr_set (vc_tab_stop v) (vc_x v div 32) (f w)) (\<lambda>ts. Inr (v\<lparr>vc_tab_stop := ts\<rparr>)))"

text \<open>\<open>vc_tab_stop[vc_x >> 5] |= (1 << (vc_x & 31))\<close>.\<close>

definition vte_hts :: "vc_data \<Rightarrow> vc_data res" where
  "vte_hts v = set_tab (\<lambda>w. w OR push_bit (nat (vc_x v mod 32)) 1) v"

definition vte_tbc :: "int \<Rightarrow> vc_data \<Rightarrow> vc_data res" where
  "vte_tbc vpar v =
     (if vpar = 0 then set_tab (\<lambda>w. w AND NOT (push_bit (nat (vc_x v mod 32)) 1)) v
      else if vpar \<in> {2, 3, 5}
      then Inr (v\<lparr>vc_tab_stop := (vc_tab_stop v)[0 := 0, 1 := 0, 2 := 0, 3 := 0, 4 := 0]\<rparr>)
      else Inr v)"

end
