(* ===== verification/Emulator.thy ===== *)
theory Emulator
  imports Decvte
begin

text \<open>
  \<open>terminal_emulation\<close> of drivers/char/decvte.c: the escape sequence parser. Characters are
  compared by code; the comment beside each case gives the character.
\<close>

definition goto_state :: "es_state \<Rightarrow> 'd con \<Rightarrow> 'd con" where
  "goto_state st c = upd_vc (\<lambda>v. v\<lparr>vc_state := st\<rparr>) c"

section \<open>Control characters\<close>

text \<open>The first switch: C0 controls and DEL. \<open>None\<close>: not a control character.\<close>

definition te_c0 :: "'d consw \<Rightarrow> int \<Rightarrow> 'd con \<Rightarrow> 'd con res option" where
  "te_c0 sw ch c =
     (if ch \<in> {0x00, 0x01, 0x02, 0x03, 0x04} then Some (Inr c)
      else if ch = 0x05 then Some (Inr (vte_answerback c))
      else if ch = 0x06 then Some (Inr c)
      else if ch = 0x07
      then Some (Inr (if vc_bell_duration (vc c) \<noteq> 0
                      then log (Mksound (vc_bell_pitch (vc c)) (vc_bell_duration (vc c))) c else c))
      else if ch = 0x08 then Some (Inr (upd_vc vte_bs c))
      else if ch = 0x09 then Some (lift_vc forward_one_tab c)
      else if ch \<in> {0x0a, 0x0b, 0x0c}
      then let c1 = vte_lf sw c in
        Some (Inr (if get_kbd_mode (kbd_table (vc c1)) VC_CRLF then upd_vc vte_cr c1 else c1))
      else if ch = 0x0d then Some (Inr (upd_vc vte_cr c))
      else if ch = 0x0e
      then Some (Inr (upd_vc (\<lambda>v. v\<lparr>vc_disp_ctrl := True\<rparr>)
             (set_translate (vc_G1_charset (vc c)) (upd_vc (\<lambda>v. v\<lparr>vc_charset := True\<rparr>) c))))
      else if ch = 0x0f
      then Some (Inr (upd_vc (\<lambda>v. v\<lparr>vc_disp_ctrl := False\<rparr>)
             (set_translate (vc_G0_charset (vc c)) (upd_vc (\<lambda>v. v\<lparr>vc_charset := False\<rparr>) c))))
      else if 0x10 \<le> ch \<and> ch \<le> 0x17 then Some (Inr c)
      else if ch = 0x18 then Some (Inr (goto_state ESinit c))
      else if ch = 0x19 then Some (Inr c)
      else if ch = 0x1a then Some (Inr (goto_state ESinit c))
      else if ch = 0x1b then Some (Inr (goto_state ESesc c))
      else if 0x1c \<le> ch \<and> ch \<le> 0x1f then Some (Inr c)
      else if ch = 0x7f then Some (Inr c)
      else None)"

text \<open>The second switch, in 8-bit mode: C1 controls.\<close>

definition te_c1 :: "'d consw \<Rightarrow> int \<Rightarrow> 'd con \<Rightarrow> 'd con res option" where
  "te_c1 sw ch c =
     (if ch \<in> {0x80, 0x81, 0x82, 0x83} then Some (Inr c)
      else if ch = 0x84 then Some (Inr (vte_lf sw c))
      else if ch = 0x85 then Some (Inr (upd_vc vte_cr (vte_lf sw c)))
      else if ch = 0x86 \<or> ch = 0x87 then Some (Inr c)
      else if ch = 0x88 then Some (lift_vc vte_hts c)
      else if ch \<in> {0x89, 0x8a, 0x8b, 0x8c} then Some (Inr c)
      else if ch = 0x8d then Some (Inr (vte_ri sw c))
      else if 0x90 \<le> ch \<and> ch \<le> 0x99 then Some (Inr c)
      else if ch = 0x9a then Some (Inr (vte_da c))
      else if ch = 0x9b then Some (Inr (goto_state EScsi c))
      else if 0x9c \<le> ch \<and> ch \<le> 0x9f then Some (Inr c)
      else None)"

section \<open>Escape sequences\<close>

text \<open>State \<open>ESesc\<close>; the state has been set back to \<open>ESinit\<close>.\<close>

definition te_esc :: "'d consw \<Rightarrow> int \<Rightarrow> 'd con \<Rightarrow> 'd con res" where
  "te_esc sw ch c =
     (if ch = 0x20 then Inr (goto_state ESacs c)
      else if ch = 0x23 then Inr (goto_state ESscf c) \<comment> \<open>number sign\<close>
      else if ch = 0x25 then Inr (goto_state ESdocs c) \<comment> \<open>percent sign\<close>
      else if ch = 0x28 then Inr (goto_state ESgzd4 c) \<comment> \<open>left parenthesis\<close>
      else if ch = 0x29 then Inr (goto_state ESg1d4 c) \<comment> \<open>right parenthesis\<close>
      else if ch = 0x36 then Inr c \<comment> \<open>6\<close>
      else if ch = 0x37 then Inr (upd_vc vte_decsc c) \<comment> \<open>7\<close>
      else if ch = 0x38 then Inr (vte_decrc sw c) \<comment> \<open>8\<close>
      else if ch = 0x39 then Inr c \<comment> \<open>9\<close>
      else if ch = 0x3d \<comment> \<open>equals sign\<close>
      then Inr (upd_vc (\<lambda>v. kbd_flag True VC_APPLIC (v\<lparr>vc_decnkm := True\<rparr>)) c)
      else if ch = 0x3e \<comment> \<open>greater-than sign\<close>
      then Inr (upd_vc (\<lambda>v. kbd_flag False VC_APPLIC (v\<lparr>vc_decnkm := False\<rparr>)) c)
      else if ch \<in> {0x40, 0x41, 0x42, 0x43, 0x44} then Inr (vte_lf sw c) \<comment> \<open>at sign, A to D\<close>
      else if ch = 0x45 then Inr (vte_lf sw (upd_vc vte_cr c)) \<comment> \<open>E\<close>
      else if ch = 0x46 \<or> ch = 0x47 then Inr c
      else if ch = 0x48 then lift_vc vte_hts c \<comment> \<open>H\<close>
      else if ch \<in> {0x49, 0x4a, 0x4b, 0x4c} then Inr c
      else if ch = 0x4d then Inr (vte_ri sw c) \<comment> \<open>M\<close>
      else if ch = 0x4e \<comment> \<open>N\<close>
      then Inr (upd_vc (\<lambda>v. v\<lparr>vc_shift := True, vc_GS_charset := vc_G2_charset v\<rparr>) c)
      else if ch = 0x4f \<comment> \<open>O\<close>
      then Inr (upd_vc (\<lambda>v. v\<lparr>vc_shift := True, vc_GS_charset := vc_G3_charset v\<rparr>) c)
      else if 0x50 \<le> ch \<and> ch \<le> 0x59 then Inr c
      else if ch = 0x5a then Inr (vte_da c) \<comment> \<open>Z\<close>
      else if ch = 0x5b then Inr (goto_state EScsi c) \<comment> \<open>left bracket\<close>
      else if ch = 0x5c then Inr c
      else if ch = 0x5d then Inr (goto_state ESosc c) \<comment> \<open>right bracket\<close>
      else if ch = 0x5e \<or> ch = 0x5f then Inr c
      else if ch = 0x60 then Inr (upd_vc (\<lambda>v. v\<lparr>vc_kam := False\<rparr>) c) \<comment> \<open>grave accent\<close>
      else if ch = 0x62 then Inr (upd_vc (\<lambda>v. v\<lparr>vc_kam := True\<rparr>) c) \<comment> \<open>b\<close>
      else if ch = 0x63 then Inr (vte_ris sw True c) \<comment> \<open>c\<close>
      else Inr c)"

definition te_acs :: "int \<Rightarrow> 'd con \<Rightarrow> 'd con" where
  "te_acs ch c =
     (if ch = 0x46 \<comment> \<open>F\<close>
      then upd_vc (\<lambda>v. if vc_decscl v \<noteq> 1 then v\<lparr>vc_c8bit := False\<rparr> else v) c
      else if ch = 0x47 \<comment> \<open>G\<close>
      then upd_vc (\<lambda>v. if vc_decscl v \<noteq> 1 then v\<lparr>vc_c8bit := True\<rparr> else v) c
      else c)"

definition clear_params :: "vc_data \<Rightarrow> vc_data" where
  "clear_params v = v\<lparr>vc_par := replicate 16 0, vc_npar := 0\<rparr>"

definition te_osc :: "'d consw \<Rightarrow> int \<Rightarrow> 'd con \<Rightarrow> 'd con" where
  "te_osc sw ch c =
     (if ch = 0x50 then goto_state ESpalette (upd_vc clear_params c) \<comment> \<open>P\<close>
      else if ch = 0x52 then goto_state ESinit (reset_palette sw c) \<comment> \<open>R\<close>
      else c)"

definition hex_digit :: "int \<Rightarrow> bool" where
  "hex_digit ch = (0x30 \<le> ch \<and> ch \<le> 0x39 \<or> 0x41 \<le> ch \<and> ch \<le> 0x46 \<or> 0x61 \<le> ch \<and> ch \<le> 0x66)"

definition hex_value :: "int \<Rightarrow> int" where
  "hex_value ch = (if ch > 0x39 then (ch AND 0xdf) - 0x41 + 10 else ch - 0x30)"

definition store_color :: "vc_data \<Rightarrow> vc_data res" where
  "store_color v =
     (let i = vc_par v ! 0 * 3; comp = (\<lambda>j. word_of_int (16 * vc_par v ! j + vc_par v ! (j + 1))) in
      res_bind (arr_set (vc_palette v) i (comp 1)) (\<lambda>p1.
      res_bind (arr_set p1 (i + 1) (comp 3)) (\<lambda>p2.
      res_bind (arr_set p2 (i + 2) (comp 5)) (\<lambda>p3. Inr (v\<lparr>vc_palette := p3\<rparr>)))))"

definition te_palette :: "'d consw \<Rightarrow> int \<Rightarrow> 'd con \<Rightarrow> 'd con res" where
  "te_palette sw ch c =
     (if hex_digit ch
      then res_bind (arr_set (vc_par (vc c)) (vc_npar (vc c)) (hex_value ch)) (\<lambda>par.
        let c1 = upd_vc (\<lambda>v. v\<lparr>vc_par := par, vc_npar := vc_npar v + 1\<rparr>) c in
        if vc_npar (vc c1) = 7
        then res_bind (lift_vc store_color c1) (\<lambda>c2. Inr (goto_state ESinit (set_palette sw c2)))
        else Inr c1)
      else Inr (goto_state ESinit c))"

section \<open>Control sequences\<close>

text \<open>DEC status reports, \<open>CSI ? n\<close>.\<close>

definition te_dec_dsr :: "int \<Rightarrow> 'd con \<Rightarrow> 'd con" where
  "te_dec_dsr p c =
     (if p = 6 then vte_cpr True c
      else if p = 15 then vte_fake_dec_dsr ''13'' c
      else if p = 25 then vte_fake_dec_dsr ''21'' c
      else if p = 26 then vte_fake_dec_dsr ''27;1;0;1'' c
      else if p = 53 then vte_fake_dec_dsr ''53'' c
      else if p = 62 then vte_decmsr c
      else if p = 75 then vte_fake_dec_dsr ''70'' c
      else if p = 85 then vte_fake_dec_dsr ''83'' c
      else c)"

definition no_priv4 :: "'d con \<Rightarrow> 'd con" where
  "no_priv4 c = upd_vc (\<lambda>v. v\<lparr>vc_priv4 := False\<rparr>) c"

definition cursor_type_of :: "int list \<Rightarrow> 32 word" where
  "cursor_type_of par =
     (if par ! 0 \<noteq> 0
      then word_of_int (par ! 0) OR push_bit 8 (word_of_int (par ! 1)) OR push_bit 16 (word_of_int (par ! 2))
      else CUR_DEFAULT)"

definition complement_mask_of :: "vc_data \<Rightarrow> u16" where
  "complement_mask_of v =
     (if vc_par v ! 0 \<noteq> 0
      then push_bit 8 (word_of_int (vc_par v ! 0)) OR word_of_int (vc_par v ! 1)
      else vc_s_complement_mask v)"

text \<open>The first switch of state \<open>EScsi_gotpars\<close>: functions with a private parameter flag.\<close>

definition te_csi_priv :: "'d consw \<Rightarrow> int \<Rightarrow> 'd con \<Rightarrow> 'd con res option" where
  "te_csi_priv sw ch c =
     (let v = vc c; p0 = vc_par v ! 0 in
      if ch = 0x24 then (if vc_priv4 v then Some (Inr (goto_state EScsi_dollar c)) else None) \<comment> \<open>dollar\<close>
      else if ch = 0x4a then (if vc_priv4 v then Some (Inr c) else None) \<comment> \<open>J\<close>
      else if ch = 0x4b then (if vc_priv4 v then Some (Inr c) else None) \<comment> \<open>K\<close>
      else if ch = 0x68 then Some (set_mode sw True c) \<comment> \<open>h\<close>
      else if ch = 0x6c then Some (set_mode sw False c) \<comment> \<open>l\<close>
      else if ch = 0x63 \<comment> \<open>c\<close>
      then (if vc_priv2 v
        then Some (Inr (upd_vc (\<lambda>v. v\<lparr>vc_priv2 := False\<rparr>) (if p0 = 0 then vte_dec_da3 c else c)))
        else if vc_priv3 v
        then Some (Inr (upd_vc (\<lambda>v. v\<lparr>vc_priv3 := False\<rparr>) (if p0 = 0 then vte_dec_da2 c else c)))
        else if vc_priv4 v
        then Some (Inr (no_priv4 (upd_vc (\<lambda>v. v\<lparr>vc_cursor_type := cursor_type_of (vc_par v)\<rparr>) c)))
        else None)
      else if ch = 0x6d \<comment> \<open>m\<close>
      then (if vc_priv4 v
        then Some (res_bind (clear_selection sw c) (\<lambda>c1.
          Inr (no_priv4 (upd_vc (\<lambda>v. v\<lparr>vc_complement_mask := complement_mask_of v\<rparr>) c1))))
        else None)
      else if ch = 0x6e \<comment> \<open>n\<close>
      then Some (Inr (no_priv4
        (if vc_priv4 v then te_dec_dsr p0 c
         else if p0 = 5 then vte_dsr c
         else if p0 = 6 then vte_cpr False c
         else c)))
      else None)"

definition par0_default1 :: "vc_data \<Rightarrow> vc_data" where
  "par0_default1 v = (if vc_par v ! 0 = 0 then v\<lparr>vc_par := (vc_par v)[0 := 1]\<rparr> else v)"

definition par_minus1 :: "nat \<Rightarrow> vc_data \<Rightarrow> vc_data" where
  "par_minus1 i v = (if vc_par v ! i \<noteq> 0 then v\<lparr>vc_par := (vc_par v)[i := vc_par v ! i - 1]\<rparr> else v)"

text \<open>Functions with an intermediate byte only select the next state.\<close>

definition csi_intermediate :: "int \<Rightarrow> es_state option" where
  "csi_intermediate ch =
     (if ch = 0x20 then Some EScsi_space
      else if ch = 0x21 then Some EScsi_exclam
      else if ch = 0x22 then Some EScsi_dquote
      else if ch = 0x24 then Some EScsi_dollar
      else if ch = 0x26 then Some EScsi_and
      else if ch = 0x2a then Some EScsi_star
      else if ch = 0x2b then Some EScsi_plus
      else None)"

text \<open>Cursor movement functions.\<close>

definition csi_move :: "int \<Rightarrow> vc_data \<Rightarrow> vc_data option" where
  "csi_move ch v =
     (let v1 = par0_default1 v; p1 = vc_par v1 ! 0 in
      if ch = 0x41 \<or> ch = 0x6b then Some (gotoxy (vc_x v1) (s32 (vc_y v1 - p1)) v1) \<comment> \<open>A k\<close>
      else if ch = 0x42 \<or> ch = 0x65 then Some (gotoxy (vc_x v1) (s32 (vc_y v1 + p1)) v1) \<comment> \<open>B e\<close>
      else if ch = 0x43 \<or> ch = 0x61 then Some (gotoxy (s32 (vc_x v1 + p1)) (vc_y v1) v1) \<comment> \<open>C a\<close>
      else if ch = 0x44 \<or> ch = 0x6a then Some (gotoxy (s32 (vc_x v1 - p1)) (vc_y v1) v1) \<comment> \<open>D j\<close>
      else if ch = 0x45 then Some (gotoxy 0 (s32 (vc_y v1 + p1)) v1) \<comment> \<open>E\<close>
      else if ch = 0x46 then Some (gotoxy 0 (s32 (vc_y v1 - p1)) v1) \<comment> \<open>F\<close>
      else if ch = 0x47 \<or> ch = 0x60 \<comment> \<open>G, grave accent\<close>
      then let v2 = par_minus1 0 v in Some (gotoxy (s32 (vc_par v2 ! 0)) (vc_y v2) v2)
      else if ch = 0x48 \<or> ch = 0x66 \<comment> \<open>H f\<close>
      then let v2 = par_minus1 1 (par_minus1 0 v) in
        Some (gotoxay (s32 (vc_par v2 ! 1)) (s32 (vc_par v2 ! 0)) v2)
      else if ch = 0x64 \<comment> \<open>d\<close>
      then let v2 = par_minus1 0 v in Some (gotoxay (vc_x v2) (s32 (vc_par v2 ! 0)) v2)
      else None)"

text \<open>Editing and erasing functions.\<close>

definition csi_edit :: "'d consw \<Rightarrow> int \<Rightarrow> 'd con \<Rightarrow> 'd con option" where
  "csi_edit sw ch c =
     (let p0 = vc_par (vc c) ! 0 in
      if ch = 0x40 then Some (vte_ich sw p0 c) \<comment> \<open>at sign\<close>
      else if ch = 0x4a then Some (vte_ed sw p0 c) \<comment> \<open>J\<close>
      else if ch = 0x4b then Some (vte_el sw p0 c) \<comment> \<open>K\<close>
      else if ch = 0x4c then Some (vte_il sw p0 c) \<comment> \<open>L\<close>
      else if ch = 0x4d then Some (vte_dl sw p0 c) \<comment> \<open>M\<close>
      else if ch = 0x50 then Some (vte_dch sw p0 c) \<comment> \<open>P\<close>
      else if ch = 0x58 then Some (vte_ech sw p0 c) \<comment> \<open>X\<close>
      else if ch = 0x59 \<comment> \<open>Y\<close>
      then let c1 = upd_vc par0_default1 c in Some (vte_cvt sw (vc_par (vc c1) ! 0) c1)
      else if ch = 0x6d then Some (vte_sgr sw c) \<comment> \<open>m\<close>
      else None)"

text \<open>Tabulation functions.\<close>

definition csi_tabs :: "int \<Rightarrow> vc_data \<Rightarrow> vc_data res option" where
  "csi_tabs ch v =
     (let p0 = vc_par v ! 0 in
      if ch = 0x49 then let v1 = par0_default1 v in Some (vte_cht (vc_par v1 ! 0) v1) \<comment> \<open>I\<close>
      else if ch = 0x57 \<comment> \<open>W\<close>
      then Some (if p0 = 0 then vte_hts v
                 else if p0 = 2 then vte_tbc 0 v
                 else if p0 = 5 then vte_tbc 5 v
                 else Inr v)
      else if ch = 0x5a then Some (vte_cbt p0 v) \<comment> \<open>Z\<close>
      else if ch = 0x67 then Some (vte_tbc p0 v) \<comment> \<open>g\<close>
      else None)"

definition csi_leds :: "'d con \<Rightarrow> 'd con" where
  "csi_leds c =
     (let p0 = vc_par (vc c) ! 0 in
      if p0 \<in> {0, 1, 2, 3} then setledstate (if p0 < 3 then p0 else 4) c else c)"

text \<open>\<open>DECSTBM\<close>: set the scrolling region.\<close>

definition csi_margins :: "vc_data \<Rightarrow> vc_data" where
  "csi_margins v =
     (let v1 = par0_default1 v;
          v2 = (if vc_par v1 ! 1 = 0 then v1\<lparr>vc_par := (vc_par v1)[1 := vc_rows v1]\<rparr> else v1)
      in if vc_par v2 ! 0 < vc_par v2 ! 1 \<and> vc_par v2 ! 1 \<le> vc_rows v2
         then gotoxay 0 0 (v2\<lparr>vc_top := vc_par v2 ! 0 - 1, vc_bottom := vc_par v2 ! 1\<rparr>)
         else v2)"

text \<open>The second switch of \<open>EScsi_gotpars\<close>.\<close>

definition te_csi_std :: "'d consw \<Rightarrow> int \<Rightarrow> 'd con \<Rightarrow> 'd con res" where
  "te_csi_std sw ch c =
     (case csi_intermediate ch of
        Some st \<Rightarrow> Inr (goto_state st c)
      | None \<Rightarrow> (case csi_move ch (vc c) of
          Some v \<Rightarrow> Inr (c\<lparr>vc := v\<rparr>)
        | None \<Rightarrow> (case csi_edit sw ch c of
            Some c1 \<Rightarrow> Inr c1
          | None \<Rightarrow> (case csi_tabs ch (vc c) of
              Some r \<Rightarrow> res_bind r (\<lambda>v. Inr (c\<lparr>vc := v\<rparr>))
            | None \<Rightarrow>
                if ch = 0x5d then setterm_command sw c \<comment> \<open>right bracket\<close>
                else if ch = 0x63 then Inr (if vc_par (vc c) ! 0 = 0 then vte_da c else c) \<comment> \<open>c\<close>
                else if ch = 0x71 then Inr (csi_leds c) \<comment> \<open>q\<close>
                else if ch = 0x72 then Inr (upd_vc csi_margins c) \<comment> \<open>r\<close>
                else if ch = 0x78 then Inr (vte_decreptparm c) \<comment> \<open>x\<close>
                else Inr c))))"

definition has_priv :: "vc_data \<Rightarrow> bool" where
  "has_priv v = (vc_priv1 v \<or> vc_priv2 v \<or> vc_priv3 v \<or> vc_priv4 v)"

definition te_csi_gotpars :: "'d consw \<Rightarrow> int \<Rightarrow> 'd con \<Rightarrow> 'd con res" where
  "te_csi_gotpars sw ch c0 =
     (let c = goto_state ESinit c0 in
      case te_csi_priv sw ch c of
        Some r \<Rightarrow> r
      | None \<Rightarrow>
          if has_priv (vc c)
          then Inr (upd_vc (\<lambda>v. v\<lparr>vc_priv1 := False, vc_priv2 := False, vc_priv3 := False,
                                 vc_priv4 := False\<rparr>) c)
          else te_csi_std sw ch c)"

definition te_csi_getpars :: "'d consw \<Rightarrow> int \<Rightarrow> 'd con \<Rightarrow> 'd con res" where
  "te_csi_getpars sw ch c =
     (let v = vc c in
      if ch = 0x3b \<and> vc_npar v < NPAR - 1 \<comment> \<open>semicolon\<close>
      then Inr (upd_vc (\<lambda>v. v\<lparr>vc_npar := vc_npar v + 1\<rparr>) c)
      else if 0x30 \<le> ch \<and> ch \<le> 0x39
      then res_bind (arr_get (vc_par v) (vc_npar v)) (\<lambda>p.
           res_bind (arr_set (vc_par v) (vc_npar v) (u32 (u32 (p * 10) + (ch - 0x30)))) (\<lambda>par.
             Inr (upd_vc (\<lambda>v. v\<lparr>vc_par := par\<rparr>) c)))
      else te_csi_gotpars sw ch (goto_state EScsi_gotpars c))"

definition te_csi :: "'d consw \<Rightarrow> int \<Rightarrow> 'd con \<Rightarrow> 'd con res" where
  "te_csi sw ch c0 =
     (let c = goto_state EScsi_getpars (upd_vc clear_params c0) in
      if ch = 0x5b then Inr (goto_state ESfunckey c) \<comment> \<open>left bracket\<close>
      else
        let c1 = upd_vc (\<lambda>v. v\<lparr>vc_priv1 := (ch = 0x3c), vc_priv2 := (ch = 0x3d),
                               vc_priv3 := (ch = 0x3e), vc_priv4 := (ch = 0x3f)\<rparr>) c
        in if ch = 0x3c then Inr (goto_state ESinit c1)
           else if ch \<in> {0x3d, 0x3e, 0x3f} then Inr c1
           else te_csi_getpars sw ch c1)"

section \<open>The remaining states\<close>

definition te_scf :: "'d consw \<Rightarrow> int \<Rightarrow> 'd con \<Rightarrow> 'd con res" where
  "te_scf sw ch c =
     (if ch = 0x38 \<comment> \<open>8\<close>
      then
        let erase = (\<lambda>k. upd_vc (\<lambda>v. v\<lparr>vc_video_erase_char := (vc_video_erase_char v AND 0xff00) OR k\<rparr>));
            c1 = erase 0x20 (vte_ed sw 2 (erase 0x45 c))
        in do_update_region sw (vc_origin (vc c1)) (vc_screenbuf_size (vc c1) div 2) c1
      else Inr c)"

text \<open>The character set a designating final byte names, if it names one.\<close>

definition designated :: "int \<Rightarrow> nat \<Rightarrow> nat" where
  "designated ch old =
     (if ch = 0x30 then GRAF_MAP \<comment> \<open>0\<close>
      else if ch = 0x41 \<or> ch = 0x42 then LAT1_MAP \<comment> \<open>A B\<close>
      else if ch = 0x55 then IBMPC_MAP \<comment> \<open>U\<close>
      else if ch = 0x4b then USER_MAP \<comment> \<open>K\<close>
      else old)"

definition te_gzd4 :: "int \<Rightarrow> 'd con \<Rightarrow> 'd con" where
  "te_gzd4 ch c =
     (let c1 = upd_vc (\<lambda>v. v\<lparr>vc_G0_charset := designated ch (vc_G0_charset v)\<rparr>) c in
      goto_state ESinit (if \<not> vc_charset (vc c1) then set_translate (vc_G0_charset (vc c1)) c1 else c1))"

definition te_g1d4 :: "int \<Rightarrow> 'd con \<Rightarrow> 'd con" where
  "te_g1d4 ch c =
     (let c1 = upd_vc (\<lambda>v. v\<lparr>vc_G1_charset := designated ch (vc_G1_charset v)\<rparr>) c in
      goto_state ESinit (if vc_charset (vc c1) then set_translate (vc_G1_charset (vc c1)) c1 else c1))"

definition te_g2d4 :: "int \<Rightarrow> 'd con \<Rightarrow> 'd con" where
  "te_g2d4 ch c =
     (let c1 = upd_vc (\<lambda>v. v\<lparr>vc_G2_charset := designated ch (vc_G2_charset v)\<rparr>) c in
      goto_state ESinit (if vc_charset (vc c1) then set_translate (vc_G2_charset (vc c1)) c1 else c1))"

definition te_g3d4 :: "int \<Rightarrow> 'd con \<Rightarrow> 'd con" where
  "te_g3d4 ch c =
     (let c1 = upd_vc (\<lambda>v. v\<lparr>vc_G3_charset := designated ch (vc_G3_charset v)\<rparr>) c in
      goto_state ESinit (if vc_charset (vc c1) then set_translate (vc_G3_charset (vc c1)) c1 else c1))"

definition te_dollar :: "int \<Rightarrow> 'd con \<Rightarrow> 'd con" where
  "te_dollar ch c = (if ch = 0x70 then vte_decrqm (vc_priv4 (vc c)) c else c)" \<comment> \<open>p\<close>

definition te_docs :: "int \<Rightarrow> 'd con \<Rightarrow> 'd con" where
  "te_docs ch c =
     (if ch = 0x40 then upd_vc (\<lambda>v. v\<lparr>vc_utf := False\<rparr>) c \<comment> \<open>at sign\<close>
      else if ch = 0x47 \<or> ch = 0x38 then upd_vc (\<lambda>v. v\<lparr>vc_utf := True\<rparr>) c \<comment> \<open>G 8\<close>
      else c)"

text \<open>The switch over the parser state.\<close>

definition te_state :: "'d consw \<Rightarrow> int \<Rightarrow> 'd con \<Rightarrow> 'd con res" where
  "te_state sw ch c =
     (let c0 = goto_state ESinit c in
      case vc_state (vc c) of
        ESesc \<Rightarrow> te_esc sw ch c0
      | ESacs \<Rightarrow> Inr (te_acs ch c0)
      | ESosc \<Rightarrow> Inr (te_osc sw ch c0)
      | ESpalette \<Rightarrow> te_palette sw ch c
      | EScsi \<Rightarrow> te_csi sw ch c
      | EScsi_getpars \<Rightarrow> te_csi_getpars sw ch c
      | EScsi_gotpars \<Rightarrow> te_csi_gotpars sw ch c
      | EScsi_exclam \<Rightarrow> Inr (if ch = 0x70 then vte_ris sw True c0 else c0)
      | EScsi_dquote \<Rightarrow> Inr (if ch = 0x70 then upd_vc vte_decscl c0 else c0)
      | EScsi_dollar \<Rightarrow> Inr (te_dollar ch c0)
      | ESdocs \<Rightarrow> Inr (te_docs ch c0)
      | ESscf \<Rightarrow> te_scf sw ch c0
      | ESgzd4 \<Rightarrow> Inr (te_gzd4 ch c)
      | ESg1d4 \<Rightarrow> Inr (te_g1d4 ch c)
      | ESg2d4 \<Rightarrow> Inr (te_g2d4 ch c)
      | ESg3d4 \<Rightarrow> Inr (te_g3d4 ch c)
      | _ \<Rightarrow> Inr c0)"

definition terminal_emulation :: "'d consw \<Rightarrow> int \<Rightarrow> 'd con \<Rightarrow> 'd con res" where
  "terminal_emulation sw ch c =
     (case te_c0 sw ch c of
        Some r \<Rightarrow> r
      | None \<Rightarrow> (case (if vc_c8bit (vc c) then te_c1 sw ch c else None) of
          Some r \<Rightarrow> r
        | None \<Rightarrow> te_state sw ch c))"

end
