(* ===== verification/Con_Write.thy ===== *)
theory Con_Write
  imports Emulator
begin

text \<open>
  Output to a console, from drivers/char/vt.c: \<open>do_con_write\<close> (the tty write routine: UTF-8
  decoding, translation to font positions, drawing, and the terminal emulator for
  everything else), \<open>vt_console_print\<close> (kernel messages) and the small tty operations around
  them.

  The tty's \<open>stopped\<close> flag can change while a write is under way: \<open>stopped n\<close> is its value
  when \<open>n\<close> characters have been taken.
\<close>

section \<open>From bytes to characters\<close>

definition CTRL_ACTION :: "32 word" where "CTRL_ACTION = 0x0d00ff81"
definition CTRL_ALWAYS :: "32 word" where "CTRL_ALWAYS = 0x0800f501"

text \<open>The first byte of a UTF-8 sequence: how many bytes follow, and its bits.\<close>

definition utf_start :: "int \<Rightarrow> vc_data \<Rightarrow> vc_data" where
  "utf_start c v =
     (if c AND 0xe0 = 0xc0 then v\<lparr>vc_utf_count := 1, vc_utf_char := c AND 0x1f\<rparr>
      else if c AND 0xf0 = 0xe0 then v\<lparr>vc_utf_count := 2, vc_utf_char := c AND 0x0f\<rparr>
      else if c AND 0xf8 = 0xf0 then v\<lparr>vc_utf_count := 3, vc_utf_char := c AND 0x07\<rparr>
      else if c AND 0xfc = 0xf8 then v\<lparr>vc_utf_count := 4, vc_utf_char := c AND 0x03\<rparr>
      else if c AND 0xfe = 0xfc then v\<lparr>vc_utf_count := 5, vc_utf_char := c AND 0x01\<rparr>
      else v\<lparr>vc_utf_count := 0\<rparr>)"

text \<open>One byte of UTF-8 text: the character it completes, if it completes one.\<close>

definition utf_byte :: "int \<Rightarrow> vc_data \<Rightarrow> int option \<times> vc_data" where
  "utf_byte c v =
     (if c > 0x7f
      then if vc_utf_count v > 0 \<and> c AND 0xc0 = 0x80
        then
          let v1 = v\<lparr>vc_utf_char := s32 (push_bit 6 (vc_utf_char v)) OR (c AND 0x3f),
                     vc_utf_count := vc_utf_count v - 1\<rparr>
          in (if vc_utf_count v1 = 0 then Some (vc_utf_char v1) else None, v1)
        else (None, utf_start c v)
      else (Some c, v\<lparr>vc_utf_count := 0\<rparr>))"

text \<open>
  The character \<open>c\<close> and its translation \<open>tc\<close>; \<open>None\<close> where the loop continues with the next
  byte.
\<close>

definition decode_char :: "cmap \<Rightarrow> int \<Rightarrow> vc_data \<Rightarrow> ((int \<times> int) option \<times> vc_data) res" where
  "decode_char m c v =
     (if vc_state v = ESinit then Inr (Some (c, c), v)
      else if vc_utf v then
        let (r, v1) = utf_byte c v in Inr (map_option (\<lambda>u. (u, u)) r, v1)
      else
        res_bind (arr_get (transl_tables m) (int (vc_translate v))) (\<lambda>t.
        res_bind (arr_get t (if vc_toggle_meta v then c OR 0x80 else c)) (\<lambda>u.
          Inr (Some (c, uint u), v))))"

text \<open>Whether a character is shown as a glyph, rather than handled by the emulator.\<close>

definition displayable :: "vc_data \<Rightarrow> int \<Rightarrow> int \<Rightarrow> bool" where
  "displayable v c tc \<longleftrightarrow>
     tc \<noteq> 0 \<and>
     (c \<ge> 32 \<or> \<not> vc_utf v \<and> \<not> bit (if vc_disp_ctrl v then CTRL_ALWAYS else CTRL_ACTION) (nat c)) \<and>
     (c \<noteq> 127 \<or> vc_disp_ctrl v) \<and> c \<noteq> 128 + 27"

text \<open>The font position for a character.\<close>

definition glyph_of :: "cmap \<Rightarrow> vc_data \<Rightarrow> int \<Rightarrow> int \<Rightarrow> int res" where
  "glyph_of m v c tc =
     res_bind (conv_uni_to_pc m v tc) (\<lambda>g.
       if g = -4 then res_bind (conv_uni_to_pc m v 0xfffd) (\<lambda>g'. Inr (if g' = -4 then c else g'))
       else Inr (if g = -3 then c else g))"

section \<open>Writing\<close>

text \<open>
  The run of cells written but not drawn yet: \<open>draw_x\<close> (-1: none), \<open>draw_from\<close>, \<open>draw_to\<close>.
\<close>

type_synonym draw = "int \<times> int \<times> int"

definition flush :: "'d consw \<Rightarrow> 'd con \<times> draw \<Rightarrow> 'd con \<times> draw" where
  "flush sw = (\<lambda>(c, x, from, to).
     if x \<ge> 0 then (con_putcs sw from ((to - from) div 2) (vc_y (vc c)) x c, -1, from, to)
     else (c, x, from, to))"

definition cell_for :: "u16 \<Rightarrow> vc_data \<Rightarrow> int \<Rightarrow> u16" where
  "cell_for himask v g =
     (if himask \<noteq> 0
      then (push_bit 8 (ucast (vc_attr v)) AND NOT himask)
           + (if g AND 0x100 \<noteq> 0 then himask else 0) + word_of_int (g AND 0xff)
      else push_bit 8 (ucast (vc_attr v)) + word_of_int g)"

definition advance :: "vc_data \<Rightarrow> vc_data" where
  "advance v =
     (if vc_x v = vc_cols v - 1 then v\<lparr>vc_need_wrap := vc_decawm v\<rparr>
      else v\<lparr>vc_x := vc_x v + 1, vc_pos := vc_pos v + 2\<rparr>)"

text \<open>Put the glyph \<open>g\<close> at the cursor.\<close>

definition put_glyph :: "'d consw \<Rightarrow> u16 \<Rightarrow> int \<Rightarrow> 'd con \<times> draw \<Rightarrow> 'd con \<times> draw" where
  "put_glyph sw himask g s =
     (let (c1, x1, from1, to1) = (if vc_need_wrap (vc (fst s)) \<or> vc_irm (vc (fst s)) then flush sw s else s);
          c2 = (if vc_need_wrap (vc c1) then vte_lf sw (upd_vc vte_cr c1) else c1);
          c3 = (if vc_irm (vc c2) then insert_char sw 1 c2 else c2);
          c4 = upd_mem (scr_writew (cell_for himask (vc c3) g) (vc_pos (vc c3))) c3;
          (x2, from2) = (if is_visible c4 \<and> x1 < 0 then (vc_x (vc c4), vc_pos (vc c4)) else (x1, from1))
      in (upd_vc advance c4, x2, from2, vc_pos (vc c4) + 2))"

text \<open>One turn of the loop.\<close>

definition write_char :: "'d consw \<Rightarrow> u16 \<Rightarrow> int \<Rightarrow> 'd con \<times> draw \<Rightarrow> ('d con \<times> draw) res" where
  "write_char sw himask ch s =
     res_bind (decode_char (cm (fst s)) ch (vc (fst s))) (\<lambda>(r, v).
       let s1 = ((fst s)\<lparr>vc := v\<rparr>, snd s) in
       case r of
         None \<Rightarrow> Inr s1
       | Some (c, tc) \<Rightarrow>
           if vc_state v = ESinit \<and> displayable v c tc
           then res_bind (glyph_of (cm (fst s1)) v c tc) (\<lambda>g.
             if g AND NOT (if himask \<noteq> 0 then 0x1ff else 0xff) \<noteq> 0 then Inr s1
             else Inr (put_glyph sw himask g s1))
           else
             let (c1, d1) = flush sw s1 in
             res_bind (terminal_emulation sw c c1) (\<lambda>c2. Inr (c2, d1)))"

fun write_loop ::
  "'d consw \<Rightarrow> u16 \<Rightarrow> (nat \<Rightarrow> bool) \<Rightarrow> nat \<Rightarrow> int list \<Rightarrow> 'd con \<times> draw \<Rightarrow> (nat \<times> 'd con \<times> draw) res" where
  "write_loop sw himask stopped n [] s = Inr (n, s)"
| "write_loop sw himask stopped n (ch # chs) s =
     (if stopped n then Inr (n, s)
      else res_bind (write_char sw himask ch s) (write_loop sw himask stopped (Suc n) chs))"

text \<open>\<open>do_con_write\<close>: the number of characters taken and the new state.\<close>

definition do_con_write ::
  "'d consw \<Rightarrow> bool \<Rightarrow> (nat \<Rightarrow> bool) \<Rightarrow> int list \<Rightarrow> 'd con \<Rightarrow> (nat \<times> 'd con) res" where
  "do_con_write sw irq stopped buf c =
     (if irq then Inr (length buf, c)
      else
        res_bind (if is_visible c then hide_cursor sw c else Inr c) (\<lambda>c1.
        res_bind (write_loop sw (vc_hi_font_mask (vc c)) stopped 0 buf (c1, -1, 0, 0)) (\<lambda>(n, s).
          Inr (n, fst (flush sw s)))))"

definition vt_flush_chars :: "'d consw \<Rightarrow> bool \<Rightarrow> 'd con \<Rightarrow> 'd con res" where
  "vt_flush_chars sw irq c = (if irq then Inr c else set_cursor sw c)"

definition vt_write ::
  "'d consw \<Rightarrow> bool \<Rightarrow> (nat \<Rightarrow> bool) \<Rightarrow> int list \<Rightarrow> 'd con \<Rightarrow> (nat \<times> 'd con) res" where
  "vt_write sw irq stopped buf c =
     res_bind (do_con_write sw irq stopped buf c) (\<lambda>(n, c1).
     res_bind (vt_flush_chars sw irq c1) (\<lambda>c2. Inr (n, c2)))"

definition vt_put_char :: "'d consw \<Rightarrow> bool \<Rightarrow> (nat \<Rightarrow> bool) \<Rightarrow> int \<Rightarrow> 'd con \<Rightarrow> 'd con res" where
  "vt_put_char sw irq stopped ch c =
     (if irq then Inr c
      else res_bind (do_con_write sw irq stopped [ch] c) (\<lambda>(n, c1). Inr c1))"

definition vt_write_room :: "bool \<Rightarrow> int" where
  "vt_write_room stopped = (if stopped then 0 else 4096)"

definition vt_stop :: "'d con \<Rightarrow> 'd con" where
  "vt_stop c = log Set_leds (upd_vc (\<lambda>v. v\<lparr>kbd_table := set_kbd_led VC_SCROLLOCK (kbd_table v)\<rparr>) c)"

definition vt_start :: "'d con \<Rightarrow> 'd con" where
  "vt_start c = log Set_leds (upd_vc (\<lambda>v. v\<lparr>kbd_table := clr_kbd_led VC_SCROLLOCK (kbd_table v)\<rparr>) c)"

section \<open>Kernel messages\<close>

text \<open>
  \<open>vt_console_print\<close> writes cells first and draws them at the end of each run: \<open>vc_x\<close> stays at
  the start of the run, \<open>myx\<close> is the column of the next cell and \<open>cnt\<close> the cells pending
  since \<open>start\<close>. \<open>cnt\<close> and \<open>myx\<close> are unsigned short.
\<close>

record kmsg_state =
  pr_start :: int
  pr_myx :: int
  pr_cnt :: int

definition draw_pending :: "'d consw \<Rightarrow> kmsg_state \<Rightarrow> 'd con \<Rightarrow> 'd con" where
  "draw_pending sw p c =
     (if is_visible c then con_putcs sw (pr_start p) (pr_cnt p) (vc_y (vc c)) (vc_x (vc c)) c else c)"

text \<open>The part before the cell is written; \<open>True\<close>: go on to the next character.\<close>

definition print_break ::
  "'d consw \<Rightarrow> int \<Rightarrow> kmsg_state \<times> 'd con \<Rightarrow> bool \<times> kmsg_state \<times> 'd con" where
  "print_break sw ch = (\<lambda>(p, c).
     if \<not> (ch = 10 \<or> ch = 13 \<or> ch = 8 \<or> vc_need_wrap (vc c)) then (False, p, c)
     else
       let (p1, c1) =
             (if pr_cnt p > 0
              then (p\<lparr>pr_cnt := 0\<rparr>,
                    upd_vc (\<lambda>v. v\<lparr>vc_x := vc_x v + pr_cnt p - (if vc_need_wrap v then 1 else 0)\<rparr>)
                      (draw_pending sw p c))
              else (p, c))
       in if ch = 8
          then let c2 = upd_vc vte_bs c1 in
            (True, p1\<lparr>pr_start := vc_pos (vc c2), pr_myx := vc_x (vc c2)\<rparr>, c2)
          else
            let c2 = upd_vc vte_cr (if ch \<noteq> 13 then vte_lf sw c1 else c1) in
            (ch = 10 \<or> ch = 13, p1\<lparr>pr_start := vc_pos (vc c2), pr_myx := vc_x (vc c2)\<rparr>, c2))"

definition print_char :: "'d consw \<Rightarrow> int \<Rightarrow> kmsg_state \<times> 'd con \<Rightarrow> kmsg_state \<times> 'd con" where
  "print_char sw ch s =
     (let (brk, p, c) = print_break sw ch s in
      if brk then (p, c)
      else
        let c1 = upd_mem (scr_writew (push_bit 8 (ucast (vc_attr (vc c))) + word_of_int ch) (vc_pos (vc c))) c;
            p1 = p\<lparr>pr_cnt := (pr_cnt p + 1) mod 65536\<rparr>
        in if pr_myx p1 = vc_cols (vc c1) - 1
           then (p1, upd_vc (\<lambda>v. v\<lparr>vc_need_wrap := True\<rparr>) c1)
           else (p1\<lparr>pr_myx := (pr_myx p1 + 1) mod 65536\<rparr>, upd_vc (\<lambda>v. v\<lparr>vc_pos := vc_pos v + 2\<rparr>) c1))"

definition print_end :: "'d consw \<Rightarrow> kmsg_state \<times> 'd con \<Rightarrow> 'd con" where
  "print_end sw = (\<lambda>(p, c).
     if pr_cnt p > 0
     then
       upd_vc (\<lambda>v. let x = vc_x v + pr_cnt p in
           if x = vc_cols v then v\<lparr>vc_x := x - 1, vc_need_wrap := True\<rparr> else v\<lparr>vc_x := x\<rparr>)
         (draw_pending sw p c)
     else c)"

text \<open>
  The console at hand is the one the message goes to. \<open>printable\<close> and \<open>oops_in_progress\<close> are
  kernel variables; the \<open>printing\<close> lock is taken and released around the body.
\<close>

definition vt_console_print :: "'d consw \<Rightarrow> bool \<Rightarrow> bool \<Rightarrow> int list \<Rightarrow> 'd con \<Rightarrow> 'd con res" where
  "vt_console_print sw printable oops_in_progress b c =
     (if \<not> printable \<or> vc_mode (vc c) \<noteq> KD_TEXT then Inr c
      else
        res_bind (if is_visible c then hide_cursor sw c else Inr c) (\<lambda>c1.
        let s = fold (print_char sw) b
              (\<lparr>pr_start = vc_pos (vc c1), pr_myx = vc_x (vc c), pr_cnt = 0\<rparr>, c1)
        in res_bind (set_cursor sw (print_end sw s)) (\<lambda>c2.
             if oops_in_progress then Inr c2
             else poke_blanked_console sw (display_fg (vc c2)) c2)))"

end
