(* ===== verification/Console_Inv.thy ===== *)
theory Console_Inv
  imports Vt_Core
begin

text \<open>
  The well-formedness invariant of a console and of the whole console state, and the proof
  that the operations of vt.c keep it.

  \<open>wf_vc R v\<close>: the cursor is on the screen, the cursor address is the one of the cursor
  position, the scrolling region is a proper part of the screen, the parser's arrays have
  their sizes, and the screen buffer lies in the set \<open>R\<close> of addresses that are screen
  memory. \<open>keeps R c c'\<close>: going from \<open>c\<close> to \<open>c'\<close> kept the state well-formed, wrote only
  to screen memory and left the set of consoles alone. Both are relative to a display
  driver, whose contract is the locale \<open>display_driver\<close>.
\<close>

section \<open>Well-formed consoles\<close>

definition wf_geom :: "vc_data \<Rightarrow> bool" where
  "wf_geom v \<longleftrightarrow>
     0 < vc_cols v \<and> vc_cols v \<le> 256 \<and> 0 < vc_rows v \<and> vc_rows v \<le> 32767 \<and>
     vc_size_row v = 2 * vc_cols v \<and> vc_screenbuf_size v = vc_rows v * vc_size_row v \<and>
     0 \<le> vc_top v \<and> vc_top v < vc_bottom v \<and> vc_bottom v \<le> vc_rows v \<and>
     0 \<le> vc_x v \<and> vc_x v < vc_cols v \<and> 0 \<le> vc_y v \<and> vc_y v < vc_rows v"

definition wf_parser :: "vc_data \<Rightarrow> bool" where
  "wf_parser v \<longleftrightarrow>
     length (vc_par v) = 16 \<and> (\<forall>p \<in> set (vc_par v). 0 \<le> p \<and> p < 4294967296) \<and>
     0 \<le> vc_npar v \<and> vc_npar v < 16 \<and>
     (vc_state v = ESpalette \<longrightarrow> vc_npar v \<le> 7 \<and> vc_par v ! 0 < 16) \<and>
     length (vc_tab_stop v) = 8 \<and> length (vc_palette v) = 48"

definition wf_charsets :: "vc_data \<Rightarrow> bool" where
  "wf_charsets v \<longleftrightarrow>
     vc_translate v < 4 \<and> vc_G0_charset v < 4 \<and> vc_G1_charset v < 4 \<and> vc_G2_charset v < 4 \<and>
     vc_G3_charset v < 4 \<and> vc_saved_G0 v < 4 \<and> vc_saved_G1 v < 4 \<and> vc_saved_G2 v < 4 \<and>
     vc_saved_G3 v < 4"

definition wf_addr :: "int set \<Rightarrow> vc_data \<Rightarrow> bool" where
  "wf_addr R v \<longleftrightarrow>
     vc_pos v = vc_origin v + vc_y v * vc_size_row v + 2 * vc_x v \<and>
     vc_scr_end v = vc_origin v + vc_screenbuf_size v \<and>
     {vc_origin v ..< vc_origin v + vc_screenbuf_size v} \<subseteq> R \<and>
     {vc_visible_origin v ..< vc_visible_origin v + vc_screenbuf_size v} \<subseteq> R \<and>
     {vc_screenbuf v ..< vc_screenbuf v + vc_screenbuf_size v} \<subseteq> R"

definition wf_vc :: "int set \<Rightarrow> vc_data \<Rightarrow> bool" where
  "wf_vc R v \<longleftrightarrow> wf_geom v \<and> wf_parser v \<and> wf_charsets v \<and> wf_addr R v"

lemmas wf_vc_defs = wf_vc_def wf_geom_def wf_parser_def wf_charsets_def wf_addr_def

lemma wf_vcD:
  assumes "wf_vc R v"
  shows "wf_geom v" "wf_parser v" "wf_charsets v" "wf_addr R v"
    "{vc_origin v ..< vc_origin v + vc_screenbuf_size v} \<subseteq> R"
    "{vc_visible_origin v ..< vc_visible_origin v + vc_screenbuf_size v} \<subseteq> R"
    "{vc_screenbuf v ..< vc_screenbuf v + vc_screenbuf_size v} \<subseteq> R"
    "vc_pos v = vc_origin v + vc_y v * vc_size_row v + 2 * vc_x v"
    "vc_scr_end v = vc_origin v + vc_screenbuf_size v"
  using assms by (auto simp only: wf_vc_def wf_addr_def)

lemma wf_geomD:
  assumes "wf_geom v"
  shows "0 < vc_cols v" "vc_cols v \<le> 256" "0 < vc_rows v" "vc_rows v \<le> 32767"
    "vc_size_row v = 2 * vc_cols v" "vc_screenbuf_size v = vc_rows v * vc_size_row v"
    "0 \<le> vc_top v" "vc_top v < vc_bottom v" "vc_bottom v \<le> vc_rows v"
    "0 \<le> vc_x v" "vc_x v < vc_cols v" "0 \<le> vc_y v" "vc_y v < vc_rows v"
  using assms by (auto simp only: wf_geom_def)

text \<open>The cell of column \<open>x\<close> and row \<open>y\<close> lies in the buffer.\<close>

lemma cell_in_buffer:
  assumes "wf_geom v" "0 \<le> x" "x < vc_cols v" "0 \<le> y" "y < vc_rows v"
  shows "0 \<le> y * vc_size_row v + 2 * x"
    and "y * vc_size_row v + 2 * x + 2 \<le> vc_screenbuf_size v"
proof -
  have s: "vc_size_row v = 2 * vc_cols v" "vc_screenbuf_size v = vc_rows v * vc_size_row v"
    "0 \<le> vc_size_row v"
    using assms(1) by (simp_all add: wf_geom_def)
  show "0 \<le> y * vc_size_row v + 2 * x"
    using assms s by simp
  have "y * vc_size_row v + vc_size_row v \<le> vc_screenbuf_size v"
    using row_offset_bound [of y "vc_rows v" "vc_size_row v"] assms s by simp
  then show "y * vc_size_row v + 2 * x + 2 \<le> vc_screenbuf_size v"
    using assms(3) s(1) by linarith
qed

lemma pos_in_buffer:
  assumes "wf_vc R v"
  shows "vc_origin v \<le> vc_pos v" and "vc_pos v + 2 \<le> vc_scr_end v" and "vc_pos v \<in> R"
proof -
  have g: "wf_geom v" and a: "wf_addr R v"
    using assms by (simp_all add: wf_vc_def)
  have "0 \<le> vc_x v" "vc_x v < vc_cols v" "0 \<le> vc_y v" "vc_y v < vc_rows v"
    using g by (simp_all add: wf_geom_def)
  note b = cell_in_buffer [OF g this]
  show "vc_origin v \<le> vc_pos v" "vc_pos v + 2 \<le> vc_scr_end v"
    using a b by (simp_all add: wf_addr_def)
  then show "vc_pos v \<in> R"
    using a by (auto simp: wf_addr_def)
qed

text \<open>Rows \<open>t\<close> to \<open>b\<close> of the screen are screen memory.\<close>

lemma rows_in_region:
  assumes "wf_vc R v" "0 \<le> t" "t \<le> b" "b \<le> vc_rows v"
  shows "{vc_origin v + vc_size_row v * t ..< vc_origin v + vc_size_row v * b} \<subseteq> R"
proof -
  note g = wf_geomD [OF wf_vcD(1) [OF assms(1)]]
  have s: "vc_screenbuf_size v = vc_rows v * vc_size_row v" "0 \<le> vc_size_row v"
    and r: "{vc_origin v ..< vc_origin v + vc_screenbuf_size v} \<subseteq> R"
    using g wf_vcD(5) [OF assms(1)] by simp_all
  have "vc_size_row v * b \<le> vc_screenbuf_size v" "0 \<le> vc_size_row v * t"
    using assms s by (simp_all add: mult.commute mult_right_mono)
  then have "{vc_origin v + vc_size_row v * t ..< vc_origin v + vc_size_row v * b}
      \<subseteq> {vc_origin v ..< vc_origin v + vc_screenbuf_size v}"
    by auto
  then show ?thesis using r by blast
qed

text \<open>Cells \<open>x\<close> to \<open>x + n\<close> of the cursor's row are screen memory.\<close>

lemma row_cells_in_region:
  assumes "wf_vc R v" "0 \<le> x" "x + n \<le> vc_cols v"
  shows "{vc_pos v - 2 * vc_x v + 2 * x ..< vc_pos v - 2 * vc_x v + 2 * x + 2 * n} \<subseteq> R"
proof -
  have *: "{vc_origin v + vc_size_row v * vc_y v ..< vc_origin v + vc_size_row v * (vc_y v + 1)} \<subseteq> R"
    using assms(1) wf_geomD [OF wf_vcD(1) [OF assms(1)]] by (intro rows_in_region) simp_all
  have "vc_pos v - 2 * vc_x v = vc_origin v + vc_size_row v * vc_y v"
    "vc_size_row v = 2 * vc_cols v"
    using wf_vcD(8) [OF assms(1)] wf_geomD(5) [OF wf_vcD(1) [OF assms(1)]]
    by (simp_all add: mult.commute)
  with assms(2,3) show ?thesis
    by (intro order.trans [OF _ *]) (auto simp: algebra_simps)
qed

text \<open>Fields the invariant does not speak of, and the side conditions of those it does.\<close>

lemma wf_vc_upd [simp]:
  "wf_vc R (v\<lparr>vc_attr := a0\<rparr>) = wf_vc R v"
  "wf_vc R (v\<lparr>vc_def_color := a1\<rparr>) = wf_vc R v"
  "wf_vc R (v\<lparr>vc_color := a2\<rparr>) = wf_vc R v"
  "wf_vc R (v\<lparr>vc_s_color := a3\<rparr>) = wf_vc R v"
  "wf_vc R (v\<lparr>vc_ulcolor := a4\<rparr>) = wf_vc R v"
  "wf_vc R (v\<lparr>vc_halfcolor := a5\<rparr>) = wf_vc R v"
  "wf_vc R (v\<lparr>vc_cursor_type := a6\<rparr>) = wf_vc R v"
  "wf_vc R (v\<lparr>vc_complement_mask := a7\<rparr>) = wf_vc R v"
  "wf_vc R (v\<lparr>vc_s_complement_mask := a8\<rparr>) = wf_vc R v"
  "wf_vc R (v\<lparr>vc_video_erase_char := a9\<rparr>) = wf_vc R v"
  "wf_vc R (v\<lparr>vc_saved_x := a10\<rparr>) = wf_vc R v"
  "wf_vc R (v\<lparr>vc_saved_y := a11\<rparr>) = wf_vc R v"
  "wf_vc R (v\<lparr>kbd_table := a12\<rparr>) = wf_vc R v"
  "wf_vc R (v\<lparr>vt_mode := a13\<rparr>) = wf_vc R v"
  "wf_vc R (v\<lparr>vt_pid := a14\<rparr>) = wf_vc R v"
  "wf_vc R (v\<lparr>vt_newvt := a15\<rparr>) = wf_vc R v"
  "wf_vc R (v\<lparr>vc_tty := a16\<rparr>) = wf_vc R v"
  "wf_vc R (v\<lparr>vc_mode := a17\<rparr>) = wf_vc R v"
  "wf_vc R (v\<lparr>vc_charset := a18\<rparr>) = wf_vc R v"
  "wf_vc R (v\<lparr>vc_s_charset := a19\<rparr>) = wf_vc R v"
  "wf_vc R (v\<lparr>vc_disp_ctrl := a20\<rparr>) = wf_vc R v"
  "wf_vc R (v\<lparr>vc_toggle_meta := a21\<rparr>) = wf_vc R v"
  "wf_vc R (v\<lparr>vc_decscnm := a22\<rparr>) = wf_vc R v"
  "wf_vc R (v\<lparr>vc_decom := a23\<rparr>) = wf_vc R v"
  "wf_vc R (v\<lparr>vc_decawm := a24\<rparr>) = wf_vc R v"
  "wf_vc R (v\<lparr>vc_dectcem := a25\<rparr>) = wf_vc R v"
  "wf_vc R (v\<lparr>vc_irm := a26\<rparr>) = wf_vc R v"
  "wf_vc R (v\<lparr>vc_intensity := a27\<rparr>) = wf_vc R v"
  "wf_vc R (v\<lparr>vc_underline := a28\<rparr>) = wf_vc R v"
  "wf_vc R (v\<lparr>vc_blink := a29\<rparr>) = wf_vc R v"
  "wf_vc R (v\<lparr>vc_reverse := a30\<rparr>) = wf_vc R v"
  "wf_vc R (v\<lparr>vc_s_intensity := a31\<rparr>) = wf_vc R v"
  "wf_vc R (v\<lparr>vc_s_underline := a32\<rparr>) = wf_vc R v"
  "wf_vc R (v\<lparr>vc_s_blink := a33\<rparr>) = wf_vc R v"
  "wf_vc R (v\<lparr>vc_s_reverse := a34\<rparr>) = wf_vc R v"
  "wf_vc R (v\<lparr>vc_priv1 := a35\<rparr>) = wf_vc R v"
  "wf_vc R (v\<lparr>vc_priv2 := a36\<rparr>) = wf_vc R v"
  "wf_vc R (v\<lparr>vc_priv3 := a37\<rparr>) = wf_vc R v"
  "wf_vc R (v\<lparr>vc_priv4 := a38\<rparr>) = wf_vc R v"
  "wf_vc R (v\<lparr>vc_need_wrap := a39\<rparr>) = wf_vc R v"
  "wf_vc R (v\<lparr>vc_can_do_color := a40\<rparr>) = wf_vc R v"
  "wf_vc R (v\<lparr>vc_report_mouse := a41\<rparr>) = wf_vc R v"
  "wf_vc R (v\<lparr>vc_utf := a42\<rparr>) = wf_vc R v"
  "wf_vc R (v\<lparr>vc_utf_count := a43\<rparr>) = wf_vc R v"
  "wf_vc R (v\<lparr>vc_utf_char := a44\<rparr>) = wf_vc R v"
  "wf_vc R (v\<lparr>vc_bell_pitch := a45\<rparr>) = wf_vc R v"
  "wf_vc R (v\<lparr>vc_bell_duration := a46\<rparr>) = wf_vc R v"
  "wf_vc R (v\<lparr>vc_GS_charset := a47\<rparr>) = wf_vc R v"
  "wf_vc R (v\<lparr>vc_decscl := a48\<rparr>) = wf_vc R v"
  "wf_vc R (v\<lparr>vc_c8bit := a49\<rparr>) = wf_vc R v"
  "wf_vc R (v\<lparr>vc_shift := a50\<rparr>) = wf_vc R v"
  "wf_vc R (v\<lparr>vc_decckm := a51\<rparr>) = wf_vc R v"
  "wf_vc R (v\<lparr>vc_decsclm := a52\<rparr>) = wf_vc R v"
  "wf_vc R (v\<lparr>vc_decarm := a53\<rparr>) = wf_vc R v"
  "wf_vc R (v\<lparr>vc_decnkm := a54\<rparr>) = wf_vc R v"
  "wf_vc R (v\<lparr>vc_kam := a55\<rparr>) = wf_vc R v"
  "wf_vc R (v\<lparr>vc_crm := a56\<rparr>) = wf_vc R v"
  "wf_vc R (v\<lparr>vc_lnm := a57\<rparr>) = wf_vc R v"
  "wf_vc R (v\<lparr>vc_hi_font_mask := a58\<rparr>) = wf_vc R v"
  "wf_vc R (v\<lparr>vc_scan_lines := a59\<rparr>) = wf_vc R v"
  "wf_vc R (v\<lparr>vc_font_height := a60\<rparr>) = wf_vc R v"
  by (simp_all add: wf_vc_defs)

lemma wf_vc_charset [simp]:
  assumes "wf_vc R v" "m < 4"
  shows "wf_vc R (v\<lparr>vc_translate := m\<rparr>)" "wf_vc R (v\<lparr>vc_G0_charset := m\<rparr>)"
    "wf_vc R (v\<lparr>vc_G1_charset := m\<rparr>)" "wf_vc R (v\<lparr>vc_G2_charset := m\<rparr>)"
    "wf_vc R (v\<lparr>vc_G3_charset := m\<rparr>)" "wf_vc R (v\<lparr>vc_saved_G0 := m\<rparr>)"
    "wf_vc R (v\<lparr>vc_saved_G1 := m\<rparr>)" "wf_vc R (v\<lparr>vc_saved_G2 := m\<rparr>)"
    "wf_vc R (v\<lparr>vc_saved_G3 := m\<rparr>)"
proof -
  have *:
    "wf_geom (v\<lparr>vc_translate := m\<rparr>) = wf_geom v" "wf_geom (v\<lparr>vc_G0_charset := m\<rparr>) = wf_geom v" "wf_geom (v\<lparr>vc_G1_charset := m\<rparr>) = wf_geom v"
    "wf_geom (v\<lparr>vc_G2_charset := m\<rparr>) = wf_geom v" "wf_geom (v\<lparr>vc_G3_charset := m\<rparr>) = wf_geom v" "wf_geom (v\<lparr>vc_saved_G0 := m\<rparr>) = wf_geom v"
    "wf_geom (v\<lparr>vc_saved_G1 := m\<rparr>) = wf_geom v" "wf_geom (v\<lparr>vc_saved_G2 := m\<rparr>) = wf_geom v" "wf_geom (v\<lparr>vc_saved_G3 := m\<rparr>) = wf_geom v"
    "wf_parser (v\<lparr>vc_translate := m\<rparr>) = wf_parser v" "wf_parser (v\<lparr>vc_G0_charset := m\<rparr>) = wf_parser v" "wf_parser (v\<lparr>vc_G1_charset := m\<rparr>) = wf_parser v"
    "wf_parser (v\<lparr>vc_G2_charset := m\<rparr>) = wf_parser v" "wf_parser (v\<lparr>vc_G3_charset := m\<rparr>) = wf_parser v" "wf_parser (v\<lparr>vc_saved_G0 := m\<rparr>) = wf_parser v"
    "wf_parser (v\<lparr>vc_saved_G1 := m\<rparr>) = wf_parser v" "wf_parser (v\<lparr>vc_saved_G2 := m\<rparr>) = wf_parser v" "wf_parser (v\<lparr>vc_saved_G3 := m\<rparr>) = wf_parser v"
    "wf_addr R (v\<lparr>vc_translate := m\<rparr>) = wf_addr R v" "wf_addr R (v\<lparr>vc_G0_charset := m\<rparr>) = wf_addr R v" "wf_addr R (v\<lparr>vc_G1_charset := m\<rparr>) = wf_addr R v"
    "wf_addr R (v\<lparr>vc_G2_charset := m\<rparr>) = wf_addr R v" "wf_addr R (v\<lparr>vc_G3_charset := m\<rparr>) = wf_addr R v" "wf_addr R (v\<lparr>vc_saved_G0 := m\<rparr>) = wf_addr R v"
    "wf_addr R (v\<lparr>vc_saved_G1 := m\<rparr>) = wf_addr R v" "wf_addr R (v\<lparr>vc_saved_G2 := m\<rparr>) = wf_addr R v" "wf_addr R (v\<lparr>vc_saved_G3 := m\<rparr>) = wf_addr R v"
    by (simp_all add: wf_geom_def wf_parser_def wf_addr_def)
  from assms show "wf_vc R (v\<lparr>vc_translate := m\<rparr>)" "wf_vc R (v\<lparr>vc_G0_charset := m\<rparr>)"
    "wf_vc R (v\<lparr>vc_G1_charset := m\<rparr>)" "wf_vc R (v\<lparr>vc_G2_charset := m\<rparr>)"
    "wf_vc R (v\<lparr>vc_G3_charset := m\<rparr>)" "wf_vc R (v\<lparr>vc_saved_G0 := m\<rparr>)"
    "wf_vc R (v\<lparr>vc_saved_G1 := m\<rparr>)" "wf_vc R (v\<lparr>vc_saved_G2 := m\<rparr>)"
    "wf_vc R (v\<lparr>vc_saved_G3 := m\<rparr>)"
    by (simp_all add: wf_vc_def wf_charsets_def *)
qed

lemma wf_vc_arrays [simp]:
  "wf_vc R v \<Longrightarrow> length p = 48 \<Longrightarrow> wf_vc R (v\<lparr>vc_palette := p\<rparr>)"
  "wf_vc R v \<Longrightarrow> length ts = 8 \<Longrightarrow> wf_vc R (v\<lparr>vc_tab_stop := ts\<rparr>)"
  by (auto simp: wf_vc_defs simp del: atLeastLessThan_iff)

lemma wf_vc_state [simp]:
  "wf_vc R v \<Longrightarrow> s \<noteq> ESpalette \<Longrightarrow> wf_vc R (v\<lparr>vc_state := s\<rparr>)"
  by (auto simp: wf_vc_defs simp del: atLeastLessThan_iff)

lemma gotoxy_wf [simp]: "wf_vc R v \<Longrightarrow> wf_vc R (gotoxy nx ny v)"
  unfolding wf_vc_defs gotoxy_def Let_def by (auto simp del: atLeastLessThan_iff)

lemma gotoxay_wf [simp]: "wf_vc R v \<Longrightarrow> wf_vc R (gotoxay nx ny v)"
  by (simp add: gotoxay_def)

lemma default_attr_wf [simp]: "wf_vc R (default_attr v) = wf_vc R v"
  by (simp add: default_attr_def)

lemma update_attr_wf [simp]: "wf_vc R (update_attr sw v) = wf_vc R v"
  by (simp add: update_attr_def)

section \<open>Well-formed states\<close>

text \<open>
  A contract names what the console code relies on of a display driver: the addresses that
  are screen memory, the size in bytes of the largest screen it can show, the invariant of
  the driver's own state, the precondition of hardware scrolling on the driver's state and
  the address and size of the displayed screen, and whether the driver may set the origin.
\<close>

record 'd contract =
  scr_region :: "int set"
  scr_max :: int
  drv_ok :: "'d \<Rightarrow> bool"
  scr_ready :: "'d \<Rightarrow> int \<Rightarrow> int \<Rightarrow> bool"
  unlocked :: "'d \<Rightarrow> bool"

text \<open>
  The contract without the precondition of scrolling: what holds while a display is brought
  back from graphics mode, before its origin is set.
\<close>

definition relaxed :: "'d contract \<Rightarrow> 'd contract" where
  "relaxed K = K\<lparr>scr_ready := (\<lambda>d start size. True)\<rparr>"

lemma relaxed_sel [simp]:
  "scr_region (relaxed K) = scr_region K" "scr_max (relaxed K) = scr_max K"
  "drv_ok (relaxed K) = drv_ok K" "unlocked (relaxed K) = unlocked K" "scr_ready (relaxed K) d s n"
  by (simp_all add: relaxed_def)

definition wf_sel :: "'d con \<Rightarrow> bool" where
  "wf_sel c \<longleftrightarrow>
     (\<forall>n. sel_cons c = Some n \<longrightarrow> get_console c n \<noteq> None) \<and>
     (sel_start c \<noteq> -1 \<longrightarrow> (\<exists>n v. sel_cons c = Some n \<and> get_console c n = Some v \<and>
        0 \<le> sel_start c \<and> sel_start c \<le> sel_end c \<and> sel_end c + 2 \<le> vc_screenbuf_size v))"

definition wf_displayed :: "'d contract \<Rightarrow> 'd con \<Rightarrow> bool" where
  "wf_displayed K c \<longleftrightarrow>
     (\<forall>n v. get_console c n = Some v \<and> fg_console (vts c (display_fg v)) = Some n \<longrightarrow>
        scr_ready K (drv c) (vc_origin v) (vc_screenbuf_size v))"

text \<open>The parts of a display that say which consoles it has.\<close>

definition vt_ids :: "vt_struct \<Rightarrow> int option \<times> int option \<times> int \<times> int \<times> int option list" where
  "vt_ids t = (fg_console t, last_console t, first_vc t, vc_count t, vc_cons t)"

definition wf_switch :: "'d con \<Rightarrow> bool" where
  "wf_switch c \<longleftrightarrow>
     (\<forall>d \<in> set (vt_list c). length (vc_cons (vts c d)) = nat (vc_count (vts c d)) \<and>
        (\<forall>n. Some n \<in> set (vc_cons (vts c d)) \<longrightarrow> get_console c n \<noteq> None)) \<and>
     (\<forall>d n. last_console (vts c d) = Some n \<longrightarrow> get_console c n \<noteq> None) \<and>
     (\<forall>d n. want_vc (vts c d) = Some n \<longrightarrow> map_option display_fg (get_console c n) = Some d)"

text \<open>
  A driver keeps its state in variables of its own and drives one display, so at most one
  display shows a console.
\<close>

definition wf_drv :: "'d contract \<Rightarrow> 'd con \<Rightarrow> bool" where
  "wf_drv K c \<longleftrightarrow>
     drv_ok K (drv c) \<and>
     (\<forall>n v. get_console c n = Some v \<longrightarrow> vc_screenbuf_size v \<le> scr_max K) \<and>
     (\<forall>d d'. fg_console (vts c d) \<noteq> None \<and> fg_console (vts c d') \<noteq> None \<longrightarrow> d = d')"

text \<open>
  The character maps: four translation tables of 256 entries, and for each console either no
  Unicode map or one that is allocated. The emulator leaves them alone.
\<close>

definition maps :: "cmap \<Rightarrow> u16 list list \<times> (int \<rightharpoonup> uni_pagedir) \<times> (int \<Rightarrow> int)" where
  "maps m = (transl_tables m, udirs m, locs m)"

definition wf_maps :: "'d con \<Rightarrow> bool" where
  "wf_maps c \<longleftrightarrow>
     length (transl_tables (cm c)) = 4 \<and> (\<forall>t \<in> set (transl_tables (cm c)). length t = 256) \<and>
     (\<forall>n v. get_console c n = Some v \<longrightarrow>
        locs (cm c) (vc_uni_pagedir_loc v) = 0 \<or>
        udirs (cm c) (locs (cm c) (vc_uni_pagedir_loc v)) \<noteq> None)"

text \<open>What ties a console to its display and its Unicode map.\<close>

definition vc_ids :: "vc_data \<Rightarrow> int \<times> int" where
  "vc_ids v = (display_fg v, vc_uni_pagedir_loc v)"

definition wf_con :: "'d contract \<Rightarrow> 'd con \<Rightarrow> bool" where
  "wf_con K c \<longleftrightarrow>
     (\<forall>n v. get_console c n = Some v \<longrightarrow> wf_vc (scr_region K) v \<and> vc_num v = n) \<and>
     (\<forall>d n. fg_console (vts c d) = Some n \<longrightarrow> map_option display_fg (get_console c n) = Some d) \<and>
     (\<forall>p. cp_p c = Some p \<longrightarrow> p \<in> scr_region K \<and> sel_cons c \<noteq> None) \<and>
     wf_sel c \<and> wf_displayed K c \<and> wf_switch c \<and> wf_drv K c \<and> wf_maps c"

lemma get_console_own [simp]: "get_console c (vc_num (vc c)) = Some (vc c)"
  by (simp add: get_console_def)

lemma wf_conI:
  assumes "\<And>n v. get_console c n = Some v \<Longrightarrow> wf_vc (scr_region K) v"
    and "\<And>n v. get_console c n = Some v \<Longrightarrow> vc_num v = n"
    and "\<And>d n. fg_console (vts c d) = Some n \<Longrightarrow> map_option display_fg (get_console c n) = Some d"
    and "\<And>p. cp_p c = Some p \<Longrightarrow> p \<in> scr_region K"
    and "\<And>p. cp_p c = Some p \<Longrightarrow> sel_cons c \<noteq> None"
    and "wf_sel c" "wf_displayed K c" "wf_switch c" "wf_drv K c" "wf_maps c"
  shows "wf_con K c"
  using assms unfolding wf_con_def by blast

lemma wf_conD:
  assumes "wf_con K c"
  shows "get_console c n = Some v \<Longrightarrow> wf_vc (scr_region K) v"
    and "get_console c n = Some v \<Longrightarrow> vc_num v = n"
    and "fg_console (vts c d) = Some n \<Longrightarrow> map_option display_fg (get_console c n) = Some d"
    and "cp_p c = Some p \<Longrightarrow> p \<in> scr_region K"
    and "cp_p c = Some p \<Longrightarrow> sel_cons c \<noteq> None"
    and "wf_sel c" and "wf_displayed K c" and "wf_switch c" and "wf_drv K c" and "wf_maps c"
  using assms unfolding wf_con_def by blast+

lemma wf_con_vc: "wf_con K c \<Longrightarrow> wf_vc (scr_region K) (vc c)"
  using get_console_own wf_conD(1) by blast

lemma wf_con_geom: "wf_con K c \<Longrightarrow> wf_geom (vc c)"
  using wf_con_vc wf_vcD(1) by blast

lemma wf_con_ready:
  "wf_con K c \<Longrightarrow> is_visible c \<Longrightarrow> scr_ready K (drv c) (vc_origin (vc c)) (vc_screenbuf_size (vc c))"
  using get_console_own unfolding wf_con_def wf_displayed_def is_visible_def vt_def by blast

text \<open>
  No palette sequence is overdue: while one is read, fewer than its seven digits are there.
  This holds between characters, not while the last digit is handled.
\<close>

definition settled :: "vc_data \<Rightarrow> bool" where
  "settled v \<longleftrightarrow> (vc_state v = ESpalette \<longrightarrow> vc_npar v < 7)"



definition keeps :: "'d contract \<Rightarrow> 'd con \<Rightarrow> 'd con \<Rightarrow> bool" where
  "keeps K c c' \<longleftrightarrow>
     wf_con K c' \<and> (unlocked K (drv c) \<longrightarrow> unlocked K (drv c')) \<and>
     same_off (scr_region K) (mem c) (mem c') \<and>
     vc_num (vc c') = vc_num (vc c) \<and>
     (\<forall>n. map_option vc_ids (get_console c' n) = map_option vc_ids (get_console c n)) \<and>
     maps (cm c') = maps (cm c) \<and>
     vt_list c' = vt_list c \<and> (\<forall>d. vt_ids (vts c' d) = vt_ids (vts c d)) \<and>
     (\<forall>d. vt_blanked (vts c' d) \<longrightarrow> vt_blanked (vts c d)) \<and>
     (\<forall>n. pred_option settled (get_console c n) \<longrightarrow> pred_option settled (get_console c' n))"

lemma keeps_refl [simp]: "wf_con K c \<Longrightarrow> keeps K c c"
  by (simp add: keeps_def)

lemma keeps_trans: "keeps K a b \<Longrightarrow> keeps K b c \<Longrightarrow> keeps K a c"
  by (auto simp: keeps_def intro: same_off_trans)

lemma keeps_display_fg: "keeps K c c' \<Longrightarrow> display_fg (vc c') = display_fg (vc c)"
proof -
  assume k: "keeps K c c'"
  then have "map_option vc_ids (get_console c' (vc_num (vc c')))
      = map_option vc_ids (get_console c (vc_num (vc c)))"
    by (simp only: keeps_def)
  then show ?thesis by (simp add: vc_ids_def)
qed

lemma keeps_consoles: "keeps K c c' \<Longrightarrow> get_console c' n = None \<longleftrightarrow> get_console c n = None"
  unfolding keeps_def by (metis map_option_is_None)

lemma keeps_wf: "keeps K c c' \<Longrightarrow> wf_con K c'"
  by (simp add: keeps_def)

lemma keeps_confined: "keeps K c c' \<Longrightarrow> wf_con K c' \<and> same_off (scr_region K) (mem c) (mem c')"
  by (simp add: keeps_def)

lemma keeps_settled:
  assumes "keeps K c c'" "settled (vc c)"
  shows "settled (vc c')"
proof -
  have "vc_num (vc c') = vc_num (vc c)"
    using assms(1) by (simp add: keeps_def)
  then have "get_console c' (vc_num (vc c)) = Some (vc c')"
    using get_console_own [of c'] by simp
  then show ?thesis
    using assms unfolding keeps_def by (metis get_console_own option.pred_inject(2))
qed

text \<open>Sequencing: what is kept from the start \<open>c0\<close> is kept after one more step.\<close>

lemma keeps_step: "keeps K c0 c \<Longrightarrow> (wf_con K c \<Longrightarrow> keeps K c c') \<Longrightarrow> keeps K c0 c'"
  using keeps_trans keeps_wf by blast

lemma keeps_bind:
  assumes "res_ok (keeps K c0) r"
    and "\<And>c. wf_con K c \<Longrightarrow> keeps K c0 c \<Longrightarrow> res_ok (keeps K c) (f c)"
  shows "res_ok (keeps K c0) (res_bind r f)"
  using assms(1)
proof (rule res_ok_bind)
  fix c assume "keeps K c0 c"
  then have "res_ok (keeps K c) (f c)"
    using assms(2) keeps_wf by blast
  then show "res_ok (keeps K c0) (f c)"
    using keeps_trans [OF \<open>keeps K c0 c\<close>] by (rule res_ok_mono)
qed

text \<open>Two states with the same consoles are alike for the invariant.\<close>

lemma wf_con_cong:
  assumes "get_console c' = get_console c" "vts c' = vts c" "cp_p c' = cp_p c"
    "sel_cons c' = sel_cons c" "sel_start c' = sel_start c" "sel_end c' = sel_end c" "drv c' = drv c"
    "vt_list c' = vt_list c" "maps (cm c') = maps (cm c)"
  shows "wf_con K c' = wf_con K c"
  using assms
  by (simp add: wf_con_def wf_sel_def wf_displayed_def wf_switch_def wf_drv_def wf_maps_def maps_def)

lemma keeps_ids: "keeps K c c' \<Longrightarrow> vt_ids (vts c' d) = vt_ids (vts c d)"
  by (simp add: keeps_def)

lemma keeps_visible: "keeps K c c' \<Longrightarrow> is_visible c' = is_visible c"
  using keeps_display_fg [of K c c'] keeps_ids [of K c c' "display_fg (vc c)"]
  unfolding is_visible_def vt_def vt_ids_def by (simp add: keeps_def)

lemma keeps_unblanked: "keeps K c c' \<Longrightarrow> \<not> vt_blanked (vt c) \<Longrightarrow> \<not> vt_blanked (vt c')"
  using keeps_display_fg [of K c c'] unfolding keeps_def vt_def by auto

lemma keeps_unlocked: "keeps K c c' \<Longrightarrow> unlocked K (drv c) \<Longrightarrow> unlocked K (drv c')"
  by (simp add: keeps_def)

text \<open>Between the contract and its relaxed form.\<close>

lemma wf_con_relaxed: "wf_con K c \<Longrightarrow> wf_con (relaxed K) c"
  by (simp add: wf_con_def wf_displayed_def wf_drv_def)

lemma keeps_relaxed: "keeps K c c' \<Longrightarrow> keeps (relaxed K) c c'"
  by (simp add: keeps_def wf_con_relaxed)

lemma keeps_unrelaxed: "keeps (relaxed K) c c' \<Longrightarrow> wf_con K c' \<Longrightarrow> keeps K c c'"
  by (simp add: keeps_def)

lemma wf_con_unrelaxed:
  assumes wf: "wf_con (relaxed K) c" and "is_visible c"
    and "scr_ready K (drv c) (vc_origin (vc c)) (vc_screenbuf_size (vc c))"
  shows "wf_con K c"
proof -
  have "wf_displayed K c"
    unfolding wf_displayed_def
  proof (intro allI impI, elim conjE)
    fix n v assume v: "get_console c n = Some v" "fg_console (vts c (display_fg v)) = Some n"
    have "display_fg v = display_fg (vc c)"
      using wf_conD(9) [OF wf] v(2) assms(2) unfolding wf_drv_def is_visible_def vt_def by blast
    then have "n = vc_num (vc c)"
      using v(2) assms(2) by (simp add: is_visible_def vt_def)
    then have "v = vc c"
      using v(1) by simp
    then show "scr_ready K (drv c) (vc_origin v) (vc_screenbuf_size v)"
      using assms(3) by simp
  qed
  then show ?thesis
    using wf by (simp add: wf_con_def wf_drv_def)
qed

section \<open>State updates that keep the invariant\<close>

lemma get_console_upd_vc:
  "vc_num (f (vc c)) = vc_num (vc c) \<Longrightarrow>
   get_console (upd_vc f c) n = (if n = vc_num (vc c) then Some (f (vc c)) else get_console c n)"
  by (simp add: get_console_def upd_vc_def)

lemma upd_vc_sel [simp]:
  "vt_list (upd_vc f c) = vt_list c" "vts (upd_vc f c) = vts c" "mem (upd_vc f c) = mem c" "drv (upd_vc f c) = drv c"
  "vc (upd_vc f c) = f (vc c)" "sel_cons (upd_vc f c) = sel_cons c"
  "sel_start (upd_vc f c) = sel_start c" "sel_end (upd_vc f c) = sel_end c"
  "cp_p (upd_vc f c) = cp_p c" "cp_old (upd_vc f c) = cp_old c" "pool (upd_vc f c) = pool c"
  "cm (upd_vc f c) = cm c" "trace (upd_vc f c) = trace c" "HZ (upd_vc f c) = HZ c"
  by (simp_all add: upd_vc_def)

lemma upd_mem_sel [simp]:
  "vt_list (upd_mem f c) = vt_list c" "vts (upd_mem f c) = vts c" "mem (upd_mem f c) = f (mem c)" "drv (upd_mem f c) = drv c"
  "vc (upd_mem f c) = vc c" "sel_cons (upd_mem f c) = sel_cons c"
  "sel_start (upd_mem f c) = sel_start c" "sel_end (upd_mem f c) = sel_end c"
  "cp_p (upd_mem f c) = cp_p c" "cp_old (upd_mem f c) = cp_old c" "pool (upd_mem f c) = pool c"
  "get_console (upd_mem f c) = get_console c" "vt (upd_mem f c) = vt c"
  "is_visible (upd_mem f c) = is_visible c" "cm (upd_mem f c) = cm c"
  "trace (upd_mem f c) = trace c" "HZ (upd_mem f c) = HZ c"
  by (simp_all add: upd_mem_def get_console_def fun_eq_iff vt_def is_visible_def)

lemma log_sel [simp]:
  "vt_list (log e c) = vt_list c" "vts (log e c) = vts c" "mem (log e c) = mem c" "drv (log e c) = drv c" "vc (log e c) = vc c"
  "sel_cons (log e c) = sel_cons c" "sel_start (log e c) = sel_start c"
  "sel_end (log e c) = sel_end c" "cp_p (log e c) = cp_p c" "cp_old (log e c) = cp_old c"
  "get_console (log e c) = get_console c" "is_visible (log e c) = is_visible c"
  "pool (log e c) = pool c" "vt (log e c) = vt c" "cm (log e c) = cm c" "HZ (log e c) = HZ c"
  by (simp_all add: log_def get_console_def fun_eq_iff vt_def is_visible_def)

lemma upd_vt_sel [simp]:
  "vt_list (upd_vt d f c) = vt_list c" "vts (upd_vt d f c) = (vts c)(d := f (vts c d))" "mem (upd_vt d f c) = mem c"
  "drv (upd_vt d f c) = drv c" "vc (upd_vt d f c) = vc c" "sel_cons (upd_vt d f c) = sel_cons c"
  "sel_start (upd_vt d f c) = sel_start c" "sel_end (upd_vt d f c) = sel_end c"
  "cp_p (upd_vt d f c) = cp_p c" "cp_old (upd_vt d f c) = cp_old c" "pool (upd_vt d f c) = pool c"
  "get_console (upd_vt d f c) = get_console c" "cm (upd_vt d f c) = cm c"
  "trace (upd_vt d f c) = trace c" "HZ (upd_vt d f c) = HZ c"
  by (simp_all add: upd_vt_def get_console_def fun_eq_iff)

text \<open>Another structure for the console at hand, of any size that is allowed.\<close>

lemma wf_con_upd_vc_size:
  assumes wf: "wf_con K c" and v: "wf_vc (scr_region K) (f (vc c))" "vc_num (f (vc c)) = vc_num (vc c)"
      "vc_ids (f (vc c)) = vc_ids (vc c)" "vc_screenbuf_size (f (vc c)) \<le> scr_max K"
    and ready: "is_visible c \<Longrightarrow> scr_ready K (drv c) (vc_origin (f (vc c))) (vc_screenbuf_size (f (vc c)))"
    and sel: "sel_cons c = Some (vc_num (vc c)) \<Longrightarrow> sel_start c \<noteq> -1 \<Longrightarrow> sel_end c + 2 \<le> vc_screenbuf_size (f (vc c))"
  shows "wf_con K (upd_vc f c)"
proof -
  have g: "get_console (upd_vc f c) n = (if n = vc_num (vc c) then Some (f (vc c)) else get_console c n)" for n
    using v(2) by (rule get_console_upd_vc)
  have fg: "display_fg (f (vc c)) = display_fg (vc c)" "vc_uni_pagedir_loc (f (vc c)) = vc_uni_pagedir_loc (vc c)"
    using v(3) by (simp_all add: vc_ids_def)
  show ?thesis
  proof (intro wf_conI)
    fix n w assume w: "get_console (upd_vc f c) n = Some w"
    then show "wf_vc (scr_region K) w" "vc_num w = n"
      using v(1,2) wf_conD(1,2) [OF wf, of n w] by (auto simp: g split: if_splits)
  next
    fix d n assume "fg_console (vts (upd_vc f c) d) = Some n"
    then show "map_option display_fg (get_console (upd_vc f c) n) = Some d"
      using wf_conD(3) [OF wf, of d n] fg unfolding g by auto
  next
    show "wf_sel (upd_vc f c)"
      using wf_conD(6) [OF wf] sel unfolding wf_sel_def g by auto
  next
    show "wf_displayed K (upd_vc f c)"
      using wf_conD(7) [OF wf] ready fg get_console_own [of c] unfolding wf_displayed_def g
      by (auto simp: is_visible_def vt_def)
  next
    show "wf_switch (upd_vc f c)"
      using wf_conD(8) [OF wf] fg unfolding wf_switch_def g by auto (metis get_console_own option.inject)
  next
    show "wf_drv K (upd_vc f c)"
      using wf_conD(9) [OF wf] v(4) unfolding wf_drv_def g by auto
  next
    show "wf_maps (upd_vc f c)"
      using wf_conD(10) [OF wf] get_console_own [of c] fg(2) unfolding wf_maps_def g by (metis option.inject upd_vc_sel(12))
  qed (use wf_conD(4,5) [OF wf] in simp_all)
qed

lemma wf_con_upd_vc:
  assumes "wf_con K c"
    and "wf_vc (scr_region K) (vc c) \<Longrightarrow> wf_vc (scr_region K) (f (vc c))"
    and "vc_num (f (vc c)) = vc_num (vc c)"
    and "vc_screenbuf_size (f (vc c)) = vc_screenbuf_size (vc c)"
    and "is_visible c \<Longrightarrow> scr_ready K (drv c) (vc_origin (f (vc c))) (vc_screenbuf_size (vc c))"
    and "vc_ids (f (vc c)) = vc_ids (vc c)"
  shows "wf_con K (upd_vc f c)"
proof (rule wf_con_upd_vc_size [where f = f, OF assms(1) assms(2) [OF wf_con_vc [OF assms(1)]] assms(3,6)])
  show "vc_screenbuf_size (f (vc c)) \<le> scr_max K"
    using wf_conD(9) [OF assms(1)] get_console_own [of c] assms(4) unfolding wf_drv_def by metis
  show "sel_end c + 2 \<le> vc_screenbuf_size (f (vc c))" if "sel_cons c = Some (vc_num (vc c))" "sel_start c \<noteq> -1"
    using wf_conD(6) [OF assms(1)] that assms(4) by (auto simp: wf_sel_def)
qed (use assms(4,5) in simp)

lemma keeps_upd_vc_gen:
  assumes "wf_con K c"
    and "wf_vc (scr_region K) (vc c) \<Longrightarrow> wf_vc (scr_region K) (f (vc c))"
    and "vc_num (f (vc c)) = vc_num (vc c)"
    and "vc_screenbuf_size (f (vc c)) = vc_screenbuf_size (vc c)"
    and "is_visible c \<Longrightarrow> scr_ready K (drv c) (vc_origin (f (vc c))) (vc_screenbuf_size (vc c))"
    and "vc_ids (f (vc c)) = vc_ids (vc c)"
    and "settled (vc c) \<Longrightarrow> settled (f (vc c))"
  shows "keeps K c (upd_vc f c)"
  using wf_con_upd_vc [of K c f, OF assms(1-6)] assms(3,6,7)
  by (auto simp: keeps_def get_console_upd_vc)

text \<open>The same when the console is only settled again at the end of what follows.\<close>

lemma keeps_after_upd_vc:
  assumes "keeps K (upd_vc f c) c'" "settled (vc c')"
    and "vc_num (f (vc c)) = vc_num (vc c)" "vc_ids (f (vc c)) = vc_ids (vc c)"
  shows "keeps K c c'"
proof -
  have "pred_option settled (get_console c' n)" if "pred_option settled (get_console c n)" for n
  proof (cases "n = vc_num (vc c)")
    case True
    have "vc_num (vc c') = vc_num (vc c)"
      using assms(1,3) by (simp add: keeps_def)
    then show ?thesis
      using assms(2) get_console_own [of c'] True by simp
  next
    case False
    then show ?thesis
      using assms(1,3) that by (simp add: keeps_def get_console_upd_vc)
  qed
  then show ?thesis
    using assms by (auto simp: keeps_def get_console_upd_vc)
qed

declare settled_def [simp] vc_ids_def [simp]

lemma keeps_upd_vc:
  assumes "wf_con K c"
    and "wf_vc (scr_region K) (vc c) \<Longrightarrow> wf_vc (scr_region K) (f (vc c))"
    and "vc_num (f (vc c)) = vc_num (vc c)"
    and "vc_screenbuf_size (f (vc c)) = vc_screenbuf_size (vc c)"
    and "vc_origin (f (vc c)) = vc_origin (vc c)"
    and "vc_ids (f (vc c)) = vc_ids (vc c)"
    and "settled (vc c) \<Longrightarrow> settled (f (vc c))"
  shows "keeps K c (upd_vc f c)"
  using assms wf_con_ready [OF assms(1)] by (intro keeps_upd_vc_gen) simp_all

lemma keeps_upd_mem:
  "wf_con K c \<Longrightarrow> same_off (scr_region K) (mem c) (f (mem c)) \<Longrightarrow> keeps K c (upd_mem f c)"
  by (simp add: keeps_def wf_con_cong [of "upd_mem f c" c])

lemma keeps_log [simp]: "wf_con K c \<Longrightarrow> keeps K c (log e c)"
  by (simp add: keeps_def wf_con_cong [of "log e c" c])

lemma keeps_upd_vt:
  assumes "wf_con K c" and "vt_ids (f (vts c d)) = vt_ids (vts c d)"
    and "vt_blanked (f (vts c d)) \<Longrightarrow> vt_blanked (vts c d)"
    and "\<And>n. want_vc (f (vts c d)) = Some n \<Longrightarrow> want_vc (vts c d) = Some n \<or>
      map_option display_fg (get_console c n) = Some d"
  shows "keeps K c (upd_vt d f c)"
proof -
  have ids: "vt_ids (vts (upd_vt d f c) e) = vt_ids (vts c e)" for e
    using assms(2) by simp
  have fg: "fg_console (vts (upd_vt d f c) e) = fg_console (vts c e)"
    "last_console (vts (upd_vt d f c) e) = last_console (vts c e)"
    "vc_count (vts (upd_vt d f c) e) = vc_count (vts c e)"
    "vc_cons (vts (upd_vt d f c) e) = vc_cons (vts c e)" for e
    using ids [of e] by (simp_all only: vt_ids_def prod.inject)
  have "wf_switch (upd_vt d f c)"
    using wf_conD(8) [OF assms(1)] assms(4)
    unfolding wf_switch_def fg upd_vt_sel(1,4,6-9,12,13) by (auto split: if_splits)
  then have "wf_con K (upd_vt d f c)"
    using assms(1)
    unfolding wf_con_def wf_sel_def wf_displayed_def wf_drv_def wf_maps_def fg
      upd_vt_sel(1,4,6-9,12,13) by blast
  then show ?thesis
    using ids assms(3) by (simp add: keeps_def)
qed

text \<open>The same for the fields of the state that are not part of the invariant.\<close>

lemma get_console_fields [simp]:
  "get_console (c\<lparr>cm := m\<rparr>) = get_console c"
  "get_console (c\<lparr>ignore_poke := b\<rparr>) = get_console c"
  "get_console (c\<lparr>cp_oldx := i\<rparr>) = get_console c"
  "get_console (c\<lparr>cp_oldy := i\<rparr>) = get_console c"
  "get_console (c\<lparr>cp_p := q\<rparr>) = get_console c"
  "get_console (c\<lparr>cp_old := w\<rparr>) = get_console c"
  "get_console (c\<lparr>sel_start := i\<rparr>) = get_console c"
  "get_console (c\<lparr>vts := t\<rparr>) = get_console c"
  "get_console (c\<lparr>drv := x\<rparr>) = get_console c"
  "get_console (c\<lparr>mem := y\<rparr>) = get_console c"
  by (simp_all add: get_console_def fun_eq_iff)

lemma keeps_cm:
  "wf_con K c \<Longrightarrow> maps m = maps (cm c) \<Longrightarrow> keeps K c (c\<lparr>cm := m\<rparr>)"
  by (simp add: keeps_def wf_con_cong [of "c\<lparr>cm := m\<rparr>" c])

lemma keeps_fields [simp]:
  assumes "wf_con K c"
  shows "keeps K c (c\<lparr>ignore_poke := b\<rparr>)"
    "keeps K c (c\<lparr>cp_oldx := i\<rparr>)" "keeps K c (c\<lparr>cp_oldy := i\<rparr>)"
  using assms by (simp_all add: keeps_def
      wf_con_cong [of "c\<lparr>ignore_poke := b\<rparr>" c] wf_con_cong [of "c\<lparr>cp_oldx := i\<rparr>" c]
      wf_con_cong [of "c\<lparr>cp_oldy := i\<rparr>" c])

lemma keeps_sel_fields [simp]:
  assumes "wf_con K c"
  shows "keeps K c (c\<lparr>cp_p := None\<rparr>)" "keeps K c (c\<lparr>sel_start := -1\<rparr>)"
proof -
  have "wf_con K (c\<lparr>cp_p := None\<rparr>)" "wf_con K (c\<lparr>sel_start := -1\<rparr>)"
    using assms
    unfolding wf_con_def wf_sel_def wf_displayed_def wf_switch_def wf_drv_def wf_maps_def
      get_console_fields
    by (simp_all, blast+)
  then show "keeps K c (c\<lparr>cp_p := None\<rparr>)" "keeps K c (c\<lparr>sel_start := -1\<rparr>)"
    by (simp_all add: keeps_def)
qed

text \<open>Working on another console and coming back.\<close>

lemma get_console_focus:
  assumes "wf_con K c" "pool c n = Some v" "n \<noteq> vc_num (vc c)"
  shows "get_console (c\<lparr>vc := v, pool := (pool c)(vc_num (vc c) \<mapsto> vc c)\<rparr>) = get_console c"
proof
  have "vc_num v = n"
    using assms(2,3) by (intro wf_conD(2) [OF assms(1)]) (simp add: get_console_def)
  then show "get_console (c\<lparr>vc := v, pool := (pool c)(vc_num (vc c) \<mapsto> vc c)\<rparr>) m = get_console c m" for m
    using assms by (auto simp: get_console_def)
qed

lemma keeps_in_console:
  assumes wf: "wf_con K c" and n: "p = Some n" "get_console c n \<noteq> None"
    and f: "\<And>c'. wf_con K c' \<Longrightarrow> vts c' = vts c \<Longrightarrow> drv c' = drv c \<Longrightarrow> vc_num (vc c') = n \<Longrightarrow>
       sel_cons c' = sel_cons c \<Longrightarrow> sel_start c' = sel_start c \<Longrightarrow> sel_end c' = sel_end c \<Longrightarrow>
       get_console c' = get_console c \<Longrightarrow> res_ok (keeps K c') (f c')"
  shows "res_ok (keeps K c) (in_console p f c)"
proof (cases "n = vc_num (vc c)")
  case True
  then show ?thesis using f wf n by (simp add: in_console_def)
next
  case False
  then obtain v where v: "pool c n = Some v"
    using n by (auto simp: get_console_def)
  let ?me = "vc_num (vc c)"
  let ?c1 = "c\<lparr>vc := v, pool := (pool c)(?me \<mapsto> vc c)\<rparr>"
  have g: "get_console ?c1 = get_console c"
    using get_console_focus [OF wf v False] .
  have num: "vc_num v = n"
    using v False by (intro wf_conD(2) [OF wf]) (simp add: get_console_def)
  have "wf_con K ?c1"
    using wf g by (subst wf_con_cong [of _ c]) simp_all
  then have "res_ok (keeps K ?c1) (f ?c1)"
    using f [of ?c1] num g by simp
  then obtain c' where c': "f ?c1 = Inr c'" "keeps K ?c1 c'"
    by (auto simp: res_ok_ex)
  have num': "vc_num (vc c') = n"
    using c'(2) num by (simp add: keeps_def)
  have "get_console c' ?me \<noteq> None"
    using keeps_consoles [OF c'(2)] g by simp
  then obtain v0 where v0: "pool c' ?me = Some v0"
    using False num' by (auto simp: get_console_def)
  let ?c2 = "c'\<lparr>vc := v0, pool := (pool c')(n \<mapsto> vc c')\<rparr>"
  have "get_console ?c2 = get_console c'"
    using get_console_focus [OF keeps_wf [OF c'(2)] v0] False num' by auto
  moreover have "vc_num v0 = ?me"
    using v0 False num' by (intro wf_conD(2) [OF keeps_wf [OF c'(2)]]) (simp add: get_console_def)
  moreover have "wf_con K ?c2"
    using keeps_wf [OF c'(2)] calculation(1) by (subst wf_con_cong [of _ c']) simp_all
  ultimately have "keeps K c ?c2"
    using c'(2) g by (simp add: keeps_def)
  then show ?thesis
    using False v v0 c'(1) num' n by (simp add: in_console_def)
qed

end
