(* ===== verification/Console_Keep.thy ===== *)
theory Console_Keep
  imports Console_Inv
begin

text \<open>
  The contract of a display driver as the locale \<open>display_driver\<close>, and the proof, inside
  it, that every operation of vt.c keeps the console state well-formed and writes only to
  screen memory, whatever driver implements the contract.
\<close>

section \<open>Loops over cells write only the cells they name\<close>

lemma map_cells_other:
  "a < p \<or> p + 2 * int n \<le> a \<Longrightarrow> map_cells f n p m a = m a"
  by (induction f n p m rule: map_cells.induct) (auto simp: scr_writew_def)

lemma shift_right_other:
  "a < q + 2 * nr \<or> q + 2 * nr + 2 * int k \<le> a \<Longrightarrow> shift_right q nr k m a = m a"
  by (induction q nr k m rule: shift_right.induct) (auto simp: scr_writew_def)

lemma shift_left_other:
  "a < p \<or> p + 2 * int k \<le> a \<Longrightarrow> shift_left p nr k m a = m a"
  by (induction p nr k m rule: shift_left.induct) (auto simp: scr_writew_def)

lemma same_off_range:
  "{p ..< q} \<subseteq> R \<Longrightarrow> (\<And>a. a < p \<or> q \<le> a \<Longrightarrow> m' a = m a) \<Longrightarrow> same_off R m m'"
  unfolding same_off_def by (meson atLeastLessThan_iff not_le_imp_less subsetD)

lemma same_off_map_cells:
  "{p ..< p + 2 * int n} \<subseteq> R \<Longrightarrow> same_off R m (map_cells f n p m)"
  by (erule same_off_range) (rule map_cells_other)

lemma same_off_shift_right:
  "{q + 2 * nr ..< q + 2 * nr + 2 * int k} \<subseteq> R \<Longrightarrow> same_off R m (shift_right q nr k m)"
  by (erule same_off_range) (rule shift_right_other)

lemma same_off_shift_left:
  "{p ..< p + 2 * int k} \<subseteq> R \<Longrightarrow> same_off R m (shift_left p nr k m)"
  by (erule same_off_range) (rule shift_left_other)

section \<open>The rows drawn by \<open>do_update_region\<close>\<close>

lemma upd_row_left_le: "fst (upd_row sw n p q xx startx attrib yy c) \<le> n"
  by (induction sw n p q xx startx attrib yy c rule: upd_row.induct) (auto simp: Let_def le_SucI)

lemma upd_row_progress:
  "xx < vc_cols (vc c) \<Longrightarrow> 0 < n \<Longrightarrow> fst (upd_row sw n p q xx startx attrib yy c) < n"
  by (cases n) (auto simp: Let_def less_Suc_eq_le intro: upd_row_left_le)

lemma keeps_then:
  "keeps K a c \<Longrightarrow> (wf_con K c \<Longrightarrow> res_ok (keeps K c) r) \<Longrightarrow> res_ok (keeps K a) r"
  using keeps_trans keeps_wf res_ok_mono by metis

section \<open>The contract for drawing\<close>

text \<open>Operations that draw, move the cursor or load the palette keep the state well-formed.\<close>

locale drawing_driver =
  fixes sw :: "'d consw" and K :: "'d contract"
  assumes clear_keeps:
      "con_clear sw = Some f \<Longrightarrow> wf_con K c \<Longrightarrow> keeps K c (f sy sx h w c)"
    and putc_keeps: "wf_con K c \<Longrightarrow> keeps K c (con_putc sw ch y x c)"
    and putcs_keeps: "wf_con K c \<Longrightarrow> keeps K c (con_putcs sw p n y x c)"
    and cursor_keeps: "wf_con K c \<Longrightarrow> keeps K c (con_cursor sw m c)"
    and bmove_keeps: "wf_con K c \<Longrightarrow> keeps K c (con_bmove sw sy sx dy dx h w c)"
    and set_palette_keeps: "con_set_palette sw = Some g \<Longrightarrow> wf_con K c \<Longrightarrow> keeps K c (g c)"
    and save_screen_keeps: "con_save_screen sw = Some g \<Longrightarrow> wf_con K c \<Longrightarrow> keeps K c (g c)"
    and invert_region_keeps:
      "con_invert_region sw = Some i \<Longrightarrow> wf_con K c \<Longrightarrow> {p ..< p + 2 * n} \<subseteq> scr_region K \<Longrightarrow>
       keeps K c (i p n c)"
    and screen_pos_region:
      "con_screen_pos sw = Some s \<Longrightarrow> wf_vc (scr_region K) v \<Longrightarrow> 0 \<le> off \<Longrightarrow>
       off + 2 * n \<le> vc_screenbuf_size v \<Longrightarrow> {s v off ..< s v off + 2 * n} \<subseteq> scr_region K"
begin

lemma set_palette_ok: "wf_con K c \<Longrightarrow> keeps K c (set_palette sw c)"
  by (simp add: set_palette_def set_palette_keeps split: option.split)

lemma keeps_then_palette: "keeps K c c1 \<Longrightarrow> keeps K c (set_palette sw c1)"
  using set_palette_ok keeps_step by blast

lemma reset_palette_ok: "wf_con K c \<Longrightarrow> keeps K c (reset_palette sw c)"
  unfolding reset_palette_def
  by (intro keeps_then_palette keeps_upd_vc wf_vc_arrays) (simp_all add: length_concat comp_def upt_rec)

lemma clear_region_ok: "wf_con K c \<Longrightarrow> keeps K c (clear_region sw sx sy w h c)"
  by (simp add: clear_region_def clear_keeps split: option.split)

lemma save_screen_ok: "wf_con K c \<Longrightarrow> keeps K c (save_screen sw c)"
  by (simp add: save_screen_def save_screen_keeps split: option.split)

lemma putc_blanks_ok: "wf_con K c \<Longrightarrow> keeps K c (putc_blanks sw n col c)"
proof (induction n arbitrary: c)
  case (Suc n)
  show ?case
    using keeps_step [OF putc_keeps [OF Suc.prems] Suc.IH] by simp
qed simp

lemma upd_attr_ok: "wf_con K c \<Longrightarrow> keeps K c (upd_vc (\<lambda>v. v\<lparr>vc_attr := a v\<rparr>) c)"
  by (rule keeps_upd_vc) simp_all

lemma redraw_shift_ok: "wf_con K c \<Longrightarrow> keeps K c (redraw_shift sw f t nr col c)"
  unfolding redraw_shift_def Let_def if_distrib [of "keeps K c"]
  by (auto intro!: keeps_step [OF _ upd_attr_ok] keeps_step [OF _ putc_blanks_ok] bmove_keeps)

lemma need_wrap_ok: "wf_con K c \<Longrightarrow> keeps K c (upd_vc (\<lambda>v. v\<lparr>vc_need_wrap := b\<rparr>) c)"
  by (rule keeps_upd_vc) simp_all

lemma insert_char_ok:
  assumes "wf_con K c" "0 \<le> nr" "nr \<le> vc_cols (vc c) - vc_x (vc c)"
  shows "keeps K c (insert_char sw nr c)"
proof -
  let ?v = "vc c"
  note v = wf_con_vc [OF assms(1)]
  note g = wf_geomD [OF wf_con_geom [OF assms(1)]]
  have "{vc_pos ?v ..< vc_pos ?v + nr * 2} \<subseteq> scr_region K"
    using row_cells_in_region [OF v, of "vc_x ?v" nr] assms g by (simp add: mult.commute)
  moreover have "{vc_pos ?v + 2 * nr ..< vc_pos ?v + 2 * nr
      + 2 * int (nat (vc_cols ?v - nr - vc_x ?v))} \<subseteq> scr_region K"
    using row_cells_in_region [OF v, of "vc_x ?v + nr" "vc_cols ?v - nr - vc_x ?v"] assms g
    by (simp add: algebra_simps)
  ultimately show ?thesis
    unfolding insert_char_def Let_def using assms(1)
    by (intro keeps_step [OF _ redraw_shift_ok] keeps_step [OF _ need_wrap_ok] keeps_upd_mem)
      (simp_all add: same_off_memsetw same_off_shift_right)
qed

lemma delete_char_ok:
  assumes "wf_con K c" "0 \<le> nr" "nr \<le> vc_cols (vc c) - vc_x (vc c)"
  shows "keeps K c (delete_char sw nr c)"
proof -
  let ?v = "vc c" and ?k = "nat (vc_cols (vc c) - nr - vc_x (vc c))"
  note v = wf_con_vc [OF assms(1)]
  note g = wf_geomD [OF wf_con_geom [OF assms(1)]]
  have "{vc_pos ?v + 2 * int ?k ..< vc_pos ?v + 2 * int ?k + nr * 2} \<subseteq> scr_region K"
    using row_cells_in_region [OF v, of "vc_cols ?v - nr" nr] assms g by (simp add: algebra_simps)
  moreover have "{vc_pos ?v ..< vc_pos ?v + 2 * int ?k} \<subseteq> scr_region K"
    using row_cells_in_region [OF v, of "vc_x ?v" "vc_cols ?v - nr - vc_x ?v"] assms g
    by (simp add: algebra_simps)
  ultimately show ?thesis
    unfolding delete_char_def Let_def using assms(1)
    by (intro keeps_step [OF _ redraw_shift_ok] keeps_step [OF _ need_wrap_ok] keeps_upd_mem)
      (simp_all add: same_off_memsetw same_off_shift_left)
qed

text \<open>Drawing a region always returns: the fuel of \<open>upd_rows\<close> is enough.\<close>

lemma flush_run_ok: "wf_con K c \<Longrightarrow> keeps K c (flush_run sw q p yy startx c)"
  by (simp add: flush_run_def putcs_keeps)

lemma upd_row_ok:
  "wf_con K c \<Longrightarrow> keeps K c (snd (snd (upd_row sw n p q xx startx attrib yy c)))"
proof (induction n arbitrary: p q xx startx attrib c)
  case (Suc n)
  let ?c1 = "flush_run sw q p yy startx c"
  have k: "keeps K c ?c1"
    using Suc.prems by (rule flush_run_ok)
  have "keeps K c (snd (snd (upd_row sw n (p + 2) p (xx + 1) xx (mem ?c1 p AND 0xff00) yy ?c1)))"
    using keeps_step [OF k Suc.IH] .
  then show ?case using k Suc by (simp add: Let_def)
qed (simp add: flush_run_ok)

lemma upd_rows_ok:
  assumes "wf_con K c" "count < fuel" "xx < vc_cols (vc c) \<or> Suc count < fuel"
  shows "res_ok (keeps K c) (upd_rows sw fuel count start p xx yy c)"
  using assms
proof (induction fuel arbitrary: count start p xx yy c)
  case (Suc fuel)
  define r where "r = upd_row sw count p p xx xx (mem c p AND 0xff00) yy c"
  have k: "keeps K c (snd (snd r))"
    unfolding r_def using Suc.prems(1) by (rule upd_row_ok)
  have pos: "0 < vc_cols (vc (snd (snd r)))"
    using wf_geomD(1) [OF wf_con_geom [OF keeps_wf [OF k]]] .
  have "fst r \<le> count" "xx < vc_cols (vc c) \<Longrightarrow> fst r \<noteq> 0 \<Longrightarrow> fst r < count"
    unfolding r_def using upd_row_left_le upd_row_progress
    by (blast, metis gr_zeroI le_zero_eq upd_row_left_le)
  then have "fst r \<noteq> 0 \<Longrightarrow> fst r < fuel"
    using Suc.prems(2,3) by linarith
  then have "fst r \<noteq> 0 \<Longrightarrow> res_ok (keeps K c) (upd_rows sw fuel (fst r) st q 0 y (snd (snd r)))" for st q y
    using Suc.IH [OF keeps_wf [OF k], of "fst r" 0] pos keeps_trans [OF k]
    by (blast intro: res_ok_mono)
  then show ?case
    using k by (simp add: r_def [symmetric] case_prod_beta split: option.split)
qed simp

lemma do_update_region_ok:
  assumes "wf_con K c"
  shows "res_ok (keeps K c) (do_update_region sw start count c)"
proof -
  have "0 < vc_cols (vc c)"
    using wf_geomD(1) [OF wf_con_geom [OF assms]] .
  then show ?thesis
    using upd_rows_ok [OF assms, of "nat count" "nat count + 2"]
    by (simp add: do_update_region_def Let_def case_prod_beta split: option.split)
qed

lemma screenpos_region:
  assumes "wf_vc (scr_region K) v" "0 \<le> off" "off + 2 * n \<le> vc_screenbuf_size v"
  shows "{screenpos sw v off viewed ..< screenpos sw v off viewed + 2 * n} \<subseteq> scr_region K"
proof -
  have "{vc_origin v + off ..< vc_origin v + off + 2 * n} \<subseteq> scr_region K"
    "{vc_visible_origin v + off ..< vc_visible_origin v + off + 2 * n} \<subseteq> scr_region K"
    using assms(2,3) by (intro order.trans [OF _ wf_vcD(5) [OF assms(1)]]
        order.trans [OF _ wf_vcD(6) [OF assms(1)]]; auto)+
  then show ?thesis
    using screen_pos_region [OF _ assms] by (auto simp: screenpos_def split: option.split)
qed

lemma invert_screen_ok:
  assumes "wf_con K c" "0 \<le> off" "off + count \<le> vc_screenbuf_size (vc c)" "0 \<le> count"
  shows "res_ok (keeps K c) (invert_screen sw off count viewed c)"
proof -
  let ?p = "screenpos sw (vc c) off viewed"
  define c1 where "c1 = (case con_invert_region sw of
      Some f \<Rightarrow> f ?p (count div 2) c
    | None \<Rightarrow> upd_mem (map_cells (invert_cell (vc c)) (nat (count div 2)) ?p) c)"
  have r: "{?p ..< ?p + 2 * (count div 2)} \<subseteq> scr_region K"
    using assms by (intro screenpos_region wf_con_vc) auto
  have k: "keeps K c c1"
    unfolding c1_def using assms(1,4) r
    by (auto simp: invert_region_keeps keeps_upd_mem same_off_map_cells split: option.split)
  have "res_ok (keeps K c) (do_update_region sw start n c1)" for start n
    using do_update_region_ok [OF keeps_wf [OF k]] keeps_trans [OF k] by (rule res_ok_mono)
  then show ?thesis
    using k by (simp add: invert_screen_def Let_def c1_def [symmetric])
qed

text \<open>Pointer and selection. The selection is only inverted within the screen.\<close>

lemma uncomplement_ok: "wf_con K c \<Longrightarrow> keeps K c (uncomplement sw c)"
proof (cases "cp_p c")
  case (Some p)
  assume wf: "wf_con K c"
  have "keeps K c (upd_mem (scr_writew (cp_old c) p) c)"
    using wf wf_conD(4) [OF wf Some] by (intro keeps_upd_mem same_off_writew) simp_all
  then show ?thesis
    using Some keeps_step [OF _ putc_keeps] by (simp add: uncomplement_def Let_def)
qed (simp add: uncomplement_def)

lemma hide_pointer_ok: "wf_con K c \<Longrightarrow> res_ok (keeps K c) (hide_pointer sw c)"
proof (cases "cp_p c")
  case (Some p)
  assume wf: "wf_con K c"
  obtain n where n: "sel_cons c = Some n"
    using wf_conD(5) [OF wf Some] by auto
  have "get_console c n \<noteq> None"
    using wf_conD(6) [OF wf] n by (simp add: wf_sel_def)
  then show ?thesis
    using wf n Some keeps_step [OF uncomplement_ok] unfolding hide_pointer_def
    by (auto simp: complement_pos_def intro!: keeps_in_console)
qed (simp add: hide_pointer_def)

lemma highlight_selection_ok:
  assumes wf: "wf_con K c" and "sel_start c \<noteq> -1"
  shows "res_ok (keeps K c) (highlight sw (sel_start c) (sel_end c) c)"
proof -
  obtain n v where n: "sel_cons c = Some n" "get_console c n = Some v"
    "0 \<le> sel_start c" "sel_start c \<le> sel_end c" "sel_end c + 2 \<le> vc_screenbuf_size v"
    using wf_conD(6) [OF wf] assms(2) unfolding wf_sel_def by blast
  show ?thesis
    unfolding highlight_def
  proof (rule keeps_in_console [OF wf n(1)])
    fix c' assume c': "wf_con K c'" "vc_num (vc c') = n" "get_console c' = get_console c"
    have "vc c' = v"
      using c'(2,3) n(2) get_console_own [of c'] by simp
    then show "res_ok (keeps K c') (invert_screen sw (sel_start c) (sel_end c - sel_start c + 2) True c')"
      using c'(1) n by (intro invert_screen_ok) auto
  qed (simp add: n)
qed

lemma clear_selection_ok: "wf_con K c \<Longrightarrow> res_ok (keeps K c) (clear_selection sw c)"
  unfolding clear_selection_def
  by (rule keeps_bind [OF hide_pointer_ok])
    (auto intro!: keeps_bind highlight_selection_ok)

lemma clear_own_selection_ok:
  "wf_con K c \<Longrightarrow> res_ok (keeps K c) (if b then clear_selection sw c else Inr c)"
  by (simp add: clear_selection_ok)

text \<open>Cursor.\<close>

lemma cursor_original_ok:
  "wf_con K c \<Longrightarrow> keeps K c (upd_vt d (\<lambda>t. t\<lparr>cursor_original := w\<rparr>) c)"
  by (rule keeps_upd_vt) (simp_all add: vt_ids_def)

lemma write_at_cursor_ok: "wf_con K c \<Longrightarrow> keeps K c (upd_mem (scr_writew w (vc_pos (vc c))) c)"
  using pos_in_buffer(3) [OF wf_con_vc] by (intro keeps_upd_mem same_off_writew) simp_all

lemma add_softcursor_ok:
  assumes "wf_con K c"
  shows "keeps K c (add_softcursor sw c)"
proof -
  have *: "keeps K c (upd_mem (scr_writew i (vc_pos (vc c)))
      (upd_vt d (\<lambda>t. t\<lparr>cursor_original := w\<rparr>) c))" for d w i
    using keeps_step [OF cursor_original_ok [OF assms] write_at_cursor_ok] by simp
  show ?thesis
    using assms keeps_step [OF * putc_keeps] * by (simp add: add_softcursor_def Let_def)
qed

lemma hide_softcursor_ok:
  assumes "wf_con K c"
  shows "keeps K c (hide_softcursor sw c)"
  using assms keeps_step [OF write_at_cursor_ok [OF assms] putc_keeps]
    write_at_cursor_ok [OF assms] keeps_step [OF _ cursor_original_ok]
  by (simp add: hide_softcursor_def Let_def split: option.split)

lemma hide_cursor_ok: "wf_con K c \<Longrightarrow> res_ok (keeps K c) (hide_cursor sw c)"
  unfolding hide_cursor_def
  by (rule keeps_bind [OF clear_own_selection_ok])
    (auto intro!: keeps_step [OF cursor_keeps hide_softcursor_ok])

lemma set_cursor_ok:
  assumes "wf_con K c"
  shows "res_ok (keeps K c) (set_cursor sw c)"
proof -
  have "res_ok (keeps K c) (res_bind (if b then clear_selection sw c else Inr c) (\<lambda>c1.
      let c2 = add_softcursor sw c1 in
      Inr (if vc_cursor_type (vc c2) AND 0x0f \<noteq> 1 then con_cursor sw CM_DRAW c2 else c2)))" for b
    by (rule keeps_bind [OF clear_own_selection_ok [OF assms]])
      (simp add: Let_def add_softcursor_ok keeps_step [OF add_softcursor_ok cursor_keeps])
  then show ?thesis
    using assms hide_cursor_ok by (simp add: set_cursor_def)
qed

lemma update_region_ok: "wf_con K c \<Longrightarrow> res_ok (keeps K c) (update_region sw start count c)"
  unfolding update_region_def
  by (auto intro!: keeps_bind [OF hide_cursor_ok] keeps_bind [OF do_update_region_ok] set_cursor_ok)

lemma clear_buffer_attributes_ok: "wf_con K c \<Longrightarrow> keeps K c (clear_buffer_attributes c)"
proof -
  assume wf: "wf_con K c"
  have "0 \<le> vc_screenbuf_size (vc c)"
    using wf_geomD [OF wf_con_geom [OF wf]] by simp
  then have "{vc_origin (vc c) ..< vc_origin (vc c) + 2 * int (nat (vc_screenbuf_size (vc c) div 2))}
      \<subseteq> scr_region K"
    by (intro order.trans [OF _ wf_vcD(5) [OF wf_con_vc [OF wf]]]) auto
  then show ?thesis
    unfolding clear_buffer_attributes_def Let_def
    by (intro keeps_upd_mem wf same_off_map_cells)
qed

lemma update_attr_ok: "wf_con K c \<Longrightarrow> keeps K c (upd_vc (update_attr sw) c)"
  by (rule keeps_upd_vc) (simp_all add: update_attr_def)

lemma keeps_timers:
  assumes "wf_con K c"
  shows "keeps K c (mod_timer d i c)"
    "keeps K c (upd_vt d (\<lambda>t. t\<lparr>blank_state := b\<rparr>) c)"
    "keeps K c (upd_vt d (\<lambda>t. t\<lparr>vt_blanked := False\<rparr>) c)"
    "keeps K c (upd_vt d (\<lambda>t. t\<lparr>timer := w, blank_timer_expired := e\<rparr>) c)"
  unfolding mod_timer_def using assms by (auto simp: vt_ids_def intro!: keeps_upd_vt)

lemma scrolldelta_ok: "wf_con K c \<Longrightarrow> keeps K c (scrolldelta d n c)"
  unfolding scrolldelta_def by (rule keeps_step [OF keeps_upd_vt keeps_log]) (simp_all add: vt_ids_def)

lemma reset_vc_ok: "wf_con K c \<Longrightarrow> keeps K c (reset_vc sw irq c)"
proof -
  assume "wf_con K c"
  then have "keeps K c (upd_vc (\<lambda>v. v\<lparr>vc_mode := KD_TEXT,
      kbd_table := (kbd_table v)\<lparr>kbdmode := VC_XLATE\<rparr>,
      vt_mode := \<lparr>vtm_mode = VT_AUTO, vtm_waitv = 0, vtm_relsig = 0, vtm_acqsig = 0, vtm_frsig = 0\<rparr>,
      vt_pid := -1, vt_newvt := -1\<rparr>) c)"
    by (rule keeps_upd_vc) simp_all
  then show ?thesis
    using keeps_step [OF _ reset_palette_ok] by (simp add: reset_vc_def Let_def)
qed

lemma log_list_ok: "wf_con K c \<Longrightarrow> keeps K c (fold (\<lambda>ch. log (Flip_char tty ch)) s c)"
proof (induction s arbitrary: c)
  case (Cons ch s)
  then show ?case using keeps_step [OF keeps_log Cons.IH] by simp
qed simp

lemma puts_queue_ok: "wf_con K c \<Longrightarrow> keeps K c (puts_queue s c)"
  unfolding puts_queue_def
  by (auto split: option.split intro!: keeps_step [OF log_list_ok keeps_log])

lemma put_queue_ok: "wf_con K c \<Longrightarrow> keeps K c (put_queue ch c)"
  unfolding put_queue_def by (auto split: option.split intro!: keeps_step [OF keeps_log keeps_log])

lemma setledstate_ok: "wf_con K c \<Longrightarrow> keeps K c (setledstate led c)"
proof -
  have v: "wf_con K c \<Longrightarrow> keeps K c (upd_vc (\<lambda>v. v\<lparr>kbd_table := k v\<rparr>) c)" for k c
    by (rule keeps_upd_vc) simp_all
  have t: "wf_con K c \<Longrightarrow> keeps K c (upd_vt d (\<lambda>t. t\<lparr>vt_ledioctl := w\<rparr>) c)" for d w
    by (rule keeps_upd_vt) (simp_all add: vt_ids_def)
  show "wf_con K c \<Longrightarrow> keeps K c (setledstate led c)"
    unfolding setledstate_def using keeps_step [OF t v] v by (auto intro: keeps_step [OF _ keeps_log])
qed

lemma set_translate_ok: "wf_con K c \<Longrightarrow> m < 4 \<Longrightarrow> keeps K c (set_translate m c)"
  unfolding set_translate_def
  by (rule keeps_step [OF keeps_cm keeps_upd_vc]) (simp_all add: set_translate_map_def maps_def)

lemma mouse_report_ok: "wf_con K c \<Longrightarrow> keeps K c (mouse_report butt x y c)"
  by (simp add: mouse_report_def puts_queue_ok)

lemma set_console_ok:
  "wf_con K c \<Longrightarrow> get_console c n = Some v \<Longrightarrow> res_ok (keeps K c) (set_console (Some n) c)"
  unfolding set_console_def by (auto simp: vt_ids_def intro!: keeps_step [OF keeps_upd_vt keeps_log])
end

text \<open>The origin of a console that is not shown is its buffer, whatever the driver is.\<close>

lemma set_origin_hidden:
  assumes "wf_con K c" "\<not> is_visible c"
  shows "keeps K c (set_origin sw c)"
proof -
  have "keeps K c (upd_vc (\<lambda>v. v\<lparr>vc_origin := vc_screenbuf v, vc_visible_origin := vc_screenbuf v,
      vc_scr_end := vc_screenbuf v + vc_screenbuf_size v,
      vc_pos := vc_screenbuf v + vc_size_row v * vc_y v + 2 * vc_x v\<rparr>) c)"
    using assms
    by (intro keeps_upd_vc_gen) (auto simp: wf_vc_defs mult.commute simp del: atLeastLessThan_iff)
  then show ?thesis
    using assms(2) by (simp add: set_origin_def Let_def split: option.split)
qed

section \<open>The contract of a display\<close>

text \<open>
  A display also scrolls and places the screen in memory. Hardware scrolling may rely on
  \<open>scr_ready\<close>; setting the origin establishes it, from a state that need not have it.
\<close>

locale display_driver = drawing_driver sw K + core: drawing_driver sw "relaxed K"
  for sw :: "'d consw" and K :: "'d contract" +
  assumes scroll_region_keeps:
      "wf_con K c \<Longrightarrow> is_visible c \<Longrightarrow> 0 \<le> t \<Longrightarrow> t < b \<Longrightarrow> b \<le> vc_rows (vc c) \<Longrightarrow>
       1 \<le> nr \<Longrightarrow> nr < b - t \<Longrightarrow> keeps K c (snd (con_scroll_region sw t b dir nr c))"
    and scroll_region_refused:
      "\<not> fst (con_scroll_region sw t b dir nr c) \<Longrightarrow>
       \<exists>vo. vc (snd (con_scroll_region sw t b dir nr c)) = (vc c)\<lparr>vc_visible_origin := vo\<rparr>"
    and switch_keeps: "wf_con K c \<Longrightarrow> keeps K c (snd (con_switch sw c))"
    and set_origin_keeps:
      "wf_con (relaxed K) c \<Longrightarrow> is_visible c \<Longrightarrow> \<not> vt_blanked (vt c) \<Longrightarrow> unlocked K (drv c) \<Longrightarrow>
       keeps (relaxed K) c (set_origin sw c)"
    and set_origin_ready:
      "wf_con (relaxed K) c \<Longrightarrow> is_visible c \<Longrightarrow> \<not> vt_blanked (vt c) \<Longrightarrow> unlocked K (drv c) \<Longrightarrow>
       c1 = set_origin sw c \<Longrightarrow> scr_ready K (drv c1) (vc_origin (vc c1)) (vc_screenbuf_size (vc c1))"
    and unblank_keeps:
      "wf_con (relaxed K) c \<Longrightarrow> keeps (relaxed K) c (snd (con_blank sw 0 True c))"
    and unblank_quiet:
      "wf_con K c \<Longrightarrow> \<not> fst (con_blank sw 0 True c) \<Longrightarrow> wf_con K (snd (con_blank sw 0 True c))"
    and unblank_redo:
      "wf_con K c \<Longrightarrow> fst (con_blank sw 0 True c) \<Longrightarrow> unlocked K (drv (snd (con_blank sw 0 True c)))"
begin

text \<open>The software path of scrolling, taken when the driver refuses.\<close>

lemma scroll_step:
  assumes "wf_con K c" "0 \<le> t" "t < b" "b \<le> vc_rows (vc c)" "1 \<le> nr" "nr < b - t"
    and r: "r = (if is_visible c then con_scroll_region sw t b dir nr c else (False, c))"
  shows "keeps K c (snd r)" and "\<not> fst r \<Longrightarrow> \<exists>vo. vc (snd r) = (vc c)\<lparr>vc_visible_origin := vo\<rparr>"
proof -
  show "keeps K c (snd r)"
    using assms(1) scroll_region_keeps [OF assms(1) _ assms(2-6)] by (simp add: r)
  have "vc c = (vc c)\<lparr>vc_visible_origin := vc_visible_origin (vc c)\<rparr>"
    by simp
  then have "\<exists>vo. vc c = (vc c)\<lparr>vc_visible_origin := vo\<rparr>" ..
  then show "\<exists>vo. vc (snd r) = (vc c)\<lparr>vc_visible_origin := vo\<rparr>" if "\<not> fst r"
    using that scroll_region_refused [of t b dir nr c] unfolding r by (cases "is_visible c") simp_all
qed

lemma scroll_region_up_ok:
  assumes "wf_con K c" "0 \<le> t"
  shows "keeps K c (scroll_region_up sw t b nr0 c)"
proof -
  define nr where "nr = (if t + nr0 \<ge> b then b - t - 1 else nr0)"
  define r where "r = (if is_visible c then con_scroll_region sw t b SM_UP nr c else (False, c))"
  show ?thesis
  proof (cases "b > vc_rows (vc c) \<or> t \<ge> b \<or> nr < 1")
    case True
    then show ?thesis using assms by (simp add: scroll_region_up_def nr_def [symmetric])
  next
    case False
    then have args: "t < b" "b \<le> vc_rows (vc c)" "1 \<le> nr" "nr < b - t"
      by (auto simp: nr_def)
    note st = scroll_step [OF assms args r_def]
    show ?thesis
    proof (cases "fst r")
      case True
      then show ?thesis using False st(1)
        by (simp add: scroll_region_up_def nr_def [symmetric] r_def [symmetric] case_prod_beta)
    next
      case nd: False
      let ?v = "vc c"
      note v = wf_con_vc [OF assms(1)]
      note g = wf_geomD [OF wf_con_geom [OF assms(1)]]
      have "{vc_origin ?v + vc_size_row ?v * t ..< vc_origin ?v + vc_size_row ?v * (b - nr)} \<subseteq> scr_region K"
        "{vc_origin ?v + vc_size_row ?v * (b - nr) ..< vc_origin ?v + vc_size_row ?v * b} \<subseteq> scr_region K"
        using rows_in_region [OF v] assms args by simp_all
      then have "keeps K (snd r) (upd_mem (\<lambda>m. scr_memsetw
            (vc_origin ?v + vc_size_row ?v * t + 2 * ((b - t - nr) * vc_cols ?v)) (vc_video_erase_char ?v)
            (vc_size_row ?v * nr) (scr_memmovew (vc_origin ?v + vc_size_row ?v * t)
            (vc_origin ?v + vc_size_row ?v * (t + nr)) ((b - t - nr) * vc_size_row ?v) m)) (snd r))"
        using g(5) keeps_wf [OF st(1)]
        by (intro keeps_upd_mem same_off_memsetw same_off_memmovew) (simp_all add: algebra_simps)
      moreover obtain vo where "vc (snd r) = ?v\<lparr>vc_visible_origin := vo\<rparr>"
        using st(2) [OF nd] by blast
      ultimately show ?thesis using keeps_trans [OF st(1)] False nd
        by (simp add: scroll_region_up_def nr_def [symmetric] r_def [symmetric] case_prod_beta Let_def)
    qed
  qed
qed

lemma scroll_region_down_ok:
  assumes "wf_con K c" "0 \<le> t"
  shows "keeps K c (scroll_region_down sw t b nr0 c)"
proof -
  define nr where "nr = (if t + nr0 \<ge> b then b - t - 1 else nr0)"
  define r where "r = (if is_visible c then con_scroll_region sw t b SM_DOWN nr c else (False, c))"
  show ?thesis
  proof (cases "b > vc_rows (vc c) \<or> t \<ge> b \<or> nr < 1")
    case True
    then show ?thesis using assms by (simp add: scroll_region_down_def nr_def [symmetric])
  next
    case False
    then have args: "t < b" "b \<le> vc_rows (vc c)" "1 \<le> nr" "nr < b - t"
      by (auto simp: nr_def)
    note st = scroll_step [OF assms args r_def]
    show ?thesis
    proof (cases "fst r")
      case True
      then show ?thesis using False st(1)
        by (simp add: scroll_region_down_def nr_def [symmetric] r_def [symmetric] case_prod_beta)
    next
      case nd: False
      let ?v = "vc c"
      note v = wf_con_vc [OF assms(1)]
      note g = wf_geomD [OF wf_con_geom [OF assms(1)]]
      have "{vc_origin ?v + vc_size_row ?v * t ..< vc_origin ?v + vc_size_row ?v * (t + nr)} \<subseteq> scr_region K"
        "{vc_origin ?v + vc_size_row ?v * (t + nr) ..< vc_origin ?v + vc_size_row ?v * b} \<subseteq> scr_region K"
        using rows_in_region [OF v] assms args by simp_all
      then have "keeps K (snd r) (upd_mem (\<lambda>m. scr_memsetw
            (vc_origin ?v + vc_size_row ?v * t) (vc_video_erase_char ?v)
            (2 * (vc_cols ?v * nr)) (scr_memmovew (vc_origin ?v + vc_size_row ?v * t + 2 * (vc_cols ?v * nr))
            (vc_origin ?v + vc_size_row ?v * t) ((b - t - nr) * vc_size_row ?v) m)) (snd r))"
        using g(5) keeps_wf [OF st(1)]
        by (intro keeps_upd_mem same_off_memsetw same_off_memmovew) (simp_all add: algebra_simps)
      moreover obtain vo where "vc (snd r) = ?v\<lparr>vc_visible_origin := vo\<rparr>"
        using st(2) [OF nd] by blast
      ultimately show ?thesis using keeps_trans [OF st(1)] False nd
        by (simp add: scroll_region_down_def nr_def [symmetric] r_def [symmetric] case_prod_beta Let_def)
    qed
  qed
qed

lemma insert_line_ok: "wf_con K c \<Longrightarrow> keeps K c (insert_line sw nr c)"
  unfolding insert_line_def using wf_geomD(12) [OF wf_con_geom]
  by (intro keeps_step [OF scroll_region_down_ok need_wrap_ok])

lemma delete_line_ok: "wf_con K c \<Longrightarrow> keeps K c (delete_line sw nr c)"
  unfolding delete_line_def using wf_geomD(12) [OF wf_con_geom]
  by (intro keeps_step [OF scroll_region_up_ok need_wrap_ok])

text \<open>Redrawing a whole screen.\<close>

lemma set_origin_visible:
  assumes "wf_con (relaxed K) c" "is_visible c" "\<not> vt_blanked (vt c)" "unlocked K (drv c)"
  shows "keeps (relaxed K) c (set_origin sw c)" "wf_con K (set_origin sw c)"
proof -
  show k: "keeps (relaxed K) c (set_origin sw c)"
    using assms by (rule set_origin_keeps)
  show "wf_con K (set_origin sw c)"
    using keeps_visible [OF k] assms(2)
    by (intro wf_con_unrelaxed [OF keeps_wf [OF k] _ set_origin_ready [OF assms refl]]) blast
qed

lemma redraw_screen_ok:
  assumes wf: "wf_con K c1"
  shows "res_ok (keeps K c1) (redraw_screen sw was c1)"
  unfolding redraw_screen_def Let_def case_prod_beta
proof (rule keeps_bind [OF _ set_cursor_ok])
  let ?c3 = "set_palette sw (snd (con_switch sw c1))"
  let ?c4 = "if was \<noteq> vc_can_do_color (vc ?c3)
     then clear_buffer_attributes (upd_vc (update_attr sw) ?c3) else ?c3"
  have k3: "keeps K c1 ?c3"
    using switch_keeps [OF wf] by (rule keeps_then_palette)
  have "keeps K c1 ?c4"
    using k3 keeps_step [OF keeps_step [OF k3 update_attr_ok] clear_buffer_attributes_ok] by simp
  then show "res_ok (keeps K c1) (if fst (con_switch sw c1) \<and> vc_mode (vc ?c4) \<noteq> KD_GRAPHICS
      then do_update_region sw (vc_origin (vc ?c4)) (vc_screenbuf_size (vc ?c4) div 2) ?c4 else Inr ?c4)"
    using keeps_then [OF _ do_update_region_ok]
    by (cases "fst (con_switch sw c1) \<and> vc_mode (vc ?c4) \<noteq> KD_GRAPHICS") simp_all
qed assumption

text \<open>A visible console may come in unready and leaves ready.\<close>

lemma update_screen_visible:
  assumes wf: "wf_con (relaxed K) c"
    and vis: "is_visible c" "\<not> vt_blanked (vt c)" "unlocked K (drv c)"
  shows "res_ok (\<lambda>c'. keeps (relaxed K) c c' \<and> wf_con K c') (update_screen sw c)"
  unfolding update_screen_def
proof (rule res_ok_bind [OF core.hide_cursor_ok [OF wf]])
  fix c1 assume k: "keeps (relaxed K) c c1"
  then have u: "unlocked K (drv c1)"
    using keeps_unlocked [OF k] vis(3) by simp
  have "is_visible c1" "\<not> vt_blanked (vt c1)"
    using keeps_visible [OF k] keeps_unblanked [OF k] vis by simp_all
  note so = set_origin_visible [OF keeps_wf [OF k] this u]
  show "res_ok (\<lambda>c'. keeps (relaxed K) c c' \<and> wf_con K c')
      (redraw_screen sw (vc_can_do_color (vc c)) (set_origin sw c1))"
    using redraw_screen_ok [OF so(2)]
    by (rule res_ok_mono) (blast intro: keeps_trans [OF k] keeps_trans [OF so(1)] keeps_relaxed keeps_wf)
qed

lemma update_screen_ok:
  assumes wf: "wf_con K c" and vis: "is_visible c \<Longrightarrow> \<not> vt_blanked (vt c) \<and> unlocked K (drv c)"
  shows "res_ok (keeps K c) (update_screen sw c)"
proof (cases "is_visible c")
  case True
  then show ?thesis
    using update_screen_visible [OF wf_con_relaxed [OF wf] True] vis keeps_unrelaxed
    by (auto elim!: res_ok_mono)
next
  case False
  show ?thesis
    unfolding update_screen_def
  proof (rule keeps_bind [OF hide_cursor_ok [OF wf]])
    fix c1 assume c1: "wf_con K c1" "keeps K c c1"
    then have "keeps K c1 (set_origin sw c1)"
      using keeps_visible [OF c1(2)] False by (intro set_origin_hidden) simp_all
    then show "res_ok (keeps K c1) (redraw_screen sw (vc_can_do_color (vc c)) (set_origin sw c1))"
      by (rule keeps_then) (rule redraw_screen_ok)
  qed
qed

text \<open>Unblanking.\<close>

lemma unblank_text_ok:
  assumes wf: "wf_con K c" and d: "display_fg (vc c) = d" and vis: "is_visible c"
  shows "res_ok (keeps K c) (unblank_text sw d c)"
proof -
  define c1 where "c1 = (if blank_interval (vts c d) \<noteq> 0
    then upd_vt d (\<lambda>t. t\<lparr>blank_state := blank_normal_wait\<rparr>)
           (mod_timer d (blank_interval (vts c d)) c) else c)"
  define c2 where "c2 = upd_vt d (\<lambda>t. t\<lparr>vt_blanked := False\<rparr>) c1"
  define r where "r = con_blank sw 0 True c2"
  have "keeps K c c1"
    unfolding c1_def using wf by (auto intro: keeps_step [OF keeps_timers(1)] keeps_timers(2))
  then have k2: "keeps K c c2"
    unfolding c2_def by (rule keeps_step) (rule keeps_timers)
  have kr: "keeps (relaxed K) c2 (snd r)"
    unfolding r_def using wf_con_relaxed [OF keeps_wf [OF k2]] by (rule unblank_keeps)
  have "\<not> vt_blanked (vt c2)"
    using d keeps_display_fg [OF k2] by (simp add: c2_def vt_def)
  then have v2: "\<not> vt_blanked (vt (snd r))" "is_visible (snd r)"
    using keeps_unblanked [OF kr] keeps_visible [OF kr] keeps_visible [OF k2] vis by simp_all
  have redo: "fst r \<Longrightarrow> unlocked K (drv (snd r))"
    unfolding r_def using keeps_wf [OF k2] by (rule unblank_redo)
  have quiet: "\<not> fst r \<Longrightarrow> wf_con K (snd r)"
    unfolding r_def using keeps_wf [OF k2] by (rule unblank_quiet)
  have "res_ok (\<lambda>c'. keeps (relaxed K) (snd r) c' \<and> wf_con K c')
      (if fst r then update_screen sw (snd r) else Inr (snd r))"
    using update_screen_visible [OF keeps_wf [OF kr] v2(2,1) redo] quiet keeps_wf [OF kr]
    by (simp add: wf_con_relaxed)
  then have u: "res_ok (keeps K c) (if fst r then update_screen sw (snd r) else Inr (snd r))"
    by (rule res_ok_mono)
      (blast intro: keeps_unrelaxed keeps_trans keeps_relaxed k2 kr)
  have "res_ok (keeps K c) (res_bind (if fst r then update_screen sw (snd r) else Inr (snd r))
      (\<lambda>c3. set_cursor sw (set_palette sw
         (if console_blank_hook c3 = None then c3 else log (Blank_hook 0) c3))))"
  proof (rule keeps_bind [OF u])
    fix c3 assume "wf_con K c3"
    then have "keeps K c3 (set_palette sw
         (if console_blank_hook c3 = None then c3 else log (Blank_hook 0) c3))"
      by (intro keeps_then_palette) simp
    then show "res_ok (keeps K c3) (set_cursor sw (set_palette sw
         (if console_blank_hook c3 = None then c3 else log (Blank_hook 0) c3)))"
      by (rule keeps_then) (rule set_cursor_ok)
  qed
  then show ?thesis
    unfolding unblank_text_def Let_def c1_def [symmetric] c2_def [symmetric] r_def [symmetric]
      case_prod_beta .
qed

lemma unblank_vt_ok:
  assumes "wf_con K c"
  shows "res_ok (keeps K c) (unblank_vt sw d c)"
proof -
  let ?c = "c\<lparr>ignore_poke := False\<rparr>"
  have k: "keeps K c ?c" using assms by simp
  note wf = keeps_wf [OF k]
  have "res_ok (keeps K ?c) (in_console (fg_console (vts ?c d)) (\<lambda>c.
      if vc_mode (vc c) \<noteq> KD_TEXT then Inr c else unblank_text sw d c) ?c)"
    if fg: "fg_console (vts ?c d) = Some n" for n
  proof (rule keeps_in_console [OF wf fg])
    show "get_console ?c n \<noteq> None"
      using wf_conD(3) [OF wf fg] by auto
    fix c' assume c': "wf_con K c'" "get_console c' = get_console ?c" "vc_num (vc c') = n"
      "vts c' = vts ?c"
    then have "display_fg (vc c') = d"
      using wf_conD(3) [OF wf fg] get_console_own [of c'] by simp
    moreover have "is_visible c'"
      using c'(3,4) fg calculation by (simp add: is_visible_def vt_def)
    ultimately show "res_ok (keeps K c') (if vc_mode (vc c') \<noteq> KD_TEXT then Inr c' else unblank_text sw d c')"
      using c'(1) unblank_text_ok by simp
  qed
  then have "res_ok (keeps K ?c) (unblank_vt sw d c)"
    using wf by (cases "fg_console (vts c d)") (auto simp: unblank_vt_def Let_def)
  then show ?thesis
    using keeps_trans [OF k] by (rule res_ok_mono)
qed

lemma unblank_screen_ok: "wf_con K c \<Longrightarrow> res_ok (keeps K c) (unblank_screen sw c)"
proof -
  have "wf_con K c \<Longrightarrow> res_ok (keeps K c) (unblank_list sw ds c)" for ds
    by (induction ds arbitrary: c) (auto intro!: keeps_bind [OF unblank_vt_ok])
  then show "wf_con K c \<Longrightarrow> res_ok (keeps K c) (unblank_screen sw c)"
    by (simp add: unblank_screen_def)
qed

lemma poke_blanked_console_ok:
  assumes "wf_con K c"
  shows "res_ok (keeps K c) (poke_blanked_console sw d c)"
proof -
  define c1 where "c1 = upd_vt d (\<lambda>t. t\<lparr>timer := None, blank_timer_expired := False\<rparr>) c"
  have k: "keeps K c c1" unfolding c1_def using assms by (rule keeps_timers)
  note wf = keeps_wf [OF k]
  have u: "res_ok (keeps K c) (unblank_vt sw d c1)"
    using unblank_vt_ok [OF wf] keeps_trans [OF k] by (rule res_ok_mono)
  have t: "keeps K c (upd_vt d (\<lambda>t. t\<lparr>blank_state := blank_normal_wait\<rparr>)
      (mod_timer d (blank_interval (vts c1 d)) c1))"
    using k by (rule keeps_step) (rule keeps_step [OF keeps_timers(1) keeps_timers(2)])
  have "fg_console (vts c1 d) = Some n \<Longrightarrow> get_console c1 n \<noteq> None" for n
    using wf_conD(3) [OF wf, of d n] by auto
  then show ?thesis
    using k u t unfolding poke_blanked_console_def c1_def [symmetric] Let_def
    by (auto split: option.split)
qed

end

end
