(* ===== verification/Decvte_Inv.thy ===== *)
theory Decvte_Inv
  imports Console_Keep Decvte
begin

text \<open>
  Every function of the terminal emulator (decvte.c) keeps the console state well-formed,
  whatever display driver is in use. Lemmas on \<open>vc_data\<close> alone first, then, in the context
  of the driver's contract, on the whole state.
\<close>

section \<open>Operations on one console\<close>

definition vc_place :: "vc_data \<Rightarrow> int \<times> int \<times> int \<times> int \<times> int" where
  "vc_place v = (vc_num v, vc_screenbuf_size v, vc_origin v, display_fg v, vc_uni_pagedir_loc v)"

lemma keeps_place:
  assumes "wf_con K c" "wf_vc (scr_region K) (vc c) \<Longrightarrow> wf_vc (scr_region K) (f (vc c))"
    and "vc_place (f (vc c)) = vc_place (vc c)" "settled (vc c) \<Longrightarrow> settled (f (vc c))"
  shows "keeps K c (upd_vc f c)"
  using assms by (intro keeps_upd_vc) (simp_all add: vc_place_def)

text \<open>What the emulator needs of an operation on the console at hand.\<close>

definition vc_step :: "(vc_data \<Rightarrow> vc_data) \<Rightarrow> bool" where
  "vc_step f \<longleftrightarrow>
     (\<forall>v. vc_place (f v) = vc_place v \<and> (settled v \<longrightarrow> settled (f v)) \<and>
        (\<forall>R. wf_vc R v \<longrightarrow> wf_vc R (f v)))"

lemma vc_stepI:
  "(\<And>v. vc_place (f v) = vc_place v) \<Longrightarrow> (\<And>v. settled v \<Longrightarrow> settled (f v)) \<Longrightarrow>
   (\<And>R v. wf_vc R v \<Longrightarrow> wf_vc R (f v)) \<Longrightarrow> vc_step f"
  by (simp add: vc_step_def)

lemma keeps_vc_step: "vc_step f \<Longrightarrow> wf_con K c \<Longrightarrow> keeps K c (upd_vc f c)"
  by (rule keeps_place) (simp_all add: vc_step_def)

lemma gotoxy_place [simp]: "vc_place (gotoxy x y v) = vc_place v"
  by (simp add: gotoxy_def Let_def vc_place_def)

lemma gotoxay_place [simp]: "vc_place (gotoxay x y v) = vc_place v"
  by (simp add: gotoxay_def)

lemma goto_parser [simp]:
  "vc_state (gotoxy x y v) = vc_state v" "vc_npar (gotoxy x y v) = vc_npar v"
  "vc_state (gotoxay x y v) = vc_state v" "vc_npar (gotoxay x y v) = vc_npar v"
  by (simp_all add: gotoxay_def gotoxy_def Let_def)

lemma move_x_parser [simp]: "vc_state (move_x x v) = vc_state v" "vc_npar (move_x x v) = vc_npar v"
  by (simp_all add: move_x_def)

lemma update_attr_place [simp]: "vc_place (update_attr sw v) = vc_place v"
  by (simp add: update_attr_def vc_place_def)

lemma default_attr_place [simp]: "vc_place (default_attr v) = vc_place v"
  by (simp add: default_attr_def vc_place_def)

lemma move_x_wf:
  "wf_vc R v \<Longrightarrow> 0 \<le> x \<Longrightarrow> x < vc_cols v \<Longrightarrow> wf_vc R (move_x x v)"
  by (auto simp: wf_vc_defs move_x_def simp del: atLeastLessThan_iff)

lemma move_x_place [simp]: "vc_place (move_x x v) = vc_place v"
  by (simp add: move_x_def vc_place_def)

lemma vte_cr_step: "vc_step vte_cr"
proof (rule vc_stepI)
  show "wf_vc R v \<Longrightarrow> wf_vc R (vte_cr v)" for R v
    by (auto simp: wf_vc_defs vte_cr_def simp del: atLeastLessThan_iff)
qed (simp_all add: vte_cr_def vc_place_def)

lemma vte_bs_step: "vc_step vte_bs"
proof (rule vc_stepI)
  show "wf_vc R v \<Longrightarrow> wf_vc R (vte_bs v)" for R v
    by (auto simp: wf_vc_defs vte_bs_def simp del: atLeastLessThan_iff)
qed (simp_all add: vte_bs_def vc_place_def)

lemma line_down_wf:
  "wf_vc R v \<Longrightarrow> vc_y v < vc_rows v - 1 \<Longrightarrow>
   wf_vc R (v\<lparr>vc_y := vc_y v + 1, vc_pos := vc_pos v + vc_size_row v\<rparr>)"
  by (auto simp: wf_vc_defs algebra_simps simp del: atLeastLessThan_iff)

lemma line_up_wf:
  "wf_vc R v \<Longrightarrow> vc_y v > 0 \<Longrightarrow>
   wf_vc R (v\<lparr>vc_y := vc_y v - 1, vc_pos := vc_pos v - vc_size_row v\<rparr>)"
  by (auto simp: wf_vc_defs algebra_simps simp del: atLeastLessThan_iff)

section \<open>Tab stops\<close>

lemma tab_at_ok: "length ts = 8 \<Longrightarrow> 0 \<le> x \<Longrightarrow> x < 256 \<Longrightarrow> res_ok (\<lambda>_. True) (tab_at ts x)"
proof -
  assume a: "length ts = 8" "0 \<le> x" "x < 256"
  then have "0 \<le> x div 32" "x div 32 < 8" by auto
  with a show ?thesis by (simp add: tab_at_def arr_get_def)
qed

lemma tab_back_ok:
  "length ts = 8 \<Longrightarrow> int k \<le> 256 \<Longrightarrow> res_ok (\<lambda>x. 0 \<le> x \<and> (x = 0 \<or> x < int k)) (tab_back ts k)"
proof (induction k)
  case (Suc k)
  then show ?case
    using tab_at_ok [of ts "int k"]
    by (auto intro!: res_ok_bind [OF tab_at_ok] elim!: res_ok_mono)
qed simp

lemma tab_forward_ok:
  "length ts = 8 \<Longrightarrow> 0 \<le> x \<Longrightarrow> x + int n < 256 \<Longrightarrow>
   res_ok (\<lambda>x'. x \<le> x' \<and> x' \<le> x + int n) (tab_forward ts n x)"
proof (induction n arbitrary: x)
  case (Suc n)
  have "res_ok (\<lambda>x'. x + 1 \<le> x' \<and> x' \<le> x + 1 + int n) (tab_forward ts n (x + 1))"
    using Suc.prems by (intro Suc.IH) simp_all
  then have "res_ok (\<lambda>x'. x \<le> x' \<and> x' \<le> x + int (Suc n)) (tab_forward ts n (x + 1))"
    by (rule res_ok_mono) simp
  then show ?case
    using Suc.prems by (auto intro!: res_ok_bind [OF tab_at_ok])
qed simp

definition vc_res :: "int set \<Rightarrow> vc_data \<Rightarrow> vc_data \<Rightarrow> bool" where
  "vc_res R v v' \<longleftrightarrow> wf_vc R v' \<and> vc_place v' = vc_place v \<and> (settled v \<longrightarrow> settled v')"

lemma wf_vc_tabs: "wf_vc R v \<Longrightarrow> length (vc_tab_stop v) = 8"
  by (simp add: wf_vc_def wf_parser_def)

lemma back_one_tab_ok: "wf_vc R v \<Longrightarrow> res_ok (vc_res R v) (back_one_tab v)"
proof -
  assume wf: "wf_vc R v"
  note g = wf_geomD [OF wf_vcD(1) [OF wf]]
  have "res_ok (\<lambda>x. 0 \<le> x \<and> (x = 0 \<or> x < int (nat (vc_x v)))) (tab_back (vc_tab_stop v) (nat (vc_x v)))"
    using g wf_vc_tabs [OF wf] by (intro tab_back_ok) auto
  then show ?thesis
    unfolding back_one_tab_def
    by (rule res_ok_bind) (use g wf in \<open>auto simp: vc_res_def intro: move_x_wf\<close>)
qed

lemma forward_one_tab_ok: "wf_vc R v \<Longrightarrow> res_ok (vc_res R v) (forward_one_tab v)"
proof -
  assume wf: "wf_vc R v"
  note g = wf_geomD [OF wf_vcD(1) [OF wf]]
  let ?n = "nat (vc_cols v - 1 - vc_x v)"
  have "res_ok (\<lambda>x'. vc_x v \<le> x' \<and> x' \<le> vc_x v + int ?n) (tab_forward (vc_tab_stop v) ?n (vc_x v))"
    using g wf_vc_tabs [OF wf] by (intro tab_forward_ok) auto
  then show ?thesis
    unfolding forward_one_tab_def
    by (rule res_ok_bind) (use g wf in \<open>auto simp: vc_res_def intro: move_x_wf\<close>)
qed

lemma repeat_res_ok:
  assumes "\<And>v. wf_vc R v \<Longrightarrow> res_ok (vc_res R v) (f v)"
  shows "wf_vc R v \<Longrightarrow> res_ok (vc_res R v) (repeat_res n f v)"
proof (induction n arbitrary: v)
  case (Suc n)
  show ?case
    unfolding repeat_res.simps
  proof (rule res_ok_bind [OF assms [OF Suc.prems]])
    fix v' assume v': "vc_res R v v'"
    then have "res_ok (vc_res R v') (repeat_res n f v')"
      by (intro Suc.IH) (simp add: vc_res_def)
    then show "res_ok (vc_res R v) (repeat_res n f v')"
      by (rule res_ok_mono) (use v' in \<open>auto simp: vc_res_def\<close>)
  qed
qed (simp add: vc_res_def)

lemma vte_cbt_ok: "wf_vc R v \<Longrightarrow> res_ok (vc_res R v) (vte_cbt p v)"
  unfolding vte_cbt_def by (rule repeat_res_ok [OF back_one_tab_ok])

lemma vte_cht_ok: "wf_vc R v \<Longrightarrow> res_ok (vc_res R v) (vte_cht p v)"
  unfolding vte_cht_def by (rule repeat_res_ok [OF forward_one_tab_ok])

lemma set_tab_ok: "wf_vc R v \<Longrightarrow> res_ok (vc_res R v) (set_tab f v)"
proof -
  assume wf: "wf_vc R v"
  note g = wf_geomD [OF wf_vcD(1) [OF wf]]
  have "0 \<le> vc_x v div 32" "vc_x v div 32 < 8"
    using g by auto
  then show ?thesis
    using wf wf_vc_tabs [OF wf]
    by (simp add: set_tab_def arr_get_def arr_set_def vc_res_def vc_place_def)
qed

lemma vte_hts_ok: "wf_vc R v \<Longrightarrow> res_ok (vc_res R v) (vte_hts v)"
  by (simp add: vte_hts_def set_tab_ok)

lemma vte_tbc_ok: "wf_vc R v \<Longrightarrow> res_ok (vc_res R v) (vte_tbc p v)"
  using wf_vc_tabs [of R v] by (simp add: vte_tbc_def set_tab_ok vc_res_def vc_place_def)

lemma lift_vc_ok:
  assumes "wf_con K c" "\<And>v. wf_vc (scr_region K) v \<Longrightarrow> res_ok (vc_res (scr_region K) v) (f v)"
  shows "res_ok (keeps K c) (lift_vc f c)"
  unfolding lift_vc_def
proof (rule res_ok_bind [OF assms(2) [OF wf_con_vc [OF assms(1)]]])
  fix v assume "vc_res (scr_region K) (vc c) v"
  then have "keeps K c (upd_vc (\<lambda>_. v) c)"
    using assms(1) by (intro keeps_place) (auto simp: vc_res_def)
  then show "res_ok (keeps K c) (Inr (c\<lparr>vc := v\<rparr>))"
    by (simp add: upd_vc_def)
qed

section \<open>Rendition, reports, modes\<close>

lemma kbd_flag_step: "vc_step (kbd_flag on_off flag)"
  by (rule vc_stepI) (simp_all add: kbd_flag_def vc_place_def)

lemma vte_decscl_step: "vc_step vte_decscl"
  by (rule vc_stepI) (simp_all add: vte_decscl_def vc_place_def)

lemma vte_decsc_wf: "wf_vc R v \<Longrightarrow> wf_vc R (vte_decsc v)"
  by (auto simp: wf_vc_defs vte_decsc_def simp del: atLeastLessThan_iff)

lemma vte_decsc_step: "vc_step vte_decsc"
  by (rule vc_stepI) (simp_all add: vte_decsc_wf, simp_all add: vte_decsc_def vc_place_def)

lemma restore_saved_step: "vc_step restore_saved"
proof (rule vc_stepI)
  fix R v assume wf: "wf_vc R v"
  have "vc_saved_G0 v < 4" "vc_saved_G1 v < 4" "vc_saved_G2 v < 4" "vc_saved_G3 v < 4"
    using wf by (simp_all add: wf_vc_def wf_charsets_def)
  then show "wf_vc R (restore_saved v)"
    using wf by (simp add: restore_saved_def)
qed (simp_all add: restore_saved_def gotoxy_def Let_def vc_place_def)

lemma ris_vc_wf: "wf_vc R v \<Longrightarrow> wf_vc R (ris_vc v)"
  by (auto simp: wf_vc_defs ris_vc_def simp del: atLeastLessThan_iff)

lemma ris_vc_step: "vc_step ris_vc"
  by (rule vc_stepI) (simp_all add: ris_vc_wf, simp_all add: ris_vc_def vc_place_def)

lemma goto_xy_save_step: "vc_step (\<lambda>v. vte_decsc (gotoxy x y v))"
  using vte_decsc_step by (simp add: vc_step_def)

text \<open>Updates of fields the invariant does not mention.\<close>

lemma flag_steps:
  "vc_step (\<lambda>v. v\<lparr>vc_need_wrap := b\<rparr>)" "vc_step (\<lambda>v. v\<lparr>vc_intensity := i\<rparr>)"
  "vc_step (\<lambda>v. v\<lparr>vc_underline := b\<rparr>)" "vc_step (\<lambda>v. v\<lparr>vc_blink := b\<rparr>)"
  "vc_step (\<lambda>v. v\<lparr>vc_reverse := b\<rparr>)"
  "vc_step (\<lambda>v. v\<lparr>vc_disp_ctrl := b, vc_toggle_meta := b1\<rparr>)"
  "vc_step (\<lambda>v. v\<lparr>vc_color := col v, vc_underline := b\<rparr>)" "vc_step (\<lambda>v. v\<lparr>vc_color := col v\<rparr>)"
  "vc_step (\<lambda>v. v\<lparr>vc_decscnm := b\<rparr>)" "vc_step (\<lambda>v. v\<lparr>vc_decawm := b\<rparr>)"
  "vc_step (\<lambda>v. v\<lparr>vc_report_mouse := i\<rparr>)" "vc_step (\<lambda>v. v\<lparr>vc_dectcem := b\<rparr>)"
  "vc_step (\<lambda>v. v\<lparr>vc_disp_ctrl := b\<rparr>)"
  "vc_step (\<lambda>v. v\<lparr>vc_irm := b\<rparr>)" "vc_step (\<lambda>v. v\<lparr>vc_charset := b\<rparr>)"
  "vc_step (\<lambda>v. v\<lparr>vc_kam := b\<rparr>)" "vc_step (\<lambda>v. v\<lparr>vc_utf := b\<rparr>)"
  "vc_step (\<lambda>v. v\<lparr>vc_priv2 := b\<rparr>)" "vc_step (\<lambda>v. v\<lparr>vc_priv3 := b\<rparr>)"
  "vc_step (\<lambda>v. v\<lparr>vc_priv4 := b\<rparr>)"
  "vc_step (\<lambda>v. v\<lparr>vc_priv1 := b, vc_priv2 := b1, vc_priv3 := b2, vc_priv4 := b3\<rparr>)"
  "vc_step (\<lambda>v. v\<lparr>vc_cursor_type := ct v\<rparr>)" "vc_step (\<lambda>v. v\<lparr>vc_complement_mask := cmask v\<rparr>)"
  "vc_step (\<lambda>v. v\<lparr>vc_video_erase_char := cmask v\<rparr>)"
  "vc_step (\<lambda>v. v\<lparr>vc_shift := b, vc_GS_charset := g v\<rparr>)"
  "vc_step (\<lambda>v. v\<lparr>vc_bell_pitch := h v\<rparr>)" "vc_step (\<lambda>v. v\<lparr>vc_bell_duration := h v\<rparr>)"
  "vc_step (\<lambda>v. if vc_decscl v \<noteq> 1 then v\<lparr>vc_c8bit := b\<rparr> else v)"
  by (simp_all add: vc_step_def vc_place_def)

lemma origin_mode_step: "vc_step (\<lambda>v. gotoxay 0 0 (v\<lparr>vc_decom := b\<rparr>))"
  by (rule vc_stepI) (simp_all, simp add: vc_place_def)

lemma attr_steps:
  "vc_step default_attr" "vc_step (update_attr sw)"
  "vc_step (\<lambda>v. (update_attr sw v)\<lparr>vc_need_wrap := b\<rparr>)"
  "vc_step (\<lambda>v. if vc_underline v then update_attr sw (v\<lparr>vc_ulcolor := a\<rparr>) else v\<lparr>vc_ulcolor := a\<rparr>)"
  "vc_step (\<lambda>v. if vc_intensity v = 0 then update_attr sw (v\<lparr>vc_halfcolor := a\<rparr>) else v\<lparr>vc_halfcolor := a\<rparr>)"
  "vc_step (\<lambda>v. update_attr sw (default_attr (v\<lparr>vc_def_color := e v\<rparr>)))"
  by (simp_all add: vc_step_def update_attr_def default_attr_def Let_def vc_place_def)

lemma kbd_flag_steps:
  "vc_step (\<lambda>v. kbd_flag on flag (v\<lparr>vc_decarm := b\<rparr>))"
  "vc_step (\<lambda>v. kbd_flag on flag (v\<lparr>vc_decnkm := b\<rparr>))"
  by (simp_all add: vc_step_def kbd_flag_def vc_place_def)

lemmas vc_steps = vte_cr_step vte_bs_step kbd_flag_step vte_decscl_step vte_decsc_step
  restore_saved_step ris_vc_step goto_xy_save_step flag_steps origin_mode_step attr_steps
  kbd_flag_steps

lemmas keeps_vc_steps = vc_steps [THEN keeps_vc_step]

lemma par_nth: "wf_vc R v \<Longrightarrow> i < 16 \<Longrightarrow> 0 \<le> vc_par v ! i \<and> vc_par v ! i < 4294967296"
  unfolding wf_vc_def wf_parser_def by (metis nth_mem)

section \<open>Finding consoles\<close>

text \<open>
  \<open>setterm_command\<close>: the two console switching commands dereference a null pointer when the
  console asked for does not exist or no console was shown before.
\<close>

lemma find_vc_in_ok:
  assumes "\<And>t. t \<in> set ts \<Longrightarrow> length (vc_cons t) = nat (vc_count t)"
    "\<And>t n. t \<in> set ts \<Longrightarrow> Some n \<in> set (vc_cons t) \<Longrightarrow> P n"
  shows "res_ok (\<lambda>p. \<forall>n. p = Some n \<longrightarrow> P n) (find_vc_in ts k)"
  using assms
proof (induction ts)
  case (Cons t ts)
  have IH: "res_ok (\<lambda>p. \<forall>n. p = Some n \<longrightarrow> P n) (find_vc_in ts k)"
    using Cons.prems by (intro Cons.IH) auto
  have "vc_cons t ! nat (k - first_vc t) \<in> set (vc_cons t)"
    if "first_vc t \<le> k" "k < first_vc t + vc_count t"
    using that Cons.prems(1) [of t] by (intro nth_mem) simp
  then have "\<forall>n. vc_cons t ! nat (k - first_vc t) = Some n \<longrightarrow> P n"
    if "first_vc t \<le> k" "k < first_vc t + vc_count t"
    using that Cons.prems(2) by (metis list.set_intros(1))
  then have "res_ok (\<lambda>p. \<forall>n. p = Some n \<longrightarrow> P n) (arr_get (vc_cons t) (k - first_vc t))"
    if "first_vc t \<le> k" "k < first_vc t + vc_count t"
    using that Cons.prems(1) [of t] by (simp add: arr_get_def)
  with IH show ?case by simp
qed simp

lemma find_vc_ok:
  "wf_con K c \<Longrightarrow> res_ok (\<lambda>p. \<forall>n. p = Some n \<longrightarrow> get_console c n \<noteq> None) (find_vc k c)"
  using wf_conD(8) [of K c] unfolding find_vc_def wf_switch_def by (intro find_vc_in_ok) auto

definition no_console :: "'d con \<Rightarrow> bool" where
  "no_console c \<longleftrightarrow>
     vc_par (vc c) ! 0 = 12 \<and> find_vc (vc_par (vc c) ! 1) c = Inr None \<or>
     vc_par (vc c) ! 0 = 15 \<and> last_console (vt c) = None"

section \<open>Operations on the whole state\<close>

context display_driver
begin

lemma vte_lf_ok: "wf_con K c \<Longrightarrow> keeps K c (vte_lf sw c)"
proof -
  assume wf: "wf_con K c"
  have "vc_y (vc c) < vc_rows (vc c) - 1 \<Longrightarrow>
      keeps K c (upd_vc (\<lambda>v. v\<lparr>vc_y := vc_y v + 1, vc_pos := vc_pos v + vc_size_row v\<rparr>) c)"
    using wf by (intro keeps_place) (simp_all add: line_down_wf, simp add: vc_place_def)
  moreover have "keeps K c (scroll_region_up sw (vc_top (vc c)) (vc_bottom (vc c)) 1 c)"
    using wf wf_geomD(7) [OF wf_con_geom [OF wf]] by (rule scroll_region_up_ok)
  ultimately show ?thesis
    unfolding vte_lf_def using wf by (intro keeps_step [OF _ need_wrap_ok]) simp
qed

lemma vte_ri_ok: "wf_con K c \<Longrightarrow> keeps K c (vte_ri sw c)"
proof -
  assume wf: "wf_con K c"
  have "vc_y (vc c) > 0 \<Longrightarrow>
      keeps K c (upd_vc (\<lambda>v. v\<lparr>vc_y := vc_y v - 1, vc_pos := vc_pos v - vc_size_row v\<rparr>) c)"
    using wf by (intro keeps_place) (simp_all add: line_up_wf, simp add: vc_place_def)
  moreover have "keeps K c (scroll_region_down sw (vc_top (vc c)) (vc_bottom (vc c)) 1 c)"
    using wf wf_geomD(7) [OF wf_con_geom [OF wf]] by (rule scroll_region_down_ok)
  ultimately show ?thesis
    unfolding vte_ri_def using wf by (intro keeps_step [OF _ need_wrap_ok]) simp
qed

lemma vte_cvt_ok: "wf_con K c \<Longrightarrow> keeps K c (vte_cvt sw p c)"
proof -
  have "wf_con K c \<Longrightarrow> keeps K c (vte_cvt_loop sw n c)" for n
  proof (induction n arbitrary: c)
    case (Suc n)
    show ?case using keeps_step [OF vte_lf_ok [OF Suc.prems] Suc.IH] by simp
  qed simp
  then show "wf_con K c \<Longrightarrow> keeps K c (vte_cvt sw p c)"
    by (simp add: vte_cvt_def)
qed

text \<open>Erasing.\<close>

lemma erase_cells_ok:
  assumes "keeps K c0 c" "{start ..< start + 2 * count} \<subseteq> scr_region K"
  shows "keeps K c0 (erase_cells start count c)"
  using assms keeps_wf [OF assms(1)] unfolding erase_cells_def
  by (intro keeps_step [OF _ need_wrap_ok] keeps_step [OF assms(1) keeps_upd_mem] same_off_memsetw) simp_all

lemma keeps_then_clear: "keeps K c0 c \<Longrightarrow> keeps K c0 (clear_region sw sx sy w h c)"
  using clear_region_ok keeps_step by blast

lemma vte_ed_ok:
  assumes wf: "wf_con K c"
  shows "keeps K c (vte_ed sw p c)"
proof -
  let ?v = "vc c"
  note v = wf_con_vc [OF wf]
  note g = wf_geomD [OF wf_con_geom [OF wf]] and pos = pos_in_buffer [OF v]
  have e: "vc_scr_end ?v = vc_origin ?v + vc_screenbuf_size ?v"
    and "vc_pos ?v - vc_origin ?v = 2 * (vc_y ?v * vc_cols ?v + vc_x ?v)"
    using wf_vcD(8,9) [OF v] g(5) by (simp_all add: algebra_simps)
  then have "{vc_pos ?v ..< vc_pos ?v + 2 * ((vc_scr_end ?v - vc_pos ?v) div 2)} \<subseteq> scr_region K"
    "{vc_origin ?v ..< vc_origin ?v + 2 * ((vc_pos ?v - vc_origin ?v) div 2 + 1)} \<subseteq> scr_region K"
    using pos(1,2) by (intro order.trans [OF _ wf_vcD(5) [OF v]]; auto simp: e)+
  moreover have "{vc_origin ?v ..< vc_origin ?v + 2 * (vc_cols ?v * vc_rows ?v)} \<subseteq> scr_region K"
    using wf_vcD(5) [OF v] g(5,6) by (simp add: mult.commute mult.left_commute)
  ultimately show ?thesis
    unfolding vte_ed_def Let_def
    using wf by (auto intro!: erase_cells_ok keeps_then_clear)
qed

lemma vte_el_ok:
  assumes wf: "wf_con K c"
  shows "keeps K c (vte_el sw p c)"
proof -
  let ?v = "vc c"
  note v = wf_con_vc [OF wf]
  note g = wf_geomD [OF wf_con_geom [OF wf]]
  have "{vc_pos ?v ..< vc_pos ?v + 2 * (vc_cols ?v - vc_x ?v)} \<subseteq> scr_region K"
    "{vc_pos ?v - 2 * vc_x ?v ..< vc_pos ?v - 2 * vc_x ?v + 2 * (vc_x ?v + 1)} \<subseteq> scr_region K"
    "{vc_pos ?v - 2 * vc_x ?v ..< vc_pos ?v - 2 * vc_x ?v + 2 * vc_cols ?v} \<subseteq> scr_region K"
    using row_cells_in_region [OF v, of "vc_x ?v" "vc_cols ?v - vc_x ?v"]
      row_cells_in_region [OF v, of 0 "vc_x ?v + 1"] row_cells_in_region [OF v, of 0 "vc_cols ?v"] g
    by simp_all
  then show ?thesis
    unfolding vte_el_def Let_def
    using wf by (auto intro!: erase_cells_ok keeps_then_clear)
qed

lemma vte_ech_ok:
  assumes wf: "wf_con K c" and "0 \<le> p"
  shows "keeps K c (vte_ech sw p c)"
proof -
  let ?v = "vc c"
  let ?n = "if (if p = 0 then 1 else p) > vc_cols ?v - vc_x ?v then vc_cols ?v - vc_x ?v
    else if p = 0 then 1 else p"
  note v = wf_con_vc [OF wf]
  note g = wf_geomD [OF wf_con_geom [OF wf]]
  have "{vc_pos ?v ..< vc_pos ?v + 2 * ?n} \<subseteq> scr_region K"
    using row_cells_in_region [OF v, of "vc_x ?v" ?n] g by simp
  then have "keeps K c (upd_mem (scr_memsetw (vc_pos ?v) (vc_video_erase_char ?v) (2 * ?n)) c)"
    using wf by (intro keeps_upd_mem same_off_memsetw) simp_all
  then show ?thesis
    unfolding vte_ech_def Let_def by (intro keeps_step [OF _ need_wrap_ok] keeps_then_clear)
qed

text \<open>Rendition and character sets.\<close>

lemma charset_bounds:
  assumes "wf_con K c"
  shows "vc_G0_charset (vc c) < 4" "vc_G1_charset (vc c) < 4" "vc_G2_charset (vc c) < 4"
    "vc_G3_charset (vc c) < 4"
  using wf_con_vc [OF assms] by (simp_all add: wf_vc_def wf_charsets_def)

lemma translate_step:
  "wf_con K c \<Longrightarrow> m < 4 \<Longrightarrow> vc_step f \<Longrightarrow> keeps K c (upd_vc f (set_translate m c))"
  by (rule keeps_step [OF set_translate_ok keeps_vc_step])

lemma sgr_param_ok: "wf_con K c \<Longrightarrow> keeps K c (sgr_param p c)"
  by (simp add: sgr_param_def charset_bounds translate_step keeps_vc_step vc_steps)

lemma vte_sgr_ok: "wf_con K c \<Longrightarrow> keeps K c (vte_sgr sw c)"
proof -
  have "wf_con K c \<Longrightarrow> keeps K c (fold sgr_param ps c)" for ps
  proof (induction ps arbitrary: c)
    case (Cons p ps)
    show ?case using keeps_step [OF sgr_param_ok [OF Cons.prems] Cons.IH] by simp
  qed simp
  then show "wf_con K c \<Longrightarrow> keeps K c (vte_sgr sw c)"
    unfolding vte_sgr_def by (blast intro: keeps_step update_attr_ok)
qed

text \<open>Reports only queue input for the tty.\<close>

lemma reports_ok:
  assumes "wf_con K c"
  shows "keeps K c (vte_fake_dec_dsr r c)" "keeps K c (vte_cpr ext c)" "keeps K c (vte_dsr c)"
    "keeps K c (vte_answerback c)" "keeps K c (vte_da c)" "keeps K c (vte_dec_da2 c)"
    "keeps K c (vte_dec_da3 c)" "keeps K c (vte_decreptparm c)" "keeps K c (vte_decmsr c)"
    "keeps K c (vte_decrqm priv c)"
  using assms puts_queue_ok
  by (simp_all add: vte_fake_dec_dsr_def vte_cpr_def vte_dsr_def vte_answerback_def vte_da_def
      vte_dec_da2_def vte_dec_da3_def vte_decreptparm_def vte_decmsr_def vte_decrqm_def
      vte_decrpm_def Let_def)

text \<open>Modes.\<close>

lemma set_mode_priv_ok: "wf_con K c \<Longrightarrow> res_ok (keeps K c) (set_mode_priv sw on p c)"
proof -
  assume wf: "wf_con K c"
  let ?c = "upd_vc (\<lambda>v. v\<lparr>vc_decscnm := on\<rparr>) c"
  have k: "keeps K c ?c"
    using wf by (simp add: keeps_vc_step vc_steps)
  have "res_ok (keeps K ?c) (invert_screen sw 0 (vc_screenbuf_size (vc c)) False ?c)"
    using keeps_wf [OF k] wf_geomD [OF wf_con_geom [OF wf]] by (intro invert_screen_ok) simp_all
  then have "res_ok (keeps K ?c) (res_bind (invert_screen sw 0 (vc_screenbuf_size (vc c)) False ?c)
      (\<lambda>c1. Inr (upd_vc (update_attr sw) c1)))"
    by (rule keeps_bind) (simp add: update_attr_ok)
  then have "res_ok (keeps K c) (res_bind (invert_screen sw 0 (vc_screenbuf_size (vc c)) False ?c)
      (\<lambda>c1. Inr (upd_vc (update_attr sw) c1)))"
    by (rule keeps_then [OF k])
  with wf show ?thesis
    by (simp add: set_mode_priv_def keeps_vc_step vc_steps)
qed

lemma set_mode_ansi_ok: "wf_con K c \<Longrightarrow> keeps K c (set_mode_ansi on p c)"
  by (simp add: set_mode_ansi_def keeps_vc_step vc_steps)

lemma set_mode_ok: "wf_con K c \<Longrightarrow> res_ok (keeps K c) (set_mode sw on c)"
proof -
  have "wf_con K c \<Longrightarrow> res_ok (keeps K c) (set_mode_loop sw on ps c)" for ps
  proof (induction ps arbitrary: c)
    case (Cons p ps)
    show ?case
      unfolding set_mode_loop.simps
      by (rule keeps_bind [OF _ Cons.IH]) (simp add: Cons.prems set_mode_priv_ok set_mode_ansi_ok)
  qed simp
  then show "wf_con K c \<Longrightarrow> res_ok (keeps K c) (set_mode sw on c)"
    by (simp add: set_mode_def)
qed

text \<open>Insertion and deletion.\<close>

lemma clamp_count_bounds:
  "0 \<le> p \<Longrightarrow> 0 < room \<Longrightarrow> 1 \<le> clamp_count p room \<and> clamp_count p room \<le> room"
  by (auto simp: clamp_count_def)

lemma vte_ich_ok: "wf_con K c \<Longrightarrow> 0 \<le> p \<Longrightarrow> keeps K c (vte_ich sw p c)"
  using clamp_count_bounds [of p "vc_cols (vc c) - vc_x (vc c)"] wf_geomD(11) [OF wf_con_geom]
  unfolding vte_ich_def by (intro insert_char_ok) fastforce+

lemma vte_dch_ok: "wf_con K c \<Longrightarrow> 0 \<le> p \<Longrightarrow> keeps K c (vte_dch sw p c)"
  using clamp_count_bounds [of p "vc_cols (vc c) - vc_x (vc c)"] wf_geomD(11) [OF wf_con_geom]
  unfolding vte_dch_def by (intro delete_char_ok) fastforce+

lemma vte_il_ok: "wf_con K c \<Longrightarrow> keeps K c (vte_il sw p c)"
  by (simp add: vte_il_def insert_line_ok)

lemma vte_dl_ok: "wf_con K c \<Longrightarrow> keeps K c (vte_dl sw p c)"
  by (simp add: vte_dl_def delete_line_ok)

text \<open>Restoring and resetting.\<close>

lemma vte_decrc_ok: "wf_con K c \<Longrightarrow> keeps K c (vte_decrc sw c)"
proof -
  assume "wf_con K c"
  then have k: "keeps K c (upd_vc restore_saved c)"
    by (simp add: keeps_vc_step vc_steps)
  then show ?thesis
    unfolding vte_decrc_def Let_def
    using charset_bounds [OF keeps_wf [OF k]]
    by (intro keeps_step [OF k]) (simp add: translate_step vc_steps)
qed

lemma ris_reset_step:
  "vc_step (\<lambda>v. (update_attr sw (default_attr v))
     \<lparr>vc_tab_stop := ris_tabs (vc_tab_stop v), vc_bell_pitch := i, vc_bell_duration := j\<rparr>)"
  by (rule vc_stepI) (simp_all add: ris_tabs_def wf_vc_tabs, simp_all add: update_attr_def
      default_attr_def vc_place_def)

lemma vte_ris_ok: "wf_con K c \<Longrightarrow> keeps K c (vte_ris sw clear c)"
proof -
  assume "wf_con K c"
  then have "keeps K c (log Set_leds (upd_vc ris_vc (set_translate LAT1_MAP c)))"
    by (intro keeps_step [OF _ keeps_log] translate_step) (simp_all add: vc_steps)
  then have "keeps K c (upd_vc (\<lambda>v. vte_decsc (gotoxy 0 0 v)) (upd_vc (\<lambda>v. (update_attr sw (default_attr v))
     \<lparr>vc_tab_stop := ris_tabs (vc_tab_stop v), vc_bell_pitch := 750, vc_bell_duration := HZ c div 8\<rparr>)
     (log Set_leds (upd_vc ris_vc (set_translate LAT1_MAP c)))))"
    by (intro keeps_step [OF _ keeps_vc_step [OF ris_reset_step]]
        keeps_step [OF _ keeps_vc_step [OF goto_xy_save_step]])
  then show ?thesis
    unfolding vte_ris_def Let_def using keeps_step [OF _ vte_ed_ok] by simp
qed

lemma setterm_command_ok:
  assumes wf: "wf_con K c"
  shows "no_console c \<and> setterm_command sw c = Inl Null_deref \<or>
    \<not> no_console c \<and> res_ok (keeps K c) (setterm_command sw c)"
proof -
  let ?p0 = "vc_par (vc c) ! 0" and ?p1 = "vc_par (vc c) ! 1"
  have t: "keeps K c (upd_vt d (\<lambda>t. t\<lparr>blank_interval := i\<rparr>) c)"
    "keeps K c (upd_vt d (\<lambda>t. t\<lparr>off_interval := i\<rparr>) c)" for d i
    using wf by (auto simp: vt_ids_def intro!: keeps_upd_vt)
  have poke: "res_ok (keeps K c) (poke_blanked_console sw d
      (upd_vt d (\<lambda>t. t\<lparr>blank_interval := i\<rparr>) c))" for d i
    using keeps_then [OF t(1) poke_blanked_console_ok] .
  have last: "last_console (vt c) = Some n \<Longrightarrow> res_ok (keeps K c) (set_console (Some n) c)" for n
    using wf_conD(8) [OF wf] set_console_ok [OF wf] unfolding wf_switch_def vt_def by blast
  obtain p where p: "find_vc ?p1 c = Inr p" "\<And>n. p = Some n \<Longrightarrow> get_console c n \<noteq> None"
    using find_vc_ok [OF wf, of ?p1] by (auto simp: res_ok_ex)
  then have found: "p = Some n \<Longrightarrow> res_ok (keeps K c) (set_console (Some n) c)" for n
    using set_console_ok [OF wf] by blast
  have null: "set_console None c = Inl Null_deref"
    by (simp add: set_console_def)
  consider "?p0 = 12" | "?p0 = 15" | "?p0 \<noteq> 12" "?p0 \<noteq> 15" by blast
  then show ?thesis
  proof cases
    case 1
    then show ?thesis using p(1) found null
      by (cases p) (simp_all add: setterm_command_def Let_def no_console_def)
  next
    case 2
    then show ?thesis using last null
      by (cases "last_console (vt c)") (simp_all add: setterm_command_def Let_def no_console_def)
  next
    case 3
    then show ?thesis using wf t poke
      by (simp add: setterm_command_def no_console_def Let_def poke_blanked_console_ok
          keeps_vc_step vc_steps)
  qed
qed

end

end
