(* ===== verification/Emulator_Inv.thy ===== *)
theory Emulator_Inv
  imports Decvte_Inv Emulator
begin

text \<open>
  \<open>terminal_emulation\<close> keeps the console state well-formed: for every character and every
  parser state it returns, the cursor stays on the screen, memory outside the screen is
  untouched, and the parser is in a good state again. The one exception is a request to
  switch to a console that does not exist.
\<close>

section \<open>The parser's own data\<close>

lemma par_upd_wf:
  "wf_vc R v \<Longrightarrow> vc_state v \<noteq> ESpalette \<Longrightarrow> i < 16 \<Longrightarrow> 0 \<le> p \<Longrightarrow> p < 4294967296 \<Longrightarrow>
   wf_vc R (v\<lparr>vc_par := (vc_par v)[i := p]\<rparr>)"
  unfolding wf_vc_def wf_geom_def wf_charsets_def wf_addr_def wf_parser_def
  using set_update_subset_insert [of "vc_par v" i p] by auto

lemma goto_state_ok: "wf_con K c \<Longrightarrow> st \<noteq> ESpalette \<Longrightarrow> keeps K c (goto_state st c)"
  unfolding goto_state_def by (rule keeps_place) (simp_all add: vc_place_def)

lemma clear_params_ok: "wf_con K c \<Longrightarrow> keeps K c (upd_vc clear_params c)"
  by (rule keeps_place)
    (auto simp: wf_vc_defs vc_place_def clear_params_def simp del: atLeastLessThan_iff)

lemma start_palette_ok: "wf_con K c \<Longrightarrow> keeps K c (goto_state ESpalette (upd_vc clear_params c))"
proof -
  assume "wf_con K c"
  then have "keeps K c (upd_vc (\<lambda>v. (clear_params v)\<lparr>vc_state := ESpalette\<rparr>) c)"
    by (rule keeps_place)
      (auto simp: wf_vc_defs vc_place_def clear_params_def simp del: atLeastLessThan_iff)
  then show ?thesis
    by (simp add: goto_state_def upd_vc_def)
qed

lemma hex_value_range: "hex_digit ch \<Longrightarrow> 0 \<le> hex_value ch \<and> hex_value ch < 16"
proof -
  assume "hex_digit ch"
  then consider "0x30 \<le> ch" "ch \<le> 0x39" | "0x41 \<le> ch" "ch \<le> 0x46" | "0x61 \<le> ch" "ch \<le> 0x66"
    unfolding hex_digit_def by blast
  then show ?thesis
  proof cases
    case 2
    then have "ch \<in> {0x41, 0x42, 0x43, 0x44, 0x45, 0x46}" by simp presburger
    then show ?thesis by (auto simp: hex_value_def)
  next
    case 3
    then have "ch \<in> {0x61, 0x62, 0x63, 0x64, 0x65, 0x66}" by simp presburger
    then show ?thesis by (auto simp: hex_value_def)
  qed (simp add: hex_value_def)
qed

lemma hex_store_wf:
  assumes "wf_vc R v" "vc_state v = ESpalette" "vc_npar v < 7" "0 \<le> p" "p < 16"
  shows "wf_vc R (v\<lparr>vc_par := (vc_par v)[nat (vc_npar v) := p], vc_npar := vc_npar v + 1\<rparr>)"
proof -
  have "\<forall>q \<in> set (vc_par v). 0 \<le> q \<and> q < 4294967296"
    using assms(1) by (simp add: wf_vc_def wf_parser_def)
  then have "\<forall>q \<in> set ((vc_par v)[nat (vc_npar v) := p]). 0 \<le> q \<and> q < 4294967296"
    using assms(4,5) set_update_subset_insert [of "vc_par v" "nat (vc_npar v)" p] by auto
  moreover have "((vc_par v)[nat (vc_npar v) := p]) ! 0 < 16"
    using assms by (cases "vc_npar v = 0") (auto simp: wf_vc_defs nth_list_update)
  ultimately show ?thesis
    using assms unfolding wf_vc_def wf_geom_def wf_charsets_def wf_addr_def wf_parser_def by auto
qed

lemma store_color_ok:
  assumes "wf_vc R v" "vc_par v ! 0 < 16"
  shows "res_ok (vc_res R v) (store_color v)"
proof -
  have "0 \<le> vc_par v ! 0" "length (vc_palette v) = 48"
    using par_nth [OF assms(1), of 0] assms(1) by (simp_all add: wf_vc_def wf_parser_def)
  then show ?thesis
    using assms by (simp add: store_color_def Let_def arr_set_def vc_res_def vc_place_def)
qed

lemma par0_default1_ok:
  "wf_vc R v \<Longrightarrow> vc_state v \<noteq> ESpalette \<Longrightarrow>
   wf_vc R (par0_default1 v) \<and> vc_place (par0_default1 v) = vc_place v \<and>
   vc_state (par0_default1 v) = vc_state v"
  by (simp add: par0_default1_def par_upd_wf vc_place_def)

lemma par_minus1_ok:
  "wf_vc R v \<Longrightarrow> vc_state v \<noteq> ESpalette \<Longrightarrow> i < 16 \<Longrightarrow>
   wf_vc R (par_minus1 i v) \<and> vc_place (par_minus1 i v) = vc_place v \<and>
   vc_state (par_minus1 i v) = vc_state v"
  using par_nth [of R v i] by (auto simp: par_minus1_def vc_place_def intro!: par_upd_wf)

lemma csi_move_ok:
  assumes "wf_vc R v" "vc_state v \<noteq> ESpalette" "csi_move ch v = Some v'"
  shows "vc_res R v v'"
  using assms(3) par0_default1_ok [OF assms(1,2)] par_minus1_ok [OF assms(1,2), of 0]
    par_minus1_ok [of R "par_minus1 0 v" 1] assms(2)
  unfolding csi_move_def Let_def vc_res_def by (auto split: if_splits)

lemma csi_tabs_ok:
  assumes "wf_vc R v" "vc_state v \<noteq> ESpalette" "csi_tabs ch v = Some r"
  shows "res_ok (vc_res R v) r"
proof -
  have "res_ok (vc_res R v) (vte_cht p (par0_default1 v))" for p
    using vte_cht_ok [of R "par0_default1 v" p] par0_default1_ok [OF assms(1,2)] assms(2)
    by (auto simp: vc_res_def elim!: res_ok_mono)
  then show ?thesis
    using assms vte_hts_ok vte_tbc_ok vte_cbt_ok
    unfolding csi_tabs_def Let_def by (auto simp: vc_res_def [of R v v] split: if_splits)
qed

lemma csi_margins_ok:
  assumes "wf_vc R v" "vc_state v \<noteq> ESpalette"
  shows "vc_res R v (csi_margins v)"
proof -
  define v1 where "v1 = par0_default1 v"
  define v2 where "v2 = (if vc_par v1 ! 1 = 0 then v1\<lparr>vc_par := (vc_par v1)[1 := vc_rows v1]\<rparr> else v1)"
  have v1: "wf_vc R v1" "vc_place v1 = vc_place v" "vc_state v1 = vc_state v"
    using par0_default1_ok [OF assms] by (simp_all add: v1_def)
  note g = wf_geomD [OF wf_vcD(1) [OF v1(1)]]
  have v2: "wf_vc R v2" "vc_place v2 = vc_place v" "vc_state v2 = vc_state v"
    using v1 assms(2) g by (auto simp: v2_def vc_place_def intro!: par_upd_wf)
  have len: "length (vc_par v) = 16"
    using assms(1) by (simp add: wf_vc_def wf_parser_def)
  have "vc_par v2 ! 0 \<noteq> 0"
    using len by (simp add: v2_def v1_def par0_default1_def)
  then have "1 \<le> vc_par v2 ! 0"
    using par_nth [OF v2(1), of 0] by simp
  then have "wf_vc R (v2\<lparr>vc_top := vc_par v2 ! 0 - 1, vc_bottom := vc_par v2 ! 1\<rparr>)"
    if "vc_par v2 ! 0 < vc_par v2 ! 1" "vc_par v2 ! 1 \<le> vc_rows v2"
    using v2(1) that by (auto simp: wf_vc_defs simp del: atLeastLessThan_iff)
  then show ?thesis
    using v2 assms(2) unfolding csi_margins_def v1_def [symmetric] Let_def v2_def [symmetric]
    by (auto simp: vc_res_def) (simp_all add: vc_place_def)
qed

lemma set_vc_ok:
  assumes "wf_con K c" "vc_res (scr_region K) (vc c) v"
  shows "keeps K c (c\<lparr>vc := v\<rparr>)"
proof -
  have "keeps K c (upd_vc (\<lambda>_. v) c)"
    using assms by (intro keeps_place) (auto simp: vc_res_def)
  then show ?thesis by (simp add: upd_vc_def)
qed

text \<open>
  The parser state in which the closing bracket of \<open>ESC [ 12 ; n ]\<close> or \<open>ESC [ 15 ]\<close> asks for
  a console that is not there.
\<close>

definition bad_switch :: "int \<Rightarrow> 'd con \<Rightarrow> bool" where
  "bad_switch ch c \<longleftrightarrow>
     ch = 0x5d \<and> vc_state (vc c) \<in> {EScsi_getpars, EScsi_gotpars} \<and> \<not> has_priv (vc c) \<and>
     no_console c"

text \<open>The outcome of one character.\<close>

definition emu_ok :: "'d contract \<Rightarrow> bool \<Rightarrow> 'd con \<Rightarrow> 'd con res \<Rightarrow> bool" where
  "emu_ok K bad c r \<longleftrightarrow> (if bad then r = Inl Null_deref else res_ok (keeps K c) r)"

lemma emu_okI: "res_ok (keeps K c) r \<Longrightarrow> emu_ok K False c r"
  by (simp add: emu_ok_def)

lemma emu_ok_then: "keeps K a c \<Longrightarrow> (wf_con K c \<Longrightarrow> emu_ok K b c r) \<Longrightarrow> emu_ok K b a r"
  using keeps_then [of K a c r] keeps_wf [of K a c] by (auto simp: emu_ok_def split: if_splits)

section \<open>The states of the parser\<close>

context display_driver
begin

lemmas op_ok = vte_lf_ok vte_ri_ok vte_cvt_ok vte_ed_ok vte_el_ok vte_ech_ok vte_sgr_ok reports_ok
  vte_ich_ok vte_dch_ok vte_il_ok vte_dl_ok vte_decrc_ok vte_ris_ok set_translate_ok setledstate_ok
  reset_palette_ok goto_state_ok keeps_vc_step vc_steps

lemma te_c0_ok:
  assumes wf: "wf_con K c" and "te_c0 sw ch c = Some r"
  shows "res_ok (keeps K c) r"
proof -
  have s: "keeps K c (upd_vc (\<lambda>v. v\<lparr>vc_charset := b\<rparr>) c)" for b
    using wf by (simp add: op_ok)
  have "keeps K c (upd_vc f (set_translate (vc_G1_charset (vc c)) (upd_vc (\<lambda>v. v\<lparr>vc_charset := b\<rparr>) c)))"
    "keeps K c (upd_vc f (set_translate (vc_G0_charset (vc c)) (upd_vc (\<lambda>v. v\<lparr>vc_charset := b\<rparr>) c)))"
    if "vc_step f" for f b
    using that charset_bounds [OF wf] by (auto intro!: keeps_step [OF s translate_step])
  moreover have "keeps K c (upd_vc vte_cr (vte_lf sw c))"
    using keeps_step [OF vte_lf_ok [OF wf] keeps_vc_step [OF vte_cr_step]] .
  ultimately show ?thesis
    using assms unfolding te_c0_def Let_def
    by (auto simp: op_ok lift_vc_ok forward_one_tab_ok split: if_splits)
qed

lemma te_c1_ok:
  assumes wf: "wf_con K c" and "te_c1 sw ch c = Some r"
  shows "res_ok (keeps K c) r"
proof -
  have "keeps K c (upd_vc vte_cr (vte_lf sw c))"
    using keeps_step [OF vte_lf_ok [OF wf] keeps_vc_step [OF vte_cr_step]] .
  then show ?thesis
    using assms unfolding te_c1_def
    by (auto simp: op_ok lift_vc_ok vte_hts_ok split: if_splits)
qed

lemma te_esc_ok: "wf_con K c \<Longrightarrow> res_ok (keeps K c) (te_esc sw ch c)"
proof -
  assume wf: "wf_con K c"
  have "keeps K c (vte_lf sw (upd_vc vte_cr c))"
    using keeps_step [OF keeps_vc_step [OF vte_cr_step wf] vte_lf_ok] .
  then show ?thesis
    using wf unfolding te_esc_def by (simp add: op_ok lift_vc_ok vte_hts_ok)
qed

lemma te_osc_ok: "wf_con K c \<Longrightarrow> keeps K c (te_osc sw ch c)"
  by (simp add: te_osc_def keeps_step [OF reset_palette_ok goto_state_ok] start_palette_ok)

lemma te_palette_ok:
  assumes wf: "wf_con K c" and st: "vc_state (vc c) = ESpalette" and "settled (vc c)"
  shows "res_ok (keeps K c) (te_palette sw ch c)"
proof (cases "hex_digit ch")
  case True
  note v = wf_con_vc [OF wf]
  let ?par = "(vc_par (vc c))[nat (vc_npar (vc c)) := hex_value ch]"
  let ?f = "\<lambda>v. v\<lparr>vc_par := ?par, vc_npar := vc_npar v + 1\<rparr>"
  let ?c1 = "upd_vc ?f c"
  have n: "0 \<le> vc_npar (vc c)" "vc_npar (vc c) < 7" "length (vc_par (vc c)) = 16"
    using v assms by (auto simp: wf_vc_def wf_parser_def)
  have w1: "wf_vc (scr_region K) (?f (vc c))"
    using hex_store_wf [OF v st n(2)] hex_value_range [OF True] by simp
  have par: "arr_set (vc_par (vc c)) (vc_npar (vc c)) (hex_value ch) = Inr ?par"
    using n by (simp add: arr_set_def)
  show ?thesis
  proof (cases "vc_npar (vc c) = 6")
    case False
    then have "keeps K c ?c1"
      using wf w1 n by (intro keeps_place) (auto simp: vc_place_def)
    then show ?thesis
      using True False par by (simp add: te_palette_def)
  next
    case six: True
    have "vc_par (?f (vc c)) ! 0 < 16"
      using w1 st by (simp add: wf_vc_def wf_parser_def)
    from store_color_ok [OF w1 this] obtain v2 where v2: "store_color (?f (vc c)) = Inr v2"
      "vc_res (scr_region K) (?f (vc c)) v2"
      by (auto simp: res_ok_ex)
    let ?c2 = "upd_vc (\<lambda>_. v2) c"
    have p2: "vc_place v2 = vc_place (vc c)"
      using v2(2) by (simp add: vc_res_def vc_place_def)
    have "wf_con K ?c2"
      using wf v2(2) p2 wf_con_ready [OF wf]
      by (intro wf_con_upd_vc) (auto simp: vc_res_def vc_place_def)
    then have "keeps K ?c2 (goto_state ESinit (set_palette sw ?c2))"
      using keeps_step [OF set_palette_ok goto_state_ok] by simp
    then have "keeps K c (goto_state ESinit (set_palette sw ?c2))"
      by (rule keeps_after_upd_vc) (use p2 in \<open>simp_all add: goto_state_def vc_place_def\<close>)
    then show ?thesis
      using True six par v2(1) by (simp add: te_palette_def lift_vc_def upd_vc_def)
  qed
next
  case False
  then show ?thesis using wf by (simp add: te_palette_def goto_state_ok)
qed

lemma te_dec_dsr_ok: "wf_con K c \<Longrightarrow> keeps K c (te_dec_dsr p c)"
  by (simp add: te_dec_dsr_def reports_ok)

lemma no_priv4_ok: "wf_con K c \<Longrightarrow> keeps K c (no_priv4 c)"
  by (simp add: no_priv4_def keeps_vc_step vc_steps)

lemma te_csi_priv_ok:
  assumes wf: "wf_con K c" and "te_csi_priv sw ch c = Some r"
  shows "res_ok (keeps K c) r"
proof -
  have flag: "keeps K c (upd_vc f c1)" if "vc_step f" "keeps K c c1" for f c1
    using keeps_step [OF that(2) keeps_vc_step [OF that(1)]] .
  have np: "keeps K c (no_priv4 c1)" if "keeps K c c1" for c1
    using keeps_step [OF that no_priv4_ok] .
  have "res_ok (keeps K c) (res_bind (clear_selection sw c) (\<lambda>c1.
      Inr (no_priv4 (upd_vc (\<lambda>v. v\<lparr>vc_complement_mask := complement_mask_of v\<rparr>) c1))))"
    by (rule keeps_bind [OF clear_selection_ok [OF wf]])
      (simp add: keeps_step [OF keeps_vc_step no_priv4_ok] vc_steps)
  then show ?thesis
    using assms unfolding te_csi_priv_def Let_def
    by (auto simp: flag np vc_steps keeps_vc_step goto_state_ok set_mode_ok reports_ok te_dec_dsr_ok
        split: if_splits)
qed

lemma csi_edit_ok:
  assumes wf: "wf_con K c" and st: "vc_state (vc c) \<noteq> ESpalette" and "csi_edit sw ch c = Some c'"
  shows "keeps K c c'"
proof -
  have "keeps K c (upd_vc par0_default1 c)"
    using wf st par0_default1_ok [OF wf_con_vc [OF wf] st] by (intro keeps_place) auto
  then have "keeps K c (vte_cvt sw p (upd_vc par0_default1 c))" for p
    by (rule keeps_step) (rule vte_cvt_ok)
  moreover have "0 \<le> vc_par (vc c) ! 0"
    using par_nth [OF wf_con_vc [OF wf]] by simp
  ultimately show ?thesis
    using assms unfolding csi_edit_def Let_def by (auto simp: op_ok split: if_splits)
qed

lemma te_csi_std_ok:
  assumes wf: "wf_con K c" and st: "vc_state (vc c) \<noteq> ESpalette"
  shows "emu_ok K (ch = 0x5d \<and> no_console c) c (te_csi_std sw ch c)"
proof -
  note v = wf_con_vc [OF wf]
  have margins: "keeps K c (upd_vc csi_margins c)"
    using wf csi_margins_ok [OF v st] by (intro keeps_place) (auto simp: vc_res_def)
  have tabs: "res_ok (keeps K c) (res_bind r (\<lambda>v. Inr (c\<lparr>vc := v\<rparr>)))" if "csi_tabs ch (vc c) = Some r" for r
    using csi_tabs_ok [OF v st that] by (rule res_ok_bind) (simp add: set_vc_ok [OF wf])
  have br: "csi_intermediate 0x5d = None" "csi_move 0x5d v' = None" "csi_edit sw 0x5d c = None"
    "csi_tabs 0x5d v' = None" for v'
    by (simp_all add: csi_intermediate_def csi_move_def csi_edit_def csi_tabs_def Let_def)
  have leds: "keeps K c (csi_leds c)"
    using wf by (simp add: csi_leds_def Let_def setledstate_ok)
  have "csi_intermediate ch = Some s \<Longrightarrow> s \<noteq> ESpalette" for s
    by (auto simp: csi_intermediate_def split: if_splits)
  then have states: "csi_intermediate ch = Some s \<Longrightarrow> keeps K c (goto_state s c)" for s
    using wf goto_state_ok by blast
  have move: "csi_move ch (vc c) = Some v' \<Longrightarrow> keeps K c (c\<lparr>vc := v'\<rparr>)" for v'
    using csi_move_ok [OF v st] set_vc_ok [OF wf] by blast
  note edit = csi_edit_ok [OF wf st, of ch]
  show ?thesis
  proof (cases "ch = 0x5d")
    case True
    then have "te_csi_std sw ch c = setterm_command sw c"
      by (simp add: te_csi_std_def br)
    then show ?thesis
      using setterm_command_ok [OF wf] True by (auto simp: emu_ok_def)
  next
    case False
    have "res_ok (keeps K c) (te_csi_std sw ch c)"
    proof (cases "csi_intermediate ch")
      case i: None
      show ?thesis
      proof (cases "csi_move ch (vc c)")
        case m: None
        show ?thesis
        proof (cases "csi_edit sw ch c")
          case e: None
          show ?thesis
            using False i m e tabs wf margins leds
            by (cases "csi_tabs ch (vc c)") (simp_all add: te_csi_std_def reports_ok)
        qed (use i m edit in \<open>simp add: te_csi_std_def\<close>)
      qed (use i move in \<open>simp add: te_csi_std_def\<close>)
    qed (use states in \<open>simp add: te_csi_std_def\<close>)
    then show ?thesis
      using False by (simp add: emu_ok_def)
  qed
qed

lemma goto_state_frame [simp]:
  "no_console (goto_state st c) = no_console c" "has_priv (vc (goto_state st c)) = has_priv (vc c)"
  "vc_state (vc (goto_state st c)) = st"
  by (simp_all add: goto_state_def no_console_def has_priv_def find_vc_def vt_def)

lemma te_csi_priv_bracket: "te_csi_priv sw 0x5d c = None"
  by (simp add: te_csi_priv_def Let_def)

lemma te_csi_gotpars_ok:
  assumes "wf_con K c"
  shows "emu_ok K (ch = 0x5d \<and> \<not> has_priv (vc c) \<and> no_console c) c (te_csi_gotpars sw ch c)"
proof -
  let ?c = "goto_state ESinit c"
  have "emu_ok K (ch = 0x5d \<and> \<not> has_priv (vc c) \<and> no_console c) ?c (te_csi_gotpars sw ch c)"
    if wf: "wf_con K ?c"
  proof (cases "te_csi_priv sw ch ?c")
    case (Some r)
    then show ?thesis
      using te_csi_priv_ok [OF wf Some] te_csi_priv_bracket [of ?c]
      by (auto simp: te_csi_gotpars_def emu_ok_def)
  next
    case None
    then show ?thesis
      using te_csi_std_ok [OF wf, of ch] wf
      by (auto simp: te_csi_gotpars_def Let_def emu_ok_def keeps_vc_step vc_steps split: if_splits)
  qed
  then show ?thesis
    using emu_ok_then [OF goto_state_ok [OF assms, of ESinit]] by blast
qed

lemma digit_store_ok:
  assumes wf: "wf_con K c" and st: "vc_state (vc c) \<noteq> ESpalette"
  shows "res_ok (keeps K c)
    (res_bind (arr_get (vc_par (vc c)) (vc_npar (vc c))) (\<lambda>p.
     res_bind (arr_set (vc_par (vc c)) (vc_npar (vc c)) (u32 (u32 (p * 10) + d))) (\<lambda>par.
       Inr (upd_vc (\<lambda>v. v\<lparr>vc_par := par\<rparr>) c))))"
proof -
  note v = wf_con_vc [OF wf]
  have n: "0 \<le> vc_npar (vc c)" "vc_npar (vc c) < 16" "length (vc_par (vc c)) = 16"
    using v by (auto simp: wf_vc_def wf_parser_def)
  have "keeps K c (upd_vc (\<lambda>v. v\<lparr>vc_par := (vc_par (vc c))[nat (vc_npar (vc c)) := u32 i]\<rparr>) c)" for i
    using wf v st n u32_range [of i]
    by (intro keeps_place) (auto simp: vc_place_def intro!: par_upd_wf)
  then show ?thesis
    using n by (simp add: arr_get_def arr_set_def)
qed

lemma te_csi_getpars_ok:
  assumes wf: "wf_con K c" and st: "vc_state (vc c) \<noteq> ESpalette"
  shows "emu_ok K (ch = 0x5d \<and> \<not> has_priv (vc c) \<and> no_console c) c (te_csi_getpars sw ch c)"
proof -
  note v = wf_con_vc [OF wf]
  have "keeps K c (upd_vc (\<lambda>v. v\<lparr>vc_npar := vc_npar v + 1\<rparr>) c)" if "vc_npar (vc c) < 15"
    using wf st that by (intro keeps_place) (auto simp: vc_place_def wf_vc_defs simp del: atLeastLessThan_iff)
  moreover have "emu_ok K (ch = 0x5d \<and> \<not> has_priv (vc c) \<and> no_console c) c
      (te_csi_gotpars sw ch (goto_state EScsi_gotpars c))"
    using emu_ok_then [OF goto_state_ok [OF wf] te_csi_gotpars_ok, of EScsi_gotpars ch] by simp
  ultimately show ?thesis
    using digit_store_ok [OF wf st] unfolding te_csi_getpars_def Let_def
    by (auto simp: emu_ok_def split: if_splits)
qed

lemma te_csi_ok:
  assumes wf: "wf_con K c"
  shows "res_ok (keeps K c) (te_csi sw ch c)"
proof -
  let ?c = "goto_state EScsi_getpars (upd_vc clear_params c)"
  let ?c1 = "upd_vc (\<lambda>v. v\<lparr>vc_priv1 := (ch = 0x3c), vc_priv2 := (ch = 0x3d),
    vc_priv3 := (ch = 0x3e), vc_priv4 := (ch = 0x3f)\<rparr>) ?c"
  have k: "keeps K c ?c"
    using keeps_step [OF clear_params_ok [OF wf] goto_state_ok] by simp
  then have k1: "keeps K c ?c1"
    by (rule keeps_step) (simp add: keeps_vc_step vc_steps)
  have "\<not> no_console ?c1" "vc_state (vc ?c1) \<noteq> ESpalette"
    by (simp_all add: no_console_def goto_state_def clear_params_def)
  then have "res_ok (keeps K c) (te_csi_getpars sw ch ?c1)"
    using te_csi_getpars_ok [of ?c1 ch] keeps_then [OF k1] by (simp add: emu_ok_def)
  moreover have "keeps K c (goto_state ESfunckey ?c)" "keeps K c (goto_state ESinit ?c1)"
    using keeps_step [OF k goto_state_ok] keeps_step [OF k1 goto_state_ok] by simp_all
  ultimately show ?thesis
    using k1 unfolding te_csi_def Let_def by auto
qed

lemma te_scf_ok:
  assumes wf: "wf_con K c"
  shows "res_ok (keeps K c) (te_scf sw ch c)"
proof -
  let ?e = "\<lambda>k. upd_vc (\<lambda>v. v\<lparr>vc_video_erase_char := (vc_video_erase_char v AND 0xff00) OR k\<rparr>)"
  have e: "wf_con K c1 \<Longrightarrow> keeps K c1 (?e k c1)" for c1 k
    by (simp add: keeps_vc_step vc_steps)
  have "keeps K c (?e 0x20 (vte_ed sw 2 (?e 0x45 c)))"
    by (rule keeps_step [OF keeps_step [OF e [OF wf] vte_ed_ok] e])
  then have "res_ok (keeps K c) (do_update_region sw s n (?e 0x20 (vte_ed sw 2 (?e 0x45 c))))" for s n
    by (rule keeps_then) (rule do_update_region_ok)
  then show ?thesis
    using wf by (simp add: te_scf_def Let_def)
qed

lemma designated_bound: "n < 4 \<Longrightarrow> designated ch n < 4"
  by (simp add: designated_def)

lemma charset_steps:
  assumes wf: "wf_con K c"
  shows "keeps K c (upd_vc (\<lambda>v. v\<lparr>vc_G0_charset := designated ch (vc_G0_charset v)\<rparr>) c)"
    "keeps K c (upd_vc (\<lambda>v. v\<lparr>vc_G1_charset := designated ch (vc_G1_charset v)\<rparr>) c)"
    "keeps K c (upd_vc (\<lambda>v. v\<lparr>vc_G2_charset := designated ch (vc_G2_charset v)\<rparr>) c)"
    "keeps K c (upd_vc (\<lambda>v. v\<lparr>vc_G3_charset := designated ch (vc_G3_charset v)\<rparr>) c)"
  using charset_bounds [OF wf] wf
  by (auto intro!: keeps_place simp: designated_bound vc_place_def)

lemma translate_init_ok:
  assumes "keeps K c c1" "m < 4"
  shows "keeps K c (goto_state ESinit (if b then set_translate m c1 else c1))"
  using assms keeps_step [OF keeps_step [OF assms(1) set_translate_ok] goto_state_ok]
    keeps_step [OF assms(1) goto_state_ok] by simp

lemma te_designate_ok:
  assumes wf: "wf_con K c"
  shows "keeps K c (te_gzd4 ch c)" "keeps K c (te_g1d4 ch c)" "keeps K c (te_g2d4 ch c)"
    "keeps K c (te_g3d4 ch c)"
  unfolding te_gzd4_def te_g1d4_def te_g2d4_def te_g3d4_def Let_def
  using charset_steps [OF wf] charset_bounds [OF keeps_wf]
  by (intro translate_init_ok; blast)+

lemma te_state_ok:
  assumes wf: "wf_con K c" and "settled (vc c)"
  shows "emu_ok K (bad_switch ch c) c (te_state sw ch c)"
proof -
  let ?c0 = "goto_state ESinit c"
  have k: "keeps K c ?c0" using wf by (simp add: goto_state_ok)
  have r: "res_ok (keeps K ?c0) r \<Longrightarrow> res_ok (keeps K c) r" for r
    using keeps_then [OF k] .
  have p: "keeps K ?c0 c1 \<Longrightarrow> keeps K c c1" for c1
    using keeps_trans [OF k] .
  note w0 = keeps_wf [OF k]
  have simple: "res_ok (keeps K c) (te_esc sw ch ?c0)" "keeps K c (te_acs ch ?c0)"
    "keeps K c (te_osc sw ch ?c0)" "keeps K c (vte_ris sw b ?c0)" "keeps K c (upd_vc vte_decscl ?c0)"
    "keeps K c (te_dollar ch ?c0)" "keeps K c (te_docs ch ?c0)" "res_ok (keeps K c) (te_scf sw ch ?c0)" for b
    using w0 by (auto intro!: r p simp: te_esc_ok te_osc_ok te_scf_ok vte_ris_ok te_acs_def te_dollar_def
        te_docs_def reports_ok keeps_vc_step vc_steps)
  show ?thesis
  proof (cases "vc_state (vc c) \<in> {EScsi_getpars, EScsi_gotpars}")
    case True
    then show ?thesis
      using te_csi_getpars_ok [OF wf, of ch] te_csi_gotpars_ok [OF wf, of ch]
      by (auto simp: te_state_def bad_switch_def)
  next
    case False
    then have "\<not> bad_switch ch c" by (simp add: bad_switch_def)
    moreover have "res_ok (keeps K c) (te_state sw ch c)"
      using False simple k te_designate_ok [OF wf] te_csi_ok [OF wf] te_palette_ok [OF wf _ assms(2)]
      unfolding te_state_def Let_def by (cases "vc_state (vc c)") simp_all
    ultimately show ?thesis by (simp add: emu_ok_def)
  qed
qed

lemma terminal_emulation_emu_ok:
  assumes wf: "wf_con K c" and "settled (vc c)"
  shows "emu_ok K (bad_switch ch c) c (terminal_emulation sw ch c)"
proof -
  have c0: "\<not> bad_switch ch c" if "te_c0 sw ch c = Some r" for r
    using that by (auto simp: bad_switch_def te_c0_def)
  have c1: "\<not> bad_switch ch c" if "te_c1 sw ch c = Some r" for r
    using that by (auto simp: bad_switch_def te_c1_def)
  show ?thesis
    using te_c0_ok [OF wf] te_c1_ok [OF wf] te_state_ok [OF assms] c0 c1
    unfolding terminal_emulation_def by (auto simp: emu_ok_def split: option.split if_splits)
qed

end

end
