(* ===== verification/Con_Write_Inv.thy ===== *)
theory Con_Write_Inv
  imports Con_Write Emulator_Inv
begin

text \<open>
  Writing to a console keeps the console state well-formed and never faults, apart from the
  request for a console that does not exist (see \<open>bad_switch\<close>), whatever bytes are written
  and whenever the tty is stopped.
\<close>

section \<open>Steps on one console\<close>

lemma advance_step: "vc_step advance"
proof (rule vc_stepI)
  show "wf_vc R v \<Longrightarrow> wf_vc R (advance v)" for R v
    by (auto simp: wf_vc_defs advance_def simp del: atLeastLessThan_iff)
qed (simp_all add: advance_def vc_place_def)

lemma utf_byte_res: "wf_vc R v \<Longrightarrow> vc_res R v (snd (utf_byte c v))"
  by (simp add: utf_byte_def utf_start_def Let_def vc_res_def vc_place_def)

lemma wf_maps_table:
  assumes "wf_con K c"
  shows "arr_get (transl_tables (cm c)) (int (vc_translate (vc c)))
      = Inr (transl_tables (cm c) ! vc_translate (vc c))"
    and "length (transl_tables (cm c) ! vc_translate (vc c)) = 256"
proof -
  have l: "length (transl_tables (cm c)) = 4" "\<forall>t \<in> set (transl_tables (cm c)). length t = 256"
    using wf_conD(10) [OF assms] by (simp_all add: wf_maps_def)
  have t: "vc_translate (vc c) < 4"
    using wf_con_vc [OF assms] by (simp add: wf_vc_def wf_charsets_def)
  show "arr_get (transl_tables (cm c)) (int (vc_translate (vc c)))
      = Inr (transl_tables (cm c) ! vc_translate (vc c))"
    using l t by (simp add: arr_get_def)
  show "length (transl_tables (cm c) ! vc_translate (vc c)) = 256"
    using l t by simp
qed

lemma or_0x80_byte: "0 \<le> ch \<Longrightarrow> ch < 256 \<Longrightarrow> 0 \<le> (ch OR 0x80 :: int) \<and> ch OR 0x80 < 256"
proof -
  assume ch: "0 \<le> ch" "ch < 256"
  have "take_bit 8 (ch OR 0x80) = ch OR (0x80 :: int)"
    using ch by (simp add: take_bit_or take_bit_int_eq_self)
  then show ?thesis
    using take_bit_nonnegative [of 8 "ch OR 0x80"] take_bit_int_less_exp [of 8 "ch OR 0x80"] by simp
qed

lemma decode_char_ok:
  assumes "wf_con K c" "0 \<le> ch" "ch < 256"
  shows "res_ok (\<lambda>(r, v). vc_res (scr_region K) (vc c) v) (decode_char (cm c) ch (vc c))"
  using wf_maps_table [OF assms(1)] wf_con_vc [OF assms(1)] utf_byte_res [of "scr_region K" "vc c" ch]
    or_0x80_byte [OF assms(2,3)] assms(2,3)
  by (auto simp: decode_char_def case_prod_beta vc_res_def arr_get_def)

lemma conv_uni_to_pc_ok: "wf_con K c \<Longrightarrow> res_ok (\<lambda>_. True) (conv_uni_to_pc (cm c) (vc c) u)"
proof -
  assume wf: "wf_con K c"
  let ?p = "locs (cm c) (vc_uni_pagedir_loc (vc c))"
  have "?p = 0 \<or> udirs (cm c) ?p \<noteq> None"
    using wf_conD(10) [OF wf] get_console_own [of c] unfolding wf_maps_def by blast
  then show ?thesis
    by (auto simp: conv_uni_to_pc_def Let_def deref_dir_def split: option.split)
qed

lemma glyph_of_ok: "wf_con K c \<Longrightarrow> res_ok (\<lambda>_. True) (glyph_of (cm c) (vc c) ch tc)"
  unfolding glyph_of_def
  by (rule res_ok_bind [OF conv_uni_to_pc_ok]) (auto intro!: res_ok_bind [OF conv_uni_to_pc_ok])

section \<open>Outcomes\<close>

text \<open>
  \<open>run_ok b K c get r\<close>: \<open>r\<close> is a state reached from \<open>c\<close> with the invariant kept, or, where \<open>b\<close>
  allows it, the null dereference of a bad console switch.
\<close>

definition run_ok :: "bool \<Rightarrow> 'd contract \<Rightarrow> 'd con \<Rightarrow> ('a \<Rightarrow> 'd con) \<Rightarrow> 'a res \<Rightarrow> bool" where
  "run_ok b K c get r \<longleftrightarrow> (case r of Inl f \<Rightarrow> b \<and> f = Null_deref | Inr a \<Rightarrow> keeps K c (get a))"

lemma run_ok_simps [simp]:
  "run_ok b K c get (Inl f) \<longleftrightarrow> b \<and> f = Null_deref"
  "run_ok b K c get (Inr a) \<longleftrightarrow> keeps K c (get a)"
  by (simp_all add: run_ok_def)

lemma run_ok_bind:
  assumes "run_ok b K c get r"
    and "\<And>a. r = Inr a \<Longrightarrow> keeps K c (get a) \<Longrightarrow> wf_con K (get a) \<Longrightarrow> run_ok b K (get a) get' (f a)"
  shows "run_ok b K c get' (res_bind r f)"
proof (cases r)
  case (Inr a)
  then have k: "keeps K c (get a)"
    using assms(1) by simp
  show ?thesis
    using assms(2) [OF Inr k keeps_wf [OF k]] keeps_trans [OF k] Inr
    by (cases "f a") auto
qed (use assms in simp)

lemma run_ok_res: "res_ok (\<lambda>a. keeps K c (get a)) r \<Longrightarrow> run_ok b K c get r"
  by (cases r) simp_all

section \<open>The number of characters taken\<close>

lemma write_loop_count:
  "write_loop sw himask stopped n buf s = Inr (m, s') \<Longrightarrow>
   n \<le> m \<and> m \<le> n + length buf \<and> ((\<forall>i. n \<le> i \<and> i < n + length buf \<longrightarrow> \<not> stopped i) \<longrightarrow> m = n + length buf)"
proof (induction buf arbitrary: n s)
  case (Cons ch buf)
  show ?case
  proof (cases "stopped n")
    case False
    then obtain s1 where "write_loop sw himask stopped (Suc n) buf s1 = Inr (m, s')"
      using Cons.prems by (auto simp: res_bind_Inr)
    then show ?thesis using Cons.IH by fastforce
  qed (use Cons.prems in auto)
qed simp

lemma do_con_write_count:
  assumes "do_con_write sw irq stopped buf c = Inr (n, c')"
  shows "n \<le> length buf \<and> ((\<forall>i < length buf. \<not> stopped i) \<longrightarrow> n = length buf)"
proof (cases irq)
  case False
  then obtain c2 where "(let r = write_loop sw (vc_hi_font_mask (vc c)) stopped 0 buf (c2, -1, 0, 0)
      in res_bind r (\<lambda>(n, s). Inr (n, fst (flush sw s)))) = Inr (n, c')"
    using assms unfolding do_con_write_def Let_def
    by (cases "if is_visible c then hide_cursor sw c else Inr c") (simp_all del: split_paired_Ex)
  then obtain s where
    "write_loop sw (vc_hi_font_mask (vc c)) stopped 0 buf (c2, -1, 0, 0) = Inr (n, s)"
    by (cases "write_loop sw (vc_hi_font_mask (vc c)) stopped 0 buf (c2, -1, 0, 0)")
      (simp_all add: case_prod_beta prod_eq_iff del: split_paired_Ex)
  from write_loop_count [OF this] show ?thesis by simp
qed (use assms in \<open>simp add: do_con_write_def\<close>)

lemma vt_write_count:
  assumes "vt_write sw irq stopped buf c = Inr (n, c')"
  shows "n \<le> length buf \<and> ((\<forall>i < length buf. \<not> stopped i) \<longrightarrow> n = length buf)"
proof (cases "do_con_write sw irq stopped buf c")
  case (Inr a)
  moreover have "fst a = n"
    using assms Inr unfolding vt_write_def
    by (cases "vt_flush_chars sw irq (snd a)") (simp_all add: case_prod_beta)
  ultimately show ?thesis
    using do_con_write_count [of sw irq stopped buf c n "snd a"] by auto
qed (use assms in \<open>simp add: vt_write_def\<close>)

context display_driver
begin

lemma flush_ok: "wf_con K (fst s) \<Longrightarrow> keeps K (fst s) (fst (flush sw s))"
  by (simp add: flush_def case_prod_beta putcs_keeps)

lemma put_glyph_ok:
  assumes wf: "wf_con K (fst s)"
  shows "keeps K (fst s) (fst (put_glyph sw himask g s))"
proof -
  define s1 where "s1 = (if vc_need_wrap (vc (fst s)) \<or> vc_irm (vc (fst s)) then flush sw s else s)"
  define c2 where "c2 = (if vc_need_wrap (vc (fst s1)) then vte_lf sw (upd_vc vte_cr (fst s1)) else fst s1)"
  define c3 where "c3 = (if vc_irm (vc c2) then insert_char sw 1 c2 else c2)"
  have "keeps K (fst s) (fst s1)"
    using flush_ok [OF wf] wf by (simp add: s1_def)
  moreover have "keeps K (fst s1) c2" if "wf_con K (fst s1)"
    using keeps_step [OF keeps_vc_step [OF vte_cr_step that] vte_lf_ok] that by (simp add: c2_def)
  ultimately have k2: "keeps K (fst s) c2"
    by (rule keeps_step)
  then have k3: "keeps K (fst s) c3"
  proof (rule keeps_step)
    assume w2: "wf_con K c2"
    show "keeps K c2 c3"
      using insert_char_ok [OF w2, of 1] wf_geomD(11) [OF wf_con_geom [OF w2]] w2 by (simp add: c3_def)
  qed
  have "keeps K (fst s) (upd_vc advance (upd_mem (scr_writew (cell_for himask (vc c3) g) (vc_pos (vc c3))) c3))"
    by (rule keeps_step [OF keeps_step [OF k3 write_at_cursor_ok] keeps_vc_step [OF advance_step]])
  then show ?thesis
    unfolding put_glyph_def Let_def case_prod_beta s1_def [symmetric] c2_def [symmetric]
      c3_def [symmetric] by simp
qed

lemma emulate_ok:
  assumes "wf_con K c" "settled (vc c)" "ch = 0x5d \<Longrightarrow> b"
  shows "run_ok b K c id (terminal_emulation sw ch c)"
  using terminal_emulation_emu_ok [OF assms(1,2), of ch] assms(3)
  by (cases "terminal_emulation sw ch c") (auto simp: emu_ok_def bad_switch_def split: if_splits)

lemma write_char_ok:
  assumes wf: "wf_con K (fst s)" and st: "settled (vc (fst s))" and ch: "0 \<le> ch" "ch < 256"
    and b: "\<not> b \<Longrightarrow> ch < 0x80 \<and> ch \<noteq> 0x5d"
  shows "run_ok b K (fst s) fst (write_char sw himask ch s)"
proof -
  obtain r v where d: "decode_char (cm (fst s)) ch (vc (fst s)) = Inr (r, v)"
    and v: "vc_res (scr_region K) (vc (fst s)) v"
    using decode_char_ok [OF wf ch] by (auto simp: res_ok_ex)
  let ?s1 = "((fst s)\<lparr>vc := v\<rparr>, snd s)"
  have k1: "keeps K (fst s) (fst ?s1)"
    using set_vc_ok [OF wf v] by simp
  have same: "c = ch" if "r = Some (c, tc)" "\<not> b" for c tc
    using d that b [OF that(2)]
    by (auto simp: decode_char_def utf_byte_def case_prod_beta res_bind_Inr split: if_splits)
  show ?thesis
  proof (cases r)
    case None
    then show ?thesis using d k1 by (simp add: write_char_def)
  next
    case (Some p)
    obtain c tc where p: "p = (c, tc)" by (cases p)
    note w1 = keeps_wf [OF k1]
    have s2: "settled (vc (fst (flush sw ?s1)))"
      using keeps_settled [OF keeps_trans [OF k1 flush_ok [OF w1]] st] .
    have "run_ok b K (fst s) fst (let (c1, d1) = flush sw ?s1 in
        res_bind (terminal_emulation sw c c1) (\<lambda>c2. Inr (c2, d1)))"
    proof -
      have k2: "keeps K (fst s) (fst (flush sw ?s1))"
        using keeps_trans [OF k1 flush_ok [OF w1]] .
      have "run_ok b K (fst (flush sw ?s1)) fst (res_bind (terminal_emulation sw c (fst (flush sw ?s1)))
          (\<lambda>c2. Inr (c2, snd (flush sw ?s1))))"
        by (rule run_ok_bind [OF emulate_ok [OF keeps_wf [OF k2] s2]])
          (use same Some p b in auto)
      then show ?thesis
        using keeps_trans [OF k2] unfolding case_prod_beta
        by (cases "terminal_emulation sw c (fst (flush sw ?s1))") (auto simp: case_prod_beta)
    qed
    moreover have "run_ok b K (fst s) fst (res_bind (glyph_of (cm (fst ?s1)) v c tc) (\<lambda>g.
        if g AND NOT (if himask \<noteq> 0 then 0x1ff else 0xff) \<noteq> 0 then Inr ?s1
        else Inr (put_glyph sw himask g ?s1)))"
      using glyph_of_ok [OF w1, of c tc] k1 keeps_trans [OF k1 put_glyph_ok [OF w1]]
      by (auto simp: res_ok_ex)
    ultimately show ?thesis
      using d Some p unfolding write_char_def
      by (cases "vc_state v = ESinit \<and> displayable v c tc") (simp_all add: Let_def)
  qed
qed

lemma write_loop_ok:
  assumes "wf_con K (fst s)" "settled (vc (fst s))" "\<forall>ch \<in> set buf. 0 \<le> ch \<and> ch < 256"
    and "\<not> b \<Longrightarrow> \<forall>ch \<in> set buf. ch < 0x80 \<and> ch \<noteq> 0x5d"
  shows "run_ok b K (fst s) (fst \<circ> snd) (write_loop sw himask stopped n buf s)"
  using assms
proof (induction buf arbitrary: n s)
  case (Cons ch buf)
  have "run_ok b K (fst s) fst (write_char sw himask ch s)"
    using Cons.prems by (intro write_char_ok) auto
  then have "run_ok b K (fst s) (fst \<circ> snd)
      (res_bind (write_char sw himask ch s) (write_loop sw himask stopped (Suc n) buf))"
  proof (rule run_ok_bind)
    fix s' :: "'d con \<times> draw" assume "keeps K (fst s) (fst s')" "wf_con K (fst s')"
    then show "run_ok b K (fst s') (fst \<circ> snd) (write_loop sw himask stopped (Suc n) buf s')"
      using Cons.prems keeps_settled by (intro Cons.IH) auto
  qed
  then show ?case
    using Cons.prems(1) by (simp add: comp_def)
qed simp

lemma do_con_write_run_ok:
  assumes wf: "wf_con K c" and st: "settled (vc c)" and "\<forall>ch \<in> set buf. 0 \<le> ch \<and> ch < 256"
    and "\<not> b \<Longrightarrow> \<forall>ch \<in> set buf. ch < 0x80 \<and> ch \<noteq> 0x5d"
  shows "run_ok b K c snd (do_con_write sw irq stopped buf c)"
proof -
  have h: "res_ok (keeps K c) (if is_visible c then hide_cursor sw c else Inr c)"
    using hide_cursor_ok [OF wf] wf by simp
  have "run_ok b K c snd (res_bind (if is_visible c then hide_cursor sw c else Inr c) (\<lambda>c1.
      res_bind (write_loop sw (vc_hi_font_mask (vc c)) stopped 0 buf (c1, -1, 0, 0)) (\<lambda>(n, s).
        Inr (n, fst (flush sw s)))))"
  proof (rule run_ok_bind [where get = id])
    show "run_ok b K c id (if is_visible c then hide_cursor sw c else Inr c)"
      using h by (intro run_ok_res) simp
    fix c1 assume k1: "keeps K c (id c1)" "wf_con K (id c1)"
    have "settled (vc c1)"
      using keeps_settled [OF k1(1) st] by simp
    then have "run_ok b K c1 (fst \<circ> snd)
        (write_loop sw (vc_hi_font_mask (vc c)) stopped 0 buf (c1, -1, 0, 0))"
      using write_loop_ok [of "(c1, -1, 0, 0)" buf b] k1 assms(3,4) by simp
    then show "run_ok b K (id c1) snd
        (res_bind (write_loop sw (vc_hi_font_mask (vc c)) stopped 0 buf (c1, -1, 0, 0)) (\<lambda>(n, s).
          Inr (n, fst (flush sw s))))"
      unfolding id_apply
      by (rule run_ok_bind) (simp add: case_prod_beta flush_ok)
  qed
  then show ?thesis
    using wf by (simp add: do_con_write_def)
qed

lemma vt_write_run_ok:
  assumes wf: "wf_con K c" and st: "settled (vc c)" and "\<forall>ch \<in> set buf. 0 \<le> ch \<and> ch < 256"
    and "\<not> b \<Longrightarrow> \<forall>ch \<in> set buf. ch < 0x80 \<and> ch \<noteq> 0x5d"
  shows "run_ok b K c snd (vt_write sw irq stopped buf c)"
  unfolding vt_write_def
proof (rule run_ok_bind [OF do_con_write_run_ok [OF assms]])
  fix a :: "nat \<times> 'd con" assume "wf_con K (snd a)"
  then have "res_ok (keeps K (snd a)) (vt_flush_chars sw irq (snd a))"
    by (simp add: vt_flush_chars_def set_cursor_ok)
  then show "run_ok b K (snd a) snd ((\<lambda>(n, c1).
      res_bind (vt_flush_chars sw irq c1) (\<lambda>c2. Inr (n, c2))) a)"
    by (auto simp: case_prod_beta res_ok_ex)
qed

end

end
