(* ===== verification/Screen.thy ===== *)
theory Screen
  imports Con_Write_Inv
begin

text \<open>
  The screen of a console as a grid of cells, the abstract operations on such grids, and the
  proof that the operations of vt.c and decvte.c implement them: \<open>screen c y x\<close> is the cell in
  row \<open>y\<close> and column \<open>x\<close>, wherever in memory the display driver has put the screen. The locale
  \<open>screen_driver\<close> adds to the contract of a display driver that drawing leaves the cells
  alone and that scrolling by the driver has the effect scrolling by copying has.
\<close>

section \<open>Grids\<close>

type_synonym grid = "int \<Rightarrow> int \<Rightarrow> u16"

definition screen :: "'d con \<Rightarrow> grid" where
  "screen c y x = mem c (vc_origin (vc c) + y * vc_size_row (vc c) + 2 * x)"

definition on_screen :: "vc_data \<Rightarrow> int \<Rightarrow> int \<Rightarrow> bool" where
  "on_screen v y x \<longleftrightarrow> 0 \<le> y \<and> y < vc_rows v \<and> 0 \<le> x \<and> x < vc_cols v"

text \<open>Scroll rows \<open>t\<close> to \<open>b\<close> by \<open>n\<close>, filling with \<open>blank\<close>.\<close>

definition scroll_rows :: "scroll_dir \<Rightarrow> int \<Rightarrow> int \<Rightarrow> int \<Rightarrow> u16 \<Rightarrow> grid \<Rightarrow> grid" where
  "scroll_rows dir t b n blank s = (\<lambda>y x.
     if n < 1 \<or> y < t \<or> b \<le> y then s y x
     else case dir of
         SM_UP \<Rightarrow> if y + n < b then s (y + n) x else blank
       | SM_DOWN \<Rightarrow> if t + n \<le> y then s (y - n) x else blank)"

text \<open>The number of rows the scroll functions really scroll by: at least one row stays.\<close>

definition scroll_count :: "int \<Rightarrow> int \<Rightarrow> int \<Rightarrow> int" where
  "scroll_count t b nr = (if t + nr \<ge> b then b - t - 1 else nr)"

text \<open>Fill the cells that satisfy \<open>P\<close>.\<close>

definition fill_cells :: "(int \<Rightarrow> int \<Rightarrow> bool) \<Rightarrow> u16 \<Rightarrow> grid \<Rightarrow> grid" where
  "fill_cells P w s = (\<lambda>y x. if P y x then w else s y x)"

section \<open>Cell addresses\<close>

text \<open>Comparing the address of a cell with the start of a row is comparing rows.\<close>

lemma row_cmp:
  fixes y k s r :: int
  assumes "0 \<le> r" "r < s"
  shows "k * s \<le> y * s + r \<longleftrightarrow> k \<le> y" and "y * s + r < k * s \<longleftrightarrow> y < k"
proof -
  show "k * s \<le> y * s + r \<longleftrightarrow> k \<le> y"
  proof
    assume "k * s \<le> y * s + r"
    then have "k * s < (y + 1) * s" using assms by (simp add: algebra_simps)
    then show "k \<le> y" using assms by (simp add: mult_less_cancel_right)
  next
    assume "k \<le> y"
    then have "k * s \<le> y * s" using assms by (intro mult_right_mono) simp_all
    then show "k * s \<le> y * s + r" using assms by linarith
  qed
  then show "y * s + r < k * s \<longleftrightarrow> y < k" by linarith
qed

text \<open>Comparing two cells is comparing rows first, then columns.\<close>

lemma cell_cmp:
  fixes y x cols :: int
  assumes "0 \<le> x" "x < cols" "0 \<le> cx" "cx < cols"
  shows "cy * cols + cx \<le> y * cols + x \<longleftrightarrow> cy < y \<or> cy = y \<and> cx \<le> x"
proof (cases "cy = y")
  case False
  have "cy * cols + cx \<le> y * cols + x \<longleftrightarrow> cy < y"
  proof
    assume "cy * cols + cx \<le> y * cols + x"
    then have "cy * cols \<le> y * cols + x" using assms by linarith
    then show "cy < y" using row_cmp(1) [of x cols cy y] assms False by simp
  next
    assume "cy < y"
    then have "(cy + 1) * cols \<le> y * cols" using assms by (intro mult_right_mono) auto
    then show "cy * cols + cx \<le> y * cols + x" using assms by (simp add: algebra_simps)
  qed
  then show ?thesis using False by simp
qed simp

text \<open>A run of cells inside one row.\<close>

lemma run_in_row:
  fixes y x cols :: int
  assumes "0 \<le> x" "x < cols" "0 \<le> a" "a + n \<le> cols"
  shows "cy * cols + a \<le> y * cols + x \<and> y * cols + x < cy * cols + a + n \<longleftrightarrow> y = cy \<and> a \<le> x \<and> x < a + n"
proof (cases "y = cy")
  case False
  consider "y + 1 \<le> cy" | "cy + 1 \<le> y" using False by linarith
  then show ?thesis
  proof cases
    case 1
    then have "(y + 1) * cols \<le> cy * cols" using assms by (intro mult_right_mono) auto
    then show ?thesis using assms False by (auto simp: algebra_simps)
  next
    case 2
    then have "(cy + 1) * cols \<le> y * cols" using assms by (intro mult_right_mono) auto
    then show ?thesis using assms False by (auto simp: algebra_simps)
  qed
qed auto

text \<open>Copying rows and filling rows, seen on the grid at origin \<open>p\<close>.\<close>

definition grid_at :: "memory \<Rightarrow> int \<Rightarrow> int \<Rightarrow> grid" where
  "grid_at m p s y x = m (p + y * s + 2 * x)"

lemma screen_grid: "screen c = grid_at (mem c) (vc_origin (vc c)) (vc_size_row (vc c))"
  by (simp add: fun_eq_iff screen_def grid_at_def)

lemma row_range:
  fixes p y x s k n :: int
  assumes "0 \<le> x" "2 * x < s"
  shows "p + k * s \<le> p + y * s + 2 * x \<and> p + y * s + 2 * x < p + k * s + n * s \<longleftrightarrow> k \<le> y \<and> y < k + n"
proof -
  have "p + y * s + 2 * x < p + k * s + n * s \<longleftrightarrow> y * s + 2 * x < (k + n) * s"
    by (simp add: algebra_simps)
  then show ?thesis
    using row_cmp [where r = "2 * x" and s = s and y = y] assms by simp
qed

lemma grid_memsetw_rows:
  assumes "0 \<le> x" "2 * x < s"
  shows "grid_at (scr_memsetw (p + k * s) w (n * s) m) p s y x
    = (if k \<le> y \<and> y < k + n then w else grid_at m p s y x)"
  unfolding grid_at_def scr_memsetw_def row_range [OF assms] ..

lemma grid_memmovew_rows:
  assumes "0 \<le> x" "2 * x < s"
  shows "grid_at (scr_memmovew (p + k * s) q (n * s) m) p s y x
    = (if k \<le> y \<and> y < k + n then grid_at m q s (y - k) x else grid_at m p s y x)"
  unfolding grid_at_def scr_memmovew_def row_range [OF assms] by (simp add: algebra_simps)

text \<open>Scrolling by copying.\<close>

lemma scroll_up_copy:
  assumes "0 \<le> x" "2 * x < s" "1 \<le> n" "t + n < b"
  shows "grid_at (scr_memsetw (p + (b - n) * s) w (n * s)
      (scr_memmovew (p + t * s) (p + (t + n) * s) ((b - t - n) * s) m)) p s y x
    = scroll_rows SM_UP t b n w (grid_at m p s) y x"
  unfolding grid_memsetw_rows [OF assms(1,2)] grid_memmovew_rows [OF assms(1,2)]
  using assms(3,4) by (auto simp: scroll_rows_def grid_at_def algebra_simps)

lemma scroll_down_copy:
  assumes "0 \<le> x" "2 * x < s" "1 \<le> n" "t + n < b"
  shows "grid_at (scr_memsetw (p + t * s) w (n * s)
      (scr_memmovew (p + (t + n) * s) (p + t * s) ((b - t - n) * s) m)) p s y x
    = scroll_rows SM_DOWN t b n w (grid_at m p s) y x"
  unfolding grid_memsetw_rows [OF assms(1,2)] grid_memmovew_rows [OF assms(1,2)]
  using assms(3,4) by (auto simp: scroll_rows_def grid_at_def algebra_simps)

section \<open>Filling and shifting cells\<close>

lemma grid_memsetw_cells:
  "grid_at (scr_memsetw (p + 2 * i) w (2 * n) m) p (2 * cols) y x
    = (if i \<le> y * cols + x \<and> y * cols + x < i + n then w else grid_at m p (2 * cols) y x)"
  by (auto simp: grid_at_def scr_memsetw_def)

lemma shift_right_cells:
  "0 \<le> nr \<Longrightarrow> shift_right q nr k m (q + 2 * j)
    = (if nr \<le> j \<and> j < nr + int k then m (q + 2 * (j - nr)) else m (q + 2 * j))"
  by (induction k arbitrary: m) (auto simp: scr_writew_def)

lemma shift_left_cells:
  "0 \<le> nr \<Longrightarrow> shift_left p nr k m (p + 2 * j)
    = (if 0 \<le> j \<and> j < int k then m (p + 2 * (j + nr)) else m (p + 2 * j))"
proof (induction k arbitrary: p m j)
  case (Suc k)
  let ?m = "scr_writew (m (p + 2 * nr)) p m"
  have "shift_left p nr (Suc k) m (p + 2 * j) = shift_left (p + 2) nr k ?m ((p + 2) + 2 * (j - 1))"
    by simp
  also have "\<dots> = (if 0 \<le> j - 1 \<and> j - 1 < int k then ?m ((p + 2) + 2 * (j - 1 + nr))
      else ?m ((p + 2) + 2 * (j - 1)))"
    using Suc.prems by (rule Suc.IH)
  finally show ?case
    using Suc.prems by (auto simp: scr_writew_def)
qed auto

text \<open>Inserting and deleting cells in row \<open>cy\<close> at column \<open>cx\<close>.\<close>

definition insert_cells :: "int \<Rightarrow> int \<Rightarrow> int \<Rightarrow> u16 \<Rightarrow> grid \<Rightarrow> grid" where
  "insert_cells cy cx n blank s = (\<lambda>y x.
     if y \<noteq> cy \<or> x < cx then s y x else if x < cx + n then blank else s y (x - n))"

definition delete_cells :: "int \<Rightarrow> int \<Rightarrow> int \<Rightarrow> int \<Rightarrow> u16 \<Rightarrow> grid \<Rightarrow> grid" where
  "delete_cells cols cy cx n blank s = (\<lambda>y x.
     if y \<noteq> cy \<or> x < cx then s y x else if x < cols - n then s y (x + n) else blank)"

lemma insert_copy:
  assumes "0 \<le> x" "x < cols" "0 \<le> cx" "0 \<le> n" "cx + n \<le> cols" "q = p + 2 * (cy * cols + cx)"
  shows "grid_at (scr_memsetw q w (n * 2) (shift_right q n (nat (cols - n - cx)) m)) p (2 * cols) y x
    = insert_cells cy cx n w (grid_at m p (2 * cols)) y x"
proof -
  let ?j = "y * cols + x - (cy * cols + cx)"
  have a: "p + y * (2 * cols) + 2 * x = q + 2 * ?j"
    unfolding assms(6) by (simp add: algebra_simps)
  have j1: "0 \<le> ?j \<and> ?j < n \<longleftrightarrow> y = cy \<and> cx \<le> x \<and> x < cx + n"
    using run_in_row [of x cols cx n cy y] assms by auto
  have j2: "n \<le> ?j \<and> ?j < n + int (nat (cols - n - cx)) \<longleftrightarrow> y = cy \<and> cx + n \<le> x"
    using run_in_row [of x cols "cx + n" "cols - n - cx" cy y] assms by auto
  have "grid_at (scr_memsetw q w (n * 2) (shift_right q n (nat (cols - n - cx)) m)) p (2 * cols) y x
    = (if 0 \<le> ?j \<and> ?j < n then w else shift_right q n (nat (cols - n - cx)) m (q + 2 * ?j))"
    unfolding grid_at_def a by (auto simp: scr_memsetw_def)
  also have "\<dots> = (if y = cy \<and> cx \<le> x \<and> x < cx + n then w
      else if y = cy \<and> cx + n \<le> x then m (q + 2 * (?j - n)) else m (q + 2 * ?j))"
    unfolding shift_right_cells [OF assms(4)] j1 j2 ..
  also have "\<dots> = insert_cells cy cx n w (grid_at m p (2 * cols)) y x"
    using assms(4) unfolding insert_cells_def grid_at_def a [symmetric]
    by (auto simp: assms(6) algebra_simps)
  finally show ?thesis .
qed

lemma delete_copy:
  assumes "0 \<le> x" "x < cols" "0 \<le> cx" "0 \<le> n" "cx + n \<le> cols" "q = p + 2 * (cy * cols + cx)"
    and k: "k = nat (cols - n - cx)"
  shows "grid_at (scr_memsetw (q + 2 * int k) w (n * 2) (shift_left q n k m)) p (2 * cols) y x
    = delete_cells cols cy cx n w (grid_at m p (2 * cols)) y x"
proof -
  let ?j = "y * cols + x - (cy * cols + cx)"
  have a: "p + y * (2 * cols) + 2 * x = q + 2 * ?j"
    unfolding assms(6) by (simp add: algebra_simps)
  have j1: "0 \<le> ?j \<and> ?j < int k \<longleftrightarrow> y = cy \<and> cx \<le> x \<and> x < cols - n"
    using run_in_row [of x cols cx "cols - n - cx" cy y] assms by auto
  have j2: "int k \<le> ?j \<and> ?j < int k + n \<longleftrightarrow> y = cy \<and> cols - n \<le> x"
    using run_in_row [of x cols "cols - n" n cy y] assms by auto
  have "grid_at (scr_memsetw (q + 2 * int k) w (n * 2) (shift_left q n k m)) p (2 * cols) y x
    = (if int k \<le> ?j \<and> ?j < int k + n then w else shift_left q n k m (q + 2 * ?j))"
    unfolding grid_at_def a by (auto simp: scr_memsetw_def)
  also have "\<dots> = (if y = cy \<and> cols - n \<le> x then w
      else if y = cy \<and> cx \<le> x \<and> x < cols - n then m (q + 2 * (?j + n)) else m (q + 2 * ?j))"
    unfolding shift_left_cells [OF assms(4)] j1 j2 ..
  also have "\<dots> = delete_cells cols cy cx n w (grid_at m p (2 * cols)) y x"
    using assms(3-5) unfolding delete_cells_def grid_at_def a [symmetric]
    by (auto simp: assms(6) algebra_simps)
  finally show ?thesis .
qed

text \<open>The cells \<open>ED\<close> and \<open>EL\<close> erase, by their parameter.\<close>

definition display_part :: "int \<Rightarrow> vc_data \<Rightarrow> int \<Rightarrow> int \<Rightarrow> bool" where
  "display_part p v y x =
     (if p = 0 then vc_y v < y \<or> y = vc_y v \<and> vc_x v \<le> x
      else if p = 1 then y < vc_y v \<or> y = vc_y v \<and> x \<le> vc_x v
      else p = 2)"

definition line_part :: "int \<Rightarrow> vc_data \<Rightarrow> int \<Rightarrow> int \<Rightarrow> bool" where
  "line_part p v y x =
     (y = vc_y v \<and> (if p = 0 then vc_x v \<le> x else if p = 1 then x \<le> vc_x v else p = 2))"

lemma clamp_count_range:
  "0 \<le> p \<Longrightarrow> 1 \<le> room \<Longrightarrow> 1 \<le> clamp_count p room \<and> clamp_count p room \<le> room"
  by (auto simp: clamp_count_def)

section \<open>The contract of a driver that keeps the cells\<close>

locale screen_driver = display_driver sw K for sw :: "'d consw" and K :: "'d contract" +
  assumes clear_cells: "con_clear sw = Some f \<Longrightarrow> mem (f sy sx h w c) = mem c \<and> vc (f sy sx h w c) = vc c"
    and putc_cells: "mem (con_putc sw ch y x c) = mem c \<and> vc (con_putc sw ch y x c) = vc c"
    and bmove_cells: "mem (con_bmove sw sy sx dy dx h w c) = mem c \<and> vc (con_bmove sw sy sx dy dx h w c) = vc c"
    and scroll_refused_mem: "con_scroll_region sw t b dir nr c = (False, c') \<Longrightarrow> mem c' = mem c"
    and scroll_refines:
      "con_scroll_region sw t b dir nr c = (True, c') \<Longrightarrow> wf_con K c \<Longrightarrow> is_visible c \<Longrightarrow>
       0 \<le> t \<Longrightarrow> t < b \<Longrightarrow> b \<le> vc_rows (vc c) \<Longrightarrow> 1 \<le> nr \<Longrightarrow> nr < b - t \<Longrightarrow> on_screen (vc c) y x \<Longrightarrow>
       screen c' y x = scroll_rows dir t b nr (vc_video_erase_char (vc c)) (screen c) y x"
begin

lemma clear_region_cells [simp]:
  "mem (clear_region sw sx sy w h c) = mem c" "vc (clear_region sw sx sy w h c) = vc c"
  using clear_cells by (simp_all add: clear_region_def split: option.split)

text \<open>The driver either scrolls as specified or leaves the cells to the caller.\<close>

lemma scroll_attempt:
  assumes wf: "wf_con K c" and args: "0 \<le> t" "t < b" "b \<le> vc_rows (vc c)" "1 \<le> n" "n < b - t"
    and r: "r = (if is_visible c then con_scroll_region sw t b dir n c else (False, c))"
  shows "fst r \<Longrightarrow> on_screen (vc c) y x \<Longrightarrow>
      screen (snd r) y x = scroll_rows dir t b n (vc_video_erase_char (vc c)) (screen c) y x"
    and "\<not> fst r \<Longrightarrow> mem (snd r) = mem c \<and> (\<exists>vo. vc (snd r) = (vc c)\<lparr>vc_visible_origin := vo\<rparr>)"
proof -
  show "screen (snd r) y x = scroll_rows dir t b n (vc_video_erase_char (vc c)) (screen c) y x"
    if "fst r" "on_screen (vc c) y x"
  proof -
    have "con_scroll_region sw t b dir n c = (True, snd r)" "is_visible c"
      using that(1) r by (auto split: if_splits) (metis prod.collapse)
    from scroll_refines [OF this(1) wf this(2) args that(2)] show ?thesis .
  qed
  show "mem (snd r) = mem c \<and> (\<exists>vo. vc (snd r) = (vc c)\<lparr>vc_visible_origin := vo\<rparr>)" if "\<not> fst r"
  proof (cases "is_visible c")
    case True
    then have "con_scroll_region sw t b dir n c = (False, snd r)"
      using that r by (simp add: prod_eq_iff)
    then show ?thesis
      using that scroll_refused_mem [of t b dir n c "snd r"] scroll_step(2) [OF wf args r] by simp
  qed (use that scroll_step(2) [OF wf args r] r in simp)
qed

text \<open>Scrolling, by the driver or by copying.\<close>

lemma scroll_region_up_screen:
  assumes wf: "wf_con K c" and t: "0 \<le> t" and b: "b \<le> vc_rows (vc c)" and yx: "on_screen (vc c) y x"
  shows "screen (scroll_region_up sw t b nr c) y x
    = scroll_rows SM_UP t b (scroll_count t b nr) (vc_video_erase_char (vc c)) (screen c) y x"
proof (cases "t \<ge> b \<or> scroll_count t b nr < 1")
  case True
  then show ?thesis
    by (auto simp: scroll_region_up_def scroll_count_def scroll_rows_def Let_def)
next
  case False
  define n where "n = scroll_count t b nr"
  define r where "r = (if is_visible c then con_scroll_region sw t b SM_UP n c else (False, c))"
  have args: "t < b" "1 \<le> n" "n < b - t"
    using False by (auto simp: n_def scroll_count_def)
  note att = scroll_attempt [OF wf t args(1) b args(2,3) r_def]
  show ?thesis
  proof (cases "fst r")
    case True
    then have "scroll_region_up sw t b nr c = snd r"
      using args b unfolding r_def n_def scroll_count_def scroll_region_up_def Let_def case_prod_beta by simp
    then show ?thesis using att(1) [OF True yx] by (simp add: n_def)
  next
    case nd: False
    obtain vo where v: "vc (snd r) = (vc c)\<lparr>vc_visible_origin := vo\<rparr>" and m: "mem (snd r) = mem c"
      using att(2) [OF nd] by blast
    have s: "vc_size_row (vc c) = 2 * vc_cols (vc c)"
      using wf_geomD(5) [OF wf_con_geom [OF wf]] .
    have "scroll_region_up sw t b nr c = upd_mem (\<lambda>m. scr_memsetw
          (vc_origin (vc c) + (b - n) * vc_size_row (vc c)) (vc_video_erase_char (vc c))
          (n * vc_size_row (vc c)) (scr_memmovew (vc_origin (vc c) + t * vc_size_row (vc c))
            (vc_origin (vc c) + (t + n) * vc_size_row (vc c)) ((b - t - n) * vc_size_row (vc c)) m)) (snd r)"
      using args b nd v unfolding r_def n_def scroll_count_def scroll_region_up_def Let_def case_prod_beta
      by (simp add: s algebra_simps)
    then show ?thesis
      using scroll_up_copy [of x "vc_size_row (vc c)" n t b "vc_origin (vc c)"] yx args
      by (simp add: screen_grid m v on_screen_def s n_def)
  qed
qed

lemma scroll_region_down_screen:
  assumes wf: "wf_con K c" and t: "0 \<le> t" and b: "b \<le> vc_rows (vc c)" and yx: "on_screen (vc c) y x"
  shows "screen (scroll_region_down sw t b nr c) y x
    = scroll_rows SM_DOWN t b (scroll_count t b nr) (vc_video_erase_char (vc c)) (screen c) y x"
proof (cases "t \<ge> b \<or> scroll_count t b nr < 1")
  case True
  then show ?thesis
    by (auto simp: scroll_region_down_def scroll_count_def scroll_rows_def Let_def)
next
  case False
  define n where "n = scroll_count t b nr"
  define r where "r = (if is_visible c then con_scroll_region sw t b SM_DOWN n c else (False, c))"
  have args: "t < b" "1 \<le> n" "n < b - t"
    using False by (auto simp: n_def scroll_count_def)
  note att = scroll_attempt [OF wf t args(1) b args(2,3) r_def]
  show ?thesis
  proof (cases "fst r")
    case True
    then have "scroll_region_down sw t b nr c = snd r"
      using args b unfolding r_def n_def scroll_count_def scroll_region_down_def Let_def case_prod_beta by simp
    then show ?thesis using att(1) [OF True yx] by (simp add: n_def)
  next
    case nd: False
    obtain vo where v: "vc (snd r) = (vc c)\<lparr>vc_visible_origin := vo\<rparr>" and m: "mem (snd r) = mem c"
      using att(2) [OF nd] by blast
    have s: "vc_size_row (vc c) = 2 * vc_cols (vc c)"
      using wf_geomD(5) [OF wf_con_geom [OF wf]] .
    have "scroll_region_down sw t b nr c = upd_mem (\<lambda>m. scr_memsetw
          (vc_origin (vc c) + t * vc_size_row (vc c)) (vc_video_erase_char (vc c))
          (n * vc_size_row (vc c)) (scr_memmovew (vc_origin (vc c) + (t + n) * vc_size_row (vc c))
            (vc_origin (vc c) + t * vc_size_row (vc c)) ((b - t - n) * vc_size_row (vc c)) m)) (snd r)"
      using args b nd v unfolding r_def n_def scroll_count_def scroll_region_down_def Let_def case_prod_beta
      by (simp add: s algebra_simps)
    then show ?thesis
      using scroll_down_copy [of x "vc_size_row (vc c)" n t b "vc_origin (vc c)"] yx args
      by (simp add: screen_grid m v on_screen_def s n_def)
  qed
qed

lemma insert_line_screen:
  assumes "wf_con K c" "on_screen (vc c) y x"
  shows "screen (insert_line sw nr c) y x = scroll_rows SM_DOWN (vc_y (vc c)) (vc_bottom (vc c))
    (scroll_count (vc_y (vc c)) (vc_bottom (vc c)) nr) (vc_video_erase_char (vc c)) (screen c) y x"
  using scroll_region_down_screen [OF assms(1) _ _ assms(2)] wf_geomD [OF wf_con_geom [OF assms(1)]]
  by (simp add: insert_line_def screen_def)

lemma delete_line_screen:
  assumes "wf_con K c" "on_screen (vc c) y x"
  shows "screen (delete_line sw nr c) y x = scroll_rows SM_UP (vc_y (vc c)) (vc_bottom (vc c))
    (scroll_count (vc_y (vc c)) (vc_bottom (vc c)) nr) (vc_video_erase_char (vc c)) (screen c) y x"
  using scroll_region_up_screen [OF assms(1) _ _ assms(2)] wf_geomD [OF wf_con_geom [OF assms(1)]]
  by (simp add: delete_line_def screen_def)

text \<open>Inserting and deleting characters.\<close>

lemma putc_blanks_cells: "mem (putc_blanks sw n col c) = mem c \<and> vc (putc_blanks sw n col c) = vc c"
  using putc_cells by (induction n arbitrary: c) simp_all

lemma redraw_shift_cells:
  "mem (redraw_shift sw f t nr col c) = mem c \<and>
   (\<exists>a. vc (redraw_shift sw f t nr col c) = (vc c)\<lparr>vc_attr := a\<rparr>)"
  using bmove_cells putc_blanks_cells
  by (cases "is_visible c") (auto simp: redraw_shift_def Let_def intro: exI [of _ "vc_attr (vc c)"])

lemma pos_cells:
  "wf_con K c \<Longrightarrow> vc_pos (vc c) = vc_origin (vc c) + 2 * (vc_y (vc c) * vc_cols (vc c) + vc_x (vc c))"
  using wf_vcD(8) [OF wf_con_vc, of K c] wf_geomD(5) [OF wf_con_geom, of K c] by simp

lemma insert_char_screen:
  assumes wf: "wf_con K c" and nr: "0 \<le> nr" "vc_x (vc c) + nr \<le> vc_cols (vc c)" and yx: "on_screen (vc c) y x"
  shows "screen (insert_char sw nr c) y x
    = insert_cells (vc_y (vc c)) (vc_x (vc c)) nr (vc_video_erase_char (vc c)) (screen c) y x"
proof -
  note g = wf_geomD [OF wf_con_geom [OF wf]]
  let ?c = "upd_vc (\<lambda>v. v\<lparr>vc_need_wrap := False\<rparr>) (upd_mem (\<lambda>m. scr_memsetw (vc_pos (vc c))
      (vc_video_erase_char (vc c)) (nr * 2) (shift_right (vc_pos (vc c)) nr
        (nat (vc_cols (vc c) - nr - vc_x (vc c))) m)) c)"
  have "screen (insert_char sw nr c) = screen ?c"
    using redraw_shift_cells [of "vc_x (vc c)" "vc_x (vc c) + nr" nr "\<lambda>k. vc_x (vc c) + k" ?c]
    by (auto simp: insert_char_def Let_def screen_grid)
  then show ?thesis
    using insert_copy [OF _ _ g(10) nr pos_cells [OF wf]] yx g(5)
    by (simp add: screen_grid on_screen_def)
qed

lemma delete_char_screen:
  assumes wf: "wf_con K c" and nr: "0 \<le> nr" "vc_x (vc c) + nr \<le> vc_cols (vc c)" and yx: "on_screen (vc c) y x"
  shows "screen (delete_char sw nr c) y x
    = delete_cells (vc_cols (vc c)) (vc_y (vc c)) (vc_x (vc c)) nr (vc_video_erase_char (vc c)) (screen c) y x"
proof -
  note g = wf_geomD [OF wf_con_geom [OF wf]]
  let ?k = "nat (vc_cols (vc c) - nr - vc_x (vc c))"
  let ?c = "upd_vc (\<lambda>v. v\<lparr>vc_need_wrap := False\<rparr>) (upd_mem (\<lambda>m. scr_memsetw (vc_pos (vc c) + 2 * int ?k)
      (vc_video_erase_char (vc c)) (nr * 2) (shift_left (vc_pos (vc c)) nr ?k m)) c)"
  have "screen (delete_char sw nr c) = screen ?c"
    using redraw_shift_cells [of "vc_x (vc c) + nr" "vc_x (vc c)" nr "\<lambda>k. vc_cols (vc c) - 1 - k" ?c]
    by (auto simp: delete_char_def Let_def screen_grid)
  then show ?thesis
    using delete_copy [OF _ _ g(10) nr pos_cells [OF wf] refl] yx g(5)
    by (simp add: screen_grid on_screen_def)
qed

text \<open>Erasing.\<close>

lemma erase_cells_screen:
  assumes "vc_size_row (vc c) = 2 * vc_cols (vc c)" "p = vc_origin (vc c) + 2 * i"
  shows "screen (erase_cells p n c) y x
    = (if i \<le> y * vc_cols (vc c) + x \<and> y * vc_cols (vc c) + x < i + n then vc_video_erase_char (vc c)
       else screen c y x)"
  by (simp add: erase_cells_def screen_grid assms grid_memsetw_cells)

lemma erase_cells_clear [simp]:
  "screen (erase_cells q n (clear_region sw i j k l c)) = screen (erase_cells q n c)"
  by (simp add: erase_cells_def screen_grid)

lemma vte_ed_screen:
  assumes wf: "wf_con K c" and yx: "on_screen (vc c) y x"
  shows "screen (vte_ed sw p c) y x
    = fill_cells (display_part p (vc c)) (vc_video_erase_char (vc c)) (screen c) y x"
proof -
  let ?v = "vc c" and ?cols = "vc_cols (vc c)"
  note g = wf_geomD [OF wf_con_geom [OF wf]]
  note pos = pos_cells [OF wf]
  have se: "vc_scr_end ?v = vc_origin ?v + 2 * (vc_rows ?v * ?cols)"
    using wf_vcD(9) [OF wf_con_vc [OF wf]] g(5,6) by simp
  have xs: "0 \<le> x" "x < ?cols" "0 \<le> y" "y < vc_rows ?v"
    using yx by (simp_all add: on_screen_def)
  have all: "0 \<le> y * ?cols + x" "y * ?cols + x < vc_rows ?v * ?cols"
    using xs row_cmp(2) [OF xs(1,2), of y "vc_rows ?v"] by simp_all
  have from_pos: "vc_y ?v * ?cols + vc_x ?v \<le> y * ?cols + x \<longleftrightarrow> vc_y ?v < y \<or> y = vc_y ?v \<and> vc_x ?v \<le> x"
    using cell_cmp [OF xs(1,2) g(10,11), of "vc_y ?v" y] by auto
  have to_pos: "y * ?cols + x \<le> vc_y ?v * ?cols + vc_x ?v \<longleftrightarrow> y < vc_y ?v \<or> y = vc_y ?v \<and> x \<le> vc_x ?v"
    using cell_cmp [OF g(10,11) xs(1,2), of y "vc_y ?v"] by auto
  note e = erase_cells_screen [OF g(5), where y = y and x = x]
  consider "p = 0" | "p = 1" | "p = 2" | "p \<notin> {0, 1, 2}" by blast
  then show ?thesis
  proof cases
    case 1
    then show ?thesis
      using e [OF pos, of "vc_rows ?v * ?cols - (vc_y ?v * ?cols + vc_x ?v)"] all
      by (simp add: vte_ed_def Let_def pos se fill_cells_def display_part_def from_pos)
  next
    case 2
    then show ?thesis
      using e [of "vc_origin ?v" 0 "vc_y ?v * ?cols + vc_x ?v + 1"] all to_pos
      by (simp add: vte_ed_def Let_def pos fill_cells_def display_part_def)
  next
    case 3
    then show ?thesis
      using e [of "vc_origin ?v" 0 "?cols * vc_rows ?v"] all
      by (simp add: vte_ed_def Let_def fill_cells_def display_part_def mult.commute)
  next
    case 4
    then show ?thesis by (simp add: vte_ed_def Let_def fill_cells_def display_part_def)
  qed
qed

lemma line_range:
  assumes wf: "wf_con K c" and yx: "on_screen (vc c) y x" and "0 \<le> a" "a + n \<le> vc_cols (vc c)"
  shows "screen (erase_cells (vc_pos (vc c) - 2 * vc_x (vc c) + 2 * a) n c) y x
    = fill_cells (\<lambda>y x. y = vc_y (vc c) \<and> a \<le> x \<and> x < a + n) (vc_video_erase_char (vc c)) (screen c) y x"
proof -
  have "vc_pos (vc c) - 2 * vc_x (vc c) + 2 * a = vc_origin (vc c) + 2 * (vc_y (vc c) * vc_cols (vc c) + a)"
    using pos_cells [OF wf] by simp
  from erase_cells_screen [OF wf_geomD(5) [OF wf_con_geom [OF wf]] this, of n y x] show ?thesis
    using run_in_row [of x "vc_cols (vc c)" a n "vc_y (vc c)" y] yx assms(3,4)
    by (simp add: fill_cells_def on_screen_def)
qed

lemma vte_el_screen:
  assumes wf: "wf_con K c" and yx: "on_screen (vc c) y x"
  shows "screen (vte_el sw p c) y x
    = fill_cells (line_part p (vc c)) (vc_video_erase_char (vc c)) (screen c) y x"
proof -
  note g = wf_geomD [OF wf_con_geom [OF wf]]
  have x: "x < vc_cols (vc c)" "0 \<le> x"
    using yx by (simp_all add: on_screen_def)
  consider "p = 0" | "p = 1" | "p = 2" | "p \<notin> {0, 1, 2}" by blast
  then show ?thesis
    using x line_range [OF wf yx, of "vc_x (vc c)" "vc_cols (vc c) - vc_x (vc c)"] g
      line_range [OF wf yx, of 0 "vc_x (vc c) + 1"] line_range [OF wf yx, of 0 "vc_cols (vc c)"]
    by cases (simp_all add: vte_el_def Let_def fill_cells_def line_part_def)
qed

lemma vte_ech_screen:
  assumes wf: "wf_con K c" and yx: "on_screen (vc c) y x" and p: "0 \<le> p"
  shows "screen (vte_ech sw p c) y x = fill_cells (\<lambda>y x. y = vc_y (vc c) \<and> vc_x (vc c) \<le> x \<and>
      x < vc_x (vc c) + max 1 p) (vc_video_erase_char (vc c)) (screen c) y x"
proof -
  note g = wf_geomD [OF wf_con_geom [OF wf]]
  define n where "n = (if max 1 p > vc_cols (vc c) - vc_x (vc c) then vc_cols (vc c) - vc_x (vc c) else max 1 p)"
  have "(if p = 0 then 1 else p) = max 1 p"
    using p by simp
  then have "screen (vte_ech sw p c) y x = screen (erase_cells (vc_pos (vc c)) n c) y x"
    unfolding vte_ech_def Let_def n_def by (simp add: erase_cells_def screen_grid)
  also have "\<dots> = fill_cells (\<lambda>y x. y = vc_y (vc c) \<and> vc_x (vc c) \<le> x \<and> x < vc_x (vc c) + n)
      (vc_video_erase_char (vc c)) (screen c) y x"
    using line_range [OF wf yx, of "vc_x (vc c)" n] g by (simp add: n_def)
  finally show ?thesis
    using yx by (auto simp: fill_cells_def n_def on_screen_def)
qed

text \<open>Deleting what was inserted.\<close>

lemma insert_char_vc:
  "\<exists>a. vc (insert_char sw nr c) = (vc c)\<lparr>vc_need_wrap := False, vc_attr := a\<rparr>"
  unfolding insert_char_def Let_def
  using redraw_shift_cells [of "vc_x (vc c)" "vc_x (vc c) + nr" nr "\<lambda>k. vc_x (vc c) + k"
      "upd_vc (\<lambda>v. v\<lparr>vc_need_wrap := False\<rparr>) (upd_mem (\<lambda>m. scr_memsetw (vc_pos (vc c))
        (vc_video_erase_char (vc c)) (nr * 2) (shift_right (vc_pos (vc c)) nr
          (nat (vc_cols (vc c) - nr - vc_x (vc c))) m)) c)"]
  by auto

lemma vte_ich_dch_screen:
  assumes wf: "wf_con K c" and p: "0 \<le> p" and yx: "on_screen (vc c) y x"
    and n: "n = clamp_count p (vc_cols (vc c) - vc_x (vc c))" and "y \<noteq> vc_y (vc c) \<or> x < vc_cols (vc c) - n"
  shows "screen (vte_dch sw p (vte_ich sw p c)) y x = screen c y x"
proof -
  let ?c = "insert_char sw n c"
  note g = wf_geomD [OF wf_con_geom [OF wf]]
  have nb: "1 \<le> n" "vc_x (vc c) + n \<le> vc_cols (vc c)"
    using clamp_count_range [OF p, of "vc_cols (vc c) - vc_x (vc c)"] g n by auto
  obtain a where v: "vc ?c = (vc c)\<lparr>vc_need_wrap := False, vc_attr := a\<rparr>"
    using insert_char_vc by blast
  have wf': "wf_con K ?c"
    using keeps_wf [OF insert_char_ok [OF wf]] nb by simp
  have ich: "screen ?c y x' = insert_cells (vc_y (vc c)) (vc_x (vc c)) n (vc_video_erase_char (vc c)) (screen c) y x'"
    if "on_screen (vc c) y x'" for x'
    using insert_char_screen [OF wf _ nb(2) that] nb(1) by simp
  have "screen (vte_dch sw p (vte_ich sw p c)) y x
    = delete_cells (vc_cols (vc c)) (vc_y (vc c)) (vc_x (vc c)) n (vc_video_erase_char (vc c)) (screen ?c) y x"
    using delete_char_screen [OF wf', of n y x] nb yx v
    by (simp add: vte_dch_def vte_ich_def n on_screen_def)
  also have "\<dots> = screen c y x"
    using ich [of x] ich [of "x + n"] yx nb assms(5)
    by (auto simp: delete_cells_def insert_cells_def on_screen_def)
  finally show ?thesis .
qed

end

end
