(* ===== verification/Vgacon.thy ===== *)
theory Vgacon
  imports Vt_Core
begin

text \<open>
  drivers/video/console/vgacon.c: the text mode driver for VGA and its predecessors. The
  file's static variables and the adapter's registers it touches are the record \<open>vga\<close>,
  which is the driver state \<open>drv\<close> of the console state. A register reads as it was last
  written.

  \<open>TRIDENT_GLITCH\<close>, \<open>SLOW_VGA\<close>, \<open>VGA_CAN_DO_64KB\<close> and \<open>BROKEN_GRAPHICS_PROGRAMS\<close> are not
  defined.
\<close>

section \<open>State\<close>

abbreviation (input) "VIDEO_TYPE_MDA \<equiv> (0x10::int)"
abbreviation (input) "VIDEO_TYPE_CGA \<equiv> (0x11::int)"
abbreviation (input) "VIDEO_TYPE_EGAM \<equiv> (0x20::int)"
abbreviation (input) "VIDEO_TYPE_EGAC \<equiv> (0x21::int)"
abbreviation (input) "VIDEO_TYPE_VGAC \<equiv> (0x22::int)"

abbreviation (input) "BLANK \<equiv> (0x0020::u16)"

text \<open>\<open>vga_state\<close>: the register settings saved while the monitor is off.\<close>

record vga_regs =
  SeqCtrlIndex :: u8
  CrtCtrlIndex :: u8
  CrtMiscIO :: u8
  HorizontalTotal :: u8
  HorizDisplayEnd :: u8
  StartHorizRetrace :: u8
  EndHorizRetrace :: u8
  Overflow :: u8
  StartVertRetrace :: u8
  EndVertRetrace :: u8
  ModeControl :: u8
  ClockingMode :: u8

record vga =
  vga_vram_base :: int
  vga_vram_end :: int
  vga_vram_size :: int
  vga_video_type :: int
  vga_hardscroll_enabled :: bool
  vga_vesa_blanked :: int
  vga_palette_blanked :: bool
  vga_is_gfx :: bool
  vga_rolled_over :: int
  cursor_size_lastfrom :: int
  cursor_size_lastto :: int
  vga_state :: vga_regs
  crtc_index :: u8 \<comment> \<open>index register of the CRT controller\<close>
  crtc :: "u8 \<Rightarrow> u8" \<comment> \<open>its registers\<close>
  seq_index :: u8
  seq_clock_mode :: u8 \<comment> \<open>register \<open>VGA_SEQ_CLOCK_MODE\<close> of the sequencer\<close>
  misc_output :: u8
  dac :: "u8 \<Rightarrow> u8 list" \<comment> \<open>red, green, blue of the colour registers\<close>

type_synonym vga_con_state = "vga con"

definition upd_drv :: "('d \<Rightarrow> 'd) \<Rightarrow> 'd con \<Rightarrow> 'd con" where
  "upd_drv f c = c\<lparr>drv := f (drv c)\<rparr>"

text \<open>\<open>outb_p(reg, vga_video_port_reg); outb_p(val, vga_video_port_val)\<close>.\<close>

definition crtc_w :: "u8 \<Rightarrow> u8 \<Rightarrow> vga \<Rightarrow> vga" where
  "crtc_w reg val d = d\<lparr>crtc_index := reg, crtc := (crtc d)(reg := val)\<rparr>"

definition write_vga :: "u8 \<Rightarrow> int \<Rightarrow> vga \<Rightarrow> vga" where
  "write_vga reg val d =
     crtc_w (reg + 1) (word_of_int val) (crtc_w reg (word_of_int (val div 256)) d)"

definition vga_set_mem_top :: "vga con \<Rightarrow> vga con" where
  "vga_set_mem_top c =
     upd_drv (\<lambda>d. write_vga 12 ((vc_visible_origin (vc c) - vga_vram_base d) div 2) d) c"

section \<open>Attributes\<close>

definition vgacon_build_attr :: "vc_data \<Rightarrow> u8 \<Rightarrow> int \<Rightarrow> bool \<Rightarrow> bool \<Rightarrow> bool \<Rightarrow> u8" where
  "vgacon_build_attr v color intensity blink underline reverse =
     (let a1 = (if vc_can_do_color v
                then if underline then (color AND 0xf0) OR vc_ulcolor v
                     else if intensity = 0 then (color AND 0xf0) OR vc_halfcolor v
                     else color
                else color);
          a2 = (if reverse then (a1 AND 0x88) OR ((drop_bit 4 a1 OR push_bit 4 a1) AND 0x77) else a1);
          a3 = (if blink then a2 XOR 0x80 else a2);
          a4 = (if intensity = 2 then a3 XOR 0x08 else a3)
      in if \<not> vc_can_do_color v
         then if underline then (a4 AND 0xf8) OR 0x01
              else if intensity = 0 then (a4 AND 0xf0) OR 0x08
              else a4
         else a4)"

definition vgacon_invert_cell :: "bool \<Rightarrow> u16 \<Rightarrow> u16" where
  "vgacon_invert_cell col a =
     (if col then (a AND 0x88ff) OR drop_bit 4 (a AND 0x7000) OR push_bit 4 (a AND 0x0700)
      else a XOR (if a AND 0x0700 = 0x0100 then 0x7000 else 0x7700))"

definition vgacon_invert_region :: "int \<Rightarrow> int \<Rightarrow> vga con \<Rightarrow> vga con" where
  "vgacon_invert_region p count c =
     upd_mem (map_cells (vgacon_invert_cell (vc_can_do_color (vc c))) (nat count) p) c"

section \<open>Cursor\<close>

definition vgacon_set_cursor_size :: "int \<Rightarrow> int \<Rightarrow> vga \<Rightarrow> vga" where
  "vgacon_set_cursor_size from to d =
     (if from = cursor_size_lastfrom d \<and> to = cursor_size_lastto d then d
      else
        let d1 = d\<lparr>cursor_size_lastfrom := from, cursor_size_lastto := to\<rparr>;
            curs = crtc d1 0x0a; cure = crtc d1 0x0b
        in crtc_w 0x0b ((cure AND 0xe0) OR word_of_int to)
             (crtc_w 0x0a ((curs AND 0xc0) OR word_of_int from) d1))"

text \<open>Start and end scan line for each cursor type.\<close>

definition cursor_lines :: "vc_data \<Rightarrow> int \<times> int" where
  "cursor_lines v =
     (let h = vc_font_height v; ty = vc_cursor_type v AND 0x0f; bot = h - (if h < 10 then 1 else 2) in
      if ty = 2 then (h - (if h < 10 then 2 else 3), bot)
      else if ty = 5 then (h div 3, bot)
      else if ty = 3 then ((h * 2) div 3, bot)
      else if ty = 4 then (h div 2, bot)
      else if ty = 1 then (31, 30)
      else (1, h))"

definition vgacon_scroll :: "int \<Rightarrow> vga con \<Rightarrow> vga con" where
  "vgacon_scroll lines c =
     (let v = vc c; d = drv c in
      vga_set_mem_top
       (if lines = 0 then upd_vc (\<lambda>v. v\<lparr>vc_visible_origin := vc_origin v\<rparr>) c
        else
          let margin0 = vc_size_row v * 4;
              over = vga_rolled_over d > u32 (vc_scr_end v - vga_vram_base d + margin0);
              ul = (if over then vc_scr_end v - vga_vram_base d else 0);
              we = (if over then vga_rolled_over d + vc_size_row v else vga_vram_size d);
              p0 = s32 (u32 (vc_visible_origin v - vga_vram_base d - ul + we) mod we
                        + lines * vc_size_row v);
              st = u32 (vc_origin v - vga_vram_base d - ul + we) mod we;
              margin = (if st < 2 * margin0 then 0 else margin0);
              p1 = (if p0 < margin then 0 else p0);
              p = (if p1 > st - margin then st else p1)
          in upd_vc (\<lambda>v. v\<lparr>vc_visible_origin := vga_vram_base d + (p + ul) mod we\<rparr>) c))"

definition vgacon_cursor :: "cursor_op \<Rightarrow> vga con \<Rightarrow> vga con" where
  "vgacon_cursor mode c =
     (let c1 = (if vc_origin (vc c) \<noteq> vc_visible_origin (vc c) then vgacon_scroll 0 c else c) in
      case mode of
        CM_ERASE \<Rightarrow> upd_drv (\<lambda>d. write_vga 14 ((vga_vram_end d - vga_vram_base d - 1) div 2) d) c1
      | CM_CHANGE \<Rightarrow> c1
      | _ \<Rightarrow>
          let (from, to) = cursor_lines (vc c1) in
          upd_drv (\<lambda>d. vgacon_set_cursor_size from to
            (write_vga 14 ((vc_pos (vc c1) - vga_vram_base d) div 2) d)) c1)"

section \<open>Switching, palette\<close>

definition vga_copy_size :: "vga con \<Rightarrow> int" where
  "vga_copy_size c =
     (if vc_screenbuf_size (vc c) > vga_vram_size (drv c) then vga_vram_size (drv c)
      else vc_screenbuf_size (vc c))"

definition vgacon_switch :: "vga con \<Rightarrow> bool \<times> vga con" where
  "vgacon_switch c =
     (False,
      if \<not> vga_is_gfx (drv c)
      then upd_mem (scr_memcpyw (vc_origin (vc c)) (vc_screenbuf (vc c)) (vga_copy_size c)) c
      else c)"

definition vgacon_save_screen :: "vga con \<Rightarrow> vga con" where
  "vgacon_save_screen c =
     (if \<not> vga_is_gfx (drv c)
      then upd_mem (scr_memcpyw (vc_screenbuf (vc c)) (vc_origin (vc c)) (vga_copy_size c)) c
      else c)"

definition vga_set_palette :: "u8 list \<Rightarrow> u8 list \<Rightarrow> vga \<Rightarrow> vga" where
  "vga_set_palette palette table d =
     fold (\<lambda>i d. d\<lparr>dac := (dac d)(table ! i :=
        [drop_bit 2 (palette ! (3 * i)), drop_bit 2 (palette ! (3 * i + 1)),
         drop_bit 2 (palette ! (3 * i + 2))])\<rparr>) [0..<16] d"

text \<open>\<open>set_palette\<close> of vt.c passes \<open>color_table\<close> and ignores the result.\<close>

definition vgacon_set_palette :: "vga con \<Rightarrow> vga con" where
  "vgacon_set_palette c =
     (if vga_video_type (drv c) \<noteq> VIDEO_TYPE_VGAC \<or> vga_palette_blanked (drv c) then c
      else upd_drv (vga_set_palette (vc_palette (vc c)) color_table) c)"

section \<open>Blanking\<close>

definition vga_save_regs :: "vga \<Rightarrow> vga_regs" where
  "vga_save_regs d =
     \<lparr>SeqCtrlIndex = seq_index d, CrtCtrlIndex = crtc_index d, CrtMiscIO = misc_output d,
      HorizontalTotal = crtc d 0x00, HorizDisplayEnd = crtc d 0x01,
      StartHorizRetrace = crtc d 0x04, EndHorizRetrace = crtc d 0x05, Overflow = crtc d 0x07,
      StartVertRetrace = crtc d 0x10, EndVertRetrace = crtc d 0x11, ModeControl = crtc d 0x17,
      ClockingMode = seq_clock_mode d\<rparr>"

definition vga_vesa_blank :: "int \<Rightarrow> vga \<Rightarrow> vga" where
  "vga_vesa_blank mode d =
     (let d0 = (if vga_vesa_blanked d = 0 then d\<lparr>vga_state := vga_save_regs d\<rparr> else d);
          r = vga_state d0;
          d1 = d0\<lparr>seq_clock_mode := ClockingMode r OR 0x20\<rparr>;
          d2 = (if CrtMiscIO r AND 0x80 = 0x80 then d1\<lparr>misc_output := CrtMiscIO r AND 0xef\<rparr> else d1);
          d3 = (if mode AND 1 \<noteq> 0
                then crtc_w 0x07 (Overflow r OR 0x84) (crtc_w 0x11 0x40 (crtc_w 0x10 0xff d2)) else d2);
          d4 = (if mode AND 2 \<noteq> 0 then crtc_w 0x05 0x00 (crtc_w 0x04 0xff d3) else d3)
      in d4\<lparr>seq_index := SeqCtrlIndex r, crtc_index := CrtCtrlIndex r\<rparr>)"

definition vga_vesa_unblank :: "vga \<Rightarrow> vga" where
  "vga_vesa_unblank d =
     (let r = vga_state d;
          d1 = d\<lparr>misc_output := CrtMiscIO r\<rparr>;
          d2 = crtc_w 0x17 (ModeControl r) (crtc_w 0x11 (EndVertRetrace r)
                (crtc_w 0x10 (StartVertRetrace r) (crtc_w 0x07 (Overflow r)
                (crtc_w 0x05 (EndHorizRetrace r) (crtc_w 0x04 (StartHorizRetrace r)
                (crtc_w 0x01 (HorizDisplayEnd r) (crtc_w 0x00 (HorizontalTotal r) d1)))))))
      in d2\<lparr>seq_clock_mode := ClockingMode r, seq_index := SeqCtrlIndex r,
             crtc_index := CrtCtrlIndex r\<rparr>)"

definition vga_pal_blank :: "vga \<Rightarrow> vga" where
  "vga_pal_blank d = fold (\<lambda>i d. d\<lparr>dac := (dac d)(word_of_nat i := [0, 0, 0])\<rparr>) [0..<16] d"

definition vgacon_set_origin :: "vga con \<Rightarrow> bool \<times> vga con" where
  "vgacon_set_origin c =
     (if vga_is_gfx (drv c) \<or> (vt_blanked (vt c) \<and> \<not> vga_palette_blanked (drv c)) then (False, c)
      else
        (True, upd_drv (\<lambda>d. d\<lparr>vga_rolled_over := 0\<rparr>)
          (vga_set_mem_top
            (upd_vc (\<lambda>v. v\<lparr>vc_origin := vga_vram_base (drv c), vc_visible_origin := vga_vram_base (drv c)\<rparr>) c))))"

definition vgacon_blank :: "int \<Rightarrow> bool \<Rightarrow> vga con \<Rightarrow> bool \<times> vga con" where
  "vgacon_blank blank mode_switch c =
     (if blank = 0
      then
        let c1 = (if vga_vesa_blanked (drv c) \<noteq> 0
                  then upd_drv (\<lambda>d. (vga_vesa_unblank d)\<lparr>vga_vesa_blanked := 0\<rparr>) c else c)
        in if vga_palette_blanked (drv c1)
           then (False, upd_drv (\<lambda>d. (vga_set_palette (vc_palette (vc c1)) color_table d)
                                        \<lparr>vga_palette_blanked := False\<rparr>) c1)
           else (True, upd_drv (\<lambda>d. d\<lparr>vga_is_gfx := False\<rparr>) c1)
      else if blank = 1 \<or> blank = -1
      then if \<not> mode_switch \<and> vga_video_type (drv c) = VIDEO_TYPE_VGAC
        then (False, upd_drv (\<lambda>d. (vga_pal_blank d)\<lparr>vga_palette_blanked := True\<rparr>) c)
        else
          let c1 = upd_mem (scr_memsetw (vga_vram_base (drv c)) BLANK (vc_screenbuf_size (vc c)))
                     (snd (vgacon_set_origin c))
          in (True, if mode_switch then upd_drv (\<lambda>d. d\<lparr>vga_is_gfx := True\<rparr>) c1 else c1)
      else
        (False, if vga_video_type (drv c) = VIDEO_TYPE_VGAC
                then upd_drv (\<lambda>d. (vga_vesa_blank (blank - 1) d)\<lparr>vga_vesa_blanked := blank\<rparr>) c else c))"

section \<open>Hardware scrolling\<close>

definition vgacon_scroll_up :: "int \<Rightarrow> vga con \<Rightarrow> vga con" where
  "vgacon_scroll_up delta c =
     (let v = vc c; d = drv c; oldo = vc_origin v;
          c1 = (if vc_scr_end v + delta \<ge> vga_vram_end d
                then upd_drv (\<lambda>d. d\<lparr>vga_rolled_over := oldo - vga_vram_base d\<rparr>)
                       (upd_vc (\<lambda>v. v\<lparr>vc_origin := vga_vram_base d\<rparr>)
                         (upd_mem (scr_memcpyw (vga_vram_base d) (oldo + delta)
                                     (vc_screenbuf_size v - delta)) c))
                else upd_vc (\<lambda>v. v\<lparr>vc_origin := vc_origin v + delta\<rparr>) c)
      in upd_mem (scr_memsetw (vc_origin (vc c1) + vc_screenbuf_size v - delta)
                    (vc_video_erase_char v) delta) c1)"

definition vgacon_scroll_down :: "int \<Rightarrow> vga con \<Rightarrow> vga con" where
  "vgacon_scroll_down delta c =
     (let v = vc c; d = drv c; oldo = vc_origin v;
          c1 = (if oldo - delta < vga_vram_base d
                then upd_drv (\<lambda>d. d\<lparr>vga_rolled_over := 0\<rparr>)
                       (upd_vc (\<lambda>v. v\<lparr>vc_origin := vga_vram_end d - vc_screenbuf_size v\<rparr>)
                         (upd_mem (scr_memmovew (vga_vram_end d - vc_screenbuf_size v + delta) oldo
                                     (vc_screenbuf_size v - delta)) c))
                else upd_vc (\<lambda>v. v\<lparr>vc_origin := vc_origin v - delta\<rparr>) c)
      in upd_mem (scr_memsetw (vc_origin (vc c1)) (vc_video_erase_char v) delta) c1)"

definition vgacon_scroll_region :: "int \<Rightarrow> int \<Rightarrow> scroll_dir \<Rightarrow> int \<Rightarrow> vga con \<Rightarrow> bool \<times> vga con" where
  "vgacon_scroll_region t b dir lines c =
     (if t \<noteq> 0 \<or> b \<noteq> vc_rows (vc c) \<or> vga_is_gfx (drv c) then (False, c)
      else
        let c0 = (if vc_origin (vc c) \<noteq> vc_visible_origin (vc c) then vgacon_scroll 0 c else c) in
        if \<not> vga_hardscroll_enabled (drv c0) \<or> lines \<ge> vc_rows (vc c0) div 2 then (False, c0)
        else
          let oldo = vc_origin (vc c0); delta = lines * vc_size_row (vc c0);
              c1 = (case dir of SM_UP \<Rightarrow> vgacon_scroll_up delta c0 | SM_DOWN \<Rightarrow> vgacon_scroll_down delta c0);
              c2 = vga_set_mem_top (upd_vc (\<lambda>v. v\<lparr>vc_scr_end := vc_origin v + vc_screenbuf_size v,
                     vc_visible_origin := vc_origin v\<rparr>) c1)
          in (True, upd_vc (\<lambda>v. v\<lparr>vc_pos := vc_pos v - oldo + vc_origin v\<rparr>) c2))"

section \<open>The driver\<close>

text \<open>\<open>vga_con\<close>; the entries set to \<open>DUMMY\<close> do nothing.\<close>

definition vga_con :: "vga consw" where
  "vga_con =
     \<lparr>con_clear = Some (\<lambda>sy sx h w c. c),
      con_putc = (\<lambda>ch y x c. c),
      con_putcs = (\<lambda>p n y x c. c),
      con_cursor = vgacon_cursor,
      con_scroll_region = vgacon_scroll_region,
      con_bmove = (\<lambda>sy sx dy dx h w c. c),
      con_switch = vgacon_switch,
      con_blank = vgacon_blank,
      con_set_palette = Some vgacon_set_palette,
      con_scroll = vgacon_scroll,
      con_set_origin = Some vgacon_set_origin,
      con_save_screen = Some vgacon_save_screen,
      con_build_attr = Some vgacon_build_attr,
      con_invert_region = Some vgacon_invert_region,
      con_screen_pos = None,
      con_getxy = None,
      con_resize = None\<rparr>"

end
