(* ===== verification/Vgacon_Inv.thy ===== *)
theory Vgacon_Inv
  imports Vgacon Con_Write_Inv
begin

text \<open>
  The VGA text driver meets the contract \<open>display_driver\<close>: with a card of type \<open>ty\<close>, video memory between
  \<open>base\<close> and \<open>end\<close> and the consoles' buffers \<open>bufs\<close>, none of its operations writes outside
  them, and the console it shows stays inside video memory while the driver scrolls it.
  The interpretations at the end give every lemma proved from the contract for this driver.
\<close>

section \<open>The contract\<close>

definition vga_contract :: "int \<Rightarrow> int \<Rightarrow> int \<Rightarrow> int set \<Rightarrow> vga contract" where
  "vga_contract ty base end bufs =
     \<lparr>scr_region = {base ..< end} \<union> bufs, scr_max = end - base,
      drv_ok = (\<lambda>d. vga_vram_base d = base \<and> vga_vram_end d = end \<and> vga_vram_size d = end - base \<and>
          vga_video_type d = ty),
      scr_ready = (\<lambda>d start size. vga_is_gfx d \<or> base \<le> start \<and> start + size \<le> end),
      unlocked = (\<lambda>d. \<not> vga_is_gfx d)\<rparr>"

text \<open>The variables the contract speaks of.\<close>

definition vga_layout :: "vga \<Rightarrow> int \<times> int \<times> int \<times> int \<times> bool \<times> bool" where
  "vga_layout d = (vga_vram_base d, vga_vram_end d, vga_vram_size d, vga_video_type d,
     vga_is_gfx d, vga_palette_blanked d)"

lemma crtc_w_layout [simp]: "vga_layout (crtc_w r x d) = vga_layout d"
  by (simp add: crtc_w_def vga_layout_def)

lemma write_vga_layout [simp]: "vga_layout (write_vga r x d) = vga_layout d"
  by (simp add: write_vga_def)

lemma cursor_size_layout [simp]: "vga_layout (vgacon_set_cursor_size f t d) = vga_layout d"
  by (simp add: vgacon_set_cursor_size_def Let_def) (simp add: vga_layout_def)

lemma fold_layout:
  "(\<And>i d. vga_layout (f i d) = vga_layout d) \<Longrightarrow> vga_layout (fold f xs d) = vga_layout d"
  by (induction xs arbitrary: d) simp_all

lemma set_palette_layout [simp]: "vga_layout (vga_set_palette p t d) = vga_layout d"
  unfolding vga_set_palette_def by (rule fold_layout) (simp add: vga_layout_def)

lemma pal_blank_layout [simp]: "vga_layout (vga_pal_blank d) = vga_layout d"
  unfolding vga_pal_blank_def by (rule fold_layout) (simp add: vga_layout_def)

lemma vesa_unblank_layout [simp]: "vga_layout (vga_vesa_unblank d) = vga_layout d"
  by (simp add: vga_vesa_unblank_def Let_def crtc_w_def vga_layout_def)

lemma layout_upd [simp]:
  "vga_layout (d\<lparr>vga_rolled_over := i\<rparr>) = vga_layout d"
  "vga_layout (d\<lparr>vga_vesa_blanked := i\<rparr>) = vga_layout d"
  by (simp_all add: vga_layout_def)

section \<open>Changes of the driver's state\<close>

lemma upd_drv_sel [simp]:
  "vc (upd_drv f c) = vc c" "mem (upd_drv f c) = mem c" "vts (upd_drv f c) = vts c"
  "drv (upd_drv f c) = f (drv c)" "get_console (upd_drv f c) = get_console c"
  "sel_cons (upd_drv f c) = sel_cons c" "sel_start (upd_drv f c) = sel_start c"
  "sel_end (upd_drv f c) = sel_end c" "cp_p (upd_drv f c) = cp_p c"
  "vt_list (upd_drv f c) = vt_list c" "vt (upd_drv f c) = vt c"
  "is_visible (upd_drv f c) = is_visible c" "cm (upd_drv f c) = cm c"
  by (simp_all add: upd_drv_def get_console_def fun_eq_iff vt_def is_visible_def)

lemma keeps_upd_drv:
  assumes wf: "wf_con K c" and ok: "drv_ok K (drv c) \<Longrightarrow> drv_ok K (f (drv c))"
    and rdy: "\<And>s n. scr_ready K (drv c) s n \<Longrightarrow> scr_ready K (f (drv c)) s n"
    and unl: "unlocked K (drv c) \<Longrightarrow> unlocked K (f (drv c))"
  shows "keeps K c (upd_drv f c)"
proof -
  have "wf_displayed K (upd_drv f c)"
    using wf_conD(7) [OF wf] rdy unfolding wf_displayed_def upd_drv_sel by blast
  moreover have "wf_drv K (upd_drv f c)"
    using wf_conD(9) [OF wf] ok unfolding wf_drv_def by simp
  ultimately have "wf_con K (upd_drv f c)"
    using wf unfolding wf_con_def wf_sel_def wf_switch_def wf_maps_def by simp
  then show ?thesis
    using unl by (simp add: keeps_def)
qed

text \<open>The contract and its relaxed form depend on the layout only.\<close>

definition layout_contract :: "vga contract \<Rightarrow> bool" where
  "layout_contract K \<longleftrightarrow>
     (\<forall>d d'. vga_layout d' = vga_layout d \<longrightarrow>
        drv_ok K d' = drv_ok K d \<and> scr_ready K d' = scr_ready K d \<and> unlocked K d' = unlocked K d)"

lemma layout_vga: "layout_contract (vga_contract ty b e bufs)"
  by (auto simp: layout_contract_def vga_contract_def vga_layout_def)

lemma layout_relaxed: "layout_contract K \<Longrightarrow> layout_contract (relaxed K)"
proof -
  have "scr_ready (relaxed K) d' = scr_ready (relaxed K) d" for d d'
    by (simp add: relaxed_def)
  then show "layout_contract K \<Longrightarrow> layout_contract (relaxed K)"
    unfolding layout_contract_def relaxed_sel(1-4) by blast
qed

lemma keeps_regs:
  "layout_contract K \<Longrightarrow> wf_con K c \<Longrightarrow> (\<And>d. vga_layout (f d) = vga_layout d) \<Longrightarrow>
   keeps K c (upd_drv f c)"
  unfolding layout_contract_def by (rule keeps_upd_drv) metis+

lemma keeps_mem_top: "layout_contract K \<Longrightarrow> wf_con K c \<Longrightarrow> keeps K c (vga_set_mem_top c)"
  unfolding vga_set_mem_top_def by (rule keeps_regs) simp_all

lemma keeps_scroll0: "layout_contract K \<Longrightarrow> wf_con K c \<Longrightarrow> keeps K c (vgacon_scroll 0 c)"
proof -
  assume l: "layout_contract K" and "wf_con K c"
  then have "keeps K c (upd_vc (\<lambda>v. v\<lparr>vc_visible_origin := vc_origin v\<rparr>) c)"
    by (intro keeps_upd_vc) (auto simp: wf_vc_defs simp del: atLeastLessThan_iff)
  then show ?thesis
    unfolding vgacon_scroll_def Let_def using keeps_step [OF _ keeps_mem_top [OF l]] by simp
qed

section \<open>Drawing\<close>

lemma vgacon_cursor_keeps:
  assumes l: "layout_contract K" and "wf_con K c"
  shows "keeps K c (vgacon_cursor m c)"
proof -
  let ?c1 = "if vc_origin (vc c) \<noteq> vc_visible_origin (vc c) then vgacon_scroll 0 c else c"
  have k: "keeps K c ?c1"
    using keeps_scroll0 [OF assms] assms(2) by simp
  have "keeps K c (upd_drv f ?c1)" if "\<And>d. vga_layout (f d) = vga_layout d" for f
    using k by (rule keeps_step) (rule keeps_regs [OF l _ that])
  then show ?thesis
    using k unfolding vgacon_cursor_def Let_def case_prod_beta by (cases m) simp_all
qed

lemma copy_in_buffer:
  assumes "{p ..< p + n} \<subseteq> R" "m \<le> n"
  shows "{p ..< p + m} \<subseteq> (R :: int set)"
  using assms by (intro order.trans [OF _ assms(1)]) auto

lemma vga_copy_size_le: "vga_copy_size c \<le> vc_screenbuf_size (vc c)"
  by (simp add: vga_copy_size_def)

lemma vgacon_switch_keeps: "wf_con K c \<Longrightarrow> keeps K c (snd (vgacon_switch c))"
  unfolding vgacon_switch_def
  using copy_in_buffer [OF wf_vcD(5) [OF wf_con_vc] vga_copy_size_le]
  by (simp add: keeps_upd_mem same_off_memmovew)

lemma vgacon_save_screen_keeps: "wf_con K c \<Longrightarrow> keeps K c (vgacon_save_screen c)"
  unfolding vgacon_save_screen_def
  using copy_in_buffer [OF wf_vcD(7) [OF wf_con_vc] vga_copy_size_le]
  by (simp add: keeps_upd_mem same_off_memmovew)

lemma vgacon_palette_keeps: "layout_contract K \<Longrightarrow> wf_con K c \<Longrightarrow> keeps K c (vgacon_set_palette c)"
  unfolding vgacon_set_palette_def by (simp add: keeps_regs)

lemma vgacon_invert_keeps:
  "wf_con K c \<Longrightarrow> {p ..< p + 2 * n} \<subseteq> scr_region K \<Longrightarrow> keeps K c (vgacon_invert_region p n c)"
  unfolding vgacon_invert_region_def
  by (cases "0 \<le> n") (simp_all add: keeps_upd_mem same_off_map_cells)

lemma vga_drawing:
  assumes "layout_contract K"
  shows "drawing_driver vga_con K"
  by unfold_locales
    (auto simp: vga_con_def vgacon_cursor_keeps assms vgacon_palette_keeps vgacon_save_screen_keeps
      vgacon_invert_keeps)

section \<open>Scrolling and the origin\<close>

text \<open>Moving the screen of the console at hand to another address inside video memory.\<close>

definition moved_to :: "int \<Rightarrow> vc_data \<Rightarrow> vc_data" where
  "moved_to p v =
     v\<lparr>vc_origin := p, vc_visible_origin := p, vc_scr_end := p + vc_screenbuf_size v,
       vc_pos := vc_pos v - vc_origin v + p\<rparr>"

lemma moved_to_wf:
  "wf_vc R v \<Longrightarrow> {p ..< p + vc_screenbuf_size v} \<subseteq> R \<Longrightarrow> wf_vc R (moved_to p v)"
  by (auto simp: wf_vc_defs moved_to_def simp del: atLeastLessThan_iff)

lemma keeps_moved:
  assumes l: "layout_contract K" and wf: "wf_con K c"
    and "c' = c\<lparr>vc := moved_to p (vc c), mem := m, drv := d\<rparr>"
    and "same_off (scr_region K) (mem c) m" "vga_layout d = vga_layout (drv c)"
    and "{p ..< p + vc_screenbuf_size (vc c)} \<subseteq> scr_region K"
    and "is_visible c \<Longrightarrow> scr_ready K (drv c) p (vc_screenbuf_size (vc c))"
  shows "keeps K c c'"
proof -
  let ?c1 = "upd_mem (\<lambda>_. m) c"
  have k1: "keeps K c ?c1"
    using wf assms(4) by (intro keeps_upd_mem)
  have k2: "keeps K ?c1 (upd_vc (moved_to p) ?c1)"
    using keeps_wf [OF k1] assms(6,7)
    by (intro keeps_upd_vc_gen moved_to_wf) (simp_all, simp_all add: moved_to_def)
  let ?c2 = "upd_vc (moved_to p) ?c1"
  have "keeps K ?c2 (upd_drv (\<lambda>_. d) ?c2)"
    using l keeps_wf [OF k2] assms(5) unfolding layout_contract_def
    by (intro keeps_upd_drv) (metis upd_mem_sel upd_vc_sel)+
  then have "keeps K c (upd_drv (\<lambda>_. d) ?c2)"
    using keeps_trans [OF keeps_trans [OF k1 k2]] by blast
  moreover have "c' = upd_drv (\<lambda>_. d) ?c2"
    using assms(3) by (simp add: upd_drv_def upd_vc_def upd_mem_def)
  ultimately show ?thesis by simp
qed

text \<open>The four ways the screen moves when it scrolls in hardware.\<close>

definition scroll_up_to :: "int \<Rightarrow> vga con \<Rightarrow> int" where
  "scroll_up_to delta c =
     (if vc_scr_end (vc c) + delta \<ge> vga_vram_end (drv c) then vga_vram_base (drv c)
      else vc_origin (vc c) + delta)"

definition scroll_down_to :: "int \<Rightarrow> vga con \<Rightarrow> int" where
  "scroll_down_to delta c =
     (if vc_origin (vc c) - delta < vga_vram_base (drv c)
      then vga_vram_end (drv c) - vc_screenbuf_size (vc c) else vc_origin (vc c) - delta)"

definition scroll_to :: "scroll_dir \<Rightarrow> int \<Rightarrow> vga con \<Rightarrow> int" where
  "scroll_to dir delta c =
     (case dir of SM_UP \<Rightarrow> scroll_up_to delta c | SM_DOWN \<Rightarrow> scroll_down_to delta c)"

definition scroll_mem :: "scroll_dir \<Rightarrow> int \<Rightarrow> vga con \<Rightarrow> memory" where
  "scroll_mem dir delta c =
     (let v = vc c; d = drv c; n = vc_screenbuf_size v; p = scroll_to dir delta c in
      case dir of
        SM_UP \<Rightarrow> scr_memsetw (p + n - delta) (vc_video_erase_char v) delta
          (if vc_scr_end v + delta \<ge> vga_vram_end d
           then scr_memcpyw p (vc_origin v + delta) (n - delta) (mem c) else mem c)
      | SM_DOWN \<Rightarrow> scr_memsetw p (vc_video_erase_char v) delta
          (if vc_origin v - delta < vga_vram_base d
           then scr_memmovew (p + delta) (vc_origin v) (n - delta) (mem c) else mem c))"

lemma vgacon_scroll_shape:
  shows "vgacon_scroll_up delta c = c\<lparr>vc := (vc c)\<lparr>vc_origin := scroll_to SM_UP delta c\<rparr>,
      mem := scroll_mem SM_UP delta c, drv := drv (vgacon_scroll_up delta c)\<rparr>"
    and "vga_layout (drv (vgacon_scroll_up delta c)) = vga_layout (drv c)"
    and "vgacon_scroll_down delta c = c\<lparr>vc := (vc c)\<lparr>vc_origin := scroll_to SM_DOWN delta c\<rparr>,
      mem := scroll_mem SM_DOWN delta c, drv := drv (vgacon_scroll_down delta c)\<rparr>"
    and "vga_layout (drv (vgacon_scroll_down delta c)) = vga_layout (drv c)"
     apply (cases "vc_scr_end (vc c) + delta \<ge> vga_vram_end (drv c)")
      apply (simp_all add: vgacon_scroll_up_def Let_def upd_drv_def upd_vc_def upd_mem_def scroll_to_def
        scroll_mem_def scroll_up_to_def vga_layout_def)
   apply (cases "vc_origin (vc c) - delta < vga_vram_base (drv c)")
    apply (simp_all add: vgacon_scroll_down_def Let_def upd_drv_def upd_vc_def upd_mem_def scroll_to_def
        scroll_mem_def scroll_down_to_def vga_layout_def)
  done

lemma vgacon_scroll_region_shape:
  assumes "\<not> vga_is_gfx (drv c)" "vga_hardscroll_enabled (drv c)" "lines < vc_rows (vc c) div 2"
    "vc_visible_origin (vc c) = vc_origin (vc c)"
    and r: "r = vgacon_scroll_region 0 (vc_rows (vc c)) dir lines c"
  shows "r = (True, c\<lparr>vc := moved_to (scroll_to dir (lines * vc_size_row (vc c)) c) (vc c),
                 mem := scroll_mem dir (lines * vc_size_row (vc c)) c, drv := drv (snd r)\<rparr>)"
    and "vga_layout (drv (snd r)) = vga_layout (drv c)"
proof -
  let ?delta = "lines * vc_size_row (vc c)"
  obtain c1 where c1: "c1 = (case dir of SM_UP \<Rightarrow> vgacon_scroll_up ?delta c | SM_DOWN \<Rightarrow> vgacon_scroll_down ?delta c)"
    by blast
  have s: "c1 = c\<lparr>vc := (vc c)\<lparr>vc_origin := scroll_to dir ?delta c\<rparr>, mem := scroll_mem dir ?delta c, drv := drv c1\<rparr>"
    and l: "vga_layout (drv c1) = vga_layout (drv c)"
    unfolding c1 using vgacon_scroll_shape [of ?delta c] by (cases dir; simp)+
  obtain d where s': "c1 = c\<lparr>vc := (vc c)\<lparr>vc_origin := scroll_to dir ?delta c\<rparr>, mem := scroll_mem dir ?delta c, drv := d\<rparr>"
    using s by blast
  have r': "r = (True, upd_vc (\<lambda>v. v\<lparr>vc_pos := vc_pos v - vc_origin (vc c) + vc_origin v\<rparr>)
      (vga_set_mem_top (upd_vc (\<lambda>v. v\<lparr>vc_scr_end := vc_origin v + vc_screenbuf_size v,
         vc_visible_origin := vc_origin v\<rparr>) c1)))"
    using assms(1-4) by (simp add: r vgacon_scroll_region_def Let_def c1)
  show "vga_layout (drv (snd r)) = vga_layout (drv c)"
    using l by (simp add: r' vga_set_mem_top_def Let_def vga_layout_def write_vga_def crtc_w_def upd_drv_def)
  show "r = (True, c\<lparr>vc := moved_to (scroll_to dir ?delta c) (vc c),
                 mem := scroll_mem dir ?delta c, drv := drv (snd r)\<rparr>)"
    unfolding r' s' by (simp add: vga_set_mem_top_def Let_def upd_drv_def upd_vc_def moved_to_def)
qed

text \<open>The driver first turns scrollback off; then the region is the whole screen.\<close>

lemma vgacon_scroll_region_start:
  assumes "\<not> vga_is_gfx (drv c)"
    and c0: "c0 = (if vc_origin (vc c) \<noteq> vc_visible_origin (vc c) then vgacon_scroll 0 c else c)"
  shows "vgacon_scroll_region 0 (vc_rows (vc c)) dir lines c
      = vgacon_scroll_region 0 (vc_rows (vc c0)) dir lines c0"
    and "vc c0 = (vc c)\<lparr>vc_visible_origin := vc_origin (vc c)\<rparr>"
    and "vga_layout (drv c0) = vga_layout (drv c)" "mem c0 = mem c"
proof -
  show v: "vc c0 = (vc c)\<lparr>vc_visible_origin := vc_origin (vc c)\<rparr>"
    and l: "vga_layout (drv c0) = vga_layout (drv c)" and "mem c0 = mem c"
    unfolding c0 by (simp_all add: vgacon_scroll_def vga_set_mem_top_def Let_def upd_vc_def)
  have "vga_is_gfx (drv c0) = vga_is_gfx (drv c)"
    using l by (simp add: vga_layout_def)
  then show "vgacon_scroll_region 0 (vc_rows (vc c)) dir lines c
      = vgacon_scroll_region 0 (vc_rows (vc c0)) dir lines c0"
    using assms(1) v unfolding vgacon_scroll_region_def c0 [symmetric] by (simp add: Let_def)
qed

text \<open>The bounds that keep a scrolled screen inside video memory.\<close>

lemma scroll_to_bounds:
  fixes b e n delta :: int
  assumes "vga_vram_base (drv c) = b" "vga_vram_end (drv c) = e" "vc_screenbuf_size (vc c) = n"
    and "vc_scr_end (vc c) = vc_origin (vc c) + n" "b \<le> vc_origin (vc c)" "vc_origin (vc c) + n \<le> e"
    and "0 \<le> delta" "delta \<le> n"
  shows "b \<le> scroll_to dir delta c" "scroll_to dir delta c + n \<le> e"
    and "same_off ({b ..< e} \<union> bufs) (mem c) (scroll_mem dir delta c)"
proof -
  let ?p = "scroll_to dir delta c"
  show p: "b \<le> ?p" "?p + n \<le> e"
    using assms by (auto simp: scroll_to_def scroll_up_to_def scroll_down_to_def split: scroll_dir.split)
  have r: "{x ..< y} \<subseteq> {b ..< e} \<union> bufs" if "?p \<le> x" "y \<le> ?p + n" for x y
    using that p by auto
  have up: "{?p + n - delta ..< ?p + n - delta + delta} \<subseteq> {b ..< e} \<union> bufs"
    "{?p ..< ?p + (n - delta)} \<subseteq> {b ..< e} \<union> bufs"
    using assms(7,8) by (intro r; simp)+
  have down: "{?p ..< ?p + delta} \<subseteq> {b ..< e} \<union> bufs"
    "{?p + delta ..< ?p + delta + (n - delta)} \<subseteq> {b ..< e} \<union> bufs"
    using assms(7,8) by (intro r; simp)+
  show "same_off ({b ..< e} \<union> bufs) (mem c) (scroll_mem dir delta c)"
    unfolding scroll_mem_def Let_def assms(3) using up down
    by (auto intro!: same_off_memsetw same_off_memmovew split: scroll_dir.split)
qed

lemma vga_contract_sel [simp]:
  "scr_region (vga_contract ty b e bufs) = {b ..< e} \<union> bufs" "scr_max (vga_contract ty b e bufs) = e - b"
  "drv_ok (vga_contract ty b e bufs) d
     \<longleftrightarrow> vga_vram_base d = b \<and> vga_vram_end d = e \<and> vga_vram_size d = e - b \<and> vga_video_type d = ty"
  "scr_ready (vga_contract ty b e bufs) d s n \<longleftrightarrow> vga_is_gfx d \<or> b \<le> s \<and> s + n \<le> e"
  "unlocked (vga_contract ty b e bufs) d \<longleftrightarrow> \<not> vga_is_gfx d"
  by (simp_all add: vga_contract_def)

lemma vgacon_scroll_region_keeps:
  assumes wf: "wf_con (vga_contract ty b e bufs) c" and vis: "is_visible c"
    and lines: "0 \<le> t" "t < bt" "bt \<le> vc_rows (vc c)" "1 \<le> lines" "lines < bt - t"
  shows "keeps (vga_contract ty b e bufs) c (snd (vgacon_scroll_region t bt dir lines c))"
proof (cases "t \<noteq> 0 \<or> bt \<noteq> vc_rows (vc c) \<or> vga_is_gfx (drv c)")
  case True
  then show ?thesis
    using wf by (simp add: vgacon_scroll_region_def)
next
  case False
  let ?K = "vga_contract ty b e bufs"
  define c0 where "c0 = (if vc_origin (vc c) \<noteq> vc_visible_origin (vc c) then vgacon_scroll 0 c else c)"
  note st = vgacon_scroll_region_start [OF _ c0_def]
  have k0: "keeps ?K c c0"
    using keeps_scroll0 [OF layout_vga wf] wf by (simp add: c0_def)
  note w0 = keeps_wf [OF k0] and v0 = wf_con_vc [OF keeps_wf [OF k0]]
  note g = wf_geomD [OF wf_con_geom [OF w0]]
  have gfx: "\<not> vga_is_gfx (drv c0)"
    using False st(3) by (simp add: vga_layout_def)
  show ?thesis
  proof (cases "vga_hardscroll_enabled (drv c0) \<and> lines < vc_rows (vc c0) div 2")
    case hs: False
    then have "vgacon_scroll_region 0 (vc_rows (vc c0)) dir lines c0 = (False, c0)"
      using gfx st(2) False by (auto simp: vgacon_scroll_region_def)
    then show ?thesis
      using False st(1) k0 by simp
  next
    case hs: True
    let ?delta = "lines * vc_size_row (vc c0)"
    define r where "r = vgacon_scroll_region 0 (vc_rows (vc c0)) dir lines c0"
    note shape = vgacon_scroll_region_shape [OF gfx _ _ _ r_def]
    have "scr_ready ?K (drv c0) (vc_origin (vc c0)) (vc_screenbuf_size (vc c0))"
      using wf_con_ready [OF w0] keeps_visible [OF k0] vis by simp
    then have ready: "b \<le> vc_origin (vc c0)" "vc_origin (vc c0) + vc_screenbuf_size (vc c0) \<le> e"
      using gfx by simp_all
    have base: "vga_vram_base (drv c0) = b" "vga_vram_end (drv c0) = e"
      using wf_conD(9) [OF w0] by (simp_all add: wf_drv_def)
    have "lines \<le> vc_rows (vc c0)"
      using hs g(3) by linarith
    then have d: "0 \<le> ?delta" "?delta \<le> vc_screenbuf_size (vc c0)"
      using lines(4) g(1,5,6) by (simp_all add: mult_right_mono)
    note sb = scroll_to_bounds [OF base refl wf_vcD(9) [OF v0] ready d]
    have "vc_visible_origin (vc c0) = vc_origin (vc c0)"
      using st(2) False by simp
    with hs have eq: "snd r = c0\<lparr>vc := moved_to (scroll_to dir ?delta c0) (vc c0),
        mem := scroll_mem dir ?delta c0, drv := drv (snd r)\<rparr>"
      and lay: "vga_layout (drv (snd r)) = vga_layout (drv c0)"
      using shape by (metis snd_conv, blast)
    have "{scroll_to dir ?delta c0 ..< scroll_to dir ?delta c0 + vc_screenbuf_size (vc c0)}
        \<subseteq> scr_region ?K"
      using sb(1,2) [of dir] by auto
    then have "keeps ?K c0 (snd r)"
      using sb [where dir = dir] by (intro keeps_moved [OF layout_vga w0 eq _ lay]) simp_all
    then have "keeps ?K c (snd r)"
      by (rule keeps_trans [OF k0])
    then show ?thesis
      using False st(1) by (simp add: r_def)
  qed
qed

lemma vgacon_scroll_region_refused:
  assumes "\<not> fst (vgacon_scroll_region t bt dir lines c)"
  shows "\<exists>vo. vc (snd (vgacon_scroll_region t bt dir lines c)) = (vc c)\<lparr>vc_visible_origin := vo\<rparr>"
proof -
  have same: "\<exists>vo. vc c = (vc c)\<lparr>vc_visible_origin := vo\<rparr>"
    by (rule exI [of _ "vc_visible_origin (vc c)"]) simp
  have "vc (vgacon_scroll 0 c) = (vc c)\<lparr>vc_visible_origin := vc_origin (vc c)\<rparr>"
    by (simp add: vgacon_scroll_def vga_set_mem_top_def Let_def)
  then have c0: "\<exists>vo. vc (if vc_origin (vc c) \<noteq> vc_visible_origin (vc c) then vgacon_scroll 0 c else c)
      = (vc c)\<lparr>vc_visible_origin := vo\<rparr>" (is "\<exists>vo. vc ?c0 = _")
    using same by (auto simp del: vc_data.simps)
  show ?thesis
  proof (cases "t \<noteq> 0 \<or> bt \<noteq> vc_rows (vc c) \<or> vga_is_gfx (drv c)")
    case True
    then show ?thesis using same by (simp add: vgacon_scroll_region_def)
  next
    case False
    have "\<not> vga_hardscroll_enabled (drv ?c0) \<or> lines \<ge> vc_rows (vc ?c0) div 2"
    proof (rule ccontr)
      assume "\<not> ?thesis"
      then have "fst (vgacon_scroll_region t bt dir lines c)"
        unfolding vgacon_scroll_region_def Let_def if_not_P [OF False] by (simp only: if_not_P if_False fst_conv)
      then show False using assms by simp
    qed
    then have "vgacon_scroll_region t bt dir lines c = (False, ?c0)"
      unfolding vgacon_scroll_region_def Let_def if_not_P [OF False] by (rule if_P)
    then show ?thesis using c0 by simp
  qed
qed

lemma vga_set_origin_shape:
  assumes "wf_vc R (vc c)" "is_visible c" "\<not> vt_blanked (vt c)" "\<not> vga_is_gfx (drv c)"
    and c1: "c1 = set_origin vga_con c"
  shows "c1 = c\<lparr>vc := moved_to (vga_vram_base (drv c)) (vc c), mem := mem c, drv := drv c1\<rparr>"
    and "vga_layout (drv c1) = vga_layout (drv c)"
proof -
  have o: "vgacon_set_origin c = (True, upd_drv (\<lambda>d. d\<lparr>vga_rolled_over := 0\<rparr>) (vga_set_mem_top
      (upd_vc (\<lambda>v. v\<lparr>vc_origin := vga_vram_base (drv c), vc_visible_origin := vga_vram_base (drv c)\<rparr>) c)))"
    using assms(3,4) by (simp add: vgacon_set_origin_def)
  have p: "vc_pos (vc c) = vc_origin (vc c) + vc_y (vc c) * vc_size_row (vc c) + 2 * vc_x (vc c)"
    using wf_vcD(8) [OF assms(1)] .
  show "vga_layout (drv c1) = vga_layout (drv c)"
    unfolding c1 using assms(2) o
    by (simp add: set_origin_def vga_con_def vga_set_mem_top_def)
  show "c1 = c\<lparr>vc := moved_to (vga_vram_base (drv c)) (vc c), mem := mem c, drv := drv c1\<rparr>"
    unfolding c1 using assms(2) o p
    by (simp add: set_origin_def vga_con_def vga_set_mem_top_def upd_drv_def upd_vc_def Let_def
        moved_to_def mult.commute)
qed

lemma vga_set_origin_keeps:
  assumes wf: "wf_con (relaxed (vga_contract ty b e bufs)) c" and vis: "is_visible c"
    and "\<not> vt_blanked (vt c)" "unlocked (vga_contract ty b e bufs) (drv c)"
    and c1: "c1 = set_origin vga_con c"
  shows "keeps (relaxed (vga_contract ty b e bufs)) c c1"
    and "scr_ready (vga_contract ty b e bufs) (drv c1) (vc_origin (vc c1)) (vc_screenbuf_size (vc c1))"
proof -
  have gfx: "\<not> vga_is_gfx (drv c)"
    using assms(4) by simp
  note shape = vga_set_origin_shape [OF wf_con_vc [OF wf] vis assms(3) gfx c1]
  have base: "vga_vram_base (drv c) = b" "vc_screenbuf_size (vc c) \<le> e - b"
    using wf_conD(9) [OF wf] get_console_own [of c] unfolding wf_drv_def by (simp, fastforce)
  then have "{vga_vram_base (drv c) ..< vga_vram_base (drv c) + vc_screenbuf_size (vc c)}
      \<subseteq> scr_region (relaxed (vga_contract ty b e bufs))"
    by auto
  then show "keeps (relaxed (vga_contract ty b e bufs)) c c1"
    by (intro keeps_moved [OF layout_relaxed [OF layout_vga] wf shape(1) _ shape(2)]) simp_all
  have "vc c1 = moved_to (vga_vram_base (drv c)) (vc c)"
    by (subst shape(1)) simp
  then show "scr_ready (vga_contract ty b e bufs) (drv c1) (vc_origin (vc c1)) (vc_screenbuf_size (vc c1))"
    using base by (simp add: moved_to_def)
qed

section \<open>Unblanking\<close>

lemma vgacon_unblank_drv:
  "\<exists>f. snd (vgacon_blank 0 ms c) = upd_drv f c \<and>
     (\<forall>d. vga_layout (f d) = (vga_vram_base d, vga_vram_end d, vga_vram_size d, vga_video_type d,
        vga_is_gfx d \<and> \<not> fst (vgacon_blank 0 ms c), vga_palette_blanked d \<and> fst (vgacon_blank 0 ms c)))"
proof -
  define f1 where "f1 = (\<lambda>d. if vga_vesa_blanked (drv c) \<noteq> 0
    then (vga_vesa_unblank d)\<lparr>vga_vesa_blanked := 0\<rparr> else d)"
  have l1: "vga_layout (f1 d) = vga_layout d" for d
    by (simp add: f1_def)
  have c1: "(if vga_vesa_blanked (drv c) \<noteq> 0
      then upd_drv (\<lambda>d. (vga_vesa_unblank d)\<lparr>vga_vesa_blanked := 0\<rparr>) c else c) = upd_drv f1 c"
    by (simp add: f1_def upd_drv_def)
  define f2 where "f2 = (\<lambda>d. if vga_palette_blanked (f1 (drv c))
    then (vga_set_palette (vc_palette (vc c)) color_table d)\<lparr>vga_palette_blanked := False\<rparr>
    else d\<lparr>vga_is_gfx := False\<rparr>)"
  have "snd (vgacon_blank 0 ms c) = upd_drv (\<lambda>d. f2 (f1 d)) c"
    "fst (vgacon_blank 0 ms c) = (\<not> vga_palette_blanked (f1 (drv c)))"
    unfolding vgacon_blank_def c1 Let_def f2_def by (simp_all add: upd_drv_def)
  moreover have "vga_layout (f2 (f1 d)) = (vga_vram_base d, vga_vram_end d, vga_vram_size d, vga_video_type d,
      vga_is_gfx d \<and> vga_palette_blanked (f1 (drv c)), vga_palette_blanked d \<and> \<not> vga_palette_blanked (f1 (drv c)))" for d
    using l1 [of d] set_palette_layout [of "vc_palette (vc c)" color_table "f1 d"]
    by (auto simp: f2_def vga_layout_def)
  ultimately show ?thesis by auto
qed

lemma vgacon_unblank_keeps:
  assumes wf: "wf_con (relaxed (vga_contract ty b e bufs)) c"
  shows "keeps (relaxed (vga_contract ty b e bufs)) c (snd (vgacon_blank 0 ms c))"
proof -
  obtain f where f: "snd (vgacon_blank 0 ms c) = upd_drv f c"
    "\<And>d. vga_layout (f d) = (vga_vram_base d, vga_vram_end d, vga_vram_size d, vga_video_type d,
        vga_is_gfx d \<and> \<not> fst (vgacon_blank 0 ms c), vga_palette_blanked d \<and> fst (vgacon_blank 0 ms c))"
    using vgacon_unblank_drv by blast
  show ?thesis
    unfolding f(1) using f(2) [of "drv c"] wf by (intro keeps_upd_drv) (auto simp: vga_layout_def)
qed

lemma vgacon_unblank_quiet:
  assumes wf: "wf_con (vga_contract ty b e bufs) c" and "\<not> fst (vgacon_blank 0 ms c)"
  shows "wf_con (vga_contract ty b e bufs) (snd (vgacon_blank 0 ms c))"
proof -
  obtain f where f: "snd (vgacon_blank 0 ms c) = upd_drv f c"
    "\<And>d. vga_layout (f d) = (vga_vram_base d, vga_vram_end d, vga_vram_size d, vga_video_type d,
       vga_is_gfx d, False)"
    using vgacon_unblank_drv [of ms c] assms(2) by auto
  have "keeps (vga_contract ty b e bufs) c (upd_drv f c)"
    using f(2) [of "drv c"] wf by (intro keeps_upd_drv) (auto simp: vga_layout_def)
  then show ?thesis
    unfolding f(1) by (rule keeps_wf)
qed

lemma vgacon_unblank_redo:
  assumes "fst (vgacon_blank 0 ms c)"
  shows "\<not> vga_is_gfx (drv (snd (vgacon_blank 0 ms c)))"
  using vgacon_unblank_drv [of ms c] assms by (auto simp: vga_layout_def)

lemma vga_con_sel:
  "con_scroll_region vga_con = vgacon_scroll_region" "con_switch vga_con = vgacon_switch"
  "con_blank vga_con = vgacon_blank"
  by (simp_all add: vga_con_def)

lemma vga_display: "display_driver vga_con (vga_contract ty b e bufs)"
proof (intro display_driver.intro display_driver_axioms.intro, unfold vga_con_sel)
  show "drawing_driver vga_con (vga_contract ty b e bufs)"
    "drawing_driver vga_con (relaxed (vga_contract ty b e bufs))"
    using vga_drawing layout_vga layout_relaxed by blast+
  show "fst (vgacon_blank 0 True c) \<Longrightarrow>
      unlocked (vga_contract ty b e bufs) (drv (snd (vgacon_blank 0 True c)))" for c
    using vgacon_unblank_redo by simp
qed (fact vgacon_scroll_region_keeps vgacon_scroll_region_refused vgacon_switch_keeps
    vga_set_origin_keeps(1) [OF _ _ _ _ refl] vga_set_origin_keeps(2)
    vgacon_unblank_keeps vgacon_unblank_quiet)+

interpretation vga: display_driver vga_con "vga_contract ty b e bufs" for ty b e bufs
  by (rule vga_display)

end
