(* ===== verification/Vga_Example.thy ===== *)
theory Vga_Example
  imports Vgacon_Inv
begin

text \<open>
  A concrete state of the machine: one console of 80 by 25 cells, displayed by a VGA adapter
  whose 32 kilobytes of video memory start at 0xb8000, with its screen buffer elsewhere. It
  satisfies the invariant \<open>wf_con\<close> for the contract of the VGA driver, so the theorems that
  assume the invariant speak of such machines.
\<close>

section \<open>The state\<close>

definition kbd0 :: kbd_struct where
  "kbd0 = \<lparr>lockstate = 0, slockstate = 0, ledmode = LED_SHOW_FLAGS, ledflagstate = 0,
           default_ledflagstate = 0, kbdmode = VC_XLATE, modeflags = KBD_DEFMODE\<rparr>"

definition vc0 :: vc_data where
  "vc0 =
     \<lparr>vc_num = 0, vc_cols = 80, vc_rows = 25, vc_size_row = 160, vc_scan_lines = 400,
      vc_mode = KD_TEXT, vc_origin = 0xb8000, vc_scr_end = 0xb8fa0, vc_visible_origin = 0xb8000,
      vc_top = 0, vc_bottom = 25, vc_screenbuf = 0x100000, vc_screenbuf_size = 4000,
      vc_attr = 0x07, vc_def_color = 0x07, vc_color = 0x07, vc_s_color = 0x07,
      vc_ulcolor = 0x0f, vc_halfcolor = 0x08, vc_cursor_type = CUR_DEFAULT,
      vc_complement_mask = 0x7700, vc_s_complement_mask = 0x7700, vc_video_erase_char = 0x0720,
      vc_x = 0, vc_y = 0, vc_pos = 0xb8000, vc_saved_x = 0, vc_saved_y = 0,
      vc_state = ESinit, vc_npar = 0, vc_par = replicate 16 0, kbd_table = kbd0,
      vc_hi_font_mask = 0, vc_font_height = 16, display_fg = 0, vc_tty = Some 1,
      vt_mode = \<lparr>vtm_mode = VT_AUTO, vtm_waitv = 0, vtm_relsig = 0, vtm_acqsig = 0, vtm_frsig = 0\<rparr>,
      vt_pid = -1, vt_newvt = -1, vc_charset = False, vc_s_charset = False, vc_disp_ctrl = False,
      vc_toggle_meta = False, vc_decscnm = False, vc_decom = False, vc_decawm = True,
      vc_dectcem = True, vc_irm = False, vc_intensity = 1, vc_underline = False, vc_blink = False,
      vc_reverse = False, vc_s_intensity = 1, vc_s_underline = False, vc_s_blink = False,
      vc_s_reverse = False, vc_priv1 = False, vc_priv2 = False, vc_priv3 = False, vc_priv4 = False,
      vc_need_wrap = False, vc_can_do_color = True, vc_report_mouse = 0, vc_utf = False,
      vc_utf_count = 0, vc_utf_char = 0,
      vc_tab_stop = [0x01010100, 0x01010101, 0x01010101, 0x01010101, 0x01010101, 0, 0, 0],
      vc_palette = concat (map (\<lambda>j. [default_red ! j, default_grn ! j, default_blu ! j]) [0..<16]),
      vc_translate = LAT1_MAP, vc_G0_charset = LAT1_MAP, vc_G1_charset = GRAF_MAP,
      vc_G2_charset = LAT1_MAP, vc_G3_charset = LAT1_MAP, vc_GS_charset = LAT1_MAP,
      vc_saved_G0 = LAT1_MAP, vc_saved_G1 = GRAF_MAP, vc_saved_G2 = LAT1_MAP,
      vc_saved_G3 = LAT1_MAP, vc_bell_pitch = 750, vc_bell_duration = 12, vc_uni_pagedir_loc = 0,
      vc_decscl = 4, vc_c8bit = False, vc_shift = False, vc_decckm = False, vc_decsclm = False,
      vc_decarm = True, vc_decnkm = False, vc_kam = False, vc_crm = False, vc_lnm = False\<rparr>"

definition vt0 :: vt_struct where
  "vt0 = \<lparr>vt_num = 0, fg_console = Some 0, last_console = Some 0, want_vc = Some 0, scrollback_delta = 0,
          cursor_original = None, kmalloced = False, vt_dont_switch = False, vt_blanked = False,
          blank_mode = 0, blank_interval = 60000, off_interval = 0,
          blank_state = blank_normal_wait, blank_timer_expired = False, timer = None,
          first_vc = 0, vc_count = 2, vc_cons = [Some 0, None], vt_ledstate = 0, vt_ledioctl = 0\<rparr>"

definition vga0 :: vga where
  "vga0 =
     \<lparr>vga_vram_base = 0xb8000, vga_vram_end = 0xc0000, vga_vram_size = 0x8000,
      vga_video_type = VIDEO_TYPE_VGAC, vga_hardscroll_enabled = True, vga_vesa_blanked = 0,
      vga_palette_blanked = False, vga_is_gfx = False, vga_rolled_over = 0,
      cursor_size_lastfrom = 0, cursor_size_lastto = 0,
      vga_state = \<lparr>SeqCtrlIndex = 0, CrtCtrlIndex = 0, CrtMiscIO = 0, HorizontalTotal = 0,
        HorizDisplayEnd = 0, StartHorizRetrace = 0, EndHorizRetrace = 0, Overflow = 0,
        StartVertRetrace = 0, EndVertRetrace = 0, ModeControl = 0, ClockingMode = 0\<rparr>,
      crtc_index = 0, crtc = (\<lambda>_. 0), seq_index = 0, seq_clock_mode = 0, misc_output = 0x67,
      dac = (\<lambda>_. [0, 0, 0])\<rparr>"

definition cmap0 :: cmap where
  "cmap0 =
     \<lparr>udirs = Map.empty, locs = (\<lambda>_. 0), dflt = 0,
      transl_tables = [translations_lat1, translations_graf, translations_ibmpc, translations_user],
      inv_translate = (\<lambda>_. 0), kmalloc_fails = (\<lambda>_. False), kmalloc_count = 0, next_dir = 1\<rparr>"

definition con0 :: "vga con" where
  "con0 =
     \<lparr>vc = vc0, pool = Map.empty,
      vts = (\<lambda>d. if d = 0 then vt0 else vt0\<lparr>vt_num := d, fg_console := None, want_vc := None, vc_count := 0, vc_cons := []\<rparr>),
      vt_list = [0], mem = (\<lambda>_. 0x0720), drv = vga0, cm = cmap0,
      sel_cons = None, sel_start = -1, sel_end = -1, cp_p = None, cp_old = 0, cp_oldx = 0, cp_oldy = 0,
      ignore_poke = False, console_blank_hook = None, jiffies = 0, HZ = 100, trace = []\<rparr>"

section \<open>It is well-formed\<close>

abbreviation "vga0_contract \<equiv> vga_contract VIDEO_TYPE_VGAC 0xb8000 0xc0000 {0x100000 ..< 0x100000 + 4000}"

lemma get_console0: "get_console con0 n = (if n = 0 then Some vc0 else None)"
  by (simp add: get_console_def con0_def vc0_def)

lemma wf_vc0: "wf_vc ({0xb8000 ..< 0xc0000} \<union> {0x100000 ..< 0x100000 + 4000}) vc0"
  by (auto simp: wf_vc_defs vc0_def upt_rec)

lemma wf_con0: "wf_con vga0_contract con0"
proof (rule wf_conI)
  show "wf_sel con0" "wf_switch con0"
    by (auto simp: wf_sel_def wf_switch_def get_console0) (auto simp: con0_def vt0_def vc0_def split: if_splits)
  show "wf_displayed vga0_contract con0"
    by (auto simp: wf_displayed_def get_console0 split: if_splits) (auto simp: con0_def vc0_def vga0_def)
  show "wf_drv vga0_contract con0"
    by (auto simp: wf_drv_def get_console0 split: if_splits)
      (auto simp: con0_def vc0_def vga0_def vt0_def split: if_splits)
  show "wf_maps con0"
    by (auto simp: wf_maps_def con0_def cmap0_def translations_lat1_def translations_graf_def
        translations_ibmpc_def translations_user_def)
qed (use wf_vc0 in \<open>auto simp: get_console0 split: if_splits\<close>,
     auto simp: con0_def vc0_def vt0_def split: if_splits)

lemma settled0: "settled (vc con0)"
  by (simp add: con0_def vc0_def)

end
