(* ===== verification/Vga_Screen.thy ===== *)
theory Vga_Screen
  imports Screen Vga_Example
begin

text \<open>
  The VGA driver scrolls by moving the start address of the display through video memory,
  copying the screen only when it reaches an end. Seen as a grid of cells this is the same as
  scrolling by copying: the driver meets the contract \<open>screen_driver\<close>. The properties below
  are the functional behaviour of the erasing, editing and scrolling functions on this driver.
\<close>

section \<open>Hardware scrolling refines scrolling of the grid\<close>

lemma scroll_mem_grid:
  assumes s: "vc_screenbuf_size (vc c) = vc_rows (vc c) * s" and x: "0 \<le> x" "2 * x < s"
    and "1 \<le> n" "n < vc_rows (vc c)" and y: "0 \<le> y" "y < vc_rows (vc c)"
  shows "grid_at (scroll_mem dir (n * s) c) (scroll_to dir (n * s) c) s y x
    = scroll_rows dir 0 (vc_rows (vc c)) n (vc_video_erase_char (vc c)) (grid_at (mem c) (vc_origin (vc c)) s) y x"
proof -
  let ?r = "vc_rows (vc c)" and ?p = "scroll_to dir (n * s) c" and ?w = "vc_video_erase_char (vc c)"
  note set = grid_memsetw_rows [OF x, where p = ?p and w = ?w and n = n]
  note move = grid_memmovew_rows [OF x, where p = ?p and n = "?r - n" and m = "mem c"]
  show ?thesis
  proof (cases dir)
    case SM_UP
    have "scroll_mem dir (n * s) c = scr_memsetw (?p + (?r - n) * s) ?w (n * s)
        (if vc_scr_end (vc c) + n * s \<ge> vga_vram_end (drv c)
         then scr_memmovew (?p + 0 * s) (vc_origin (vc c) + n * s) ((?r - n) * s) (mem c) else mem c)"
      using SM_UP by (simp add: scroll_mem_def Let_def s algebra_simps)
    then have "grid_at (scroll_mem dir (n * s) c) ?p s y x = (if ?r - n \<le> y \<and> y < ?r - n + n then ?w
        else if vc_scr_end (vc c) + n * s \<ge> vga_vram_end (drv c)
        then grid_at (scr_memmovew (?p + 0 * s) (vc_origin (vc c) + n * s) ((?r - n) * s) (mem c)) ?p s y x
        else grid_at (mem c) ?p s y x)"
      by (simp only: set) simp
    moreover have "grid_at (mem c) (vc_origin (vc c) + n * s) s y x = grid_at (mem c) (vc_origin (vc c)) s (y + n) x"
      by (simp add: grid_at_def algebra_simps)
    ultimately show ?thesis
      unfolding move using SM_UP assms(4-7) by (auto simp: scroll_rows_def scroll_to_def scroll_up_to_def)
  next
    case SM_DOWN
    have "scroll_mem dir (n * s) c = scr_memsetw (?p + 0 * s) ?w (n * s)
        (if vc_origin (vc c) - n * s < vga_vram_base (drv c)
         then scr_memmovew (?p + n * s) (vc_origin (vc c)) ((?r - n) * s) (mem c) else mem c)"
      using SM_DOWN by (simp add: scroll_mem_def Let_def s algebra_simps)
    then have "grid_at (scroll_mem dir (n * s) c) ?p s y x = (if 0 \<le> y \<and> y < 0 + n then ?w
        else if vc_origin (vc c) - n * s < vga_vram_base (drv c)
        then grid_at (scr_memmovew (?p + n * s) (vc_origin (vc c)) ((?r - n) * s) (mem c)) ?p s y x
        else grid_at (mem c) ?p s y x)"
      by (simp only: set) simp
    moreover have "grid_at (mem c) (vc_origin (vc c) - n * s) s y x = grid_at (mem c) (vc_origin (vc c)) s (y - n) x"
      by (simp add: grid_at_def algebra_simps)
    ultimately show ?thesis
      unfolding move using SM_DOWN assms(4-7) by (auto simp: scroll_rows_def scroll_to_def scroll_down_to_def)
  qed
qed

lemma vgacon_scroll_refines:
  assumes r: "vgacon_scroll_region t b dir n c = (True, c')" and wf: "wf_con K c"
    and n: "1 \<le> n" "n < b - t" and yx: "on_screen (vc c) y x"
  shows "screen c' y x = scroll_rows dir t b n (vc_video_erase_char (vc c)) (screen c) y x"
proof -
  define c0 where "c0 = (if vc_origin (vc c) \<noteq> vc_visible_origin (vc c) then vgacon_scroll 0 c else c)"
  note g = wf_geomD [OF wf_con_geom [OF wf]]
  have tb: "t = 0" "b = vc_rows (vc c)" "\<not> vga_is_gfx (drv c)"
    using r by (auto simp: vgacon_scroll_region_def split: if_splits)
  note st = vgacon_scroll_region_start [OF tb(3) c0_def]
  have v: "vc c0 = (vc c)\<lparr>vc_visible_origin := vc_origin (vc c)\<rparr>"
    and m: "mem c0 = mem c" and gfx: "\<not> vga_is_gfx (drv c0)"
    using st(2-4) tb(3) by (simp_all add: vga_layout_def)
  have r0: "vgacon_scroll_region 0 (vc_rows (vc c0)) dir n c0 = (True, c')"
    using r st(1) tb by simp
  then have h: "vga_hardscroll_enabled (drv c0)" "n < vc_rows (vc c0) div 2"
    using v gfx by (auto simp: vgacon_scroll_region_def Let_def split: if_splits)
  have c': "c' = c0\<lparr>vc := moved_to (scroll_to dir (n * vc_size_row (vc c0)) c0) (vc c0),
      mem := scroll_mem dir (n * vc_size_row (vc c0)) c0, drv := drv c'\<rparr>"
    using vgacon_scroll_region_shape(1) [OF gfx h _ r0 [symmetric]] v by simp
  have "screen c' = grid_at (scroll_mem dir (n * vc_size_row (vc c0)) c0)
      (scroll_to dir (n * vc_size_row (vc c0)) c0) (vc_size_row (vc c0))"
    by (subst c') (simp add: screen_grid moved_to_def)
  then show ?thesis
    using scroll_mem_grid [of c0 "vc_size_row (vc c0)" x n y dir] g yx n tb v m
    by (simp add: on_screen_def screen_grid)
qed

section \<open>The driver meets the contract\<close>

lemma vgacon_scroll_refused_mem: "vgacon_scroll_region t b dir n c = (False, c') \<Longrightarrow> mem c' = mem c"
  by (auto simp: vgacon_scroll_region_def vgacon_scroll_def vga_set_mem_top_def Let_def upd_vc_def
      split: if_splits)

lemma vga_screen_driver: "screen_driver vga_con (vga_contract ty b e bufs)"
proof (intro screen_driver.intro vga_display screen_driver_axioms.intro)
  show "mem (f sy sx h w c) = mem c \<and> vc (f sy sx h w c) = vc c" if "con_clear vga_con = Some f" for f sy sx h w c
    using that by (auto simp: vga_con_def)
  show "mem (con_putc vga_con ch y x c) = mem c \<and> vc (con_putc vga_con ch y x c) = vc c" for ch y x c
    by (simp add: vga_con_def)
  show "mem (con_bmove vga_con sy sx dy dx h w c) = mem c \<and> vc (con_bmove vga_con sy sx dy dx h w c) = vc c"
    for sy sx dy dx h w c
    by (simp add: vga_con_def)
  show "mem c' = mem c" if "con_scroll_region vga_con t b dir nr c = (False, c')" for t b dir nr c c'
    using that vgacon_scroll_refused_mem by (simp add: vga_con_def)
  show "screen c' y x = scroll_rows dir t b' nr (vc_video_erase_char (vc c)) (screen c) y x"
    if "con_scroll_region vga_con t b' dir nr c = (True, c')" "wf_con (vga_contract ty b e bufs) c"
      "1 \<le> nr" "nr < b' - t" "on_screen (vc c) y x" for t b' dir nr c c' y x
    using that vgacon_scroll_refines by (simp add: vga_con_def)
qed

interpretation vga_cells: screen_driver vga_con "vga_contract ty b e bufs" for ty b e bufs
  by (rule vga_screen_driver)

section \<open>What the functions do to the screen\<close>

text \<open>
  C4. Scrolling refines its specification on the grid of cells, whether the VGA driver moves
  the display start address or the cells are copied: rows of the region move by the clamped
  count, the rows that become free are filled with the erase character, and the other rows
  stay. The count is clamped so that at least one row of the region stays.
\<close>

theorem scroll_region_refines:
  assumes "wf_con (vga_contract ty b e bufs) c" "0 \<le> t" "bt \<le> vc_rows (vc c)" "on_screen (vc c) y x"
  shows "screen (scroll_region_up vga_con t bt nr c) y x
      = scroll_rows SM_UP t bt (scroll_count t bt nr) (vc_video_erase_char (vc c)) (screen c) y x \<and>
    screen (scroll_region_down vga_con t bt nr c) y x
      = scroll_rows SM_DOWN t bt (scroll_count t bt nr) (vc_video_erase_char (vc c)) (screen c) y x"
  using vga_cells.scroll_region_up_screen [OF assms] vga_cells.scroll_region_down_screen [OF assms] by simp

theorem scroll_region_refines_witness:
  "screen (scroll_region_up vga_con 0 25 1 con0) 24 79
      = scroll_rows SM_UP 0 25 (scroll_count 0 25 1) (vc_video_erase_char (vc con0)) (screen con0) 24 79 \<and>
    screen (scroll_region_down vga_con 0 25 1 con0) 24 79
      = scroll_rows SM_DOWN 0 25 (scroll_count 0 25 1) (vc_video_erase_char (vc con0)) (screen con0) 24 79"
  by (rule scroll_region_refines [OF wf_con0]) (simp_all add: con0_def vc0_def on_screen_def)

text \<open>
  C8. \<open>IL\<close> and \<open>DL\<close> insert and delete lines at the cursor: the rows from the cursor's row to
  the bottom margin scroll down or up, and no other row changes.
\<close>

theorem insert_delete_line:
  assumes "wf_con (vga_contract ty b e bufs) c" "on_screen (vc c) y x"
    and "n = scroll_count (vc_y (vc c)) (vc_bottom (vc c)) (clamp_count p (vc_rows (vc c) - vc_y (vc c)))"
  shows "screen (vte_il vga_con p c) y x = scroll_rows SM_DOWN (vc_y (vc c)) (vc_bottom (vc c)) n
      (vc_video_erase_char (vc c)) (screen c) y x \<and>
    screen (vte_dl vga_con p c) y x = scroll_rows SM_UP (vc_y (vc c)) (vc_bottom (vc c)) n
      (vc_video_erase_char (vc c)) (screen c) y x"
  using vga_cells.insert_line_screen [OF assms(1,2)] vga_cells.delete_line_screen [OF assms(1,2)]
  by (simp add: vte_il_def vte_dl_def assms(3))

theorem insert_delete_line_witness:
  "screen (vte_il vga_con 3 con0) 4 2 = scroll_rows SM_DOWN 0 25 3 0x0720 (screen con0) 4 2 \<and>
    screen (vte_dl vga_con 3 con0) 4 2 = scroll_rows SM_UP 0 25 3 0x0720 (screen con0) 4 2"
  using insert_delete_line [OF wf_con0, of 4 2 3 3]
  by (simp add: con0_def vc0_def on_screen_def scroll_count_def clamp_count_def)

text \<open>
  C9. \<open>ICH\<close> shifts the rest of the cursor's line right and leaves blanks at the cursor;
  \<open>DCH\<close> shifts it left and leaves blanks at the end of the line. The count is at least one
  and at most what is left of the line.
\<close>

theorem insert_delete_character:
  assumes "wf_con (vga_contract ty b e bufs) c" "on_screen (vc c) y x" "0 \<le> p"
    and "n = clamp_count p (vc_cols (vc c) - vc_x (vc c))"
  shows "screen (vte_ich vga_con p c) y x
      = insert_cells (vc_y (vc c)) (vc_x (vc c)) n (vc_video_erase_char (vc c)) (screen c) y x \<and>
    screen (vte_dch vga_con p c) y x
      = delete_cells (vc_cols (vc c)) (vc_y (vc c)) (vc_x (vc c)) n (vc_video_erase_char (vc c)) (screen c) y x"
proof -
  have "0 \<le> n" "vc_x (vc c) + n \<le> vc_cols (vc c)"
    using clamp_count_range [OF assms(3), of "vc_cols (vc c) - vc_x (vc c)"]
      wf_geomD(11) [OF wf_con_geom [OF assms(1)]] assms(4) by auto
  then show ?thesis
    using vga_cells.insert_char_screen [OF assms(1)] vga_cells.delete_char_screen [OF assms(1)] assms(2,4)
    by (simp add: vte_ich_def vte_dch_def)
qed

theorem insert_delete_character_witness:
  "screen (vte_ich vga_con 2 con0) 0 5 = insert_cells 0 0 2 0x0720 (screen con0) 0 5 \<and>
    screen (vte_dch vga_con 2 con0) 0 5 = delete_cells 80 0 0 2 0x0720 (screen con0) 0 5"
  using insert_delete_character [OF wf_con0, of 0 5 2 2]
  by (simp add: con0_def vc0_def on_screen_def clamp_count_def)

text \<open>
  C10. Deleting the characters just inserted gives back the line, but for the cells that
  the insertion pushed out at the right end.
\<close>

theorem delete_undoes_insert:
  assumes "wf_con (vga_contract ty b e bufs) c" "0 \<le> p" "on_screen (vc c) y x"
    and "y \<noteq> vc_y (vc c) \<or> x < vc_cols (vc c) - clamp_count p (vc_cols (vc c) - vc_x (vc c))"
  shows "screen (vte_dch vga_con p (vte_ich vga_con p c)) y x = screen c y x"
  using vga_cells.vte_ich_dch_screen [OF assms(1-3) refl assms(4)] .

theorem delete_undoes_insert_witness:
  "screen (vte_dch vga_con 7 (vte_ich vga_con 7 con0)) 0 72 = screen con0 0 72"
  by (rule delete_undoes_insert [OF wf_con0]) (simp_all add: con0_def vc0_def on_screen_def clamp_count_def)

text \<open>
  C11. \<open>ED\<close>, \<open>EL\<close> and \<open>ECH\<close> fill exactly the cells they name with the erase character and
  leave every other cell: for \<open>ED\<close> and \<open>EL\<close> from the cursor to the end, from the start to
  the cursor (both inclusive) or all of the display or line, nothing for other parameters;
  for \<open>ECH\<close> at least one and at most the given number of cells from the cursor on in its line.
\<close>

theorem erase_exact:
  assumes "wf_con (vga_contract ty b e bufs) c" "on_screen (vc c) y x" "0 \<le> p"
  shows "screen (vte_ed vga_con p c) y x
      = fill_cells (display_part p (vc c)) (vc_video_erase_char (vc c)) (screen c) y x \<and>
    screen (vte_el vga_con p c) y x
      = fill_cells (line_part p (vc c)) (vc_video_erase_char (vc c)) (screen c) y x \<and>
    screen (vte_ech vga_con p c) y x = fill_cells (\<lambda>y x. y = vc_y (vc c) \<and> vc_x (vc c) \<le> x \<and>
        x < vc_x (vc c) + max 1 p) (vc_video_erase_char (vc c)) (screen c) y x"
  using vga_cells.vte_ed_screen vga_cells.vte_el_screen vga_cells.vte_ech_screen assms by simp

theorem erase_exact_witness:
  "screen (vte_ed vga_con 2 con0) 3 4 = 0x0720 \<and> screen (vte_el vga_con 0 con0) 0 79 = 0x0720 \<and>
    screen (vte_ech vga_con 2 con0) 0 1 = 0x0720"
  using erase_exact [OF wf_con0, of 3 4 2] erase_exact [OF wf_con0, of 0 79 0] erase_exact [OF wf_con0, of 0 1 2]
  by (simp add: con0_def vc0_def on_screen_def fill_cells_def display_part_def line_part_def)

end
