(* ===== verification/Output_Props.thy ===== *)
theory Output_Props
  imports Vga_Screen
begin

text \<open>
  What writing does on the screen: printable characters appear as cells at the cursor, which
  moves behind them; at the last column the next character starts a new line. And kernel
  messages keep the console well-formed.
\<close>

section \<open>Plain text\<close>

fun put_text :: "int list \<Rightarrow> 'd con \<Rightarrow> 'd con" where
  "put_text [] c = c"
| "put_text (ch # s) c =
     put_text s (upd_vc advance (upd_mem (scr_writew (cell_for 0 (vc c) ch) (vc_pos (vc c))) c))"

text \<open>A console that shows characters at the cursor as they come.\<close>

definition shows_text :: "'d con \<Rightarrow> bool" where
  "shows_text c \<longleftrightarrow>
     vc_state (vc c) = ESinit \<and> \<not> vc_irm (vc c) \<and> \<not> vc_need_wrap (vc c) \<and> vc_hi_font_mask (vc c) = 0 \<and>
     locs (cm c) (vc_uni_pagedir_loc (vc c)) = 0"

definition printable_char :: "int \<Rightarrow> bool" where
  "printable_char ch \<longleftrightarrow> 0x20 \<le> ch \<and> ch < 0x7f"

lemma and_not_mask_small:
  fixes i :: int
  assumes "0 \<le> i" "i < 2 ^ n"
  shows "i AND NOT (mask n) = 0"
proof -
  have "take_bit n i = i"
    using assms by (simp add: take_bit_int_eq_self)
  then have "bit i k \<Longrightarrow> k < n" for k
    by (metis bit_take_bit_iff)
  then show ?thesis
    by (intro bit_eqI) (auto simp: bit_simps)
qed

lemma byte_and_not: "0 \<le> ch \<Longrightarrow> ch < 256 \<Longrightarrow> (ch AND NOT 0xff :: int) = 0"
  using and_not_mask_small [of ch 8] by (simp add: mask_eq_exp_minus_1)

lemma glyph_of_plain:
  assumes "locs m (vc_uni_pagedir_loc v) = 0" "printable_char ch"
  shows "glyph_of m v ch ch = Inr ch"
proof -
  have "ch AND NOT 0x1ff = 0"
    using assms(2) and_not_mask_small [of ch 9] by (simp add: printable_char_def mask_eq_exp_minus_1)
  then show ?thesis
    using assms by (simp add: glyph_of_def conv_uni_to_pc_def printable_char_def Let_def)
qed

lemma write_char_text:
  assumes "shows_text c" "printable_char ch"
  shows "\<exists>d'. write_char sw 0 ch (c, d)
    = Inr (upd_vc advance (upd_mem (scr_writew (cell_for 0 (vc c) ch) (vc_pos (vc c))) c), d')"
proof -
  have "displayable (vc c) ch ch" "\<not> ch AND NOT 0xff \<noteq> 0"
    using assms(2) byte_and_not [of ch] by (simp_all add: printable_char_def displayable_def)
  moreover have "glyph_of (cm c) (vc c) ch ch = Inr ch"
    using assms by (intro glyph_of_plain) (simp_all add: shows_text_def)
  ultimately show ?thesis
    using assms(1) by (simp add: write_char_def decode_char_def shows_text_def put_glyph_def Let_def case_prod_beta)
qed

lemma put_text_step:
  assumes "shows_text c" "vc_x (vc c) + 1 < vc_cols (vc c)"
    and c': "c' = upd_vc advance (upd_mem (scr_writew w (vc_pos (vc c))) c)"
  shows "shows_text c'" "vc c' = (vc c)\<lparr>vc_x := vc_x (vc c) + 1, vc_pos := vc_pos (vc c) + 2\<rparr>"
    "mem c' = (mem c)(vc_pos (vc c) := w)"
  using assms(1,2) by (simp_all add: c' shows_text_def advance_def upd_vc_def upd_mem_def scr_writew_def)

lemma write_loop_text:
  assumes "shows_text c" "list_all printable_char buf" "vc_x (vc c) + int (length buf) < vc_cols (vc c)"
    and "\<forall>i. \<not> stopped i"
  shows "\<exists>d'. write_loop sw 0 stopped n buf (c, d) = Inr (n + length buf, put_text buf c, d')"
  using assms
proof (induction buf arbitrary: n c d)
  case (Cons ch buf)
  let ?c = "upd_vc advance (upd_mem (scr_writew (cell_for 0 (vc c) ch) (vc_pos (vc c))) c)"
  have "printable_char ch"
    using Cons.prems(2) by simp
  then obtain d1 where "write_char sw 0 ch (c, d) = Inr (?c, d1)"
    using write_char_text [OF Cons.prems(1)] by blast
  moreover have "shows_text ?c" "vc ?c = (vc c)\<lparr>vc_x := vc_x (vc c) + 1, vc_pos := vc_pos (vc c) + 2\<rparr>"
    using put_text_step [OF Cons.prems(1) _ refl] Cons.prems by simp_all
  ultimately show ?case
    using Cons.IH [of ?c "Suc n" d1] Cons.prems by (simp del: split_paired_Ex)
qed (simp del: split_paired_Ex)

lemma nat_pred: "nat (x - (a + 1)) = nat (x - a) - Suc 0"
  by linarith

text \<open>The cells that text fills.\<close>

definition text_cells :: "vc_data \<Rightarrow> int list \<Rightarrow> grid \<Rightarrow> grid" where
  "text_cells v buf s = (\<lambda>y x.
     if y = vc_y v \<and> vc_x v \<le> x \<and> x < vc_x v + int (length buf)
     then cell_for 0 v (buf ! nat (x - vc_x v)) else s y x)"

lemma put_text_screen:
  assumes "shows_text c" "vc_x (vc c) + int (length buf) < vc_cols (vc c)" "0 \<le> vc_x (vc c)"
    and "vc_pos (vc c) = vc_origin (vc c) + 2 * (vc_y (vc c) * vc_cols (vc c) + vc_x (vc c))"
    and "vc_size_row (vc c) = 2 * vc_cols (vc c)" and "0 \<le> x" "x < vc_cols (vc c)"
  shows "screen (put_text buf c) y x = text_cells (vc c) buf (screen c) y x \<and>
    vc (put_text buf c) = (vc c)\<lparr>vc_x := vc_x (vc c) + int (length buf),
      vc_pos := vc_pos (vc c) + 2 * int (length buf)\<rparr>"
  using assms
proof (induction buf arbitrary: c)
  case (Cons ch buf)
  define w where "w = cell_for 0 (vc c) ch"
  define c1 where "c1 = upd_vc advance (upd_mem (scr_writew w (vc_pos (vc c))) c)"
  have st: "shows_text c1" "vc c1 = (vc c)\<lparr>vc_x := vc_x (vc c) + 1, vc_pos := vc_pos (vc c) + 2\<rparr>"
    "mem c1 = (mem c)(vc_pos (vc c) := w)"
    using put_text_step [OF Cons.prems(1) _ c1_def] Cons.prems(2) by simp_all
  have ih: "screen (put_text buf c1) y x = text_cells (vc c1) buf (screen c1) y x"
    "vc (put_text buf c1) = (vc c1)\<lparr>vc_x := vc_x (vc c1) + int (length buf),
      vc_pos := vc_pos (vc c1) + 2 * int (length buf)\<rparr>"
    using Cons.IH [of c1] Cons.prems st by simp_all
  have "vc_origin (vc c) + y * vc_size_row (vc c) + 2 * x = vc_pos (vc c)
      \<longleftrightarrow> y * vc_cols (vc c) + x = vc_y (vc c) * vc_cols (vc c) + vc_x (vc c)"
    unfolding Cons.prems(4,5) by auto
  also have "\<dots> \<longleftrightarrow> vc_y (vc c) * vc_cols (vc c) + vc_x (vc c) \<le> y * vc_cols (vc c) + x \<and>
      y * vc_cols (vc c) + x < vc_y (vc c) * vc_cols (vc c) + vc_x (vc c) + 1"
    by linarith
  also have "\<dots> \<longleftrightarrow> y = vc_y (vc c) \<and> vc_x (vc c) \<le> x \<and> x < vc_x (vc c) + 1"
    using Cons.prems(2,3,6,7) by (intro run_in_row) auto
  also have "\<dots> \<longleftrightarrow> y = vc_y (vc c) \<and> x = vc_x (vc c)"
    by linarith
  finally have one: "screen c1 y x = (if y = vc_y (vc c) \<and> x = vc_x (vc c) then w else screen c y x)"
    by (simp add: screen_def st(2,3))
  have "cell_for 0 (vc c1) = cell_for 0 (vc c)"
    by (simp add: st fun_eq_iff cell_for_def)
  then have "text_cells (vc c1) buf (screen c1) y x = text_cells (vc c) (ch # buf) (screen c) y x"
    using one st(2) by (auto simp: text_cells_def w_def nth_Cons' nat_pred)
  then show ?case
    using ih st by (simp add: c1_def [symmetric] w_def [symmetric])
qed (auto simp: text_cells_def)

text \<open>Taking the cursor off the screen of a VGA leaves the cells alone.\<close>

lemma vga_hide_cursor:
  assumes "sel_cons c \<noteq> Some (vc_num (vc c))" "cursor_original (vt c) = None"
  shows "\<exists>c1 vo. hide_cursor vga_con c = Inr c1 \<and> vc c1 = (vc c)\<lparr>vc_visible_origin := vo\<rparr> \<and>
    mem c1 = mem c \<and> cm c1 = cm c"
proof -
  let ?c1 = "vgacon_cursor CM_ERASE c"
  have vis: "\<exists>vo. vc ?c1 = (vc c)\<lparr>vc_visible_origin := vo\<rparr>"
    by (cases "vc_origin (vc c) = vc_visible_origin (vc c)")
      (auto simp: vgacon_cursor_def Let_def vgacon_scroll_def vga_set_mem_top_def upd_vc_def
        intro: exI [of _ "vc_visible_origin (vc c)"])
  have "mem ?c1 = mem c" "cm ?c1 = cm c" "vts ?c1 = vts c"
    by (simp_all add: vgacon_cursor_def Let_def vgacon_scroll_def vga_set_mem_top_def upd_vc_def upd_drv_def)
  moreover have "hide_cursor vga_con c = Inr ?c1"
    using assms vis \<open>vts ?c1 = vts c\<close>
    by (auto simp: hide_cursor_def hide_softcursor_def vt_def vga_con_def)
  ultimately show ?thesis using vis by blast
qed



section \<open>Kernel messages\<close>

text \<open>
  While \<open>vt_console_print\<close> runs, the cursor column is behind the cursor address by the cells
  not yet drawn. \<open>synced\<close> is the state with the column brought up; the loop invariant is that
  this state is well-formed.
\<close>

definition synced :: "kmsg_state \<times> 'd con \<Rightarrow> 'd con" where
  "synced s = upd_vc (\<lambda>v. v\<lparr>vc_x := pr_myx (fst s)\<rparr>) (snd s)"

definition print_inv :: "'d contract \<Rightarrow> 'd con \<Rightarrow> kmsg_state \<times> 'd con \<Rightarrow> bool" where
  "print_inv K c0 s \<longleftrightarrow>
     keeps K c0 (synced s) \<and> 0 \<le> pr_cnt (fst s) \<and>
     pr_myx (fst s) = vc_x (vc (snd s)) + pr_cnt (fst s)
       - (if vc_need_wrap (vc (snd s)) \<and> pr_cnt (fst s) > 0 then 1 else 0) \<and>
     0 \<le> vc_x (vc (snd s)) \<and>
     (vc_need_wrap (vc (snd s)) \<and> pr_cnt (fst s) > 0 \<longrightarrow> pr_myx (fst s) = vc_cols (vc (snd s)) - 1)"

lemma synced_own: "pr_myx p = vc_x (vc c) \<Longrightarrow> synced (p, c) = c"
  by (simp add: synced_def upd_vc_def)

text \<open>The part that ends a run.\<close>

lemma print_break_continue:
  "\<not> (ch = 10 \<or> ch = 13 \<or> ch = 8 \<or> vc_need_wrap (vc (snd s))) \<Longrightarrow> print_break sw ch s = (False, s)"
  by (cases s) (simp add: print_break_def)

lemma print_break_run:
  assumes inv: "print_inv K c0 s" and brk: "ch = 10 \<or> ch = 13 \<or> ch = 8 \<or> vc_need_wrap (vc (snd s))"
    and sw: "\<And>p n y x c. con_putcs sw p n y x c = c"
  shows "\<exists>p c2. print_break sw ch s = (ch = 8 \<or> ch = 10 \<or> ch = 13, p, c2) \<and>
    pr_cnt p = 0 \<and> pr_myx p = vc_x (vc c2) \<and>
    c2 = (if ch = 8 then upd_vc vte_bs (synced s)
          else upd_vc vte_cr (if ch \<noteq> 13 then vte_lf sw (synced s) else synced s))"
proof (cases s)
  case (Pair p c)
  let ?r = "if pr_cnt p > 0
      then (p\<lparr>pr_cnt := 0\<rparr>, upd_vc (\<lambda>v. v\<lparr>vc_x := vc_x v + pr_cnt p - (if vc_need_wrap v then 1 else 0)\<rparr>)
              (draw_pending sw p c))
      else (p, c)"
  have "snd ?r = synced s"
    using inv sw by (auto simp: print_inv_def Pair draw_pending_def synced_def upd_vc_def)
  moreover have "pr_cnt (fst ?r) = 0"
    using inv by (auto simp: print_inv_def Pair)
  ultimately show ?thesis
    using brk by (cases ?r) (simp add: print_break_def Pair Let_def del: split_paired_Ex, blast)
qed

lemma print_break_inv:
  assumes inv: "print_inv (vga_contract ty b e bufs) c0 s" and wf: "wf_con (vga_contract ty b e bufs) c0"
    and r: "print_break vga_con ch s = (brk, s')"
  shows "print_inv (vga_contract ty b e bufs) c0 s'" "\<not> brk \<Longrightarrow> \<not> vc_need_wrap (vc (snd s'))"
proof -
  let ?K = "vga_contract ty b e bufs"
  have sw: "con_putcs vga_con p n y x c = c" for p n y x c
    by (simp add: vga_con_def)
  show "print_inv ?K c0 s'" "\<not> brk \<Longrightarrow> \<not> vc_need_wrap (vc (snd s'))"
  proof (atomize (full), cases "ch = 10 \<or> ch = 13 \<or> ch = 8 \<or> vc_need_wrap (vc (snd s))")
    case True
    obtain p c2 where q: "brk = (ch = 8 \<or> ch = 10 \<or> ch = 13)" "s' = (p, c2)" "pr_cnt p = 0" "pr_myx p = vc_x (vc c2)"
      and c2: "c2 = (if ch = 8 then upd_vc vte_bs (synced s)
          else upd_vc vte_cr (if ch \<noteq> 13 then vte_lf vga_con (synced s) else synced s))"
      using print_break_run [where sw = vga_con, OF inv True sw] unfolding r prod.inject by blast
    have k: "keeps ?K c0 (synced s)"
      using inv by (simp add: print_inv_def)
    have "keeps ?K c0 c2"
      unfolding c2 using keeps_step [OF k keeps_vc_step [OF vte_bs_step]]
        keeps_step [OF keeps_step [OF k vga.vte_lf_ok] keeps_vc_step [OF vte_cr_step]]
        keeps_step [OF k keeps_vc_step [OF vte_cr_step]]
      by simp
    moreover have "0 \<le> vc_x (vc c2)"
      using wf_geomD(10) [OF wf_con_geom [OF keeps_wf [OF calculation]]] .
    moreover have "\<not> brk \<Longrightarrow> \<not> vc_need_wrap (vc c2)"
      using q(1) by (auto simp: c2 vte_cr_def)
    ultimately show "print_inv ?K c0 s' \<and> (\<not> brk \<longrightarrow> \<not> vc_need_wrap (vc (snd s')))"
      using q by (simp add: print_inv_def synced_own)
  qed (use r inv print_break_continue [of ch s vga_con] in auto)
qed

lemma print_char_inv:
  assumes inv: "print_inv (vga_contract ty b e bufs) c0 s" and wf: "wf_con (vga_contract ty b e bufs) c0"
  shows "print_inv (vga_contract ty b e bufs) c0 (print_char vga_con ch s)"
proof -
  let ?K = "vga_contract ty b e bufs"
  obtain brk p c where r: "print_break vga_con ch s = (brk, p, c)"
    by (metis prod.collapse)
  note st = print_break_inv [OF inv wf r]
  show ?thesis
  proof (cases brk)
    case False
    let ?w = "push_bit 8 (ucast (vc_attr (vc c))) + word_of_int ch"
    let ?c = "upd_mem (scr_writew ?w (vc_pos (vc c))) (synced (p, c))"
    have k: "keeps ?K c0 (synced (p, c))" and rel: "pr_myx p = vc_x (vc c) + pr_cnt p" "0 \<le> pr_cnt p" "0 \<le> vc_x (vc c)"
      using st False by (auto simp: print_inv_def)
    note g = wf_geomD [OF wf_con_geom [OF keeps_wf [OF k]]]
    have b: "pr_myx p < vc_cols (vc c)" "vc_cols (vc c) \<le> 256"
      using g(11,2) by (simp_all add: synced_def)
    have "vc_pos (vc c) \<in> scr_region ?K"
      using pos_in_buffer(3) [OF wf_con_vc [OF keeps_wf [OF k]]] by (simp add: synced_def)
    then have k1: "keeps ?K c0 ?c"
      by (intro keeps_step [OF k keeps_upd_mem]) (simp_all add: same_off_writew)
    have pc: "print_char vga_con ch s = (if pr_myx p = vc_cols (vc c) - 1
        then (p\<lparr>pr_cnt := pr_cnt p + 1\<rparr>,
          upd_vc (\<lambda>v. v\<lparr>vc_need_wrap := True\<rparr>) (upd_mem (scr_writew ?w (vc_pos (vc c))) c))
        else (p\<lparr>pr_cnt := pr_cnt p + 1, pr_myx := pr_myx p + 1\<rparr>,
          upd_vc (\<lambda>v. v\<lparr>vc_pos := vc_pos v + 2\<rparr>) (upd_mem (scr_writew ?w (vc_pos (vc c))) c)))"
      using False b rel by (simp add: print_char_def r Let_def)
    show ?thesis
    proof (cases "pr_myx p = vc_cols (vc c) - 1")
      case True
      have "synced (print_char vga_con ch s) = upd_vc (\<lambda>v. v\<lparr>vc_need_wrap := True\<rparr>) ?c"
        using True by (simp add: pc synced_def upd_vc_def upd_mem_def)
      then have "keeps ?K c0 (synced (print_char vga_con ch s))"
        using keeps_step [OF k1 vga.need_wrap_ok] by simp
      then show ?thesis using True rel by (simp add: print_inv_def pc)
    next
      case nl: False
      have "synced (print_char vga_con ch s) = upd_vc advance ?c"
        using nl by (simp add: pc synced_def upd_vc_def upd_mem_def advance_def)
      then have "keeps ?K c0 (synced (print_char vga_con ch s))"
        using keeps_step [OF k1 keeps_vc_step [OF advance_step]] by simp
      then show ?thesis
        using nl rel st(2) False by (simp add: print_inv_def pc)
    qed
  qed (use st r in \<open>simp add: print_char_def\<close>)
qed

lemma print_end_keeps:
  assumes "print_inv (vga_contract ty b e bufs) c0 s"
  shows "keeps (vga_contract ty b e bufs) c0 (print_end vga_con s)"
proof (cases s)
  case (Pair p c)
  have k: "keeps (vga_contract ty b e bufs) c0 (synced s)"
    using assms by (simp add: print_inv_def)
  have "vc_x (vc (synced s)) < vc_cols (vc (synced s))"
    using wf_geomD(11) [OF wf_con_geom [OF keeps_wf [OF k]]] .
  then have x: "pr_myx p < vc_cols (vc c)"
    by (simp add: Pair synced_def)
  have m: "0 \<le> pr_cnt p"
    "pr_myx p = vc_x (vc c) + pr_cnt p - (if vc_need_wrap (vc c) \<and> pr_cnt p > 0 then 1 else 0)"
    "vc_need_wrap (vc c) \<and> pr_cnt p > 0 \<Longrightarrow> pr_myx p = vc_cols (vc c) - 1"
    using assms by (simp_all add: Pair print_inv_def)
  have dp: "draw_pending vga_con p c = c"
    by (simp add: draw_pending_def vga_con_def)
  have "print_end vga_con s = synced s \<or>
      print_end vga_con s = upd_vc (\<lambda>v. v\<lparr>vc_need_wrap := True\<rparr>) (synced s)"
  proof (cases "pr_cnt p > 0")
    case True
    then have e: "print_end vga_con s = upd_vc (\<lambda>v. let x = vc_x v + pr_cnt p in
        if x = vc_cols v then v\<lparr>vc_x := x - 1, vc_need_wrap := True\<rparr> else v\<lparr>vc_x := x\<rparr>) c"
      by (simp add: Pair print_end_def dp)
    show ?thesis
    proof (cases "vc_need_wrap (vc c)")
      case wrap: True
      then have "vc_x (vc c) + pr_cnt p = vc_cols (vc c)" "pr_myx p = vc_cols (vc c) - 1"
        using m(2,3) True by simp_all
      then show ?thesis
        unfolding e by (simp add: Pair synced_def upd_vc_def Let_def)
    next
      case False
      then have "vc_x (vc c) + pr_cnt p = pr_myx p"
        using m(2) by simp
      then show ?thesis
        unfolding e using x by (simp add: Pair synced_def upd_vc_def Let_def)
    qed
  next
    case False
    then have "pr_myx p = vc_x (vc c)"
      using m(1,2) by simp
    then show ?thesis
      using False by (simp add: Pair print_end_def synced_own)
  qed
  then show ?thesis
    using k keeps_step [OF k vga.need_wrap_ok] by auto
qed

text \<open>Taking the cursor and the selection highlight off leaves the cursor where it is.\<close>

lemma vga_flush_run: "flush_run vga_con q p yy startx c = c"
  by (simp add: flush_run_def vga_con_def)

lemma vga_upd_row: "snd (snd (upd_row vga_con n p q xx startx attrib yy c)) = c"
  by (induction n arbitrary: p q xx startx attrib) (simp_all add: vga_flush_run Let_def)

lemma vga_upd_rows: "upd_rows vga_con fuel n start p xx yy c = Inr c' \<Longrightarrow> c' = c"
proof (induction fuel arbitrary: n start p xx yy)
  case (Suc fuel)
  obtain l p' where "upd_row vga_con n p p xx xx (mem c p AND 0xff00) yy c = (l, p', c)"
    using vga_upd_row by (metis prod.collapse)
  then show ?case
    using Suc by (auto simp: vga_con_def split: if_splits)
qed simp

lemma vga_getxy: "con_getxy vga_con = None"
  by (simp add: vga_con_def)

lemma vga_update_region: "do_update_region vga_con start n c = Inr c' \<Longrightarrow> c' = c"
  unfolding do_update_region_def vga_getxy option.case Let_def
  by (cases "vc_cols (vc c) = 0") (simp_all del: upd_rows.simps add_2_eq_Suc', erule vga_upd_rows)

lemma vga_clear_selection:
  assumes "sel_cons c = Some (vc_num (vc c))" "clear_selection vga_con c = Inr c'"
  shows "vc c' = vc c"
proof -
  have u: "vc (uncomplement vga_con c) = vc c"
    by (simp add: uncomplement_def Let_def vga_con_def split: option.split)
  obtain c1 where h: "hide_pointer vga_con c = Inr c1"
    and r: "(if sel_start c1 \<noteq> -1
       then res_bind (highlight vga_con (sel_start c1) (sel_end c1) c1) (\<lambda>c2. Inr (c2\<lparr>sel_start := -1\<rparr>))
       else Inr c1) = Inr c'"
    using assms(2) by (auto simp: clear_selection_def res_bind_Inr)
  have c1: "vc c1 = vc c" "sel_cons c1 = Some (vc_num (vc c1))"
    using h assms(1) u by (auto simp: hide_pointer_def in_console_def complement_pos_def Let_def
        uncomplement_def upd_mem_def vga_con_def split: if_splits option.splits)
  have "vc c2 = vc c1" if "highlight vga_con i j c1 = Inr c2" for i j c2
    using that c1(2) vga_update_region
    by (fastforce simp: highlight_def in_console_def invert_screen_def Let_def vga_con_def
        vgacon_invert_region_def split: if_splits)
  then show ?thesis
    using r c1(1) by (auto simp: res_bind_Inr split: if_splits)
qed

lemma vga_hide_cursor_x:
  assumes "hide_cursor vga_con c = Inr c'"
  shows "vc_x (vc c') = vc_x (vc c)"
proof -
  let ?r = "if sel_cons c = Some (vc_num (vc c)) then clear_selection vga_con c else Inr c"
  obtain c1 where r: "?r = Inr c1" and c': "c' = hide_softcursor vga_con (vgacon_cursor CM_ERASE c1)"
    using assms unfolding hide_cursor_def res_bind_Inr by (auto simp: vga_con_def)
  have "vc c1 = vc c"
    using r vga_clear_selection [of c c1] by (simp split: if_splits)
  then show ?thesis unfolding c'
    by (simp add: hide_softcursor_def Let_def vga_con_def vgacon_cursor_def vgacon_scroll_def vga_set_mem_top_def
        upd_vc_def upd_vt_def split: option.split)
qed

lemma kernel_message_keeps:
  assumes "wf_con (vga_contract ty b e bufs) c"
  shows "res_ok (keeps (vga_contract ty b e bufs) c) (vt_console_print vga_con printable oops msg c)"
proof -
  let ?K = "vga_contract ty b e bufs"
  have fold: "print_inv ?K c0 s \<Longrightarrow> wf_con ?K c0 \<Longrightarrow> print_inv ?K c0 (fold (print_char vga_con) msg s)" for c0 s
    by (induction msg arbitrary: s) (simp_all add: print_char_inv)
  show ?thesis
  proof (cases "\<not> printable \<or> vc_mode (vc c) \<noteq> KD_TEXT")
    case False
    have h: "res_ok (\<lambda>c1. keeps ?K c c1 \<and> vc_x (vc c1) = vc_x (vc c))
        (if is_visible c then hide_cursor vga_con c else Inr c)"
      using vga.hide_cursor_ok [OF assms] assms vga_hide_cursor_x by (auto simp: res_ok_ex)
    show ?thesis
      unfolding vt_console_print_def if_not_P [OF False] Let_def
    proof (rule res_ok_bind [OF h], elim conjE)
      fix c1 assume k: "keeps ?K c c1" and x: "vc_x (vc c1) = vc_x (vc c)"
      let ?s = "(\<lparr>pr_start = vc_pos (vc c1), pr_myx = vc_x (vc c), pr_cnt = 0\<rparr>, c1)"
      have "print_inv ?K c1 ?s"
        using keeps_wf [OF k] x wf_geomD(10) [OF wf_con_geom [OF keeps_wf [OF k]]]
        by (simp add: print_inv_def synced_own)
      then have "keeps ?K c (print_end vga_con (fold (print_char vga_con) msg ?s))"
        using keeps_trans [OF k print_end_keeps [OF fold]] keeps_wf [OF k] by blast
      then show "res_ok (keeps ?K c) (res_bind (set_cursor vga_con (print_end vga_con
          (fold (print_char vga_con) msg ?s))) (\<lambda>c2. if oops then Inr c2
            else poke_blanked_console vga_con (display_fg (vc c2)) c2))"
        by (intro keeps_bind [OF keeps_then [OF _ vga.set_cursor_ok]])
          (auto intro: vga.poke_blanked_console_ok)
    qed
  qed (use assms in \<open>simp add: vt_console_print_def\<close>)
qed

text \<open>
  C6. Kernel messages are safe to print at any time. From any state that satisfies the
  invariant, \<open>vt_console_print\<close> returns for every message, however long and whatever characters
  it has, with the invariant restored (cursor column and cursor address agree again) and only screen memory
  written.
\<close>

theorem kernel_message_safe:
  assumes "wf_con (vga_contract ty b e bufs) c"
  shows "\<exists>c'. vt_console_print vga_con printable oops msg c = Inr c' \<and>
    wf_con (vga_contract ty b e bufs) c' \<and> same_off ({b ..< e} \<union> bufs) (mem c) (mem c')"
  using kernel_message_keeps [OF assms] keeps_confined by (fastforce simp: res_ok_ex)

theorem kernel_message_safe_witness:
  "\<exists>c'. vt_console_print vga_con True False [0x6f, 0x6b, 0x0a] con0 = Inr c' \<and> wf_con vga0_contract c'"
  using kernel_message_safe [OF wf_con0, of True False "[0x6f, 0x6b, 0x0a]"] by blast

end
