(* ===== verification/Decvte_Props.thy ===== *)
theory Decvte_Props
  imports Vga_Screen
begin

text \<open>
  Functional behaviour of the terminal functions that keep no cells: saving and restoring the
  cursor, tab stops, margins, graphic rendition, and the reset to the initial state.
\<close>

section \<open>Saving and restoring the cursor\<close>

text \<open>What \<open>DECSC\<close> saves.\<close>

definition saved :: "vc_data \<Rightarrow> (int \<times> int) \<times> (int \<times> bool \<times> bool \<times> bool) \<times> bool \<times> u8 \<times> nat \<times> nat \<times> nat \<times> nat" where
  "saved v =
     ((vc_saved_x v, vc_saved_y v), (vc_s_intensity v, vc_s_underline v, vc_s_blink v, vc_s_reverse v),
      vc_s_charset v, vc_s_color v, vc_saved_G0 v, vc_saved_G1 v, vc_saved_G2 v, vc_saved_G3 v)"

text \<open>The current values of the same things.\<close>

definition current :: "vc_data \<Rightarrow> (int \<times> int) \<times> (int \<times> bool \<times> bool \<times> bool) \<times> bool \<times> u8 \<times> nat \<times> nat \<times> nat \<times> nat" where
  "current v =
     ((vc_x v, vc_y v), (vc_intensity v, vc_underline v, vc_blink v, vc_reverse v),
      vc_charset v, vc_color v, vc_G0_charset v, vc_G1_charset v, vc_G2_charset v, vc_G3_charset v)"



section \<open>Tab stops\<close>

definition is_tab :: "32 word list \<Rightarrow> int \<Rightarrow> bool" where
  "is_tab ts x = bit (ts ! nat (x div 32)) (nat (x mod 32))"

lemma tab_at_is_tab: "length ts = 8 \<Longrightarrow> 0 \<le> x \<Longrightarrow> x < 256 \<Longrightarrow> tab_at ts x = Inr (is_tab ts x)"
proof -
  assume a: "length ts = 8" "0 \<le> x" "x < 256"
  then have "0 \<le> x div 32" "x div 32 < 8" by auto
  with a show ?thesis by (simp add: tab_at_def arr_get_def is_tab_def)
qed

lemma tab_forward_spec:
  "length ts = 8 \<Longrightarrow> 0 \<le> x \<Longrightarrow> x + int n < 256 \<Longrightarrow>
   \<exists>x'. tab_forward ts n x = Inr x' \<and> x \<le> x' \<and> x' \<le> x + int n \<and> (0 < n \<longrightarrow> x < x') \<and>
     (x' = x + int n \<or> is_tab ts x') \<and> (\<forall>k. x < k \<and> k < x' \<longrightarrow> \<not> is_tab ts k)"
proof (induction n arbitrary: x)
  case (Suc n)
  show ?case
  proof (cases "is_tab ts (x + 1)")
    case False
    obtain x' where "tab_forward ts n (x + 1) = Inr x'" "x + 1 \<le> x'" "x' \<le> x + 1 + int n"
      "x' = x + 1 + int n \<or> is_tab ts x'" "\<forall>k. x + 1 < k \<and> k < x' \<longrightarrow> \<not> is_tab ts k"
      using Suc.IH [of "x + 1"] Suc.prems by auto
    moreover have "\<not> is_tab ts k" if "x < k" "k < x'" for k
      using that calculation(5) False by (cases "k = x + 1") auto
    ultimately show ?thesis
      using False Suc.prems by (auto simp: tab_at_is_tab)
  qed (use Suc.prems in \<open>auto simp: tab_at_is_tab\<close>)
qed auto

lemma tab_back_spec:
  "length ts = 8 \<Longrightarrow> int n \<le> 256 \<Longrightarrow>
   \<exists>x'. tab_back ts n = Inr x' \<and> 0 \<le> x' \<and> (0 < n \<longrightarrow> x' < int n) \<and>
     (x' = 0 \<or> is_tab ts x') \<and> (\<forall>k. x' < k \<and> k < int n \<longrightarrow> \<not> is_tab ts k)"
proof (induction n)
  case (Suc n)
  show ?case
  proof (cases "is_tab ts (int n)")
    case False
    obtain x' where "tab_back ts n = Inr x'" "0 \<le> x'" "0 < n \<longrightarrow> x' < int n" "x' = 0 \<or> is_tab ts x'"
      "\<forall>k. x' < k \<and> k < int n \<longrightarrow> \<not> is_tab ts k"
      using Suc by auto
    moreover have "\<not> is_tab ts k" if "x' < k" "k < int (Suc n)" for k
      using that calculation(5) False by (cases "k = int n") auto
    ultimately show ?thesis
      using False Suc.prems by (auto simp: tab_at_is_tab)
  qed (use Suc.prems in \<open>auto simp: tab_at_is_tab\<close>)
qed auto



lemma set_tab_is_tab:
  assumes "wf_vc R v" "0 \<le> k" "k < 256"
    and f: "\<And>w i. i < 32 \<Longrightarrow> bit (f w) i = (if i = nat (vc_x v mod 32) then b else bit w i)"
  shows "\<exists>v'. set_tab f v = Inr v' \<and> v' = v\<lparr>vc_tab_stop := vc_tab_stop v'\<rparr> \<and>
    is_tab (vc_tab_stop v') k = (if k = vc_x v then b else is_tab (vc_tab_stop v) k)"
proof -
  note g = wf_geomD [OF wf_vcD(1) [OF assms(1)]]
  have l: "length (vc_tab_stop v) = 8"
    using wf_vc_tabs [OF assms(1)] .
  have x: "0 \<le> vc_x v div 32" "vc_x v div 32 < 8" "0 \<le> k div 32" "k div 32 < 8"
    using g assms(2,3) by auto
  have eq: "k = vc_x v \<longleftrightarrow> k div 32 = vc_x v div 32 \<and> k mod 32 = vc_x v mod 32"
    by (metis div_mult_mod_eq)
  let ?ts = "(vc_tab_stop v)[nat (vc_x v div 32) := f (vc_tab_stop v ! nat (vc_x v div 32))]"
  have "set_tab f v = Inr (v\<lparr>vc_tab_stop := ?ts\<rparr>)"
    using x l by (simp add: set_tab_def arr_get_def arr_set_def)
  moreover have "is_tab ?ts k = (if k = vc_x v then b else is_tab (vc_tab_stop v) k)"
  proof (cases "k div 32 = vc_x v div 32")
    case True
    have "nat (k mod 32) = nat (vc_x v mod 32) \<longleftrightarrow> k mod 32 = vc_x v mod 32" "nat (k mod 32) < 32"
      by (simp_all add: eq_nat_nat_iff)
    moreover have "nat (vc_x v div 32) < length (vc_tab_stop v)"
      using x(1,2) l by simp
    ultimately show ?thesis
      using f [of "nat (k mod 32)" "vc_tab_stop v ! nat (vc_x v div 32)"]
      unfolding eq is_tab_def True by (simp only: nth_list_update_eq simp_thms)
  next
    case False
    then have "nat (k div 32) \<noteq> nat (vc_x v div 32)"
      using x by (simp add: eq_nat_nat_iff)
    then show ?thesis unfolding eq is_tab_def using False by simp
  qed
  ultimately show ?thesis by simp
qed

text \<open>
  C14. \<open>HTS\<close> sets a tab stop at the cursor and \<open>TBC 0\<close> clears it; no other tab stop and
  nothing else of the console changes.
\<close>

theorem set_clear_tab:
  assumes "wf_vc R v" "0 \<le> k" "k < 256"
  shows "\<exists>v1 v2. vte_hts v = Inr v1 \<and> vte_tbc 0 v = Inr v2 \<and>
    v1 = v\<lparr>vc_tab_stop := vc_tab_stop v1\<rparr> \<and> v2 = v\<lparr>vc_tab_stop := vc_tab_stop v2\<rparr> \<and>
    is_tab (vc_tab_stop v1) k = (k = vc_x v \<or> is_tab (vc_tab_stop v) k) \<and>
    is_tab (vc_tab_stop v2) k = (k \<noteq> vc_x v \<and> is_tab (vc_tab_stop v) k)"
proof -
  let ?b = "push_bit (nat (vc_x v mod 32)) 1 :: 32 word"
  have "bit (w OR ?b) i = (if i = nat (vc_x v mod 32) then True else bit w i)"
    "bit (w AND NOT ?b) i = (if i = nat (vc_x v mod 32) then False else bit w i)" if "i < 32" for w i
    using that by (auto simp: bit_simps)
  then obtain v1 v2 where "vte_hts v = Inr v1" "vte_tbc 0 v = Inr v2"
    "v1 = v\<lparr>vc_tab_stop := vc_tab_stop v1\<rparr>" "v2 = v\<lparr>vc_tab_stop := vc_tab_stop v2\<rparr>"
    "is_tab (vc_tab_stop v1) k = (if k = vc_x v then True else is_tab (vc_tab_stop v) k)"
    "is_tab (vc_tab_stop v2) k = (if k = vc_x v then False else is_tab (vc_tab_stop v) k)"
    using set_tab_is_tab [OF assms, of "\<lambda>w. w OR ?b" True] set_tab_is_tab [OF assms, of "\<lambda>w. w AND NOT ?b" False]
    unfolding vte_hts_def vte_tbc_def by auto
  then show ?thesis
    by (intro exI [of _ v1] exI [of _ v2]) (simp split: if_splits)
qed

theorem set_clear_tab_witness:
  "\<exists>v1 v2. vte_hts vc0 = Inr v1 \<and> vte_tbc 0 vc0 = Inr v2 \<and> is_tab (vc_tab_stop v1) 0 \<and> \<not> is_tab (vc_tab_stop v2) 0"
  using set_clear_tab [OF wf_vc0, of 0] by (auto simp: vc0_def)

section \<open>Margins\<close>

text \<open>
  C15. \<open>DECSTBM\<close> sets the scrolling region only to a proper part of the screen of at least two
  rows, a missing bottom meaning the last row; the cursor goes to the home position. Any
  other request leaves margins and cursor alone.
\<close>

theorem set_margins:
  assumes "wf_vc R v" "t = max 1 (vc_par v ! 0)" "bt = (if vc_par v ! 1 = 0 then vc_rows v else vc_par v ! 1)"
  shows "if t < bt \<and> bt \<le> vc_rows v
    then vc_top (csi_margins v) = t - 1 \<and> vc_bottom (csi_margins v) = bt \<and> vc_x (csi_margins v) = 0 \<and>
      vc_y (csi_margins v) = (if vc_decom v then t - 1 else 0)
    else vc_top (csi_margins v) = vc_top v \<and> vc_bottom (csi_margins v) = vc_bottom v \<and>
      vc_x (csi_margins v) = vc_x v \<and> vc_y (csi_margins v) = vc_y v"
proof -
  note g = wf_geomD [OF wf_vcD(1) [OF assms(1)]]
  have l: "length (vc_par v) = 16" and p: "\<forall>p \<in> set (vc_par v). 0 \<le> p"
    using wf_vcD(2) [OF assms(1)] by (auto simp: wf_parser_def)
  have "0 \<le> vc_par v ! 0" "0 \<le> vc_par v ! 1"
    using p l by simp_all
  then show ?thesis
    using g l by (auto simp: csi_margins_def par0_default1_def assms(2,3) gotoxay_def gotoxy_def Let_def max_def)
qed

theorem set_margins_witness:
  "vc_top (csi_margins (vc0\<lparr>vc_par := (replicate 16 0)[0 := 3, 1 := 20]\<rparr>)) = 2 \<and>
   vc_bottom (csi_margins (vc0\<lparr>vc_par := (replicate 16 0)[0 := 3, 1 := 20]\<rparr>)) = 20"
proof -
  have "wf_vc ({0xb8000 ..< 0xc0000} \<union> {0x100000 ..< 0x100000 + 4000})
      (vc0\<lparr>vc_par := (replicate 16 0)[0 := 3, 1 := 20]\<rparr>)"
    by (auto simp: wf_vc_defs vc0_def upt_rec eval_nat_numeral)
  from set_margins [OF this refl refl] show ?thesis
    by (simp add: vc0_def)
qed

section \<open>Graphic rendition\<close>

lemma nibbles:
  fixes c k :: u8
  shows "(c AND 0xf0) AND 0x0f = 0" "(c AND 0x0f) AND 0xf0 = 0"
    "(c AND 0xf0) AND 0xf0 = c AND 0xf0" "(c AND 0x0f) AND 0x0f = c AND 0x0f"
  by (simp_all add: and.assoc)

lemma color_table_nibble:
  assumes "0 \<le> i" "i \<le> 7"
  shows "color_table ! nat i AND 0x0f = color_table ! nat i" "color_table ! nat i AND 0xf0 = 0"
    "push_bit 4 (color_table ! nat i) AND 0xf0 = push_bit 4 (color_table ! nat i)"
    "push_bit 4 (color_table ! nat i) AND 0x0f = 0"
proof -
  consider "i = 0" | "i = 1" | "i = 2" | "i = 3" | "i = 4" | "i = 5" | "i = 6" | "i = 7"
    using assms by linarith
  then show "color_table ! nat i AND 0x0f = color_table ! nat i" "color_table ! nat i AND 0xf0 = 0"
    "push_bit 4 (color_table ! nat i) AND 0xf0 = push_bit 4 (color_table ! nat i)"
    "push_bit 4 (color_table ! nat i) AND 0x0f = 0"
    by (cases; simp add: color_table_def)+
qed



section \<open>Reset\<close>

lemma ris_fields:
  assumes "0 < vc_cols (vc c)" "0 < vc_rows (vc c)" "c1 = vte_ris sw False c"
  shows "vc_rows (vc c1) = vc_rows (vc c)" "vc_cols (vc c1) = vc_cols (vc c)"
    "vc_state (vc c1) = ESinit" "vc_top (vc c1) = 0" "vc_bottom (vc c1) = vc_rows (vc c)"
    "vc_x (vc c1) = 0" "vc_y (vc c1) = 0" "vc_saved_x (vc c1) = 0" "vc_saved_y (vc c1) = 0"
    "\<not> vc_decom (vc c1)" "\<not> vc_irm (vc c1)" "\<not> vc_decscnm (vc c1)" "vc_decawm (vc c1)"
    "vc_dectcem (vc c1)" "vc_translate (vc c1) = LAT1_MAP"
proof -
  define w where "w = (update_attr sw (default_attr (ris_vc ((vc c)\<lparr>vc_translate := LAT1_MAP\<rparr>))))
    \<lparr>vc_tab_stop := ris_tabs (vc_tab_stop (vc c)), vc_bell_pitch := 750, vc_bell_duration := HZ c div 8\<rparr>"
  have u: "vc_rows (update_attr sw v) = vc_rows v" "vc_cols (update_attr sw v) = vc_cols v"
    "vc_state (update_attr sw v) = vc_state v" "vc_top (update_attr sw v) = vc_top v"
    "vc_bottom (update_attr sw v) = vc_bottom v" "vc_decom (update_attr sw v) = vc_decom v"
    "vc_irm (update_attr sw v) = vc_irm v" "vc_decscnm (update_attr sw v) = vc_decscnm v"
    "vc_decawm (update_attr sw v) = vc_decawm v" "vc_dectcem (update_attr sw v) = vc_dectcem v"
    "vc_translate (update_attr sw v) = vc_translate v" "vc_tab_stop (update_attr sw v) = vc_tab_stop v" for v
    by (simp_all add: update_attr_def)
  have w: "vc_rows w = vc_rows (vc c)" "vc_cols w = vc_cols (vc c)" "vc_state w = ESinit" "vc_top w = 0"
    "vc_bottom w = vc_rows (vc c)" "\<not> vc_decom w" "\<not> vc_irm w" "\<not> vc_decscnm w" "vc_decawm w"
    "vc_dectcem w" "vc_translate w = LAT1_MAP"
    unfolding w_def by (simp_all add: u default_attr_def) (simp_all add: ris_vc_def)
  have "vc c1 = vte_decsc (gotoxy 0 0 w)"
    by (simp add: assms(3) vte_ris_def Let_def set_translate_def w_def u default_attr_def) (simp add: ris_vc_def)
  moreover have "gotoxy 0 0 w = w\<lparr>vc_x := 0, vc_y := 0, vc_pos := vc_origin w, vc_need_wrap := False\<rparr>"
    using w(1,2,6) assms(1,2) by (simp add: gotoxy_def Let_def)
  ultimately have "vc c1 = vte_decsc (w\<lparr>vc_x := 0, vc_y := 0, vc_pos := vc_origin w, vc_need_wrap := False\<rparr>)"
    by simp
  then show "vc_rows (vc c1) = vc_rows (vc c)" "vc_cols (vc c1) = vc_cols (vc c)"
    "vc_state (vc c1) = ESinit" "vc_top (vc c1) = 0" "vc_bottom (vc c1) = vc_rows (vc c)"
    "vc_x (vc c1) = 0" "vc_y (vc c1) = 0" "vc_saved_x (vc c1) = 0" "vc_saved_y (vc c1) = 0"
    "\<not> vc_decom (vc c1)" "\<not> vc_irm (vc c1)" "\<not> vc_decscnm (vc c1)" "vc_decawm (vc c1)"
    "vc_dectcem (vc c1)" "vc_translate (vc c1) = LAT1_MAP"
    by (simp_all add: vte_decsc_def w)
qed



end
