(* ===== verification/Keyboard.thy ===== *)
theory Keyboard
  imports Con_Write
begin

text \<open>
  The keyboard driver, drivers/char/keyboard.c: from key codes to characters in the input queue
  of the console in front, with the shift state, dead keys, raw modes, console
  switching keys and leds.

  The static variables of the file and the tables it shares with vt_ioctl.c are the
  record \<open>keyboard\<close>; \<open>'d kcon\<close> is the keyboard together with the console state. The console
  at hand is the \<open>vc\<close> argument of the C functions. Key types, key codes and table sizes have
  the values of linux/keyboard.h and linux/input.h; \<open>NR_KEYS\<close>, the length of a key map, is the
  length of the list. The configuration is the one of a PC with \<open>CONFIG_MAGIC_SYSRQ\<close>.
\<close>

section \<open>State\<close>

record ledptr =
  led_addr :: int
  led_mask :: "32 word"
  led_valid :: bool

text \<open>
  \<open>func_table\<close> points into the buffer of function key strings: an entry is an offset. Key
  maps hold key symbols in the form \<open>U\<close> gives them.
\<close>

record keyboard =
  shift_state :: "32 word"
  key_down :: "32 word list"
  shift_down :: "u8 list"
  dead_key_next :: bool
  npadch :: int
  diacr :: u8
  rep :: bool
  sysrq_alt :: bool
  sysrq_down :: bool
  ledptrs :: "ledptr list"
  key_maps :: "u16 list option list"
  keymap_count :: int
  accent_table :: "(u8 \<times> u8 \<times> u8) list"
  accent_table_size :: nat
  func_table :: "int option list"
  func_buf :: "int list"
  funcbufsize :: int
  funcbufleft :: int
  spawnpid :: int
  spawnsig :: int
  do_poke_blanked_console :: bool

record tty_flags =
  tty_stopped :: bool
  tty_flow_stopped :: bool
  L_ECHO :: bool

record 'd kcon =
  kb :: keyboard
  kc :: "'d con"
  ttys :: "int \<Rightarrow> tty_flags"

text \<open>What the kernel around the driver decides.\<close>

record kenv =
  in_interrupt :: bool
  kill_proc_fails :: "int \<Rightarrow> int \<Rightarrow> bool"
  kernel_word :: "int \<Rightarrow> 32 word" \<comment> \<open>memory the leds can show\<close>
  regs_saved :: bool

definition on_con :: "('d con \<Rightarrow> 'd con) \<Rightarrow> 'd kcon \<Rightarrow> 'd kcon" where
  "on_con f s = s\<lparr>kc := f (kc s)\<rparr>"

definition on_con_res :: "('d con \<Rightarrow> 'd con res) \<Rightarrow> 'd kcon \<Rightarrow> 'd kcon res" where
  "on_con_res f s = res_bind (f (kc s)) (\<lambda>c. Inr (s\<lparr>kc := c\<rparr>))"

definition upd_kb :: "(keyboard \<Rightarrow> keyboard) \<Rightarrow> 'd kcon \<Rightarrow> 'd kcon" where
  "upd_kb f s = s\<lparr>kb := f (kb s)\<rparr>"

definition upd_table :: "(kbd_struct \<Rightarrow> kbd_struct) \<Rightarrow> 'd kcon \<Rightarrow> 'd kcon" where
  "upd_table f = on_con (upd_vc (\<lambda>v. v\<lparr>kbd_table := f (kbd_table v)\<rparr>))"

abbreviation ktable :: "'d kcon \<Rightarrow> kbd_struct" where
  "ktable s \<equiv> kbd_table (vc (kc s))"

definition queue :: "int \<Rightarrow> 'd kcon \<Rightarrow> 'd kcon" where
  "queue ch = on_con (put_queue ch)"

section \<open>Key symbols\<close>

definition U :: "u16 \<Rightarrow> u16" where
  "U x = x XOR 0xf000"

definition KTYP :: "u16 \<Rightarrow> int" where
  "KTYP x = uint (drop_bit 8 x)"

definition KVAL :: "u16 \<Rightarrow> int" where
  "KVAL x = uint (x AND 0xff)"

abbreviation (input) "KT_LATIN \<equiv> (0::int)"
abbreviation (input) "KT_SPEC \<equiv> (2::int)"
abbreviation (input) "KT_SHIFT \<equiv> (7::int)"
abbreviation (input) "KT_LETTER \<equiv> (11::int)"
abbreviation (input) "KT_SLOCK \<equiv> (12::int)"
abbreviation (input) "KG_SHIFT \<equiv> (0::int)"
abbreviation (input) "KG_CAPSSHIFT \<equiv> (8::int)"

text \<open>
  The largest value each handler takes; \<open>NR_PAD\<close> is 20, \<open>NR_DEAD\<close> 6, \<open>NR_SHIFT\<close> 9,
  \<open>NR_ASCII\<close> 20 and \<open>NR_LOCK\<close> 8.
\<close>

definition max_vals :: "int list" where
  "max_vals = [255, 255, 19, 19, 5, 255, 3, 8, 255, 19, 7, 255, 7, 255]"

section \<open>Output of characters\<close>

definition applkey :: "int \<Rightarrow> bool \<Rightarrow> 'd con \<Rightarrow> 'd con" where
  "applkey key mode = puts_queue [0x1b, if mode then 0x4f else 0x5b, key]"

definition to_utf8 :: "int \<Rightarrow> 'd con \<Rightarrow> 'd con" where
  "to_utf8 ch c =
     (if ch < 0x80 then put_queue ch c
      else if ch < 0x800
      then put_queue (0x80 OR (ch AND 0x3f)) (put_queue (0xc0 OR drop_bit 6 ch) c)
      else put_queue (0x80 OR (ch AND 0x3f))
            (put_queue (0x80 OR (drop_bit 6 ch AND 0x3f)) (put_queue (0xe0 OR drop_bit 12 ch) c)))"

section \<open>Shift state\<close>

text \<open>One key that is down.\<close>

definition count_shift :: "nat \<Rightarrow> keyboard \<Rightarrow> keyboard res" where
  "count_shift k b =
     (case key_maps b ! 0 of
        None \<Rightarrow> Inl Null_deref
      | Some m \<Rightarrow>
          res_bind (arr_get m (int k)) (\<lambda>w.
            let sym = U w in
            if KTYP sym \<noteq> KT_SHIFT \<and> KTYP sym \<noteq> KT_SLOCK then Inr b
            else
              let val = (if KVAL sym = KG_CAPSSHIFT then KG_SHIFT else KVAL sym) in
              res_bind (arr_get (shift_down b) val) (\<lambda>n.
              res_bind (arr_set (shift_down b) val (n + 1)) (\<lambda>sd.
                Inr (b\<lparr>shift_down := sd, shift_state := shift_state b OR push_bit (nat val) 1\<rparr>)))))"

fun count_bits :: "32 word \<Rightarrow> nat \<Rightarrow> nat list \<Rightarrow> keyboard \<Rightarrow> keyboard res" where
  "count_bits w k [] b = Inr b"
| "count_bits w k (j # js) b =
     res_bind (if bit w j then count_shift (k + j) b else Inr b) (count_bits w k js)"

fun count_words :: "32 word list \<Rightarrow> nat \<Rightarrow> keyboard \<Rightarrow> keyboard res" where
  "count_words [] k b = Inr b"
| "count_words (w # ws) k b =
     res_bind (if w = 0 then Inr b else count_bits w k [0..<32] b) (count_words ws (k + 32))"

definition compute_shiftstate :: "keyboard \<Rightarrow> keyboard res" where
  "compute_shiftstate b =
     count_words (key_down b) 0 (b\<lparr>shift_state := 0, shift_down := replicate 9 0\<rparr>)"

definition shiftstate_k :: "'d kcon \<Rightarrow> 'd kcon res" where
  "shiftstate_k s = res_bind (compute_shiftstate (kb s)) (\<lambda>b. Inr (s\<lparr>kb := b\<rparr>))"

section \<open>Dead keys\<close>

text \<open>The first entry of the accent table for the pair.\<close>

fun find_accent :: "(u8 \<times> u8 \<times> u8) list \<Rightarrow> nat \<Rightarrow> u8 \<Rightarrow> u8 \<Rightarrow> u8 option res" where
  "find_accent tab 0 d ch = Inr None"
| "find_accent [] (Suc n) d ch = Inl Out_of_bounds"
| "find_accent ((di, ba, r) # tab) (Suc n) d ch =
     (if di = d \<and> ba = ch then Inr (Some r) else find_accent tab n d ch)"

definition handle_diacr :: "u8 \<Rightarrow> 'd kcon \<Rightarrow> (u8 \<times> 'd kcon) res" where
  "handle_diacr ch s =
     (let d = diacr (kb s); s1 = upd_kb (\<lambda>b. b\<lparr>diacr := 0\<rparr>) s in
      res_bind (find_accent (accent_table (kb s)) (accent_table_size (kb s)) d ch) (\<lambda>r.
        case r of
          Some x \<Rightarrow> Inr (x, s1)
        | None \<Rightarrow>
            if ch = 0x20 \<or> ch = d then Inr (d, s1)
            else Inr (ch, queue (uint d) s1)))"

section \<open>Special function handlers\<close>

definition fn_enter :: "'d kcon \<Rightarrow> 'd kcon" where
  "fn_enter s =
     (let s1 = (if diacr (kb s) \<noteq> 0
                then upd_kb (\<lambda>b. b\<lparr>diacr := 0\<rparr>) (queue (uint (diacr (kb s))) s) else s);
          s2 = queue 13 s1
      in if get_kbd_mode (ktable s2) VC_CRLF then queue 10 s2 else s2)"

definition fn_caps_toggle :: "'d kcon \<Rightarrow> 'd kcon" where
  "fn_caps_toggle s = (if rep (kb s) then s else upd_table (chg_kbd_led VC_CAPSLOCK) s)"

definition fn_caps_on :: "'d kcon \<Rightarrow> 'd kcon" where
  "fn_caps_on s = (if rep (kb s) then s else upd_table (set_kbd_led VC_CAPSLOCK) s)"

definition fn_show_ptregs :: "kenv \<Rightarrow> 'd kcon \<Rightarrow> 'd kcon" where
  "fn_show_ptregs e s = (if regs_saved e then on_con (log Show_regs) s else s)"

text \<open>\<open>stop_tty\<close> and \<open>start_tty\<close> of tty_io.c for a console, which has no \<open>link\<close>.\<close>

definition stop_tty :: "int \<Rightarrow> 'd kcon \<Rightarrow> 'd kcon" where
  "stop_tty t s =
     (if tty_stopped (ttys s t) then s
      else on_con vt_stop (s\<lparr>ttys := (ttys s)(t := (ttys s t)\<lparr>tty_stopped := True\<rparr>)\<rparr>))"

definition start_tty :: "int \<Rightarrow> 'd kcon \<Rightarrow> 'd kcon" where
  "start_tty t s =
     (if \<not> tty_stopped (ttys s t) \<or> tty_flow_stopped (ttys s t) then s
      else on_con (\<lambda>c. log (Tty_wakeup t) (vt_start c))
             (s\<lparr>ttys := (ttys s)(t := (ttys s t)\<lparr>tty_stopped := False\<rparr>)\<rparr>))"

definition fn_hold :: "'d kcon \<Rightarrow> 'd kcon" where
  "fn_hold s =
     (case vc_tty (vc (kc s)) of
        None \<Rightarrow> s
      | Some t \<Rightarrow> if rep (kb s) then s else if tty_stopped (ttys s t) then start_tty t s else stop_tty t s)"

definition fn_bare_num :: "'d kcon \<Rightarrow> 'd kcon" where
  "fn_bare_num s = (if \<not> rep (kb s) then upd_table (chg_kbd_led VC_NUMLOCK) s else s)"

definition fn_num :: "'d kcon \<Rightarrow> 'd kcon" where
  "fn_num s = (if get_kbd_mode (ktable s) VC_APPLIC then on_con (applkey 0x50 True) s else fn_bare_num s)"

definition fn_lastcons :: "'d kcon \<Rightarrow> 'd kcon res" where
  "fn_lastcons = on_con_res (\<lambda>c. set_console (last_console (vt c)) c)"

text \<open>
  The loops of \<open>fn_dec_console\<close> and \<open>fn_inc_console\<close>, with fuel: they look at each entry of \<open>vc_cons\<close>
  at most once when the console in front is registered there.
\<close>

fun dec_console_loop :: "nat \<Rightarrow> vt_struct \<Rightarrow> int \<Rightarrow> int \<Rightarrow> int option res" where
  "dec_console_loop 0 t j i = Inl No_return"
| "dec_console_loop (Suc n) t j i =
     (if i = j then Inr None
      else
        let i1 = (if i = -1 then vc_count t - 1 else i) in
        res_bind (arr_get (vc_cons t) i1) (\<lambda>p.
          case p of Some x \<Rightarrow> Inr (Some x) | None \<Rightarrow> dec_console_loop n t j (i1 - 1)))"

fun inc_console_loop :: "nat \<Rightarrow> vt_struct \<Rightarrow> int \<Rightarrow> int \<Rightarrow> int option res" where
  "inc_console_loop 0 t j i = Inl No_return"
| "inc_console_loop (Suc n) t j i =
     (if i = j then Inr None
      else
        let i1 = (if i = vc_count t then 0 else i) in
        res_bind (arr_get (vc_cons t) i1) (\<lambda>p.
          case p of Some x \<Rightarrow> Inr (Some x) | None \<Rightarrow> inc_console_loop n t j (i1 + 1)))"

definition step_console ::
  "(nat \<Rightarrow> vt_struct \<Rightarrow> int \<Rightarrow> int \<Rightarrow> int option res) \<Rightarrow> int \<Rightarrow> 'd con \<Rightarrow> 'd con res" where
  "step_console loop dir c =
     (case fg_console (vt c) of
        None \<Rightarrow> Inl Null_deref
      | Some fg \<Rightarrow>
          (case get_console c fg of
             None \<Rightarrow> Inl Dangling
           | Some v \<Rightarrow>
               let j = vc_num v - first_vc (vt c) in
               res_bind (loop (nat (vc_count (vt c)) + 1) (vt c) j (j + dir)) (\<lambda>p.
                 case p of Some n \<Rightarrow> set_console (Some n) c | None \<Rightarrow> Inr c)))"

definition fn_dec_console :: "'d kcon \<Rightarrow> 'd kcon res" where
  "fn_dec_console = on_con_res (step_console dec_console_loop (-1))"

definition fn_inc_console :: "'d kcon \<Rightarrow> 'd kcon res" where
  "fn_inc_console = on_con_res (step_console inc_console_loop 1)"

definition fn_send_intr :: "'d kcon \<Rightarrow> 'd kcon" where
  "fn_send_intr = on_con (\<lambda>c.
     case vc_tty (vc c) of
       None \<Rightarrow> c
     | Some t \<Rightarrow> log (Flip_work t) (log (Flip_break t) c))"

definition fn_scroll_forw :: "'d kcon \<Rightarrow> 'd kcon" where
  "fn_scroll_forw = on_con (scroll_down 0)"

definition fn_scroll_back :: "'d kcon \<Rightarrow> 'd kcon" where
  "fn_scroll_back = on_con (scroll_up 0)"

definition fn_show_mem :: "'d kcon \<Rightarrow> 'd kcon" where
  "fn_show_mem = on_con (log Show_mem)"

definition fn_show_state :: "'d kcon \<Rightarrow> 'd kcon" where
  "fn_show_state = on_con (log Show_state)"

definition fn_boot_it :: "'d kcon \<Rightarrow> 'd kcon" where
  "fn_boot_it = on_con (log Ctrl_alt_del)"

definition fn_compose :: "'d kcon \<Rightarrow> 'd kcon" where
  "fn_compose = upd_kb (\<lambda>b. b\<lparr>dead_key_next := True\<rparr>)"

definition fn_spawn_con :: "kenv \<Rightarrow> 'd kcon \<Rightarrow> 'd kcon" where
  "fn_spawn_con e s =
     (if spawnpid (kb s) \<noteq> 0
      then
        let s1 = on_con (log (Kill_proc (spawnpid (kb s)) (spawnsig (kb s)))) s in
        if kill_proc_fails e (spawnpid (kb s)) (spawnsig (kb s))
        then upd_kb (\<lambda>b. b\<lparr>spawnpid := 0\<rparr>) s1 else s1
      else s)"

definition fn_SAK :: "'d consw \<Rightarrow> kenv \<Rightarrow> 'd kcon \<Rightarrow> 'd kcon" where
  "fn_SAK sw e = on_con (\<lambda>c.
     reset_vc sw (in_interrupt e)
       (case vc_tty (vc c) of None \<Rightarrow> c | Some t \<Rightarrow> log (Do_SAK t) c))"

definition fn_null :: "'d kcon \<Rightarrow> 'd kcon res" where
  "fn_null = shiftstate_k"

text \<open>The table \<open>fn_handler\<close>, by index.\<close>

definition fn_handler :: "'d consw \<Rightarrow> kenv \<Rightarrow> int \<Rightarrow> 'd kcon \<Rightarrow> 'd kcon res" where
  "fn_handler sw e value s =
     (if value = 0 then fn_null s
      else if value = 1 then Inr (fn_enter s)
      else if value = 2 then Inr (fn_show_ptregs e s)
      else if value = 3 then Inr (fn_show_mem s)
      else if value = 4 then Inr (fn_show_state s)
      else if value = 5 then Inr (fn_send_intr s)
      else if value = 6 then fn_lastcons s
      else if value = 7 then Inr (fn_caps_toggle s)
      else if value = 8 then Inr (fn_num s)
      else if value = 9 then Inr (fn_hold s)
      else if value = 10 then Inr (fn_scroll_forw s)
      else if value = 11 then Inr (fn_scroll_back s)
      else if value = 12 then Inr (fn_boot_it s)
      else if value = 13 then Inr (fn_caps_on s)
      else if value = 14 then Inr (fn_compose s)
      else if value = 15 then Inr (fn_SAK sw e s)
      else if value = 16 then fn_dec_console s
      else if value = 17 then fn_inc_console s
      else if value = 18 then Inr (fn_spawn_con e s)
      else Inr (fn_bare_num s))"

section \<open>Special key handlers\<close>

definition k_spec :: "'d consw \<Rightarrow> kenv \<Rightarrow> int \<Rightarrow> bool \<Rightarrow> 'd kcon \<Rightarrow> 'd kcon res" where
  "k_spec sw e value up s =
     (if up then Inr s
      else if value \<ge> 20 then Inr s
      else if (kbdmode (ktable s) = VC_RAW \<or> kbdmode (ktable s) = VC_MEDIUMRAW) \<and> value \<noteq> 15 then Inr s
      else fn_handler sw e value s)"

definition k_self :: "int \<Rightarrow> bool \<Rightarrow> 'd kcon \<Rightarrow> 'd kcon res" where
  "k_self value up s =
     (if up then Inr s
      else
        res_bind (if diacr (kb s) \<noteq> 0 then handle_diacr (word_of_int value) s
                  else Inr (word_of_int value, s)) (\<lambda>(x, s1).
          if dead_key_next (kb s1)
          then Inr (upd_kb (\<lambda>b. b\<lparr>dead_key_next := False, diacr := x\<rparr>) s1)
          else Inr (queue (uint x) s1)))"

definition k_dead2 :: "int \<Rightarrow> bool \<Rightarrow> 'd kcon \<Rightarrow> 'd kcon res" where
  "k_dead2 value up s =
     (if up then Inr s
      else
        res_bind (if diacr (kb s) \<noteq> 0 then handle_diacr (word_of_int value) s
                  else Inr (word_of_int value, s)) (\<lambda>(x, s1).
          Inr (upd_kb (\<lambda>b. b\<lparr>diacr := x\<rparr>) s1)))"

definition ret_diacr :: "int list" where
  "ret_diacr = [0x60, 0x27, 0x5e, 0x7e, 0x22, 0x2c]"

definition k_dead :: "int \<Rightarrow> bool \<Rightarrow> 'd kcon \<Rightarrow> 'd kcon res" where
  "k_dead value up s = res_bind (arr_get ret_diacr value) (\<lambda>d. k_dead2 d up s)"

definition k_cons :: "int \<Rightarrow> bool \<Rightarrow> 'd kcon \<Rightarrow> 'd kcon res" where
  "k_cons value up = on_con_res (\<lambda>c.
     res_bind (find_vc (value + first_vc (vt c)) c) (\<lambda>p.
       if up \<or> p = None then Inr c else set_console p c))"

text \<open>A string of the function key buffer, which must end in it.\<close>

definition c_string :: "int list \<Rightarrow> int \<Rightarrow> int list res" where
  "c_string buf off =
     (let s = drop (nat off) buf in
      if 0 \<le> off \<and> 0 \<in> set s then Inr (takeWhile (\<lambda>ch. ch \<noteq> 0) s) else Inl Out_of_bounds)"

definition k_fn :: "int \<Rightarrow> bool \<Rightarrow> 'd kcon \<Rightarrow> 'd kcon res" where
  "k_fn value up s =
     (if up then Inr s
      else if value < int (length (func_table (kb s)))
      then
        res_bind (arr_get (func_table (kb s)) value) (\<lambda>p.
          case p of
            None \<Rightarrow> Inr s
          | Some off \<Rightarrow> res_bind (c_string (func_buf (kb s)) off) (\<lambda>str. Inr (on_con (puts_queue str) s)))
      else Inr s)"

text \<open>The string literals have a terminating NUL, which an index may reach.\<close>

definition cur_chars :: "int list" where
  "cur_chars = [0x42, 0x44, 0x43, 0x41, 0]"

definition k_cur :: "int \<Rightarrow> bool \<Rightarrow> 'd kcon \<Rightarrow> 'd kcon res" where
  "k_cur value up s =
     (if up then Inr s
      else res_bind (arr_get cur_chars value) (\<lambda>ch.
        Inr (on_con (applkey ch (get_kbd_mode (ktable s) VC_CKMODE)) s)))"

definition pad_chars :: "int list" where
  "pad_chars = [0x30, 0x31, 0x32, 0x33, 0x34, 0x35, 0x36, 0x37, 0x38, 0x39,
     0x2b, 0x2d, 0x2a, 0x2f, 0x0d, 0x2c, 0x2e, 0x3f, 0x28, 0x29, 0x23, 0]"

definition app_map :: "int list" where
  "app_map = [0x70, 0x71, 0x72, 0x73, 0x74, 0x75, 0x76, 0x77, 0x78, 0x79,
     0x6c, 0x53, 0x52, 0x51, 0x4d, 0x6e, 0x6e, 0x6d, 0x50, 0x51, 0x53, 0]"

text \<open>The keypad as cursor keys, when the number lock is off.\<close>

definition pad_cursor :: "int \<Rightarrow> 'd kcon \<Rightarrow> 'd kcon res option" where
  "pad_cursor value s =
     (if value = 15 \<or> value = 16 then Some (k_fn 22 False s)
      else if value = 0 then Some (k_fn 21 False s)
      else if value = 1 then Some (k_fn 23 False s)
      else if value = 2 then Some (k_cur 0 False s)
      else if value = 3 then Some (k_fn 25 False s)
      else if value = 4 then Some (k_cur 1 False s)
      else if value = 6 then Some (k_cur 2 False s)
      else if value = 7 then Some (k_fn 20 False s)
      else if value = 8 then Some (k_cur 3 False s)
      else if value = 9 then Some (k_fn 24 False s)
      else if value = 5 then Some (Inr (on_con (applkey 0x47 (get_kbd_mode (ktable s) VC_APPLIC)) s))
      else None)"

definition pad_char :: "int \<Rightarrow> 'd kcon \<Rightarrow> 'd kcon res" where
  "pad_char value s =
     res_bind (arr_get pad_chars value) (\<lambda>ch.
       let s1 = queue ch s in
       Inr (if value = 14 \<and> get_kbd_mode (ktable s1) VC_CRLF then queue 10 s1 else s1))"

definition k_pad :: "int \<Rightarrow> bool \<Rightarrow> 'd kcon \<Rightarrow> 'd kcon res" where
  "k_pad value up s =
     (if up then Inr s
      else res_bind (arr_get (shift_down (kb s)) KG_SHIFT) (\<lambda>sh.
        if get_kbd_mode (ktable s) VC_APPLIC \<and> sh = 0
        then res_bind (arr_get app_map value) (\<lambda>ch. Inr (on_con (applkey ch True) s))
        else if \<not> get_kbd_led (ktable s) VC_NUMLOCK
        then (case pad_cursor value s of Some r \<Rightarrow> r | None \<Rightarrow> pad_char value s)
        else pad_char value s))"

text \<open>The part of \<open>k_shift\<close> on the counters and the state word.\<close>

definition shift_count :: "int \<Rightarrow> bool \<Rightarrow> keyboard \<Rightarrow> keyboard res" where
  "shift_count value up b =
     res_bind (arr_get (shift_down b) value) (\<lambda>n.
       let n1 = (if up then (if n \<noteq> 0 then n - 1 else n) else n + 1) in
       res_bind (arr_set (shift_down b) value n1) (\<lambda>sd.
         Inr (b\<lparr>shift_down := sd,
                shift_state := (if n1 \<noteq> 0 then shift_state b OR push_bit (nat value) 1
                                else shift_state b AND NOT (push_bit (nat value) 1))\<rparr>)))"

definition k_shift :: "int \<Rightarrow> bool \<Rightarrow> 'd kcon \<Rightarrow> 'd kcon res" where
  "k_shift value0 up s =
     (if rep (kb s) then Inr s
      else
        let (value, s1) =
              (if value0 = KG_CAPSSHIFT
               then (KG_SHIFT, if \<not> up then upd_table (clr_kbd_led VC_CAPSLOCK) s else s)
               else (value0, s))
        in res_bind (shift_count value up (kb s1)) (\<lambda>b.
          let s2 = s1\<lparr>kb := b\<rparr> in
          if up \<and> shift_state b \<noteq> shift_state (kb s) \<and> npadch b \<noteq> -1
          then
            Inr (upd_kb (\<lambda>b. b\<lparr>npadch := -1\<rparr>)
              (if kbdmode (ktable s2) = VC_UNICODE then on_con (to_utf8 (npadch b AND 0xffff)) s2
               else queue (npadch b AND 0xff) s2))
          else Inr s2))"

definition k_meta :: "int \<Rightarrow> bool \<Rightarrow> 'd kcon \<Rightarrow> 'd kcon" where
  "k_meta value up s =
     (if up then s
      else if get_kbd_mode (ktable s) VC_META then queue value (queue 0x1b s)
      else queue (value OR 0x80) s)"

definition k_ascii :: "int \<Rightarrow> bool \<Rightarrow> 'd kcon \<Rightarrow> 'd kcon" where
  "k_ascii value0 up s =
     (if up then s
      else
        let (value, base) = (if value0 < 10 then (value0, 10) else (value0 - 10, 16)) in
        upd_kb (\<lambda>b. b\<lparr>npadch := (if npadch b = -1 then value else s32 (npadch b * base + value))\<rparr>) s)"

definition k_lock :: "int \<Rightarrow> bool \<Rightarrow> 'd kcon \<Rightarrow> 'd kcon" where
  "k_lock value up s =
     (if up \<or> rep (kb s) then s else upd_table (chg_kbd_lock (nat value)) s)"

definition k_slock :: "int \<Rightarrow> bool \<Rightarrow> 'd kcon \<Rightarrow> 'd kcon res" where
  "k_slock value up s =
     res_bind (k_shift value up s) (\<lambda>s1.
       if up \<or> rep (kb s1) then Inr s1
       else
         let s2 = upd_table (chg_kbd_slock (nat value)) s1 in
         res_bind (arr_get (key_maps (kb s2)) (uint (lockstate (ktable s2) XOR slockstate (ktable s2)))) (\<lambda>m.
           Inr (if m = None
                then upd_table (\<lambda>k. chg_kbd_slock (nat value) (k\<lparr>slockstate := 0\<rparr>)) s2
                else s2)))"

text \<open>The table \<open>k_handler\<close>; \<open>k_lowercase\<close> only prints a message.\<close>

definition k_handler :: "'d consw \<Rightarrow> kenv \<Rightarrow> int \<Rightarrow> int \<Rightarrow> bool \<Rightarrow> 'd kcon \<Rightarrow> 'd kcon res" where
  "k_handler sw e type value up s =
     (if type = 0 then k_self value up s
      else if type = 1 then k_fn value up s
      else if type = 2 then k_spec sw e value up s
      else if type = 3 then k_pad value up s
      else if type = 4 then k_dead value up s
      else if type = 5 then k_cons value up s
      else if type = 6 then k_cur value up s
      else if type = 7 then k_shift value up s
      else if type = 8 then Inr (k_meta value up s)
      else if type = 9 then Inr (k_ascii value up s)
      else if type = 10 then Inr (k_lock value up s)
      else if type = 11 then Inr s
      else if type = 12 then k_slock value up s
      else if type = 13 then k_dead2 value up s
      else Inr s)"

section \<open>Leds\<close>

definition getledstate :: "'d kcon \<Rightarrow> u8" where
  "getledstate s = vt_ledstate (vt (kc s))"

definition register_leds :: "int \<Rightarrow> int \<Rightarrow> 32 word \<Rightarrow> 'd kcon \<Rightarrow> 'd kcon" where
  "register_leds led addr msk s =
     (if led < 3
      then upd_table (\<lambda>k. k\<lparr>ledmode := LED_SHOW_MEM\<rparr>)
             (upd_kb (\<lambda>b. b\<lparr>ledptrs := (ledptrs b)[nat led :=
                \<lparr>led_addr = addr, led_mask = msk, led_valid = True\<rparr>]\<rparr>) s)
      else upd_table (\<lambda>k. k\<lparr>ledmode := LED_SHOW_FLAGS\<rparr>) s)"

fun led_bits :: "kenv \<Rightarrow> ledptr list \<Rightarrow> nat \<Rightarrow> u8 \<Rightarrow> u8" where
  "led_bits e [] i leds = leds"
| "led_bits e (p # ps) i leds =
     led_bits e ps (Suc i)
       (if \<not> led_valid p then leds
        else if kernel_word e (led_addr p) AND led_mask p \<noteq> 0 then leds OR push_bit i 1
        else leds AND NOT (push_bit i 1))"

definition getleds :: "kenv \<Rightarrow> keyboard \<Rightarrow> vt_struct \<Rightarrow> vc_data \<Rightarrow> u8" where
  "getleds e b t v =
     (if ledmode (kbd_table v) = LED_SHOW_IOCTL then vt_ledioctl t
      else
        let leds = ucast (ledflagstate (kbd_table v)) in
        if ledmode (kbd_table v) = LED_SHOW_MEM then led_bits e (take 3 (ledptrs b)) 0 leds else leds)"

text \<open>One display of the loop of \<open>kbd_bh\<close>; \<open>kbd_refresh_leds\<close> does the same for one handle.\<close>

definition refresh_leds :: "kenv \<Rightarrow> int \<Rightarrow> 'd kcon \<Rightarrow> 'd kcon res" where
  "refresh_leds e d s =
     (case fg_console (vts (kc s) d) of
        None \<Rightarrow> Inl Null_deref
      | Some n \<Rightarrow>
          (case get_console (kc s) n of
             None \<Rightarrow> Inl Dangling
           | Some v \<Rightarrow>
               let leds = getleds e (kb s) (vts (kc s) d) v in
               Inr (if leds \<noteq> vt_ledstate (vts (kc s) d)
                    then on_con (\<lambda>c. upd_vt d (\<lambda>t. t\<lparr>vt_ledstate := leds\<rparr>)
                           (log Input_sync (log (Led 1 (bit leds 2)) (log (Led 0 (bit leds 1))
                             (log (Led 2 (bit leds 0)) c))))) s
                    else s)))"

text \<open>\<open>ds\<close>: the display of each connected keyboard handle, \<open>None\<close> where it has none.\<close>

fun kbd_bh :: "kenv \<Rightarrow> int option list \<Rightarrow> 'd kcon \<Rightarrow> 'd kcon res" where
  "kbd_bh e [] s = Inr s"
| "kbd_bh e (None # ds) s = kbd_bh e ds s"
| "kbd_bh e (Some d # ds) s = res_bind (refresh_leds e d s) (kbd_bh e ds)"

section \<open>Raw modes\<close>

abbreviation (input) "KEY_LEFTALT \<equiv> (56::int)"
abbreviation (input) "KEY_SYSRQ \<equiv> (99::int)"
abbreviation (input) "KEY_RIGHTALT \<equiv> (100::int)"
abbreviation (input) "KEY_PAUSE \<equiv> (119::int)"
abbreviation (input) "KEY_HANGUEL \<equiv> (122::int)"
abbreviation (input) "KEY_HANJA \<equiv> (123::int)"

definition x86_keycodes :: "int list" where
  "x86_keycodes =
   [0,  1,  2,  3,  4,  5,  6,  7,  8,  9, 10, 11, 12, 13, 14, 15,
    16, 17, 18, 19, 20, 21, 22, 23, 24, 25, 26, 27, 28, 29, 30, 31,
    32, 33, 34, 35, 36, 37, 38, 39, 40, 41, 42, 43, 44, 45, 46, 47,
    48, 49, 50, 51, 52, 53, 54, 55, 56, 57, 58, 59, 60, 61, 62, 63,
    64, 65, 66, 67, 68, 69, 70, 71, 72, 73, 74, 75, 76, 77, 78, 79,
    80, 81, 82, 83, 84,118, 86, 87, 88,115,120,119,121,112,123, 92,
    284,285,309,298,312, 91,327,328,329,331,333,335,336,337,338,339,
    367,288,302,304,350, 89,334,326,267,126,268,269,125,347,348,349,
    360,261,262,263,268,376,100,101,321,316,373,286,289,102,351,355,
    103,104,105,275,287,279,306,106,274,107,294,364,358,363,362,361,
    291,108,381,281,290,272,292,305,280, 99,112,257,258,359,113,114,
    264,117,271,374,379,265,266, 93, 94, 95, 85,259,375,260, 90,116,
    377,109,111,277,278,282,283,295,296,297,299,300,301,293,303,307,
    308,310,313,314,315,317,318,319,320,357,322,323,324,325,276,330,
    332,340,365,342,343,344,345,346,356,270,341,368,369,370,371,372]"

text \<open>\<open>up\<close> is 0x80 on release, else 0; \<open>None\<close>: the key code cannot be emulated.\<close>

definition emulate_raw :: "int \<Rightarrow> int \<Rightarrow> 'd kcon \<Rightarrow> 'd kcon option" where
  "emulate_raw keycode up s =
     (if keycode > 255 \<or> x86_keycodes ! nat keycode = 0 then None
      else if keycode = KEY_PAUSE
      then Some (queue (0x45 OR up) (queue (0x1d OR up) (queue 0xe1 s)))
      else if keycode = KEY_HANGUEL then Some (if up = 0 then queue 0xf1 s else s)
      else if keycode = KEY_HANJA then Some (if up = 0 then queue 0xf2 s else s)
      else if keycode = KEY_SYSRQ \<and> sysrq_alt (kb s) then Some (queue (0x54 OR up) s)
      else
        let x = x86_keycodes ! nat keycode;
            s1 = (if x AND 0x100 \<noteq> 0 then queue 0xe0 s else s);
            s2 = queue ((x AND 0x7f) OR up) s1
        in Some (if keycode = KEY_SYSRQ then queue (0x37 OR up) (queue 0xe0 s2) else s2))"

definition kbd_rawcode :: "int \<Rightarrow> 'd kcon \<Rightarrow> 'd kcon" where
  "kbd_rawcode data s = (if kbdmode (ktable s) = VC_RAW then queue data s else s)"

definition mediumraw :: "int \<Rightarrow> int \<Rightarrow> 'd kcon \<Rightarrow> 'd kcon" where
  "mediumraw keycode up s =
     (if keycode < 128 then queue (keycode OR up) s
      else queue (keycode OR 0x80) (queue (drop_bit 7 keycode OR 0x80) (queue up s)))"

section \<open>Key events\<close>

definition vt_chars_in_buffer :: int where
  "vt_chars_in_buffer = 0"

definition set_key :: "int \<Rightarrow> bool \<Rightarrow> keyboard \<Rightarrow> keyboard res" where
  "set_key keycode dn b =
     res_bind (arr_get (key_down b) (keycode div 32)) (\<lambda>w.
     res_bind (arr_set (key_down b) (keycode div 32)
                (if dn then w OR push_bit (nat (keycode mod 32)) 1
                 else w AND NOT (push_bit (nat (keycode mod 32)) 1))) (\<lambda>ws.
       Inr (b\<lparr>key_down := ws\<rparr>)))"

text \<open>From the key map lookup to the handler.\<close>

definition handle_keysym ::
  "'d consw \<Rightarrow> kenv \<Rightarrow> int \<Rightarrow> bool \<Rightarrow> bool \<Rightarrow> 32 word \<Rightarrow> u16 list \<Rightarrow> 'd kcon \<Rightarrow> 'd kcon res" where
  "handle_keysym sw e keycode dn raw shift_final key_map s =
     res_bind (arr_get key_map keycode) (\<lambda>keysym.
       let type = KTYP keysym in
       if type < 0xf0
       then Inr (if dn \<and> \<not> raw then on_con (to_utf8 (uint keysym)) s else s)
       else if raw \<and> type - 0xf0 \<noteq> KT_SPEC \<and> type - 0xf0 \<noteq> KT_SHIFT then Inr s
       else
         res_bind
           (if type - 0xf0 = KT_LETTER
            then
              if get_kbd_led (ktable s) VC_CAPSLOCK
              then res_bind (arr_get (key_maps (kb s)) (uint (shift_final XOR 1))) (\<lambda>m.
                     case m of
                       None \<Rightarrow> Inr (KT_LATIN, keysym)
                     | Some m' \<Rightarrow> res_bind (arr_get m' keycode) (\<lambda>k. Inr (KT_LATIN, k)))
              else Inr (KT_LATIN, keysym)
            else Inr (type - 0xf0, keysym))
           (\<lambda>(ty, ks).
             res_bind (k_handler sw e ty (KVAL ks) (\<not> dn) s) (\<lambda>s1.
               Inr (if ty \<noteq> KT_SLOCK then upd_table (\<lambda>k. k\<lparr>slockstate := 0\<rparr>) s1 else s1))))"

text \<open>
  \<open>shift_final\<close> is an int that indexes the 256 key maps: \<open>shift_state\<close> can have bit 8 only for
  the caps shift key, which \<open>k_shift\<close> replaces.
\<close>

definition kbd_keysym ::
  "'d consw \<Rightarrow> kenv \<Rightarrow> int \<Rightarrow> bool \<Rightarrow> bool \<Rightarrow> 'd kcon \<Rightarrow> 'd kcon res" where
  "kbd_keysym sw e keycode dn raw s =
     (let shift_final = (shift_state (kb s) OR ucast (slockstate (ktable s)))
            XOR (ucast (lockstate (ktable s)) :: 32 word)
      in res_bind (arr_get (key_maps (kb s)) (uint shift_final)) (\<lambda>m.
        case m of
          None \<Rightarrow> res_bind (shiftstate_k s) (\<lambda>s1. Inr (upd_table (\<lambda>k. k\<lparr>slockstate := 0\<rparr>) s1))
        | Some key_map \<Rightarrow>
            if keycode > int (length key_map) then Inr s
            else handle_keysym sw e keycode dn raw shift_final key_map s))"

text \<open>
  \<open>kbd_keycode\<close> on the console in front; \<open>down\<close> is 0 for release, 1 for press and 2 for repeat.
  \<open>xlate\<close> is the translation table of the magic SysRq keys.
\<close>

definition kbd_keycode ::
  "'d consw \<Rightarrow> kenv \<Rightarrow> (int \<Rightarrow> u8) \<Rightarrow> int \<Rightarrow> int \<Rightarrow> bool \<Rightarrow> 'd kcon \<Rightarrow> 'd kcon res" where
  "kbd_keycode sw e xlate keycode down hw_raw s0 =
     (let dn = (down \<noteq> 0);
          up = (if dn then 0 else 0x80);
          s1 = upd_kb (\<lambda>b. b\<lparr>sysrq_alt := (if keycode = KEY_LEFTALT \<or> keycode = KEY_RIGHTALT then dn
                                            else sysrq_alt b),
                               rep := (down = 2)\<rparr>) s0;
          raw = (kbdmode (ktable s1) = VC_RAW);
          s2 = (if raw \<and> \<not> hw_raw
                then (case emulate_raw keycode up s1 of Some s \<Rightarrow> s | None \<Rightarrow> s1) else s1)
      in if keycode = KEY_SYSRQ \<and> (sysrq_down (kb s2) \<or> down = 1 \<and> sysrq_alt (kb s2))
         then Inr (upd_kb (\<lambda>b. b\<lparr>sysrq_down := dn\<rparr>) s2)
         else if sysrq_down (kb s2) \<and> dn \<and> \<not> rep (kb s2)
         then Inr (on_con (log (Handle_sysrq (xlate keycode))) s2)
         else
           let medium = (kbdmode (ktable s2) = VC_MEDIUMRAW);
               s3 = (if medium then mediumraw keycode up s2 else s2)
           in res_bind (set_key keycode dn (kb s3)) (\<lambda>b.
             let s4 = s3\<lparr>kb := b\<rparr> in
             if rep (kb s4) \<and>
                (\<not> get_kbd_mode (ktable s4) VC_REPEAT \<or>
                 (case vc_tty (vc (kc s4)) of
                    None \<Rightarrow> False
                  | Some t \<Rightarrow> \<not> L_ECHO (ttys s4 t) \<and> vt_chars_in_buffer \<noteq> 0))
             then Inr s4
             else kbd_keysym sw e keycode dn (raw \<or> medium) s4))"

text \<open>Run a keyboard operation on the console a display has in front.\<close>

definition in_kconsole :: "int option \<Rightarrow> ('d kcon \<Rightarrow> 'd kcon res) \<Rightarrow> 'd kcon \<Rightarrow> 'd kcon res" where
  "in_kconsole p f s =
     (case p of
        None \<Rightarrow> Inl Null_deref
      | Some n \<Rightarrow>
          let c = kc s; me = vc_num (vc c) in
          if n = me then f s
          else (case pool c n of
              None \<Rightarrow> Inl Dangling
            | Some v \<Rightarrow>
                res_bind (f (s\<lparr>kc := c\<lparr>vc := v, pool := (pool c)(me \<mapsto> vc c)\<rparr>\<rparr>)) (\<lambda>s'.
                  case pool (kc s') me of
                    None \<Rightarrow> Inl Dangling
                  | Some v0 \<Rightarrow>
                      Inr (s'\<lparr>kc := (kc s')\<lparr>vc := v0, pool := (pool (kc s'))(n \<mapsto> vc (kc s'))\<rparr>\<rparr>))))"

datatype input_event = Raw_event int | Key_event int int | Other_event

text \<open>\<open>dp\<close>: the display the handle belongs to; \<open>hw_raw\<close>: \<open>HW_RAW\<close> of the device.\<close>

definition kbd_event ::
  "'d consw \<Rightarrow> kenv \<Rightarrow> (int \<Rightarrow> u8) \<Rightarrow> int option \<Rightarrow> bool \<Rightarrow> input_event \<Rightarrow> 'd kcon \<Rightarrow> 'd kcon res" where
  "kbd_event sw e xlate dp hw_raw ev s =
     (case dp of
        None \<Rightarrow> Inr s
      | Some d \<Rightarrow>
          let fg = fg_console (vts (kc s) d) in
          res_bind
            (case ev of
               Raw_event v \<Rightarrow> if hw_raw then in_kconsole fg (\<lambda>s. Inr (kbd_rawcode v s)) s else Inr s
             | Key_event code v \<Rightarrow> in_kconsole fg (kbd_keycode sw e xlate code v hw_raw) s
             | Other_event \<Rightarrow> Inr s)
            (\<lambda>s1. Inr (on_con (\<lambda>c. log (Vt_work d) (log Set_leds c))
               (upd_kb (\<lambda>b. b\<lparr>do_poke_blanked_console := True\<rparr>) s1))))"

end
