(* ===== verification/Keyboard_Inv.thy ===== *)
theory Keyboard_Inv
  imports Keyboard Vga_Example
begin

text \<open>
  The invariant of the keyboard driver and the proof that every key event keeps it together with
  the invariant of the console state.

  \<open>wf_kb N b\<close>: the arrays have their sizes, all key maps have \<open>N\<close> entries and no entry has a value
  its handler cannot take (\<open>k_spec\<close> tests its value itself), only the eight modifiers that index the key maps are set, only keys below \<open>N\<close>
  are down, the tables of accents and function key strings are within their arrays.
\<close>

section \<open>Well-formed keyboards\<close>

definition wf_keysym :: "u16 \<Rightarrow> bool" where
  "wf_keysym w \<longleftrightarrow> 0xf0 \<le> KTYP w \<and> KTYP w < 0xfe \<and> KTYP w \<noteq> 0xf0 + KT_SPEC \<longrightarrow> KVAL w \<le> max_vals ! nat (KTYP w - 0xf0)"

definition wf_key_maps :: "nat \<Rightarrow> keyboard \<Rightarrow> bool" where
  "wf_key_maps N b \<longleftrightarrow>
     length (key_maps b) = 256 \<and> key_maps b ! 0 \<noteq> None \<and>
     (\<forall>m. Some m \<in> set (key_maps b) \<longrightarrow> length m = N \<and> (\<forall>w \<in> set m. wf_keysym w))"

definition wf_tables :: "keyboard \<Rightarrow> bool" where
  "wf_tables b \<longleftrightarrow>
     accent_table_size b \<le> length (accent_table b) \<and>
     length (func_table b) = 256 \<and>
     (\<forall>off. Some off \<in> set (func_table b) \<longrightarrow> 0 \<le> off \<and> 0 \<in> set (drop (nat off) (func_buf b)))"

definition wf_keys :: "nat \<Rightarrow> keyboard \<Rightarrow> bool" where
  "wf_keys N b \<longleftrightarrow>
     length (key_down b) = 16 \<and> (\<forall>i < 16. \<forall>j. bit (key_down b ! i) j \<longrightarrow> 32 * i + j < N)"

definition wf_shift :: "keyboard \<Rightarrow> bool" where
  "wf_shift b \<longleftrightarrow> length (shift_down b) = 9 \<and> (\<forall>i. bit (shift_state b) i \<longrightarrow> i < 8)"

definition wf_kb :: "nat \<Rightarrow> keyboard \<Rightarrow> bool" where
  "wf_kb N b \<longleftrightarrow> wf_key_maps N b \<and> wf_tables b \<and> wf_keys N b \<and> wf_shift b"

lemmas wf_kb_defs = wf_kb_def wf_key_maps_def wf_tables_def wf_keys_def wf_shift_def

lemma wf_kb_upd [simp]:
  "wf_kb N (b\<lparr>dead_key_next := a0\<rparr>) = wf_kb N b" "wf_kb N (b\<lparr>npadch := a1\<rparr>) = wf_kb N b"
  "wf_kb N (b\<lparr>diacr := a2\<rparr>) = wf_kb N b" "wf_kb N (b\<lparr>rep := a3\<rparr>) = wf_kb N b"
  "wf_kb N (b\<lparr>sysrq_alt := a4\<rparr>) = wf_kb N b" "wf_kb N (b\<lparr>sysrq_down := a5\<rparr>) = wf_kb N b"
  "wf_kb N (b\<lparr>spawnpid := a6\<rparr>) = wf_kb N b" "wf_kb N (b\<lparr>spawnsig := a7\<rparr>) = wf_kb N b"
  "wf_kb N (b\<lparr>do_poke_blanked_console := a8\<rparr>) = wf_kb N b"
  by (simp_all add: wf_kb_defs)

lemma KTYP_range: "0 \<le> KTYP w" "KTYP w < 256"
proof -
  show "0 \<le> KTYP w"
    by (simp add: KTYP_def)
  have "uint (drop_bit 8 w) = uint w div 256"
    by (simp add: drop_bit_eq_div uint_div_distrib)
  then show "KTYP w < 256"
    using uint_bounded [of w] by (simp add: KTYP_def)
qed

lemma KVAL_range: "0 \<le> KVAL w" "KVAL w < 256"
proof -
  have "w AND 0xff \<le> 0xff"
    by (rule word_and_le1)
  then show "0 \<le> KVAL w" "KVAL w < 256"
    by (simp_all add: KVAL_def word_le_def)
qed

lemma small_word:
  fixes w :: "32 word"
  assumes "\<And>i. bit w i \<Longrightarrow> i < 8"
  shows "uint w < 256"
proof -
  have "take_bit 8 w = w"
    using assms by (auto simp: bit_eq_iff bit_take_bit_iff)
  then have "uint w = take_bit 8 (uint w)"
    by (metis unsigned_take_bit_eq)
  then show ?thesis
    using take_bit_int_less_exp [of 8 "uint w"] by simp
qed

text \<open>The value of a key symbol of a type that a handler takes.\<close>

lemma keysym_value:
  assumes "wf_keysym w" "KTYP w = 0xf0 + ty" "0 \<le> ty" "ty < 14" "ty \<noteq> KT_SPEC"
  shows "KVAL w \<le> max_vals ! nat ty"
  using assms by (simp add: wf_keysym_def)

lemma KVAL_U [simp]: "KVAL (U w) = KVAL w"
  by (simp add: KVAL_def U_def bit.conj_xor_distrib2)

lemma KTYP_U:
  assumes "KTYP (U w) = ty" "ty < 16"
  shows "KTYP w = 0xf0 + ty"
proof -
  have "KTYP (U w) = KTYP w XOR 0xf0"
    by (simp add: KTYP_def U_def drop_bit_xor unsigned_xor_eq)
  then have "KTYP w = ty XOR 0xf0"
    using assms(1) by (metis xor.assoc xor.right_neutral xor_self_eq)
  moreover have "ty \<in> set [0..15]"
    using assms KTYP_range [of "U w"] by simp
  ultimately show ?thesis
    by (auto simp: upto.simps)
qed

section \<open>The tables\<close>

lemma wf_kbD:
  assumes "wf_kb N b"
  shows "length (key_maps b) = 256" "\<exists>m. key_maps b ! 0 = Some m"
    "key_maps b ! i = Some m \<Longrightarrow> i < 256 \<Longrightarrow> length m = N"
    "key_maps b ! i = Some m \<Longrightarrow> i < 256 \<Longrightarrow> k < N \<Longrightarrow> wf_keysym (m ! k)"
    "length (shift_down b) = 9" "bit (shift_state b) i \<Longrightarrow> i < 8" "length (key_down b) = 16"
    "accent_table_size b \<le> length (accent_table b)" "length (func_table b) = 256"
  using assms nth_mem [of i "key_maps b"] nth_mem [of k m] by (auto simp: wf_kb_defs)

lemma shift_index:
  assumes "wf_kb N b"
  shows "arr_get (key_maps b) (uint ((shift_state b OR ucast (k :: u8)) XOR ucast (l :: u8)))
    = Inr (key_maps b ! unat ((shift_state b OR ucast k) XOR ucast l))"
    "unat ((shift_state b OR ucast k) XOR ucast l) < 256"
    "uint (((shift_state b OR ucast k) XOR ucast l) XOR 1) < 256"
proof -
  let ?w = "(shift_state b OR ucast k) XOR (ucast l :: 32 word)"
  have b: "i < 8" if "bit ?w i" for i
    using that wf_kbD(6) [OF assms, of i] bit_imp_le_length [of k i] bit_imp_le_length [of l i]
    by (auto simp: bit_or_iff bit_xor_iff bit_unsigned_iff)
  then have w: "uint ?w < 256"
    by (rule small_word)
  then show "unat ?w < 256"
    by (simp flip: nat_uint_eq)
  then show "arr_get (key_maps b) (uint ?w) = Inr (key_maps b ! unat ?w)"
    using w wf_kbD(1) [OF assms] by (simp add: arr_get_def)
  have "i < 8" if "bit (?w XOR 1) i" for i
    using that b [of i] unfolding bit_xor_iff [of ?w 1] bit_1_iff by auto
  then show "uint (?w XOR 1) < 256"
    by (rule small_word)
qed

lemma find_accent_ok: "n \<le> length tab \<Longrightarrow> \<exists>r. find_accent tab n d ch = Inr r"
  by (induction tab n d ch rule: find_accent.induct) simp_all

lemma func_string:
  assumes "wf_kb N b" "0 \<le> value" "value < 256"
  shows "\<exists>p. arr_get (func_table b) value = Inr p \<and> (\<forall>off. p = Some off \<longrightarrow> (\<exists>s. c_string (func_buf b) off = Inr s))"
proof -
  have v: "nat value < length (func_table b)"
    using assms wf_kbD(9) [OF assms(1)] by simp
  then have "func_table b ! nat value \<in> set (func_table b)"
    by (rule nth_mem)
  then show ?thesis
    using assms v
    by (cases "func_table b ! nat value") (auto simp: arr_get_def c_string_def wf_kb_def wf_tables_def Let_def)
qed

section \<open>The shift state\<close>

lemma bit_or_push: "bit (w OR push_bit n 1) i \<Longrightarrow> bit (w :: 32 word) i \<or> i = n"
  by (auto simp: bit_simps)

lemma wf_kb_shift:
  assumes "wf_kb N b" "length sd = 9" "\<And>i. bit st i \<Longrightarrow> i < 8"
  shows "wf_kb N (b\<lparr>shift_down := sd, shift_state := st\<rparr>)"
  using assms by (simp add: wf_kb_defs)

lemma count_shift_ok:
  assumes "wf_kb N b" "k < N"
  shows "res_ok (wf_kb N) (count_shift k b)"
proof -
  obtain m where m: "key_maps b ! 0 = Some m" "length m = N" "wf_keysym (m ! k)"
    using wf_kbD(2) [OF assms(1)] wf_kbD(3,4) [OF assms(1), of 0] assms(2) by auto
  show ?thesis
  proof (cases "KTYP (U (m ! k)) \<noteq> KT_SHIFT \<and> KTYP (U (m ! k)) \<noteq> KT_SLOCK")
    case True
    then show ?thesis
      using m assms by (simp add: count_shift_def arr_get_def Let_def)
  next
    case False
    then have "KVAL (m ! k) \<le> 8"
      using keysym_value [OF m(3), of KT_SHIFT] keysym_value [OF m(3), of KT_SLOCK]
        KTYP_U [of "m ! k" KT_SHIFT] KTYP_U [of "m ! k" KT_SLOCK] by (auto simp: max_vals_def)
    then obtain v where v: "v = (if KVAL (m ! k) = KG_CAPSSHIFT then KG_SHIFT else KVAL (m ! k))" "0 \<le> v" "v < 8"
      using KVAL_range [of "m ! k"] by auto
    have "wf_kb N (b\<lparr>shift_down := (shift_down b)[nat v := n],
        shift_state := shift_state b OR push_bit (nat v) 1\<rparr>)" for n
    proof (rule wf_kb_shift [OF assms(1)])
      show "length ((shift_down b)[nat v := n]) = 9"
        using wf_kbD(5) [OF assms(1)] by simp
      show "i < 8" if "bit (shift_state b OR push_bit (nat v) 1) i" for i
        using bit_or_push [OF that] wf_kbD(6) [OF assms(1), of i] v by auto
    qed
    then show ?thesis
      using False m assms v wf_kbD(5) [OF assms(1)]
      by (cases "KVAL (m ! k) = KG_CAPSSHIFT") (simp_all add: count_shift_def arr_get_def arr_set_def Let_def)
  qed
qed

lemma count_bits_ok:
  "wf_kb N b \<Longrightarrow> (\<And>j. bit w j \<Longrightarrow> k + j < N) \<Longrightarrow> res_ok (wf_kb N) (count_bits w k js b)"
proof (induction js arbitrary: b)
  case (Cons j js)
  have "res_ok (wf_kb N) (if bit w j then count_shift (k + j) b else Inr b)"
    using Cons.prems count_shift_ok by simp
  then show ?case
    unfolding count_bits.simps by (rule res_ok_bind) (use Cons in blast)
qed simp

lemma count_words_ok:
  "wf_kb N b \<Longrightarrow> (\<And>i j. i < length ws \<Longrightarrow> bit (ws ! i) j \<Longrightarrow> k + 32 * i + j < N) \<Longrightarrow>
   res_ok (wf_kb N) (count_words ws k b)"
proof (induction ws arbitrary: k b)
  case (Cons w ws)
  have "res_ok (wf_kb N) (if w = 0 then Inr b else count_bits w k [0..<32] b)"
    using Cons.prems(1) Cons.prems(2) [of 0] by (auto intro!: count_bits_ok)
  then show ?case
    unfolding count_words.simps
  proof (rule res_ok_bind)
    fix b' assume "wf_kb N b'"
    then show "res_ok (wf_kb N) (count_words ws (k + 32) b')"
      using Cons.prems(2) [of "Suc _"] by (intro Cons.IH) (auto simp: algebra_simps)
  qed
qed simp

lemma compute_shiftstate_ok:
  assumes "wf_kb N b"
  shows "res_ok (wf_kb N) (compute_shiftstate b)"
proof -
  have "wf_kb N (b\<lparr>shift_state := 0, shift_down := replicate 9 0\<rparr>)"
    using assms by (simp add: wf_kb_defs)
  then show ?thesis
    unfolding compute_shiftstate_def
    by (rule count_words_ok) (use assms in \<open>auto simp: wf_kb_defs\<close>)
qed

lemma shift_count_ok:
  assumes "wf_kb N b" "0 \<le> value" "value < 8"
  shows "res_ok (wf_kb N) (shift_count value up b)"
proof -
  have "wf_kb N (b\<lparr>shift_down := (shift_down b)[nat value := n], shift_state := st\<rparr>)"
    if "st = shift_state b OR push_bit (nat value) 1 \<or> st = shift_state b AND NOT (push_bit (nat value) 1)" for n st
  proof (rule wf_kb_shift [OF assms(1)])
    show "length ((shift_down b)[nat value := n]) = 9"
      using wf_kbD(5) [OF assms(1)] by simp
    show "i < 8" if "bit st i" for i
      using that \<open>st = _ \<or> st = _\<close> bit_or_push [of "shift_state b" "nat value" i] wf_kbD(6) [OF assms(1), of i] assms(2,3)
      by (auto simp: bit_and_iff)
  qed
  then show ?thesis
    using assms wf_kbD(5) [OF assms(1)]
    by (simp add: shift_count_def arr_get_def arr_set_def Let_def)
qed

lemma set_key_ok:
  assumes "wf_kb N b" "0 \<le> k" "k < int N" "k < 512"
  shows "res_ok (wf_kb N) (set_key k dn b)"
proof -
  have l: "nat (k div 32) < 16" "0 \<le> k div 32" "k div 32 < 16"
    using assms by auto
  let ?w = "key_down b ! nat (k div 32)" and ?p = "push_bit (nat (k mod 32)) 1 :: 32 word"
  have "wf_keys N (b\<lparr>key_down := (key_down b)[nat (k div 32) := w]\<rparr>)"
    if "w = ?w OR ?p \<or> w = ?w AND NOT ?p" for w
  proof -
    have "32 * i + j < N" if "i < 16" "bit ((key_down b)[nat (k div 32) := w] ! i) j" for i j
    proof (cases "i = nat (k div 32) \<and> \<not> bit ?w j")
      case True
      then have "j = nat (k mod 32)"
        using that \<open>w = _ \<or> w = _\<close> l assms(1) bit_or_push [of ?w "nat (k mod 32)" j]
        by (auto simp: wf_kb_defs bit_and_iff)
      moreover have "0 \<le> k div 32" "0 \<le> k mod 32"
        using l by simp_all
      ultimately have "int (32 * i + j) = k"
        using True by simp
      then show ?thesis
        using assms(3) by linarith
    next
      case False
      then have "bit (key_down b ! i) j"
        using that l assms(1) by (auto simp: wf_kb_defs nth_list_update split: if_splits)
      then show ?thesis
        using assms(1) that(1) by (simp add: wf_kb_defs)
    qed
    then show ?thesis
      using assms(1) by (simp add: wf_kb_defs)
  qed
  then show ?thesis
    using assms l by (auto simp: set_key_def arr_get_def arr_set_def wf_kb_def wf_keys_def
        wf_key_maps_def wf_tables_def wf_shift_def)
qed

section \<open>Keyboard and console together\<close>

text \<open>
  The console a display has in front is registered in its pool. This is a property of the parts of
  the displays that no console operation changes.
\<close>

definition wf_front :: "'d con \<Rightarrow> bool" where
  "wf_front c \<longleftrightarrow>
     (\<forall>d n. fg_console (vts c d) = Some n \<longrightarrow>
        d \<in> set (vt_list c) \<and> last_console (vts c d) \<noteq> None \<and>
        first_vc (vts c d) \<le> n \<and> n < first_vc (vts c d) + vc_count (vts c d) \<and>
        vc_cons (vts c d) ! nat (n - first_vc (vts c d)) = Some n)"

lemma keeps_front: "keeps K c c' \<Longrightarrow> wf_front c \<Longrightarrow> wf_front c'"
  unfolding keeps_def wf_front_def vt_ids_def by (metis prod.inject)

definition kwf :: "nat \<Rightarrow> 'd contract \<Rightarrow> 'd kcon \<Rightarrow> bool" where
  "kwf N K s \<longleftrightarrow> wf_kb N (kb s) \<and> wf_con K (kc s) \<and> wf_front (kc s) \<and> is_visible (kc s)"

definition kkeeps :: "nat \<Rightarrow> 'd contract \<Rightarrow> 'd kcon \<Rightarrow> 'd kcon \<Rightarrow> bool" where
  "kkeeps N K s s' \<longleftrightarrow> kwf N K s' \<and> keeps K (kc s) (kc s')"

lemma kwfD:
  "kwf N K s \<Longrightarrow> wf_kb N (kb s)" "kwf N K s \<Longrightarrow> wf_con K (kc s)" "kwf N K s \<Longrightarrow> wf_front (kc s)"
  "kwf N K s \<Longrightarrow> is_visible (kc s)"
  by (simp_all add: kwf_def)

lemma kkeeps_refl [simp]: "kwf N K s \<Longrightarrow> kkeeps N K s s"
  by (simp add: kkeeps_def kwf_def)

lemma kkeeps_trans: "kkeeps N K a b \<Longrightarrow> kkeeps N K b c \<Longrightarrow> kkeeps N K a c"
  by (auto simp: kkeeps_def intro: keeps_trans)

lemma kkeeps_kwf: "kkeeps N K a b \<Longrightarrow> kwf N K b"
  by (simp add: kkeeps_def)

lemma kkeeps_step: "kkeeps N K a b \<Longrightarrow> (kwf N K b \<Longrightarrow> kkeeps N K b c) \<Longrightarrow> kkeeps N K a c"
  using kkeeps_trans kkeeps_kwf by blast

lemma kkeeps_bind:
  assumes "res_ok (kkeeps N K s0) r" "\<And>s. kwf N K s \<Longrightarrow> kkeeps N K s0 s \<Longrightarrow> res_ok (kkeeps N K s) (f s)"
  shows "res_ok (kkeeps N K s0) (res_bind r f)"
proof (rule res_ok_bind [OF assms(1)])
  fix s assume "kkeeps N K s0 s"
  then show "res_ok (kkeeps N K s0) (f s)"
    using assms(2) [OF kkeeps_kwf] kkeeps_trans by (blast intro: res_ok_mono)
qed

lemma kkeeps_intro:
  assumes "kwf N K s" "wf_kb N (kb s')" "keeps K (kc s) (kc s')"
  shows "kkeeps N K s s'"
  using assms keeps_front [OF assms(3)] keeps_visible [OF assms(3)] keeps_wf [OF assms(3)]
  by (simp add: kkeeps_def kwf_def)

lemma on_con_ok: "kwf N K s \<Longrightarrow> keeps K (kc s) (f (kc s)) \<Longrightarrow> kkeeps N K s (on_con f s)"
  by (rule kkeeps_intro) (simp_all add: on_con_def kwf_def)

lemma on_con_res_ok: "kwf N K s \<Longrightarrow> res_ok (keeps K (kc s)) (f (kc s)) \<Longrightarrow> res_ok (kkeeps N K s) (on_con_res f s)"
  by (auto simp: on_con_res_def res_ok_ex kwf_def intro!: kkeeps_intro)

lemma upd_kb_ok: "kwf N K s \<Longrightarrow> wf_kb N (f (kb s)) \<Longrightarrow> kkeeps N K s (upd_kb f s)"
  by (rule kkeeps_intro) (simp_all add: upd_kb_def kwf_def)

lemma set_kb_ok: "kwf N K s \<Longrightarrow> wf_kb N b \<Longrightarrow> kkeeps N K s (s\<lparr>kb := b\<rparr>)"
  by (rule kkeeps_intro) (simp_all add: kwf_def)

lemma ttys_ok: "kwf N K s \<Longrightarrow> kkeeps N K s (s\<lparr>ttys := t\<rparr>)"
  by (rule kkeeps_intro) (simp_all add: kwf_def)

lemma kbd_table_ok: "wf_con K c \<Longrightarrow> keeps K c (upd_vc (\<lambda>v. v\<lparr>kbd_table := f (kbd_table v)\<rparr>) c)"
  by (rule keeps_upd_vc) simp_all

lemma upd_table_ok: "kwf N K s \<Longrightarrow> kkeeps N K s (upd_table f s)"
  unfolding upd_table_def by (simp add: on_con_ok kbd_table_ok kwf_def)

lemma shiftstate_k_ok: "kwf N K s \<Longrightarrow> res_ok (kkeeps N K s) (shiftstate_k s)"
  using compute_shiftstate_ok [OF kwfD(1)] set_kb_ok by (fastforce simp: shiftstate_k_def res_ok_ex)

end
