(* ===== verification/Keyboard_Keep.thy ===== *)
theory Keyboard_Keep
  imports Keyboard_Inv
begin

text \<open>
  Every handler of the keyboard driver, and so every key event, returns and keeps the invariant
  of keyboard and console.
\<close>

section \<open>The next and the previous console\<close>

text \<open>The pool entry \<open>k\<close> places before, and after, entry \<open>j\<close> of \<open>n\<close>, going round.\<close>

definition behind :: "int \<Rightarrow> int \<Rightarrow> int \<Rightarrow> int" where
  "behind n j k = (if k \<le> j then j - k else j - k + n)"

definition ahead :: "int \<Rightarrow> int \<Rightarrow> int \<Rightarrow> int" where
  "ahead n j k = (if j + k < n then j + k else j + k - n)"

text \<open>
  The first allocated entry in the direction of \<open>pos\<close>; only when all others are free the
  result may be none.
\<close>

definition nearest :: "(int \<Rightarrow> int) \<Rightarrow> int \<Rightarrow> int option list \<Rightarrow> int option \<Rightarrow> bool" where
  "nearest pos n cons p \<longleftrightarrow>
     (\<exists>k. 1 \<le> k \<and> k \<le> n \<and> (\<forall>l. 1 \<le> l \<and> l < k \<longrightarrow> cons ! nat (pos l) = None) \<and>
        (p \<noteq> None \<and> p = cons ! nat (pos k) \<or> p = None \<and> k = n))"

lemma dec_console_loop_spec:
  assumes "length (vc_cons t) = nat n" "vc_count t = n" "0 \<le> j" "j < n" "vc_cons t ! nat j \<noteq> None"
    and "1 \<le> k" "k \<le> n" "n < int fuel + k" "i = (if k \<le> j + 1 then j - k else j - k + n)"
    and "\<forall>l. 1 \<le> l \<and> l < k \<longrightarrow> vc_cons t ! nat (behind n j l) = None"
  shows "\<exists>p. dec_console_loop fuel t j i = Inr p \<and> nearest (behind n j) n (vc_cons t) p"
  using assms(6-)
proof (induction fuel arbitrary: k i)
  case (Suc fuel)
  show ?case
  proof (cases "i = j")
    case True
    then have "k = n"
      using Suc.prems by (auto split: if_splits)
    then show ?thesis
      using True Suc.prems unfolding nearest_def by auto
  next
    case False
    define i1 where "i1 = (if i = -1 then n - 1 else i)"
    have i1: "i1 = behind n j k" "0 \<le> i1" "i1 < n"
      using False Suc.prems assms(3,4) by (auto simp: i1_def behind_def split: if_splits)
    then have get: "arr_get (vc_cons t) i1 = Inr (vc_cons t ! nat i1)"
      using assms(1) by (simp add: arr_get_def)
    show ?thesis
    proof (cases "vc_cons t ! nat i1")
      case (Some x)
      then have "nearest (behind n j) n (vc_cons t) (Some x)"
        using Suc.prems i1(1) unfolding nearest_def by auto
      then show ?thesis
        using False get Some assms(2) by (cases "i = - 1") (simp_all add: i1_def)
    next
      case None
      have "k \<noteq> n"
      proof
        assume "k = n"
        then have "i1 = j"
          using False Suc.prems(4) assms(3,4) by (auto simp: i1_def split: if_splits)
        then show False
          using None assms(5) by simp
      qed
      moreover have "\<forall>l. 1 \<le> l \<and> l < k + 1 \<longrightarrow> vc_cons t ! nat (behind n j l) = None"
        using Suc.prems(5) None i1(1) by (metis less_le zless_add1_eq)
      moreover have "i1 - 1 = (if k + 1 \<le> j + 1 then j - (k + 1) else j - (k + 1) + n)"
        using False Suc.prems(1,2,4) assms(3,4) by (auto simp: i1_def split: if_splits)
      ultimately obtain p where "dec_console_loop fuel t j (i1 - 1) = Inr p" "nearest (behind n j) n (vc_cons t) p"
        using Suc.IH [of "k + 1" "i1 - 1"] Suc.prems by auto
      then show ?thesis
        using False get None assms(2) by (cases "i = - 1") (simp_all add: i1_def)
    qed
  qed
qed simp

lemma inc_console_loop_spec:
  assumes "length (vc_cons t) = nat n" "vc_count t = n" "0 \<le> j" "j < n" "vc_cons t ! nat j \<noteq> None"
    and "1 \<le> k" "k \<le> n" "n < int fuel + k" "i = (if j + k \<le> n then j + k else j + k - n)"
    and "\<forall>l. 1 \<le> l \<and> l < k \<longrightarrow> vc_cons t ! nat (ahead n j l) = None"
  shows "\<exists>p. inc_console_loop fuel t j i = Inr p \<and> nearest (ahead n j) n (vc_cons t) p"
  using assms(6-)
proof (induction fuel arbitrary: k i)
  case (Suc fuel)
  show ?case
  proof (cases "i = j")
    case True
    then have "k = n"
      using Suc.prems by (auto split: if_splits)
    then show ?thesis
      using True Suc.prems unfolding nearest_def by auto
  next
    case False
    define i1 where "i1 = (if i = n then 0 else i)"
    have i1: "i1 = ahead n j k" "0 \<le> i1" "i1 < n"
      using False Suc.prems assms(3,4) by (auto simp: i1_def ahead_def split: if_splits)
    then have get: "arr_get (vc_cons t) i1 = Inr (vc_cons t ! nat i1)"
      using assms(1) by (simp add: arr_get_def)
    show ?thesis
    proof (cases "vc_cons t ! nat i1")
      case (Some x)
      then have "nearest (ahead n j) n (vc_cons t) (Some x)"
        using Suc.prems i1(1) unfolding nearest_def by auto
      then show ?thesis
        using False get Some assms(2) by (cases "i = n") (simp_all add: i1_def)
    next
      case None
      have "k \<noteq> n"
        using None assms(3,4,5) False Suc.prems(1,4) by (auto simp: i1_def split: if_splits)
      moreover have "\<forall>l. 1 \<le> l \<and> l < k + 1 \<longrightarrow> vc_cons t ! nat (ahead n j l) = None"
        using Suc.prems(5) None i1(1) by (metis less_le zless_add1_eq)
      moreover have "i1 + 1 = (if j + (k + 1) \<le> n then j + (k + 1) else j + (k + 1) - n)"
        using False Suc.prems(1,2,4) assms(3,4) by (auto simp: i1_def split: if_splits)
      ultimately obtain p where "inc_console_loop fuel t j (i1 + 1) = Inr p" "nearest (ahead n j) n (vc_cons t) p"
        using Suc.IH [of "k + 1" "i1 + 1"] Suc.prems by auto
      then show ?thesis
        using False get None assms(2) by (cases "i = n") (simp_all add: i1_def)
    qed
  qed
qed simp

lemma nearest_console:
  assumes "nearest pos n cons p" "p = Some x" "\<And>k. 1 \<le> k \<Longrightarrow> k \<le> n \<Longrightarrow> nat (pos k) < length cons"
  shows "Some x \<in> set cons"
  using assms unfolding nearest_def by (auto simp: in_set_conv_nth) metis

text \<open>The request both keys make, on the display of the console at hand.\<close>

lemma step_console_run:
  assumes "wf_con K c" "wf_front c" "is_visible c"
    and t: "t = vt c" "n = vc_count t" "j = vc_num (vc c) - first_vc t"
    and loop: "(loop, dir, pos) = (dec_console_loop, -1, behind n j) \<or>
      (loop, dir, pos) = (inc_console_loop, 1, ahead n j)"
  shows "\<exists>p. nearest pos n (vc_cons t) p \<and>
    (case p of None \<Rightarrow> step_console loop dir c = Inr c
     | Some x \<Rightarrow> get_console c x \<noteq> None \<and> step_console loop dir c = set_console (Some x) c)"
proof -
  let ?me = "vc_num (vc c)"
  have fg: "fg_console t = Some ?me"
    using assms(3) t(1) by (simp add: is_visible_def)
  have f: "display_fg (vc c) \<in> set (vt_list c)" "0 \<le> j" "j < n" "vc_cons t ! nat j = Some ?me"
    using assms(2) fg t unfolding wf_front_def vt_def by (force simp: algebra_simps)+
  have s: "length (vc_cons t) = nat n" "\<And>x. Some x \<in> set (vc_cons t) \<Longrightarrow> get_console c x \<noteq> None"
    using wf_conD(8) [OF assms(1)] f(1) t unfolding wf_switch_def vt_def by auto
  have "\<exists>p. dec_console_loop (nat n + 1) t j (j - 1) = Inr p \<and> nearest (behind n j) n (vc_cons t) p"
    using f by (intro dec_console_loop_spec [OF s(1) t(2) [symmetric], where k = 1]) auto
  moreover have "\<exists>p. inc_console_loop (nat n + 1) t j (j + 1) = Inr p \<and> nearest (ahead n j) n (vc_cons t) p"
    using f by (intro inc_console_loop_spec [OF s(1) t(2) [symmetric], where k = 1]) auto
  ultimately have "\<exists>p. loop (nat n + 1) t j (j + dir) = Inr p \<and> nearest pos n (vc_cons t) p"
    using loop by (elim disjE) (simp_all del: dec_console_loop.simps inc_console_loop.simps)
  then obtain p where p: "loop (nat n + 1) t j (j + dir) = Inr p" "nearest pos n (vc_cons t) p"
    by blast
  have "nat (pos k) < length (vc_cons t)" if "1 \<le> k" "k \<le> n" for k
    using loop that f(2,3) s(1) by (auto simp: behind_def ahead_def)
  then have "p = Some x \<Longrightarrow> get_console c x \<noteq> None" for x
    using nearest_console [OF p(2)] s(2) by blast
  then show ?thesis
    using p fg t unfolding step_console_def
    by (intro exI [of _ p]) (auto simp: Let_def split: option.split)
qed

section \<open>Handlers\<close>

context drawing_driver
begin

lemma queue_ok: "kwf N K s \<Longrightarrow> kkeeps N K s (queue ch s)"
  unfolding queue_def by (simp add: on_con_ok put_queue_ok kwfD(2))

lemma queue_step: "kkeeps N K s s1 \<Longrightarrow> kkeeps N K s (queue ch s1)"
  by (rule kkeeps_step [OF _ queue_ok])

lemma puts_ok: "kwf N K s \<Longrightarrow> kkeeps N K s (on_con (puts_queue w) s)"
  by (simp add: on_con_ok puts_queue_ok kwfD(2))

lemma applkey_ok: "kwf N K s \<Longrightarrow> kkeeps N K s (on_con (applkey k m) s)"
  unfolding applkey_def by (rule puts_ok)

lemma to_utf8_ok: "kwf N K s \<Longrightarrow> kkeeps N K s (on_con (to_utf8 ch) s)"
  unfolding to_utf8_def
  by (rule on_con_ok, assumption) (auto intro!: keeps_step [OF _ put_queue_ok] put_queue_ok dest: kwfD(2))

lemma log_ok: "kwf N K s \<Longrightarrow> kkeeps N K s (on_con (log e) s)"
  by (simp add: on_con_ok kwfD(2))

lemma set_console_k_ok:
  "wf_con K c \<Longrightarrow> get_console c n \<noteq> None \<Longrightarrow> res_ok (keeps K c) (set_console (Some n) c)"
  using set_console_ok by blast

lemma handle_diacr_ok:
  assumes "kwf N K s"
  shows "res_ok (\<lambda>(x, s'). kkeeps N K s s') (handle_diacr ch s)"
proof -
  have k: "kkeeps N K s (upd_kb (\<lambda>b. b\<lparr>diacr := 0\<rparr>) s)"
    using assms by (simp add: upd_kb_ok kwfD(1))
  obtain r where "find_accent (accent_table (kb s)) (accent_table_size (kb s)) (diacr (kb s)) ch = Inr r"
    using find_accent_ok wf_kbD(8) [OF kwfD(1) [OF assms]] by blast
  then show ?thesis
    using k queue_step [OF k] by (auto simp: handle_diacr_def Let_def split: option.split)
qed

lemma diacr_or_ok:
  "kwf N K s \<Longrightarrow> res_ok (\<lambda>(x, s'). kkeeps N K s s') (if b then handle_diacr ch s else Inr (ch', s))"
  using handle_diacr_ok by simp

lemma fn_enter_ok: "kwf N K s \<Longrightarrow> kkeeps N K s (fn_enter s)"
proof -
  assume s: "kwf N K s"
  then have "kkeeps N K s (upd_kb (\<lambda>b. b\<lparr>diacr := 0\<rparr>) (queue ch s))" for ch
    by (intro kkeeps_step [OF queue_ok upd_kb_ok]) (simp_all add: kwfD(1))
  then show ?thesis
    using s by (auto simp: fn_enter_def Let_def intro!: queue_step)
qed

lemma vt_stop_start_ok:
  "wf_con K c \<Longrightarrow> keeps K c (vt_stop c)" "wf_con K c \<Longrightarrow> keeps K c (log e (vt_start c))"
  unfolding vt_stop_def vt_start_def
  by (auto intro!: keeps_step [OF _ keeps_log] kbd_table_ok)

lemma fn_hold_ok: "kwf N K s \<Longrightarrow> kkeeps N K s (fn_hold s)"
  unfolding fn_hold_def stop_tty_def start_tty_def
  by (auto split: option.split intro!: kkeeps_step [OF ttys_ok on_con_ok] vt_stop_start_ok dest: kwfD(2))

lemma fn_lastcons_ok: "kwf N K s \<Longrightarrow> res_ok (kkeeps N K s) (fn_lastcons s)"
proof -
  assume s: "kwf N K s"
  then obtain n where n: "last_console (vt (kc s)) = Some n"
    using kwfD(3,4) unfolding wf_front_def is_visible_def vt_def by blast
  then have "get_console (kc s) n \<noteq> None"
    using wf_conD(8) [OF kwfD(2) [OF s]] unfolding wf_switch_def vt_def by blast
  then show ?thesis
    unfolding fn_lastcons_def using s n by (simp add: on_con_res_ok set_console_k_ok kwfD(2))
qed

lemma step_console_ok:
  assumes "wf_con K c" "wf_front c" "is_visible c"
    and loop: "(loop, dir) = (dec_console_loop, -1) \<or> (loop, dir) = (inc_console_loop, 1)"
  shows "res_ok (keeps K c) (step_console loop dir c)"
proof -
  obtain pos where "(loop, dir, pos) = (dec_console_loop, -1, behind (vc_count (vt c)) (vc_num (vc c) - first_vc (vt c))) \<or>
      (loop, dir, pos) = (inc_console_loop, 1, ahead (vc_count (vt c)) (vc_num (vc c) - first_vc (vt c)))"
    using loop by auto
  from step_console_run [OF assms(1-3) refl refl refl this] show ?thesis
    using assms(1) set_console_k_ok by (auto split: option.splits)
qed

lemma fn_dec_inc_ok:
  "kwf N K s \<Longrightarrow> res_ok (kkeeps N K s) (fn_dec_console s)"
  "kwf N K s \<Longrightarrow> res_ok (kkeeps N K s) (fn_inc_console s)"
  unfolding fn_dec_console_def fn_inc_console_def
  by (auto intro!: on_con_res_ok step_console_ok dest: kwfD)

lemma fn_send_intr_ok: "kwf N K s \<Longrightarrow> kkeeps N K s (fn_send_intr s)"
  unfolding fn_send_intr_def
  by (rule on_con_ok, assumption)
    (auto split: option.split intro!: keeps_step [OF keeps_log keeps_log] dest: kwfD(2))

lemma fn_scroll_ok: "kwf N K s \<Longrightarrow> kkeeps N K s (fn_scroll_forw s)" "kwf N K s \<Longrightarrow> kkeeps N K s (fn_scroll_back s)"
  unfolding fn_scroll_forw_def fn_scroll_back_def scroll_down_def scroll_up_def
  by (auto intro!: on_con_ok scrolldelta_ok simp: Let_def dest: kwfD(2))

lemma fn_spawn_con_ok: "kwf N K s \<Longrightarrow> kkeeps N K s (fn_spawn_con e s)"
  unfolding fn_spawn_con_def Let_def
  by (auto intro: log_ok intro!: kkeeps_step [OF log_ok upd_kb_ok] dest: kwfD(1))

lemma fn_SAK_ok: "kwf N K s \<Longrightarrow> kkeeps N K s (fn_SAK sw e s)"
  unfolding fn_SAK_def
  by (rule on_con_ok, assumption)
    (auto split: option.split intro!: keeps_step [OF keeps_log reset_vc_ok] reset_vc_ok dest: kwfD(2))

lemma fn_handler_ok: "kwf N K s \<Longrightarrow> res_ok (kkeeps N K s) (fn_handler sw e value s)"
  unfolding fn_handler_def fn_null_def fn_show_ptregs_def fn_show_mem_def fn_show_state_def
    fn_caps_toggle_def fn_num_def fn_bare_num_def fn_boot_it_def fn_caps_on_def fn_compose_def
  by (simp add: shiftstate_k_ok fn_enter_ok log_ok fn_send_intr_ok fn_lastcons_ok upd_table_ok
      applkey_ok fn_hold_ok fn_scroll_ok fn_SAK_ok fn_dec_inc_ok fn_spawn_con_ok upd_kb_ok kwfD(1))

lemma k_self_ok: "kwf N K s \<Longrightarrow> res_ok (kkeeps N K s) (k_self value up s)"
proof -
  assume s: "kwf N K s"
  have *: "res_ok (kkeeps N K s) (case r of (x, s1) \<Rightarrow>
      if dead_key_next (kb s1) then Inr (upd_kb (\<lambda>b. b\<lparr>dead_key_next := False, diacr := x\<rparr>) s1)
      else Inr (queue (uint x) s1))" if "case r of (x, s') \<Rightarrow> kkeeps N K s s'" for r
    using that by (auto intro!: kkeeps_step [OF _ upd_kb_ok] queue_step simp: kwfD(1))
  show ?thesis
    unfolding k_self_def by (rule res_ok_if) (simp_all only: s kkeeps_refl res_ok_simps res_ok_bind [OF diacr_or_ok [OF s] *])
qed

lemma k_dead2_ok: "kwf N K s \<Longrightarrow> res_ok (kkeeps N K s) (k_dead2 value up s)"
proof -
  assume s: "kwf N K s"
  have *: "res_ok (kkeeps N K s) (case r of (x, s1) \<Rightarrow> Inr (upd_kb (\<lambda>b. b\<lparr>diacr := x\<rparr>) s1))"
    if "case r of (x, s') \<Rightarrow> kkeeps N K s s'" for r
    using that by (auto intro!: kkeeps_step [OF _ upd_kb_ok] simp: kwfD(1))
  show ?thesis
    unfolding k_dead2_def by (rule res_ok_if) (simp_all only: s kkeeps_refl res_ok_simps res_ok_bind [OF diacr_or_ok [OF s] *])
qed

lemma k_dead_ok: "kwf N K s \<Longrightarrow> 0 \<le> value \<Longrightarrow> value \<le> 5 \<Longrightarrow> res_ok (kkeeps N K s) (k_dead value up s)"
  by (simp add: k_dead_def arr_get_def ret_diacr_def k_dead2_ok)

lemma k_cons_ok: "kwf N K s \<Longrightarrow> res_ok (kkeeps N K s) (k_cons value up s)"
  unfolding k_cons_def
proof (rule on_con_res_ok)
  assume s: "kwf N K s"
  show "res_ok (keeps K (kc s)) (res_bind (find_vc (value + first_vc (vt (kc s))) (kc s))
      (\<lambda>p. if up \<or> p = None then Inr (kc s) else set_console p (kc s)))"
    using find_vc_ok [OF kwfD(2) [OF s]]
    by (rule res_ok_bind) (auto simp: kwfD(2) [OF s] set_console_k_ok [OF kwfD(2) [OF s]])
qed

lemma k_fn_ok: "kwf N K s \<Longrightarrow> 0 \<le> value \<Longrightarrow> value < 256 \<Longrightarrow> res_ok (kkeeps N K s) (k_fn value up s)"
  using func_string [of N "kb s" "value"] puts_ok [of N s] kwfD(1) [of N K s] 
  by (auto simp: k_fn_def split: option.split)

lemma k_cur_ok: "kwf N K s \<Longrightarrow> 0 \<le> value \<Longrightarrow> value \<le> 3 \<Longrightarrow> res_ok (kkeeps N K s) (k_cur value up s)"
  by (simp add: k_cur_def arr_get_def cur_chars_def applkey_ok)

lemma pad_cursor_ok: "kwf N K s \<Longrightarrow> pad_cursor value s = Some r \<Longrightarrow> res_ok (kkeeps N K s) r"
  unfolding pad_cursor_def by (auto split: if_splits intro: k_fn_ok k_cur_ok applkey_ok)

lemma pad_char_ok: "kwf N K s \<Longrightarrow> 0 \<le> value \<Longrightarrow> value < 22 \<Longrightarrow> res_ok (kkeeps N K s) (pad_char value s)"
  by (auto simp: pad_char_def arr_get_def pad_chars_def Let_def intro!: queue_step)

lemma k_pad_ok:
  assumes "kwf N K s" "0 \<le> value" "value \<le> 19"
  shows "res_ok (kkeeps N K s) (k_pad value up s)"
proof -
  have "arr_get (shift_down (kb s)) KG_SHIFT = Inr (shift_down (kb s) ! 0)"
    using wf_kbD(5) [OF kwfD(1) [OF assms(1)]] by (simp add: arr_get_def)
  moreover have "arr_get app_map value = Inr (app_map ! nat value)"
    using assms by (simp add: arr_get_def app_map_def)
  ultimately show ?thesis
    using assms pad_cursor_ok [OF assms(1), of "value"] pad_char_ok [OF assms(1,2)] applkey_ok [OF assms(1)]
    by (auto simp: k_pad_def split: option.split)
qed

lemma k_shift_ok:
  assumes "kwf N K s" "0 \<le> value" "value \<le> 8"
  shows "res_ok (kkeeps N K s) (k_shift value up s)"
proof (cases "rep (kb s)")
  case False
  define v s1 where v: "v = (if value = KG_CAPSSHIFT then KG_SHIFT else value)"
    and s1: "s1 = (if value = KG_CAPSSHIFT \<and> \<not> up then upd_table (clr_kbd_led VC_CAPSLOCK) s else s)"
  have k: "kkeeps N K s s1"
    using assms(1) by (simp add: s1 upd_table_ok)
  have "0 \<le> v" "v < 8"
    using assms(2,3) by (simp_all add: v)
  then obtain b where b: "shift_count v up (kb s1) = Inr b" "wf_kb N b"
    using shift_count_ok [OF kwfD(1) [OF kkeeps_kwf [OF k]], of v up] by (auto simp: res_ok_ex)
  have k2: "kkeeps N K s (s1\<lparr>kb := b\<rparr>)"
    using kkeeps_step [OF k set_kb_ok] b(2) by blast
  have "kkeeps N K s (upd_kb (\<lambda>b. b\<lparr>npadch := -1\<rparr>) s2)" if "kkeeps N K s s2" for s2
    using that by (rule kkeeps_step [OF _ upd_kb_ok]) (simp_all add: kwfD(1))
  then show ?thesis
    using False k2 b(1) queue_step [OF k2] kkeeps_step [OF k2 to_utf8_ok]
    by (cases up) (simp_all add: k_shift_def Let_def v s1 split: if_splits)
qed (use assms in \<open>simp add: k_shift_def\<close>)

lemma k_meta_ok: "kwf N K s \<Longrightarrow> kkeeps N K s (k_meta value up s)"
  by (simp add: k_meta_def queue_step)

lemma k_ascii_ok: "kwf N K s \<Longrightarrow> kkeeps N K s (k_ascii value up s)"
  by (simp add: k_ascii_def Let_def upd_kb_ok kwfD(1) split: if_splits)

lemma k_lock_ok: "kwf N K s \<Longrightarrow> kkeeps N K s (k_lock value up s)"
  by (simp add: k_lock_def upd_table_ok)

lemma k_slock_ok:
  assumes "kwf N K s" "0 \<le> value" "value \<le> 7"
  shows "res_ok (kkeeps N K s) (k_slock value up s)"
  unfolding k_slock_def
proof (rule kkeeps_bind)
  show "res_ok (kkeeps N K s) (k_shift value up s)"
    using k_shift_ok [OF assms(1,2)] assms(3) by simp
  fix s1 assume s1: "kwf N K s1"
  let ?s2 = "upd_table (chg_kbd_slock (nat value)) s1"
  have "kkeeps N K s1 (upd_table f ?s2)" "kkeeps N K s1 ?s2" for f
    using s1 kkeeps_step [OF upd_table_ok upd_table_ok] upd_table_ok by blast+
  moreover have "arr_get (key_maps (kb ?s2)) (uint (lockstate (ktable ?s2) XOR slockstate (ktable ?s2)))
      = Inr (key_maps (kb ?s2) ! unat (lockstate (ktable ?s2) XOR slockstate (ktable ?s2)))"
    using wf_kbD(1) [OF kwfD(1) [OF kkeeps_kwf [OF calculation(2)]]]
      uint_bounded [of "lockstate (ktable ?s2) XOR slockstate (ktable ?s2)"]
    by (simp add: arr_get_def)
  ultimately show "res_ok (kkeeps N K s1)
     (if up \<or> rep (kb s1) then Inr s1
      else let s2 = ?s2 in
        res_bind (arr_get (key_maps (kb s2)) (uint (lockstate (ktable s2) XOR slockstate (ktable s2))))
          (\<lambda>m. Inr (if m = None then upd_table (\<lambda>k. chg_kbd_slock (nat value) (k\<lparr>slockstate := 0\<rparr>)) s2 else s2)))"
    using s1 by (simp add: Let_def)
qed

lemma k_handler_ok:
  assumes "kwf N K s" "0 \<le> value" "value < 256" "0 \<le> ty"
    and "ty < 14 \<Longrightarrow> ty \<noteq> KT_SPEC \<Longrightarrow> value \<le> max_vals ! nat ty"
  shows "res_ok (kkeeps N K s) (k_handler sw e ty value up s)"
proof -
  have v: "ty = 3 \<Longrightarrow> value \<le> 19" "ty = 4 \<Longrightarrow> value \<le> 5" "ty = 6 \<Longrightarrow> value \<le> 3" "ty = 7 \<Longrightarrow> value \<le> 8"
    "ty = 12 \<Longrightarrow> value \<le> 7"
    using assms(5) by (auto simp: max_vals_def)
  have "res_ok (kkeeps N K s) (k_spec sw e value up s)"
    using assms(1) fn_handler_ok by (simp add: k_spec_def)
  then show ?thesis
    using assms(1-3) v k_self_ok k_fn_ok k_pad_ok k_dead_ok k_cons_ok k_cur_ok k_shift_ok k_meta_ok
      k_ascii_ok k_lock_ok k_slock_ok k_dead2_ok
    by (simp add: k_handler_def)
qed

section \<open>Key events\<close>

lemma emulate_raw_ok: "kwf N K s \<Longrightarrow> emulate_raw k up s = Some s' \<Longrightarrow> kkeeps N K s s'"
  unfolding emulate_raw_def by (auto simp: Let_def split: if_splits intro!: queue_step)

lemma mediumraw_ok: "kwf N K s \<Longrightarrow> kkeeps N K s (mediumraw k up s)"
  unfolding mediumraw_def by (auto intro!: queue_step)

lemma handle_keysym_ok:
  assumes "kwf N K s" "0 \<le> keycode" "keycode < int N" "key_maps (kb s) ! i = Some m" "i < 256"
    and "uint (sf XOR 1) < 256"
  shows "res_ok (kkeeps N K s) (handle_keysym sw e keycode dn raw sf m s)"
proof -
  note b = kwfD(1) [OF assms(1)]
  have k: "nat keycode < N"
    using assms(2,3) by simp
  have get: "arr_get m' keycode = Inr (m' ! nat keycode)" if "key_maps (kb s) ! j = Some m'" "j < 256" for j m'
    using that wf_kbD(3) [OF b, of j m'] assms(2) k by (simp add: arr_get_def)
  define w ty where w: "w = m ! nat keycode" and ty: "ty = KTYP w - 0xf0"
  have "wf_keysym w"
    using wf_kbD(4) [OF b assms(4,5) k] by (simp add: w)
  then have h: "res_ok (kkeeps N K s) (k_handler sw e ty (KVAL w) (\<not> dn) s)" if "0 \<le> ty"
    using that KVAL_range [of w] by (intro k_handler_ok [OF assms(1)]) (auto simp: wf_keysym_def ty)
  have latin: "res_ok (kkeeps N K s) (k_handler sw e KT_LATIN (KVAL ks) (\<not> dn) s)" for ks
    using KVAL_range [of ks] by (intro k_handler_ok [OF assms(1)]) (auto simp: max_vals_def)
  have fin: "res_ok (kkeeps N K s) (res_bind (k_handler sw e ty' (KVAL ks) (\<not> dn) s)
      (\<lambda>s1. Inr (if ty' \<noteq> KT_SLOCK then upd_table (\<lambda>k. k\<lparr>slockstate := 0\<rparr>) s1 else s1)))"
    if "res_ok (kkeeps N K s) (k_handler sw e ty' (KVAL ks) (\<not> dn) s)" for ty' ks
    using that by (rule kkeeps_bind) (simp add: upd_table_ok)
  have caps: "arr_get (key_maps (kb s)) (uint (sf XOR 1)) = Inr (key_maps (kb s) ! unat (sf XOR 1))"
    "unat (sf XOR 1) < 256"
    using assms(6) wf_kbD(1) [OF b] by (simp_all add: arr_get_def flip: nat_uint_eq)
  show ?thesis
    using get [OF assms(4,5)] get [OF _ caps(2)] caps(1) fin [OF latin] fin [OF h] assms(1) to_utf8_ok
    by (auto simp: handle_keysym_def Let_def w ty split: option.split)
qed

lemma kbd_keysym_ok:
  assumes "kwf N K s" "0 \<le> keycode" "keycode < int N"
  shows "res_ok (kkeeps N K s) (kbd_keysym sw e keycode dn raw s)"
proof -
  note b = kwfD(1) [OF assms(1)]
  note ix = shift_index [OF b, of "slockstate (ktable s)" "lockstate (ktable s)"]
  show ?thesis
  proof (cases "key_maps (kb s) ! unat ((shift_state (kb s) OR ucast (slockstate (ktable s)))
      XOR (ucast (lockstate (ktable s)) :: 32 word))")
    case None
    have "res_ok (kkeeps N K s) (res_bind (shiftstate_k s) (\<lambda>s1. Inr (upd_table (\<lambda>k. k\<lparr>slockstate := 0\<rparr>) s1)))"
      using shiftstate_k_ok [OF assms(1)] by (rule kkeeps_bind) (simp add: upd_table_ok)
    then show ?thesis
      using None ix(1) by (simp add: kbd_keysym_def Let_def)
  next
    case (Some m)
    then show ?thesis
      using ix(1) handle_keysym_ok [OF assms Some ix(2,3)] assms(1)
      by (simp add: kbd_keysym_def Let_def)
  qed
qed

lemma kbd_keycode_ok:
  assumes "kwf N K s" "0 \<le> keycode" "keycode < int N" "keycode < 512"
  shows "res_ok (kkeeps N K s) (kbd_keycode sw e xlate keycode down hw_raw s)"
proof -
  define s1 where "s1 = upd_kb (\<lambda>b. b\<lparr>sysrq_alt := (if keycode = KEY_LEFTALT \<or> keycode = KEY_RIGHTALT
    then down \<noteq> 0 else sysrq_alt b), rep := (down = 2)\<rparr>) s"
  define up where "up = (if down \<noteq> 0 then 0 else 0x80 :: int)"
  define s2 where "s2 = (if kbdmode (ktable s1) = VC_RAW \<and> \<not> hw_raw
    then (case emulate_raw keycode up s1 of Some s \<Rightarrow> s | None \<Rightarrow> s1) else s1)"
  define s3 where "s3 = (if kbdmode (ktable s2) = VC_MEDIUMRAW then mediumraw keycode up s2 else s2)"
  have k1: "kkeeps N K s s1"
    unfolding s1_def using assms(1) by (intro upd_kb_ok) (simp_all add: kwfD(1))
  have k2: "kkeeps N K s s2"
    unfolding s2_def using k1 kkeeps_step [OF k1 emulate_raw_ok] by (auto split: option.split)
  have k3: "kkeeps N K s s3"
    unfolding s3_def using k2 kkeeps_step [OF k2 mediumraw_ok] by auto
  have fin: "res_ok (kkeeps N K s) (res_bind (set_key keycode dn (kb s3)) (\<lambda>b.
      if P (s3\<lparr>kb := b\<rparr>) then Inr (s3\<lparr>kb := b\<rparr>)
      else kbd_keysym sw e keycode dn raw (s3\<lparr>kb := b\<rparr>)))" for P dn raw
    using set_key_ok [OF kwfD(1) [OF kkeeps_kwf [OF k3]] assms(2-4)]
  proof (rule res_ok_bind)
    fix b assume "wf_kb N b"
    then have k4: "kkeeps N K s (s3\<lparr>kb := b\<rparr>)"
      using kkeeps_step [OF k3 set_kb_ok] by blast
    then show "res_ok (kkeeps N K s) (if P (s3\<lparr>kb := b\<rparr>) then Inr (s3\<lparr>kb := b\<rparr>)
        else kbd_keysym sw e keycode dn raw (s3\<lparr>kb := b\<rparr>))"
      using res_ok_mono [OF kbd_keysym_ok [OF kkeeps_kwf [OF k4] assms(2,3)] kkeeps_trans [OF k4]] by simp
  qed
  have "kkeeps N K s (upd_kb (\<lambda>b. b\<lparr>sysrq_down := x\<rparr>) s2)" for x
    by (rule kkeeps_step [OF k2 upd_kb_ok]) (simp_all add: kwfD(1))
  moreover have "kkeeps N K s (on_con (log ev) s2)" for ev
    by (rule kkeeps_step [OF k2 log_ok])
  ultimately show ?thesis
    using fin [where P = "\<lambda>s4. rep (kb s4) \<and>
                (\<not> get_kbd_mode (ktable s4) VC_REPEAT \<or>
                 (case vc_tty (vc (kc s4)) of
                    None \<Rightarrow> False
                  | Some t \<Rightarrow> \<not> L_ECHO (ttys s4 t) \<and> vt_chars_in_buffer \<noteq> 0))"]
    unfolding kbd_keycode_def Let_def s1_def [symmetric] up_def [symmetric]
    unfolding s2_def [symmetric] unfolding s3_def [symmetric]
    by (intro res_ok_if) (simp_all only: res_ok_simps)
qed

text \<open>The same from any console, on the console a display has in front.\<close>

lemma in_kconsole_ok:
  assumes wf: "wf_con K (kc s)" "wf_front (kc s)" and fg: "fg_console (vts (kc s) d) = Some n"
    and b: "wf_kb N (kb s)"
    and f: "\<And>s'. kwf N K s' \<Longrightarrow> res_ok (kkeeps N K s') (f s')"
  shows "res_ok (\<lambda>s'. wf_kb N (kb s') \<and> keeps K (kc s) (kc s')) (in_kconsole (Some n) f s)"
proof -
  let ?g = "\<lambda>c. res_bind (f (s\<lparr>kc := c\<rparr>)) (\<lambda>s'. Inr (kc s'))"
  have vis: "kwf N K (s\<lparr>kc := c'\<rparr>)"
    if "wf_con K c'" "vts c' = vts (kc s)" "vt_list c' = vt_list (kc s)" "vc_num (vc c') = n" for c'
  proof -
    have "display_fg (vc c') = d"
      using wf_conD(3) [OF that(1), of d n] that fg get_console_own [of c'] by simp
    then show ?thesis
      using that wf(2) b fg by (simp add: kwf_def wf_front_def is_visible_def vt_def)
  qed
  show ?thesis
  proof (cases "n = vc_num (vc (kc s))")
    case True
    then show ?thesis
      using f [OF vis [of "kc s"]] wf(1) by (auto simp: in_kconsole_def Let_def kkeeps_def kwf_def elim: res_ok_mono)
  next
    case False
    obtain v where v: "pool (kc s) n = Some v"
      using wf_conD(3) [OF wf(1) fg] False by (auto simp: get_console_def)
    let ?c1 = "(kc s)\<lparr>vc := v, pool := (pool (kc s))(vc_num (vc (kc s)) \<mapsto> vc (kc s))\<rparr>"
    have c1: "wf_con K ?c1"
      using get_console_focus [OF wf(1) v False] wf(1) by (subst wf_con_cong [of _ "kc s"]) simp_all
    have num: "vc_num v = n"
      using v False by (intro wf_conD(2) [OF wf(1)]) (simp add: get_console_def)
    obtain s' where s': "f (s\<lparr>kc := ?c1\<rparr>) = Inr s'" "kkeeps N K (s\<lparr>kc := ?c1\<rparr>) s'"
      using f [OF vis [of ?c1]] c1 num by (auto simp: res_ok_ex)
    have "res_ok (keeps K (kc s)) (in_console (Some n) (\<lambda>c. if c = ?c1 then Inr (kc s') else Inr c) (kc s))"
      using wf_conD(3) [OF wf(1) fg] s'(2) by (intro keeps_in_console [OF wf(1) refl]) (auto simp: kkeeps_def)
    then show ?thesis
      using False v s' by (auto simp: in_console_def in_kconsole_def Let_def kkeeps_def kwf_def split: option.splits)
  qed
qed

lemma kbd_event_ok:
  assumes wf: "wf_con K (kc s)" "wf_front (kc s)" "wf_kb N (kb s)" "fg_console (vts (kc s) d) \<noteq> None"
    and key: "\<And>k v. ev = Key_event k v \<Longrightarrow> 0 \<le> k \<and> k < int N \<and> k < 512"
  shows "res_ok (\<lambda>s'. wf_kb N (kb s') \<and> keeps K (kc s) (kc s')) (kbd_event sw e xlate (Some d) hw_raw ev s)"
proof -
  obtain n where n: "fg_console (vts (kc s) d) = Some n"
    using wf(4) by blast
  have raw: "kwf N K s' \<Longrightarrow> res_ok (kkeeps N K s') (Inr (kbd_rawcode v s'))" for v s'
    by (simp add: kbd_rawcode_def queue_ok)
  have "res_ok (\<lambda>s'. wf_kb N (kb s') \<and> keeps K (kc s) (kc s'))
      (case ev of
         Raw_event v \<Rightarrow> if hw_raw then in_kconsole (Some n) (\<lambda>s. Inr (kbd_rawcode v s)) s else Inr s
       | Key_event code v \<Rightarrow> in_kconsole (Some n) (kbd_keycode sw e xlate code v hw_raw) s
       | Other_event \<Rightarrow> Inr s)"
    using in_kconsole_ok [OF wf(1,2) n wf(3)] raw kbd_keycode_ok key wf(1,3)
    by (cases ev) auto
  then show ?thesis
    unfolding kbd_event_def option.case Let_def n
  proof (rule res_ok_bind)
    fix s1 :: "'d kcon"
    assume "wf_kb N (kb s1) \<and> keeps K (kc s) (kc s1)"
    then show "res_ok (\<lambda>s'. wf_kb N (kb s') \<and> keeps K (kc s) (kc s'))
       (Inr (on_con (\<lambda>c. log (Vt_work d) (log Set_leds c)) (upd_kb (\<lambda>b. b\<lparr>do_poke_blanked_console := True\<rparr>) s1)))"
      by (auto simp: on_con_def upd_kb_def intro!: keeps_step [OF _ keeps_log])
  qed
qed

end

end
