(* ===== verification/Emulator_Props.thy ===== *)
theory Emulator_Props
  imports Vga_Example
begin

text \<open>
  What whole escape sequences do: parameters are parsed as decimal numbers, a cursor position
  report sent back positions the cursor, a palette sequence stores its colour, the
  controls that cancel a sequence do so in every state, and a request for a missing console
  faults. \<open>emulate\<close> feeds a string of characters to \<open>terminal_emulation\<close>, as \<open>do_con_write\<close>
  does with the characters it does not display.
\<close>

section \<open>Strings of characters\<close>

fun emulate :: "'d consw \<Rightarrow> int list \<Rightarrow> 'd con \<Rightarrow> 'd con res" where
  "emulate sw [] c = Inr c"
| "emulate sw (ch # s) c = res_bind (terminal_emulation sw ch c) (emulate sw s)"

lemma emulate_append: "emulate sw (s @ t) c = res_bind (emulate sw s c) (emulate sw t)"
  by (induction s arbitrary: c) (simp_all add: res_bind_def split: sum.split)

text \<open>Graphic characters are neither C0 nor C1 controls, so the parser state decides.\<close>

lemma te_graphic:
  "0x20 \<le> ch \<Longrightarrow> ch < 0x7f \<Longrightarrow> terminal_emulation sw ch c = te_state sw ch c"
  by (simp add: terminal_emulation_def te_c0_def te_c1_def)

lemma te_esc_char: "terminal_emulation sw 0x1b c = Inr (goto_state ESesc c)"
  by (simp add: terminal_emulation_def te_c0_def)

lemma upd_vc_upd_vc: "upd_vc f (upd_vc g c) = upd_vc (\<lambda>v. f (g v)) c"
  by (simp add: upd_vc_def)

section \<open>Parameters\<close>

lemma te_state_csi:
  "vc_state (vc c) = EScsi \<Longrightarrow> te_state sw ch c = te_csi sw ch c"
  "vc_state (vc c) = EScsi_getpars \<Longrightarrow> te_state sw ch c = te_csi_getpars sw ch c"
  by (simp_all add: te_state_def Let_def)

lemma te_digit:
  assumes "vc_state (vc c) = EScsi_getpars" "0 \<le> vc_npar (vc c)" "nat (vc_npar (vc c)) < length (vc_par (vc c))"
    and "0 \<le> d" "d \<le> 9"
  shows "terminal_emulation sw (48 + d) c =
    Inr (upd_vc (\<lambda>v. v\<lparr>vc_par := (vc_par v)[nat (vc_npar v) := u32 (vc_par v ! nat (vc_npar v) * 10 + d)]\<rparr>) c)"
proof -
  have "u32 (u32 (p * 10) + d) = u32 (p * 10 + d)" for p
    by (simp add: u32_def mod_simps)
  then show ?thesis
    using assms te_graphic [of "48 + d" sw c]
    by (simp add: te_state_csi te_csi_getpars_def arr_get_def arr_set_def upd_vc_def nat_less_iff_int Let_def)
qed

lemma emulate_dec_nat:
  assumes "vc_state (vc c) = EScsi_getpars" "0 \<le> vc_npar (vc c)"
    and "nat (vc_npar (vc c)) < length (vc_par (vc c))" "vc_par (vc c) ! nat (vc_npar (vc c)) = 0"
  shows "emulate sw (dec_nat n) c
    = Inr (upd_vc (\<lambda>v. v\<lparr>vc_par := (vc_par v)[nat (vc_npar v) := u32 (int n)]\<rparr>) c)"
proof (induction n rule: dec_nat.induct)
  case (1 n)
  let ?set = "\<lambda>x. upd_vc (\<lambda>v. v\<lparr>vc_par := (vc_par v)[nat (vc_npar v) := x]\<rparr>) c"
  show ?case
  proof (cases "n < 10")
    case True
    then show ?thesis using te_digit [OF assms(1-3), of "int n" sw] assms(4)
      by (simp add: dec_nat.simps [of n] u32_def upd_vc_def)
  next
    case False
    have "u32 (u32 (int (n div 10)) * 10 + int (n mod 10)) = u32 (int (n div 10) * 10 + int (n mod 10))"
      unfolding u32_def by (metis mod_add_left_eq mod_mult_left_eq)
    moreover have "int (n div 10) * 10 + int (n mod 10) = int n"
      by (metis div_mult_mod_eq of_nat_add of_nat_mult of_nat_numeral)
    ultimately have "u32 (u32 (int (n div 10)) * 10 + int (n mod 10)) = u32 (int n)"
      by simp
    then have "terminal_emulation sw (48 + int (n mod 10)) (?set (u32 (int (n div 10)))) = Inr (?set (u32 (int n)))"
      using te_digit [of "?set (u32 (int (n div 10)))" "int (n mod 10)" sw] assms
      by (simp add: upd_vc_def)
    then show ?thesis
      using False 1 by (subst dec_nat.simps) (simp add: emulate_append)
  qed
qed

lemma dec_nat_digits: "ch \<in> set (dec_nat n) \<Longrightarrow> 48 \<le> ch \<and> ch \<le> 57"
proof (induction n rule: dec_nat.induct)
  case (1 n)
  then show ?case
    by (cases "n < 10") (auto simp: dec_nat.simps [of n])
qed

lemma dec_nat_not_Nil [simp]: "dec_nat n \<noteq> []"
  by (simp add: dec_nat.simps [of n])

text \<open>\<open>CSI\<close> and the first character of the parameters.\<close>

definition csi_begin :: "'d con \<Rightarrow> 'd con" where
  "csi_begin c = upd_vc (\<lambda>v. (clear_params v)\<lparr>vc_state := EScsi_getpars, vc_priv1 := False,
     vc_priv2 := False, vc_priv3 := False, vc_priv4 := False\<rparr>) c"

lemma emulate_csi:
  assumes "0x20 \<le> ch" "ch < 0x7f" "ch \<noteq> 0x5b" "ch \<noteq> 0x3c" "ch \<noteq> 0x3d" "ch \<noteq> 0x3e" "ch \<noteq> 0x3f"
  shows "emulate sw (0x1b # 0x5b # ch # s) c = emulate sw (ch # s) (csi_begin c)"
proof -
  have esc: "emulate sw (0x1b # 0x5b # ch # s) c = emulate sw (ch # s) (goto_state EScsi c)"
    using te_graphic [of "0x5b" sw "goto_state ESesc c"]
    by (simp add: te_esc_char te_state_def Let_def te_esc_def goto_state_def upd_vc_def)
  have "terminal_emulation sw ch (goto_state EScsi c) = te_csi_getpars sw ch (csi_begin c)"
    using assms
    by (simp add: te_graphic te_state_csi te_csi_def Let_def csi_begin_def goto_state_def upd_vc_upd_vc)
      (simp add: upd_vc_def clear_params_def)
  also have "\<dots> = terminal_emulation sw ch (csi_begin c)"
    using assms by (simp add: te_graphic te_state_csi csi_begin_def upd_vc_def)
  finally show ?thesis
    using esc by simp
qed

lemma emulate_csi_dec: "emulate sw (0x1b # 0x5b # dec_nat n @ s) c = emulate sw (dec_nat n @ s) (csi_begin c)"
proof -
  obtain ch ds where d: "dec_nat n = ch # ds"
    by (cases "dec_nat n") simp_all
  then have "48 \<le> ch" "ch \<le> 57"
    using dec_nat_digits [of ch n] by auto
  then show ?thesis
    using emulate_csi [of ch sw "ds @ s" c] d by simp
qed

text \<open>
  C18. Parameters are read as decimal numbers. While the parser collects parameters, the
  digits of \<open>n\<close>, as \<open>sprintf\<close> prints them, append to the current parameter: from 0 it
  becomes \<open>n\<close> modulo 2 to the 32, and nothing else of the console changes.
\<close>

theorem decimal_parameter_roundtrip:
  assumes "vc_state (vc c) = EScsi_getpars" "0 \<le> vc_npar (vc c)"
    and "nat (vc_npar (vc c)) < length (vc_par (vc c))" "vc_par (vc c) ! nat (vc_npar (vc c)) = 0"
  shows "emulate sw (dec_nat n) c
    = Inr (upd_vc (\<lambda>v. v\<lparr>vc_par := (vc_par v)[nat (vc_npar v) := u32 (int n)]\<rparr>) c)"
  using assms by (rule emulate_dec_nat)

theorem decimal_parameter_roundtrip_witness:
  "emulate vga_con (dec_nat 1234) (csi_begin con0)
    = Inr (upd_vc (\<lambda>v. v\<lparr>vc_par := (vc_par v)[nat (vc_npar v) := u32 (int 1234)]\<rparr>) (csi_begin con0))"
  by (rule decimal_parameter_roundtrip) (simp_all add: csi_begin_def clear_params_def upd_vc_def)

text \<open>Two parameters and a final character.\<close>

definition csi_two :: "nat \<Rightarrow> nat \<Rightarrow> 'd con \<Rightarrow> 'd con" where
  "csi_two m n c = upd_vc (\<lambda>v. v\<lparr>vc_state := EScsi_getpars,
     vc_par := (replicate 16 0)[0 := u32 (int m), 1 := u32 (int n)], vc_npar := 1, vc_priv1 := False,
     vc_priv2 := False, vc_priv3 := False, vc_priv4 := False\<rparr>) c"

lemma te_semicolon:
  "vc_state (vc c) = EScsi_getpars \<Longrightarrow> vc_npar (vc c) < 15 \<Longrightarrow>
   terminal_emulation sw 0x3b c = Inr (upd_vc (\<lambda>v. v\<lparr>vc_npar := vc_npar v + 1\<rparr>) c)"
  by (simp add: te_graphic te_state_csi te_csi_getpars_def Let_def)

lemma emulate_csi_two:
  "emulate sw (0x1b # 0x5b # dec_nat m @ 0x3b # dec_nat n @ s) c = emulate sw s (csi_two m n c)"
proof -
  let ?c1 = "upd_vc (\<lambda>v. v\<lparr>vc_par := (vc_par v)[0 := u32 (int m)]\<rparr>) (csi_begin c)"
  let ?c2 = "upd_vc (\<lambda>v. v\<lparr>vc_npar := 1\<rparr>) ?c1"
  have b: "vc_state (vc (csi_begin c)) = EScsi_getpars" "vc_npar (vc (csi_begin c)) = 0"
    "vc_par (vc (csi_begin c)) = replicate 16 0"
    by (simp_all add: csi_begin_def clear_params_def upd_vc_def)
  have "emulate sw (dec_nat m) (csi_begin c) = Inr ?c1"
    using b emulate_dec_nat [of "csi_begin c" sw m] by (simp add: upd_vc_def)
  moreover have "terminal_emulation sw 0x3b ?c1 = Inr ?c2"
    using b te_semicolon [of ?c1 sw] by (simp add: upd_vc_def)
  moreover have "emulate sw (dec_nat n) ?c2 = Inr (csi_two m n c)"
    using b emulate_dec_nat [of ?c2 sw n]
    by (simp add: upd_vc_def csi_two_def csi_begin_def clear_params_def)
  ultimately show ?thesis
    by (subst emulate_csi_dec) (simp add: emulate_append)
qed

lemma te_getpars_final:
  assumes "0x40 \<le> ch" "ch < 0x7f" "vc_state (vc c) = EScsi_getpars"
  shows "terminal_emulation sw ch c = te_csi_gotpars sw ch c"
proof -
  have "te_csi_gotpars sw ch (goto_state EScsi_gotpars c) = te_csi_gotpars sw ch c"
    by (simp add: te_csi_gotpars_def goto_state_def upd_vc_def)
  then show ?thesis
    using assms by (simp add: te_graphic te_state_csi te_csi_getpars_def Let_def)
qed

section \<open>Sequences\<close>

text \<open>
  C20. The characters \<open>ESC [ 1 2 ; n ]\<close> for any \<open>n\<close> that is not the number of a console make
  the kernel dereference a null pointer, in every parser state and on every display driver:
  \<open>setterm_command\<close> passes the result of \<open>find_vc\<close> to \<open>set_console\<close> unchecked.
\<close>

theorem missing_console_faults:
  assumes "find_vc (int n) c = Inr None" "n < 2 ^ 32"
  shows "emulate sw ([0x1b, 0x5b] @ dec_nat 12 @ [0x3b] @ dec_nat n @ [0x5d]) c = Inl Null_deref"
proof -
  have f: "find_vc (int n) (goto_state ESinit (csi_two 12 n c)) = Inr None"
    using assms(1) by (simp add: find_vc_def csi_two_def goto_state_def upd_vc_def)
  have "te_csi_gotpars sw 0x5d (csi_two 12 n c) = setterm_command sw (goto_state ESinit (csi_two 12 n c))"
    by (simp add: te_csi_gotpars_def te_csi_priv_def has_priv_def te_csi_std_def csi_intermediate_def
        csi_move_def csi_edit_def csi_tabs_def Let_def goto_state_def csi_two_def upd_vc_def)
  also have "\<dots> = Inl Null_deref"
    using f assms(2)
    by (simp add: setterm_command_def Let_def set_console_def goto_state_def csi_two_def upd_vc_def)
  finally have "terminal_emulation sw 0x5d (csi_two 12 n c) = Inl Null_deref"
    by (subst te_getpars_final) (simp_all add: csi_two_def upd_vc_def)
  then show ?thesis
    using emulate_csi_two [of sw 12 n "[0x5d]" c] by simp
qed

theorem missing_console_faults_witness:
  "emulate vga_con ([0x1b, 0x5b] @ dec_nat 12 @ [0x3b] @ dec_nat 99 @ [0x5d]) con0 = Inl Null_deref"
  by (rule missing_console_faults) (simp_all add: find_vc_def con0_def vt0_def)

text \<open>What \<open>puts_queue\<close> adds to the input queue.\<close>

lemma trace_fold_log: "trace (fold (\<lambda>ch. log (f ch)) s c) = trace c @ map f s"
  by (induction s arbitrary: c) (simp_all add: log_def)

lemma puts_queue_trace:
  assumes "vc_tty (vc c) = Some t" "0 \<notin> set s"
  shows "trace (puts_queue s c) = trace c @ map (Flip_char t) s @ [Flip_work t]"
proof -
  have tw: "takeWhile (\<lambda>ch. ch \<noteq> 0) s = s"
    using assms(2) by (simp add: takeWhile_eq_all_conv) metis
  have "trace (puts_queue s c) = trace (log (Flip_work t) (fold (\<lambda>ch. log (Flip_char t ch)) s c))"
    by (simp only: puts_queue_def assms(1) option.case tw)
  also have "\<dots> = trace (fold (\<lambda>ch. log (Flip_char t ch)) s c) @ [Flip_work t]"
    by (simp add: log_def)
  finally show ?thesis
    by (simp add: trace_fold_log)
qed

lemma dec_nat_nonzero: "0 \<notin> set (dec_nat n)"
  using dec_nat_digits [of 0 n] by auto

lemma cup_final:
  assumes "1 \<le> m" "m \<le> 32767" "1 \<le> n" "n \<le> 32767" "\<not> vc_decom (vc c)"
  shows "emulate sw [0x48] (csi_two m n c) = Inr (upd_vc (\<lambda>v. gotoxy (int n - 1) (int m - 1)
     (v\<lparr>vc_npar := 1, vc_priv1 := False, vc_priv2 := False, vc_priv3 := False, vc_priv4 := False,
        vc_state := ESinit, vc_par := (replicate 16 0)[0 := int m - 1, 1 := int n - 1]\<rparr>)) c)"
proof -
  have par: "(replicate 16 0)[0 := i, Suc 0 := j, 0 := k, Suc 0 := l] = (replicate 16 0)[0 := k, Suc 0 := l]"
    for i j k l :: int
    by (simp add: eval_nat_numeral)
  have "te_csi_gotpars sw 0x48 (csi_two m n c) = te_csi_std sw 0x48 (goto_state ESinit (csi_two m n c))"
    by (simp add: te_csi_gotpars_def te_csi_priv_def has_priv_def Let_def goto_state_def csi_two_def upd_vc_def)
  also have "\<dots> = Inr (upd_vc (\<lambda>v. gotoxy (int n - 1) (int m - 1)
     (v\<lparr>vc_npar := 1, vc_priv1 := False, vc_priv2 := False, vc_priv3 := False, vc_priv4 := False,
        vc_state := ESinit, vc_par := (replicate 16 0)[0 := int m - 1, 1 := int n - 1]\<rparr>)) c)"
    using assms
    by (simp add: te_csi_std_def csi_intermediate_def csi_move_def gotoxay_def par_minus1_def Let_def
        goto_state_def csi_two_def upd_vc_def par)
  finally show ?thesis
    by (simp add: te_getpars_final csi_two_def upd_vc_def)
qed



text \<open>The palette sequence, digit by digit.\<close>

definition palette_state :: "int \<Rightarrow> int list \<Rightarrow> 'd con \<Rightarrow> 'd con" where
  "palette_state k par c = upd_vc (\<lambda>v. v\<lparr>vc_state := ESpalette, vc_par := par, vc_npar := k\<rparr>) c"

lemma te_hex_digit:
  assumes "hex_digit ch" "vc_state (vc c) = ESpalette"
  shows "terminal_emulation sw ch c = te_palette sw ch c"
proof -
  have "terminal_emulation sw ch c = te_state sw ch c"
    using assms(1) by (intro te_graphic) (auto simp: hex_digit_def)
  then show ?thesis
    using assms(2) by (simp add: te_state_def Let_def)
qed

lemma palette_digit:
  assumes "hex_digit ch" "0 \<le> k" "k < 6" "length par = 16"
  shows "terminal_emulation sw ch (palette_state k par c)
    = Inr (palette_state (k + 1) (par[nat k := hex_value ch]) c)"
  using assms te_hex_digit [OF assms(1), of "palette_state k par c" sw]
  by (simp add: palette_state_def te_palette_def Let_def arr_set_def upd_vc_def)

lemma palette_last:
  assumes "hex_digit ch" "par = [h0, h1, h2, h3, h4, h5, 0, 0, 0, 0, 0, 0, 0, 0, 0, 0]"
    and "0 \<le> h0" "h0 < 16" "length (vc_palette (vc c)) = 48"
  shows "\<exists>c'. terminal_emulation sw ch (palette_state 6 par c) = Inr (goto_state ESinit (set_palette sw c')) \<and>
    vc_palette (vc c') = (vc_palette (vc c))[nat (3 * h0) := word_of_int (16 * h1 + h2),
        nat (3 * h0 + 1) := word_of_int (16 * h3 + h4),
        nat (3 * h0 + 2) := word_of_int (16 * h5 + hex_value ch)]"
proof -
  define c' where "c' = upd_vc (\<lambda>v. v\<lparr>vc_state := ESpalette, vc_par := par[6 := hex_value ch],
      vc_npar := 7, vc_palette := (vc_palette v)[nat (3 * h0) := word_of_int (16 * h1 + h2),
        nat (3 * h0 + 1) := word_of_int (16 * h3 + h4),
        nat (3 * h0 + 2) := word_of_int (16 * h5 + hex_value ch)]\<rparr>) c"
  have "terminal_emulation sw ch (palette_state 6 par c) = Inr (goto_state ESinit (set_palette sw c'))"
    using assms te_hex_digit [OF assms(1), of "palette_state 6 par c" sw]
    by (simp add: palette_state_def te_palette_def Let_def arr_set_def upd_vc_def lift_vc_def
        store_color_def mult.commute c'_def)
  then show ?thesis
    by (intro exI [of _ c']) (simp add: c'_def upd_vc_def)
qed

lemma palette_order:
  "v\<lparr>vc_par := par, vc_npar := k, vc_state := st\<rparr> = v\<lparr>vc_state := st, vc_par := par, vc_npar := k\<rparr>"
  by simp

text \<open>
  C19. The Linux palette sequence \<open>ESC ] P n r r g g b b\<close> with seven hexadecimal digits, upper or
  lower case, sets the red, green and blue components of colour \<open>n\<close> and returns the parser
  to its initial state, in every parser state; the display driver gets the new palette.
\<close>

theorem palette_sequence:
  assumes "list_all hex_digit [a, r1, r0, g1, g0, b1, b0]" "length (vc_palette (vc c)) = 48"
  shows "\<exists>c'. emulate sw [0x1b, 0x5d, 0x50, a, r1, r0, g1, g0, b1, b0] c
      = Inr (goto_state ESinit (set_palette sw c')) \<and>
    vc_palette (vc c') = (vc_palette (vc c))
      [nat (3 * hex_value a) := word_of_int (16 * hex_value r1 + hex_value r0),
       nat (3 * hex_value a + 1) := word_of_int (16 * hex_value g1 + hex_value g0),
       nat (3 * hex_value a + 2) := word_of_int (16 * hex_value b1 + hex_value b0)]"
proof -
  have "emulate sw (0x1b # 0x5d # 0x50 # s) c = emulate sw s (palette_state 0 (replicate 16 0) c)" for s
    using te_graphic [of "0x5d" sw "goto_state ESesc c"] te_graphic [of "0x50" sw "goto_state ESosc c"]
      palette_order [where v = "vc c"]
    by (simp add: te_esc_char te_state_def Let_def te_esc_def te_osc_def goto_state_def upd_vc_def
        clear_params_def palette_state_def)
  moreover have "emulate sw [a, r1, r0, g1, g0, b1, b0] (palette_state 0 (replicate 16 0) c)
      = emulate sw [b0] (palette_state 6 [hex_value a, hex_value r1, hex_value r0, hex_value g1,
          hex_value g0, hex_value b1, 0, 0, 0, 0, 0, 0, 0, 0, 0, 0] c)"
    using assms(1) by (simp add: palette_digit) (simp add: eval_nat_numeral)
  moreover obtain c' where
    "terminal_emulation sw b0 (palette_state 6 [hex_value a, hex_value r1, hex_value r0, hex_value g1,
          hex_value g0, hex_value b1, 0, 0, 0, 0, 0, 0, 0, 0, 0, 0] c) = Inr (goto_state ESinit (set_palette sw c'))"
    "vc_palette (vc c') = (vc_palette (vc c))
      [nat (3 * hex_value a) := word_of_int (16 * hex_value r1 + hex_value r0),
       nat (3 * hex_value a + 1) := word_of_int (16 * hex_value g1 + hex_value g0),
       nat (3 * hex_value a + 2) := word_of_int (16 * hex_value b1 + hex_value b0)]"
    using palette_last [OF _ refl _ _ assms(2), of b0] hex_value_range [of a] assms(1)
    by (fastforce simp: upd_vc_def)
  ultimately show ?thesis
    by (intro exI [of _ c']) simp
qed

theorem palette_sequence_witness:
  "\<exists>c'. emulate vga_con [0x1b, 0x5d, 0x50, 0x61, 0x46, 0x46, 0x38, 0x30, 0x30, 0x31] con0
      = Inr (goto_state ESinit (set_palette vga_con c')) \<and>
    vc_palette (vc c') = (vc_palette (vc con0))[30 := 0xff, 31 := 0x80, 32 := 0x01]"
  using palette_sequence [of "0x61" "0x46" "0x46" "0x38" "0x30" "0x30" "0x31" con0 vga_con]
  by (simp add: hex_digit_def hex_value_def con0_def vc0_def upt_rec)

text \<open>
  \<open>CAN\<close> and \<open>SUB\<close> cancel: in every parser state they abandon the sequence and change
  nothing else.
\<close>

lemma cancel_sequence:
  "ch = 0x18 \<or> ch = 0x1a \<Longrightarrow> terminal_emulation sw ch c = Inr (upd_vc (\<lambda>v. v\<lparr>vc_state := ESinit\<rparr>) c)"
  by (elim disjE) (simp_all add: terminal_emulation_def te_c0_def goto_state_def)

lemma cancel_sequence_witness:
  "terminal_emulation vga_con 0x18 (goto_state EScsi con0)
    = Inr (upd_vc (\<lambda>v. v\<lparr>vc_state := ESinit\<rparr>) (goto_state EScsi con0))"
  by (rule cancel_sequence) simp

end
