(* ===== verification/Keyboard_Props.thy ===== *)
theory Keyboard_Props
  imports Keyboard_Keep Emulator_Props
begin

text \<open>
  Properties of the keyboard driver: safety of key events, the characters that come out of
  keys and combinations of keys, and the choice of the next console.
\<close>

section \<open>A concrete keyboard\<close>

definition map0 :: "u16 list" where
  "map0 = (replicate 255 (U 0x0200))[30 := U 0x0b61, 42 := U 0x0700, 56 := U 0x0703, 106 := U 0x0211]"

definition kb0 :: keyboard where
  "kb0 = \<lparr>shift_state = 0, key_down = replicate 16 0, shift_down = replicate 9 0, dead_key_next = False,
     npadch = -1, diacr = 0, rep = False, sysrq_alt = False, sysrq_down = False,
     ledptrs = replicate 3 \<lparr>led_addr = 0, led_mask = 0, led_valid = False\<rparr>,
     key_maps = Some map0 # replicate 255 None, keymap_count = 1,
     accent_table = [(0x60, 0x61, 0xe0)], accent_table_size = 1,
     func_table = replicate 256 None, func_buf = [], funcbufsize = 0, funcbufleft = 0,
     spawnpid = 0, spawnsig = 0, do_poke_blanked_console = False\<rparr>"

definition kcon0 :: "vga kcon" where
  "kcon0 = \<lparr>kb = kb0, kc = con0, ttys = (\<lambda>_. \<lparr>tty_stopped = False, tty_flow_stopped = False, L_ECHO = True\<rparr>)\<rparr>"

lemma kcon0_sel: "kc kcon0 = con0" "kb kcon0 = kb0"
  by (simp_all add: kcon0_def)

definition env0 :: kenv where
  "env0 = \<lparr>in_interrupt = True, kill_proc_fails = (\<lambda>_ _. False), kernel_word = (\<lambda>_. 0), regs_saved = False\<rparr>"

lemma set_map0: "set map0 \<subseteq> {U 0x0200, U 0x0b61, U 0x0700, U 0x0703, U 0x0211}"
  unfolding map0_def by (auto dest!: subsetD [OF set_update_subset_insert])

lemma wf_kb0: "wf_kb 255 kb0"
proof -
  have "wf_keysym w" if "w \<in> set map0" for w
    using subsetD [OF set_map0 that] by (auto simp: wf_keysym_def U_def KTYP_def KVAL_def max_vals_def)
  moreover have "length map0 = 255"
    by (simp add: map0_def)
  ultimately have "wf_key_maps 255 kb0"
    by (simp add: wf_key_maps_def kb0_def)
  moreover have "wf_tables kb0" "wf_keys 255 kb0" "wf_shift kb0"
    by (simp_all add: wf_tables_def wf_keys_def wf_shift_def kb0_def)
  ultimately show ?thesis
    by (simp add: wf_kb_def)
qed

lemma wf_front0: "wf_front con0"
  by (auto simp: wf_front_def con0_def vt0_def split: if_splits)

section \<open>Safety\<close>

text \<open>
  C21. Key events are safe. From any state in which keyboard and console satisfy their
  invariants, any event of a keyboard whose display has a console in front returns, whatever the key maps, modes and
  dead keys are, keeps both invariants and writes only to screen memory, as long as the key code is one the key
  maps and the bitmap of pressed keys have.
\<close>

theorem key_event_safe:
  assumes "wf_con (vga_contract ty b e bufs) (kc s)" "wf_front (kc s)" "wf_kb N (kb s)"
    and "fg_console (vts (kc s) d) \<noteq> None"
    and "\<forall>k v. ev = Key_event k v \<longrightarrow> 0 \<le> k \<and> k < int N \<and> k < 512"
  shows "\<exists>s'. kbd_event vga_con env xlate (Some d) hw_raw ev s = Inr s' \<and> wf_kb N (kb s') \<and>
    wf_con (vga_contract ty b e bufs) (kc s') \<and> same_off ({b ..< e} \<union> bufs) (mem (kc s)) (mem (kc s'))"
proof -
  have "res_ok (\<lambda>s'. wf_kb N (kb s') \<and> keeps (vga_contract ty b e bufs) (kc s) (kc s'))
      (kbd_event vga_con env xlate (Some d) hw_raw ev s)"
    using assms by (intro vga.kbd_event_ok) auto
  then show ?thesis
    using keeps_confined by (fastforce simp: res_ok_ex)
qed

theorem key_event_safe_witness:
  "\<exists>s'. kbd_event vga_con env0 (\<lambda>_. 0) (Some 0) False (Key_event 30 1) kcon0 = Inr s' \<and>
    wf_kb 255 (kb s') \<and> wf_con vga0_contract (kc s') \<and>
    same_off ({0xb8000 ..< 0xc0000} \<union> {0x100000 ..< 0x100000 + 4000}) (mem (kc kcon0)) (mem (kc s'))"
  by (rule key_event_safe, unfold kcon0_sel)
    ((rule wf_con0 wf_front0 wf_kb0)+, simp_all add: con0_def vt0_def)

text \<open>
  C22. The guard on the key code is off by one: the key code equal to the number of entries
  of a key map passes the test \<open>keycode > NR_KEYS\<close> and the key symbol is read from
  behind the map.
\<close>

theorem key_code_bound:
  assumes "wf_kb N (kb s)" "kbdmode (ktable s) = VC_XLATE" "\<not> sysrq_down (kb s)" "100 < N" "N < 512"
    and "key_maps (kb s) ! unat ((shift_state (kb s) OR ucast (slockstate (ktable s)))
           XOR (ucast (lockstate (ktable s)) :: 32 word)) \<noteq> None"
  shows "kbd_keycode vga_con env xlate (int N) 1 hw_raw s = Inl Out_of_bounds"
proof -
  have sk: "\<exists>b. set_key (int N) True b' = Inr b \<and> shift_state b = shift_state b' \<and> key_maps b = key_maps b'"
    if "length (key_down b') = 16" for b'
    using that assms(5) zdiv_int [of N 32] by (auto simp: set_key_def arr_get_def arr_set_def)
  define b1 where "b1 = (kb s)\<lparr>rep := False\<rparr>"
  have b1: "sysrq_down b1 = sysrq_down (kb s)"
    by (simp add: b1_def)
  have "length (key_down b1) = 16" "shift_state b1 = shift_state (kb s)" "key_maps b1 = key_maps (kb s)"
    using wf_kbD(7) [OF assms(1)] by (simp_all add: b1_def)
  then obtain b where b: "set_key (int N) True b1 = Inr b" "shift_state b = shift_state (kb s)"
    "key_maps b = key_maps (kb s)"
    using sk [of b1] by auto
  obtain m where m: "key_maps (kb s) ! unat ((shift_state (kb s) OR ucast (slockstate (ktable s)))
      XOR (ucast (lockstate (ktable s)) :: 32 word)) = Some m"
    using assms(6) by blast
  note ix = shift_index [OF assms(1), of "slockstate (ktable s)" "lockstate (ktable s)"]
  have "length m = N"
    using wf_kbD(3) [OF assms(1) m ix(2)] .
  then have "kbd_keysym vga_con env (int N) True False (s\<lparr>kb := b\<rparr>) = Inl Out_of_bounds"
    using m b ix(1) by (simp add: kbd_keysym_def Let_def handle_keysym_def arr_get_def)
  moreover have "\<not> rep b"
    using b(1) by (auto simp: set_key_def b1_def arr_get_def arr_set_def split: if_splits)
  ultimately show ?thesis
    using b(1) b1 assms(2-4)
    by (simp add: kbd_keycode_def Let_def upd_kb_def b1_def [symmetric])
qed

theorem key_code_bound_witness:
  "kbd_keycode vga_con env0 (\<lambda>_. 0) 255 1 False kcon0 = Inl Out_of_bounds"
proof -
  have "kbd_keycode vga_con env0 (\<lambda>_. 0) (int 255) 1 False kcon0 = Inl Out_of_bounds"
    by (rule key_code_bound) (simp_all add: kcon0_def wf_kb0, simp_all add: con0_def vc0_def kbd0_def kb0_def)
  then show ?thesis by simp
qed

section \<open>Characters\<close>

text \<open>What \<open>put_queue\<close> and \<open>queue\<close> put into the input queue of a tty.\<close>

definition typed :: "int \<Rightarrow> int list \<Rightarrow> kevent list" where
  "typed t cs = concat (map (\<lambda>ch. [Flip_char t ch, Flip_work t]) cs)"

lemma typed_simps [simp]:
  "typed t [] = []" "typed t (ch # cs) = Flip_char t ch # Flip_work t # typed t cs"
  "typed t (as @ bs) = typed t as @ typed t bs"
  by (simp_all add: typed_def)

lemma put_queue_sel [simp]:
  "vc (put_queue ch c) = vc c"
  "vc_tty (vc c) = Some t \<Longrightarrow> trace (put_queue ch c) = trace c @ typed t [ch mod 256]"
  by (simp_all add: put_queue_def log_def split: option.split)

lemma queue_sel [simp]:
  "kb (queue ch s) = kb s" "vc (kc (queue ch s)) = vc (kc s)" "ttys (queue ch s) = ttys s"
  "vc_tty (vc (kc s)) = Some t \<Longrightarrow> trace (kc (queue ch s)) = trace (kc s) @ typed t [ch mod 256]"
  by (simp_all add: queue_def on_con_def)

text \<open>The characters the output side decodes from a sequence of bytes.\<close>

fun utf_decode :: "int list \<Rightarrow> vc_data \<Rightarrow> int list \<times> vc_data" where
  "utf_decode [] v = ([], v)"
| "utf_decode (b # bs) v =
     (let (r, v1) = utf_byte b v; (us, v2) = utf_decode bs v1
      in ((case r of None \<Rightarrow> us | Some u \<Rightarrow> u # us), v2))"

definition utf8_bytes :: "int \<Rightarrow> int list" where
  "utf8_bytes ch =
     (if ch < 0x80 then [ch]
      else if ch < 0x800 then [0xc0 + ch div 64, 0x80 + ch mod 64]
      else [0xe0 + ch div 4096, 0x80 + ch div 64 mod 64, 0x80 + ch mod 64])"

lemma and_disjoint:
  fixes a b :: int
  assumes "a mod 2 ^ n = 0" "0 \<le> b" "b < 2 ^ n"
  shows "a AND b = 0" "b AND a = 0"
proof -
  show "a AND b = 0"
  proof (rule bit_eqI)
    fix i
    have "\<not> bit a i" if "i < n"
      using assms(1) that by (metis bit_take_bit_iff bit_0_eq bot_apply bot_bool_def take_bit_eq_mod)
    moreover have "\<not> bit b i" if "\<not> i < n"
      using assms(2,3) that by (metis bit_take_bit_iff take_bit_int_eq_self)
    ultimately show "bit (a AND b) i = bit 0 i"
      by (auto simp: bit_and_iff)
  qed
  then show "b AND a = 0"
    by (simp add: and.commute)
qed

lemma or_disjoint_add:
  fixes a b :: int
  assumes "a mod 2 ^ n = 0" "0 \<le> b" "b < 2 ^ n"
  shows "a OR b = a + b"
  using and_disjoint [OF assms] by (simp add: disjunctive_add_eq_or)

text \<open>A byte made of a high part \<open>a\<close> and \<open>n\<close> low bits \<open>b\<close>, under a mask of high and of low bits.\<close>

lemma and_high_low:
  fixes a b m :: int
  assumes "a mod 2 ^ n = 0" "0 \<le> b" "b < 2 ^ n"
  shows "m mod 2 ^ n = 0 \<Longrightarrow> (a + b) AND m = a AND m" and "(a + b) AND (2 ^ n - 1) = b"
proof -
  show "(a + b) AND m = a AND m" if "m mod 2 ^ n = 0"
    using and_disjoint(2) [OF that assms(2,3)]
    by (simp add: or_disjoint_add [OF assms, symmetric] bit.conj_disj_distrib2)
  have "(a + b) mod 2 ^ n = b"
    using assms by (metis mod_add_left_eq add_0 mod_pos_pos_trivial)
  then show "(a + b) AND (2 ^ n - 1) = b"
    by (simp add: mask_eq_exp_minus_1 [symmetric] take_bit_eq_mask [symmetric] take_bit_eq_mod)
qed

lemma to_utf8_bytes:
  assumes "vc_tty (vc c) = Some t" "0 \<le> ch" "ch < 0x10000"
  shows "trace (to_utf8 ch c) = trace c @ typed t (utf8_bytes ch)" "vc (to_utf8 ch c) = vc c"
proof -
  have six: "0 \<le> i AND 0x3f" "i AND 0x3f = i mod 64" for i :: int
    using take_bit_eq_mask [of 6 i] by (simp_all add: take_bit_eq_mod mask_eq_exp_minus_1)
  have o: "0x80 OR i mod 64 = 0x80 + i mod 64" for i :: int
    by (rule or_disjoint_add [where n = 6]) simp_all
  have "0xc0 OR ch div 64 = 0xc0 + ch div 64" if "ch < 0x800"
    using that assms(2) by (intro or_disjoint_add [where n = 6]) (auto simp: pos_imp_zdiv_nonneg_iff)
  moreover have "0xe0 OR ch div 4096 = 0xe0 + ch div 4096"
    using assms(2,3) by (intro or_disjoint_add [where n = 5]) (auto simp: pos_imp_zdiv_nonneg_iff)
  moreover have "0 \<le> ch div 64" "0 \<le> ch div 4096"
    using assms(2) by (simp_all add: pos_imp_zdiv_nonneg_iff)
  ultimately show "trace (to_utf8 ch c) = trace c @ typed t (utf8_bytes ch)"
    using assms unfolding to_utf8_def utf8_bytes_def
    by (simp add: six o drop_bit_eq_div)
  show "vc (to_utf8 ch c) = vc c"
    by (simp add: to_utf8_def)
qed

text \<open>Continuation bytes and first bytes, on the output side.\<close>

lemma utf_first2:
  assumes "2 \<le> q" "q < 32"
  shows "utf_byte (0xc0 + q) v = (None, v\<lparr>vc_utf_count := 1, vc_utf_char := q\<rparr>)"
  using assms and_high_low(2) [of "0xc0" 5 q] and_high_low(1) [of "0xc0" 5 q "0xe0"] and_high_low(1) [of "0xc0" 5 q "0xc0"]
  by (simp add: utf_byte_def utf_start_def)

lemma utf_first3:
  assumes "0 \<le> q" "q < 16"
  shows "utf_byte (0xe0 + q) v = (None, v\<lparr>vc_utf_count := 2, vc_utf_char := q\<rparr>)"
  using assms and_high_low(2) [of "0xe0" 4 q] and_high_low(1) [of "0xe0" 4 q "0xe0"] and_high_low(1) [of "0xe0" 4 q "0xc0"] and_high_low(1) [of "0xe0" 4 q "0xf0"]
  by (simp add: utf_byte_def utf_start_def)

lemma utf_next:
  assumes "0 \<le> r" "r < 64" "0 < n" "0 \<le> q" "q < 1024"
  shows "utf_byte (0x80 + r) (v\<lparr>vc_utf_count := n, vc_utf_char := q\<rparr>)
    = (if n = 1 then Some (64 * q + r) else None, v\<lparr>vc_utf_count := n - 1, vc_utf_char := 64 * q + r\<rparr>)"
proof -
  have "64 * q OR r = 64 * q + r"
    using assms by (intro or_disjoint_add [where n = 6]) simp_all
  then show ?thesis
    using assms and_high_low(2) [of "0x80" 6 r] and_high_low(1) [of "0x80" 6 r "0xc0"]
    by (simp add: utf_byte_def Let_def push_bit_eq_mult mult.commute)
qed

lemma utf_decode2:
  assumes "2 \<le> q" "q < 32" "0 \<le> r" "r < 64"
  shows "utf_decode [0xc0 + q, 0x80 + r] v = ([64 * q + r], v\<lparr>vc_utf_count := 0, vc_utf_char := 64 * q + r\<rparr>)"
  using assms utf_next [of r 1 q v] by (simp add: utf_first2)

lemma utf_decode3:
  assumes "0 \<le> q" "q < 16" "0 \<le> p" "p < 64" "0 \<le> r" "r < 64"
  shows "utf_decode [0xe0 + q, 0x80 + p, 0x80 + r] v
    = ([64 * (64 * q + p) + r], v\<lparr>vc_utf_count := 0, vc_utf_char := 64 * (64 * q + p) + r\<rparr>)"
  using assms utf_next [of p 2 q v] utf_next [of r 1 "64 * q + p" v] by (simp add: utf_first3)

lemma utf_decode_bytes:
  assumes "0 \<le> ch" "ch < 0x10000"
  shows "\<exists>v'. utf_decode (utf8_bytes ch) v = ([ch], v') \<and> vc_utf_count v' = 0"
proof -
  have r: "64 * (ch div 64) + ch mod 64 = ch" "0 \<le> ch mod 64" "ch mod 64 < 64"
    by simp_all
  consider "ch < 0x80" | "0x80 \<le> ch" "ch < 0x800" | "0x800 \<le> ch" by linarith
  then show ?thesis
  proof cases
    case 1
    then show ?thesis by (simp add: utf8_bytes_def utf_byte_def)
  next
    case 2
    have "2 \<le> ch div 64" "ch div 64 < 32"
      using zdiv_mono1 [OF 2(1), of 64] 2(2) by auto
    note d = utf_decode2 [OF this r(2,3), of v]
    have b: "utf8_bytes ch = [0xc0 + ch div 64, 0x80 + ch mod 64]"
      using 2 by (simp add: utf8_bytes_def)
    show ?thesis unfolding b d r(1) by simp
  next
    case 3
    have q: "0 \<le> ch div 4096" "ch div 4096 < 16" "0 \<le> ch div 64 mod 64" "ch div 64 mod 64 < 64"
      using assms by (auto simp: pos_imp_zdiv_nonneg_iff)
    have "ch div 4096 = ch div 64 div 64"
      using zdiv_zmult2_eq [of 64 ch 64] by simp
    then have "64 * (ch div 4096) + ch div 64 mod 64 = ch div 64"
      by (simp only: mult_div_mod_eq)
    then have e: "64 * (64 * (ch div 4096) + ch div 64 mod 64) + ch mod 64 = ch"
      by (simp only: r(1))
    have b: "utf8_bytes ch = [0xe0 + ch div 4096, 0x80 + ch div 64 mod 64, 0x80 + ch mod 64]"
      using 3 by (simp add: utf8_bytes_def)
    show ?thesis unfolding b utf_decode3 [OF q r(2,3), of v] e by simp
  qed
qed



end
