(* ===== verification/Keyboard_Text.thy ===== *)
theory Keyboard_Text
  imports Keyboard_Props
begin

text \<open>
  More properties of the keyboard driver: the recomputed shift state, accents, characters entered by number, the medium
  raw mode, and the choice of the next console.
\<close>

section \<open>The shift state\<close>

text \<open>The modifier a key stands for in a key map, and the keys whose bit is set.\<close>

definition modifier :: "u16 list \<Rightarrow> nat \<Rightarrow> int option" where
  "modifier m k =
     (if KTYP (U (m ! k)) = KT_SHIFT \<or> KTYP (U (m ! k)) = KT_SLOCK
      then Some (if KVAL (m ! k) = KG_CAPSSHIFT then KG_SHIFT else KVAL (m ! k)) else None)"

definition held :: "32 word list \<Rightarrow> nat \<Rightarrow> bool" where
  "held ws k = bit (ws ! (k div 32)) (k mod 32)"

text \<open>The loops over words and bits count each key that is down once.\<close>

fun count_keys :: "nat list \<Rightarrow> keyboard \<Rightarrow> keyboard res" where
  "count_keys [] b = Inr b"
| "count_keys (k # ks) b = res_bind (count_shift k b) (count_keys ks)"

lemma count_keys_append: "count_keys (xs @ ys) b = res_bind (count_keys xs b) (count_keys ys)"
proof (induction xs arbitrary: b)
  case (Cons k xs)
  then show ?case by (cases "count_shift k b") simp_all
qed simp

lemma count_bits_keys: "count_bits w k js b = count_keys (map ((+) k) (filter (bit w) js)) b"
proof (induction js arbitrary: b)
  case (Cons j js)
  then show ?case by (cases "count_shift (k + j) b") simp_all
qed simp

lemma count_words_keys: "count_words ws k b = count_keys (map ((+) k) (filter (held ws) [0..<32 * length ws])) b"
proof (induction ws arbitrary: k b)
  case (Cons w ws)
  have plus: "(+) (32::nat) = (\<lambda>i. i + 32)"
    by auto
  have split: "[0..<32 * length (w # ws)] = [0..<32] @ map ((+) 32) [0..<32 * length ws]"
    using upt_add_eq_append [of 0 32 "32 * length ws"] map_add_upt [of 32 "32 * length ws"]
    by (simp add: plus)
  have a: "filter (held (w # ws)) [0..<32] = filter (bit w) [0..<32]"
    by (rule filter_cong) (simp_all add: held_def)
  have b: "filter (held (w # ws)) (map ((+) 32) xs) = map ((+) 32) (filter (held ws) xs)" for xs
  proof -
    have "(32 + i) div 32 = Suc (i div 32)" for i :: nat
      by simp
    then show ?thesis
      by (simp add: filter_map o_def held_def cong: filter_cong)
  qed
  have "(if w = 0 then Inr b else count_bits w k [0..<32] b) = count_keys (map ((+) k) (filter (bit w) [0..<32])) b"
    by (simp add: count_bits_keys)
  moreover have "count_words ws (k + 32) = count_keys (map ((+) (k + 32)) (filter (held ws) [0..<32 * length ws]))"
    using Cons.IH by auto
  moreover have "(+) (k + 32) = (\<lambda>x. k + (32 + x))"
    by auto
  ultimately show ?case
    by (simp only: count_words.simps split filter_append map_append a b count_keys_append map_map)
      (simp add: o_def add.assoc)
qed simp

lemma count_keys_spec:
  assumes "wf_kb N b" "key_maps b ! 0 = Some m" "\<forall>k \<in> set ks. k < N"
  shows "\<exists>b'. count_keys ks b = Inr b' \<and> length (shift_down b') = 9 \<and>
    (\<forall>v < 9. shift_down b' ! v = shift_down b ! v + of_nat (length (filter (\<lambda>k. modifier m k = Some (int v)) ks)) \<and>
      bit (shift_state b') v = (bit (shift_state b) v \<or> (\<exists>k \<in> set ks. modifier m k = Some (int v))))"
  using assms
proof (induction ks arbitrary: b)
  case Nil
  then show ?case using wf_kbD(5) by simp
next
  case (Cons k ks)
  have k: "k < N" "arr_get m (int k) = Inr (m ! k)"
    using Cons.prems wf_kbD(3) [OF Cons.prems(1,2)] by (simp_all add: arr_get_def)
  obtain b1 where b1: "count_shift k b = Inr b1" "wf_kb N b1"
    using count_shift_ok [OF Cons.prems(1) k(1)] by (auto simp: res_ok_ex)
  have m1: "key_maps b1 = key_maps b"
    using b1(1) Cons.prems(2) k(2)
    by (auto simp: count_shift_def Let_def res_bind_Inr split: if_splits)
  obtain b' where b': "count_keys ks b1 = Inr b'" "length (shift_down b') = 9"
    "\<And>v. v < 9 \<Longrightarrow> shift_down b' ! v = shift_down b1 ! v + of_nat (length (filter (\<lambda>k. modifier m k = Some (int v)) ks)) \<and>
      bit (shift_state b') v = (bit (shift_state b1) v \<or> (\<exists>k \<in> set ks. modifier m k = Some (int v)))"
    using Cons.IH [OF b1(2)] Cons.prems(2,3) m1 by auto
  have "shift_down b1 ! v = shift_down b ! v + (if modifier m k = Some (int v) then 1 else 0) \<and>
      bit (shift_state b1) v = (bit (shift_state b) v \<or> modifier m k = Some (int v))" if "v < 9" for v
  proof (cases "modifier m k")
    case None
    then show ?thesis
      using b1(1) Cons.prems(2) k(2) by (auto simp: count_shift_def Let_def modifier_def split: if_splits)
  next
    case (Some u)
    then have u: "count_shift k b = res_bind (arr_get (shift_down b) u) (\<lambda>n.
        res_bind (arr_set (shift_down b) u (n + 1)) (\<lambda>sd.
          Inr (b\<lparr>shift_down := sd, shift_state := shift_state b OR push_bit (nat u) 1\<rparr>)))"
      using Cons.prems(2) k(2) by (auto simp: count_shift_def Let_def modifier_def split: if_splits)
    then have r: "0 \<le> u" "u < 9"
      using b1(1) wf_kbD(5) [OF Cons.prems(1)] by (auto simp: arr_get_def split: if_splits)
    then have "b1 = b\<lparr>shift_down := (shift_down b)[nat u := shift_down b ! nat u + 1],
        shift_state := shift_state b OR push_bit (nat u) 1\<rparr>"
      using u b1(1) wf_kbD(5) [OF Cons.prems(1)] by (simp add: arr_get_def arr_set_def)
    moreover have "v = nat u \<longleftrightarrow> int v = u"
      using r(1) by auto
    ultimately show ?thesis
      using that r wf_kbD(5) [OF Cons.prems(1)] Some
      by (cases "v = nat u")
        (auto simp add: bit_or_iff bit_push_bit_iff bit_1_iff possible_bit_def simp del: push_bit_of_1)
  qed
  then show ?case
    using b' b1(1) by auto
qed

text \<open>
  C24. The shift state is the state of the modifier keys. Recomputed from the bitmap of pressed
  keys, each counter is the number of keys that are down and stand for the modifier in the plain
  key map, modulo 256, and the bit of a modifier is set exactly when one such key is down.
\<close>

theorem shift_state_counts:
  assumes "wf_kb N b"
  shows "\<exists>m b'. key_maps b ! 0 = Some m \<and> compute_shiftstate b = Inr b' \<and>
    (\<forall>v < 9. shift_down b' ! v
        = of_nat (card {k. k < 512 \<and> held (key_down b) k \<and> modifier m k = Some (int v)}) \<and>
      bit (shift_state b') v = (\<exists>k < 512. held (key_down b) k \<and> modifier m k = Some (int v)))"
proof -
  let ?b = "b\<lparr>shift_state := 0, shift_down := replicate 9 0\<rparr>"
  let ?ks = "filter (held (key_down b)) [0..<512]"
  have wf: "wf_kb N ?b"
    using assms by (simp add: wf_kb_defs)
  have plus0: "(+) (0::nat) = (\<lambda>k. k)"
    by auto
  obtain m where m: "key_maps b ! 0 = Some m"
    using wf_kbD(2) [OF assms] by blast
  have "k < N" if "k \<in> set ?ks" for k
  proof -
    have "k div 32 < 16" "bit (key_down b ! (k div 32)) (k mod 32)"
      using that by (auto simp: held_def)
    then have "32 * (k div 32) + k mod 32 < N"
      using assms unfolding wf_kb_defs by blast
    then show ?thesis by simp
  qed
  then obtain b' where b': "count_keys ?ks ?b = Inr b'"
    "\<And>v. v < 9 \<Longrightarrow> shift_down b' ! v = of_nat (length (filter (\<lambda>k. modifier m k = Some (int v)) ?ks)) \<and>
      bit (shift_state b') v = (\<exists>k \<in> set ?ks. modifier m k = Some (int v))"
    using count_keys_spec [OF wf, of m ?ks] m by auto
  have "length (filter (\<lambda>k. modifier m k = Some (int v)) ?ks)
      = card {k. k < 512 \<and> held (key_down b) k \<and> modifier m k = Some (int v)}" for v
    by (simp add: distinct_card [symmetric] conj_ac)
  moreover have "compute_shiftstate b = Inr b'"
    using b'(1) wf_kbD(7) [OF assms] by (simp add: compute_shiftstate_def count_words_keys plus0)
  ultimately show ?thesis
    using m b'(2) by (intro exI [of _ m] exI [of _ b']) auto
qed

theorem shift_state_counts_witness:
  "\<exists>m b'. key_maps kb0 ! 0 = Some m \<and> compute_shiftstate kb0 = Inr b' \<and>
    (\<forall>v < 9. shift_down b' ! v
        = of_nat (card {k. k < 512 \<and> held (key_down kb0) k \<and> modifier m k = Some (int v)}) \<and>
      bit (shift_state b') v = (\<exists>k < 512. held (key_down kb0) k \<and> modifier m k = Some (int v)))"
  by (rule shift_state_counts [OF wf_kb0])


section \<open>Accents and characters entered by number\<close>

lemma find_accent_spec:
  "n \<le> length tab \<Longrightarrow> find_accent tab n d ch
     = Inr (map_option (\<lambda>(di, ba, r). r) (List.find (\<lambda>(di, ba, r). di = d \<and> ba = ch) (take n tab)))"
  by (induction tab n d ch rule: find_accent.induct) auto

text \<open>The characters an accent and a letter after it stand for.\<close>

definition composed :: "keyboard \<Rightarrow> u8 \<Rightarrow> u8 \<Rightarrow> u8 list" where
  "composed b d ch =
     (case List.find (\<lambda>(di, ba, r). di = d \<and> ba = ch) (take (accent_table_size b) (accent_table b)) of
        Some (di, ba, r) \<Rightarrow> [r]
      | None \<Rightarrow> if ch = 0x20 \<or> ch = d then [d] else [d, ch])"

lemma upd_kb_sel [simp]:
  "kb (upd_kb f s) = f (kb s)" "kc (upd_kb f s) = kc s" "ttys (upd_kb f s) = ttys s"
  by (simp_all add: upd_kb_def)

lemma handle_diacr_run:
  assumes "wf_kb N (kb s)" "vc_tty (vc (kc s)) = Some t"
  shows "\<exists>x s'. handle_diacr ch s = Inr (x, s') \<and> kb s' = (kb s)\<lparr>diacr := 0\<rparr> \<and> vc (kc s') = vc (kc s) \<and>
    trace (kc s') @ typed t [uint x] = trace (kc s) @ typed t (map uint (composed (kb s) (diacr (kb s)) ch))"
proof -
  have m: "uint x mod 256 = uint x" for x :: u8
    using uint_bounded [of x] by simp
  show ?thesis
    using assms wf_kbD(8) [OF assms(1)]
    by (auto simp: handle_diacr_def Let_def find_accent_spec composed_def m split: option.split prod.split)
qed

text \<open>
  C25. Accents. A dead key types nothing; the character key after it types the first
  entry of the accent table for the pair, the accent alone when the character is a space or the accent
  itself, and otherwise both characters, and the accent is used up.
\<close>

theorem accents_compose:
  assumes "wf_kb N (kb s)" "vc_tty (vc (kc s)) = Some t" "diacr (kb s) = 0" "\<not> dead_key_next (kb s)"
    and "0 \<le> i" "i < 6" "0 \<le> ch" "ch < 256"
  shows "\<exists>s'. res_bind (k_dead i False s) (k_self ch False) = Inr s' \<and> kb s' = kb s \<and>
    trace (kc s') = trace (kc s)
      @ typed t (map uint (composed (kb s) (word_of_int (ret_diacr ! nat i)) (word_of_int ch)))"
proof -
  define d :: u8 where "d = word_of_int (ret_diacr ! nat i)"
  let ?s = "upd_kb (\<lambda>b. b\<lparr>diacr := d\<rparr>) s"
  have "nat i \<in> {0, 1, 2, 3, 4, 5}"
    using assms(5,6) by auto
  then have d: "d \<noteq> 0"
    by (auto simp: d_def ret_diacr_def)
  have dead: "k_dead i False s = Inr ?s"
    using assms by (simp add: k_dead_def arr_get_def ret_diacr_def k_dead2_def d_def)
  obtain x s' where s': "handle_diacr (word_of_int ch) ?s = Inr (x, s')" "kb s' = kb s" "vc (kc s') = vc (kc s)"
    "trace (kc s') @ typed t [uint x] = trace (kc s) @ typed t (map uint (composed (kb ?s) d (word_of_int ch)))"
    using handle_diacr_run [of N ?s t "word_of_int ch"] assms(1-3) by auto
  have "composed (kb ?s) = composed (kb s)" "uint x mod 256 = uint x"
    using uint_bounded [of x] by (simp_all add: composed_def fun_eq_iff)
  then show ?thesis
    using dead s' assms(2-4) d
    by (intro exI [of _ "queue (uint x) s'"]) (simp add: k_self_def d_def [symmetric])
qed

theorem accents_compose_witness:
  "\<exists>s'. res_bind (k_dead 0 False kcon0) (k_self 0x61 False) = Inr s' \<and> kb s' = kb0 \<and>
    trace (kc s') = trace con0 @ typed 1 [0xe0]"
proof -
  have "\<exists>s'. res_bind (k_dead 0 False kcon0) (k_self 0x61 False) = Inr s' \<and> kb s' = kb kcon0 \<and>
    trace (kc s') = trace (kc kcon0)
      @ typed 1 (map uint (composed (kb kcon0) (word_of_int (ret_diacr ! nat 0)) (word_of_int 0x61)))"
    by (rule accents_compose [where N = 255]) (simp_all add: kcon0_sel wf_kb0, simp_all add: kb0_def con0_def vc0_def)
  then show ?thesis
    by (simp add: kcon0_sel composed_def kb0_def ret_diacr_def)
qed

text \<open>The number a sequence of decimal digits stands for.\<close>

definition digits_value :: "int list \<Rightarrow> int" where
  "digits_value ds = foldl (\<lambda>n d. 10 * n + d) 0 ds"

lemma foldl_digits_mono:
  "\<forall>d \<in> set ds. 0 \<le> d \<Longrightarrow> 0 \<le> n \<Longrightarrow> (n::int) \<le> foldl (\<lambda>n d. 10 * n + d) n ds"
proof (induction ds arbitrary: n)
  case (Cons d ds)
  have "10 * n + d \<le> foldl (\<lambda>n d. 10 * n + d) (10 * n + d) ds"
    using Cons.prems by (intro Cons.IH) auto
  moreover have "n \<le> 10 * n + d"
    using Cons.prems by simp
  ultimately show ?case by simp
qed simp

lemma k_ascii_digits:
  assumes "\<forall>d \<in> set ds. 0 \<le> d \<and> d < 10" "0 \<le> npadch (kb s)"
    and "foldl (\<lambda>n d. 10 * n + d) (npadch (kb s)) ds < 2147483648"
  shows "fold (\<lambda>d. k_ascii d False) ds s
    = upd_kb (\<lambda>b. b\<lparr>npadch := foldl (\<lambda>n d. 10 * n + d) (npadch (kb s)) ds\<rparr>) s"
  using assms
proof (induction ds arbitrary: s)
  case (Cons d ds)
  let ?n = "10 * npadch (kb s) + d"
  have "?n \<le> foldl (\<lambda>n d. 10 * n + d) ?n ds"
    using Cons.prems by (intro foldl_digits_mono) auto
  then have n: "0 \<le> ?n" "?n < 2147483648"
    using Cons.prems by auto
  then have a: "k_ascii d False s = upd_kb (\<lambda>b. b\<lparr>npadch := ?n\<rparr>) s"
    using Cons.prems by (simp add: k_ascii_def upd_kb_def mult.commute)
  show ?case
    using Cons.prems n Cons.IH [of "upd_kb (\<lambda>b. b\<lparr>npadch := ?n\<rparr>) s"]
    by (simp add: a)
qed (simp add: upd_kb_def)

lemma bit_clear: "bit (w AND NOT (push_bit n 1)) i = (bit (w :: 32 word) i \<and> i \<noteq> n)"
  by (auto simp: bit_simps dest: bit_imp_le_length)

text \<open>
  C26. Characters entered by number. Digits typed on the keypad while the only key of a
  modifier is held are collected and type nothing; releasing the key types the
  number, as UTF-8 of its low 16 bits in Unicode mode and as its low byte otherwise, and forgets
  it.
\<close>

theorem number_entry:
  assumes "wf_kb N (kb s)" "vc_tty (vc (kc s)) = Some t" "npadch (kb s) = -1" "\<not> rep (kb s)"
    and "0 \<le> m" "m < 8" "shift_down (kb s) ! nat m = 1" "bit (shift_state (kb s)) (nat m)"
    and "ds \<noteq> []" "\<forall>d \<in> set ds. 0 \<le> d \<and> d < 10" "digits_value ds < 2147483648"
  shows "\<exists>s'. k_shift m True (fold (\<lambda>d. k_ascii d False) ds s) = Inr s' \<and> npadch (kb s') = -1 \<and>
    shift_state (kb s') = shift_state (kb s) AND NOT (push_bit (nat m) 1) \<and>
    trace (kc s') = trace (kc s)
      @ typed t (if kbdmode (ktable s) = VC_UNICODE then utf8_bytes (digits_value ds mod 0x10000)
                 else [digits_value ds mod 256])"
proof -
  obtain d es where ds: "ds = d # es"
    using assms(9) by (cases ds) auto
  let ?n = "digits_value ds"
  have v: "?n = foldl (\<lambda>n d. 10 * n + d) d es"
    by (simp add: digits_value_def ds)
  have n: "0 \<le> ?n"
    unfolding v using foldl_digits_mono [of es d] assms(10) by (simp add: ds)
  have a: "k_ascii d False s = upd_kb (\<lambda>b. b\<lparr>npadch := d\<rparr>) s"
    using assms(3,10) by (simp add: k_ascii_def ds upd_kb_def)
  have f: "fold (\<lambda>d. k_ascii d False) ds s = upd_kb (\<lambda>b. b\<lparr>npadch := ?n\<rparr>) s"
    using k_ascii_digits [of es "upd_kb (\<lambda>b. b\<lparr>npadch := d\<rparr>) s"] assms(10,11)
    by (simp add: ds a v [unfolded ds])
  define st where "st = shift_state (kb s) AND NOT (push_bit (nat m) 1)"
  have st: "st \<noteq> shift_state (kb s)"
    using assms(8) bit_clear [of "shift_state (kb s)" "nat m" "nat m"] unfolding st_def by metis
  define b where "b = (kb s)\<lparr>npadch := ?n, shift_down := (shift_down (kb s))[nat m := 0], shift_state := st\<rparr>"
  have c: "shift_count m True (kb (upd_kb (\<lambda>b. b\<lparr>npadch := ?n\<rparr>) s)) = Inr b"
    using assms(5-7) wf_kbD(5) [OF assms(1)]
    by (simp add: shift_count_def arr_get_def arr_set_def b_def st_def)
  have w: "i AND 0xffff = i mod 0x10000" "i AND 0xff = i mod 256" for i :: int
    using take_bit_eq_mask [of 16 i] take_bit_eq_mask [of 8 i] by (simp_all add: take_bit_eq_mod mask_eq_exp_minus_1)
  have "npadch b = ?n" "shift_state b = st"
    by (simp_all add: b_def)
  then show ?thesis
    using assms(2,4,6) n st c to_utf8_bytes [of "kc s" t "?n mod 0x10000"] unfolding st_def [symmetric]
    by (simp add: f k_shift_def Let_def w) (simp add: upd_kb_def on_con_def)
qed

theorem number_entry_witness:
  "\<exists>s'. k_shift 3 True (fold (\<lambda>d. k_ascii d False) [2, 2, 8]
      (kcon0\<lparr>kb := kb0\<lparr>shift_state := 8, shift_down := (replicate 9 0)[3 := 1]\<rparr>\<rparr>)) = Inr s' \<and>
    npadch (kb s') = -1 \<and> trace (kc s') = trace con0 @ typed 1 [228]"
proof -
  let ?s = "kcon0\<lparr>kb := kb0\<lparr>shift_state := 8, shift_down := (replicate 9 0)[3 := 1]\<rparr>\<rparr>"
  have "wf_kb 255 (kb ?s)"
  proof -
    have "i < 8" if "bit (8 :: 32 word) i" for i
      using that bit_or_push [of 0 3 i] by simp
    then have "wf_kb 255 (kb0\<lparr>shift_down := (replicate 9 0)[3 := 1], shift_state := 8\<rparr>)"
      by (intro wf_kb_shift [OF wf_kb0]) simp_all
    then show ?thesis by (simp add: kb0_def)
  qed
  then have "\<exists>s'. k_shift 3 True (fold (\<lambda>d. k_ascii d False) [2, 2, 8] ?s) = Inr s' \<and> npadch (kb s') = -1 \<and>
    shift_state (kb s') = shift_state (kb ?s) AND NOT (push_bit (nat 3) 1) \<and>
    trace (kc s') = trace (kc ?s)
      @ typed 1 (if kbdmode (ktable ?s) = VC_UNICODE then utf8_bytes (digits_value [2, 2, 8] mod 0x10000)
                 else [digits_value [2, 2, 8] mod 256])"
    by (rule number_entry) (simp_all add: kcon0_sel kb0_def con0_def vc0_def digits_value_def)
  then show ?thesis
    by (auto simp: kcon0_sel con0_def vc0_def kbd0_def digits_value_def)
qed


section \<open>The medium raw mode\<close>

text \<open>How a reader of the medium raw mode takes the bytes apart: key codes and whether the key was released.\<close>

fun medium_codes :: "int list \<Rightarrow> (int \<times> bool) list" where
  "medium_codes [] = []"
| "medium_codes (b # bs) =
     (if b mod 128 \<noteq> 0 then (b mod 128, 128 \<le> b) # medium_codes bs
      else (case bs of
          hi # lo # bs' \<Rightarrow> (128 * (hi mod 128) + lo mod 128, 128 \<le> b) # medium_codes bs'
        | _ \<Rightarrow> []))"

definition medium_bytes :: "int \<Rightarrow> bool \<Rightarrow> int list" where
  "medium_bytes k up =
     (let u = (if up then 128 else 0) in
      if k < 128 then [k + u] else [u, k div 128 + 128, (k OR 0x80) mod 256])"

lemma or_0x80:
  fixes i :: int
  shows "0 \<le> i \<Longrightarrow> i < 128 \<Longrightarrow> i OR 0x80 = i + 0x80" "(i OR 0x80) mod 256 mod 128 = i mod 128"
proof -
  show "i OR 0x80 = i + 0x80" if "0 \<le> i" "i < 128"
    using or_disjoint_add [of "0x80" 7 i] that by (simp add: or.commute add.commute)
  have "take_bit 7 (i OR 0x80) = take_bit 7 i"
    by (simp add: take_bit_or)
  then show "(i OR 0x80) mod 256 mod 128 = i mod 128"
    by (simp add: take_bit_eq_mod mod_mod_cancel)
qed

lemma mediumraw_bytes:
  assumes "vc_tty (vc (kc s)) = Some t" "0 \<le> k" "k < 16384"
  shows "trace (kc (mediumraw k (if up then 0x80 else 0) s)) = trace (kc s) @ typed t (medium_bytes k up)"
    "vc (kc (mediumraw k (if up then 0x80 else 0) s)) = vc (kc s)"
proof -
  have "drop_bit 7 k = k div 128" "0 \<le> k div 128" "k div 128 < 128"
    using assms(2,3) by (auto simp: drop_bit_eq_div pos_imp_zdiv_nonneg_iff)
  then show "trace (kc (mediumraw k (if up then 0x80 else 0) s)) = trace (kc s) @ typed t (medium_bytes k up)"
    using assms or_0x80(1) [of "k div 128"] or_0x80(1) [of k]
    by (auto simp: mediumraw_def medium_bytes_def Let_def)
  show "vc (kc (mediumraw k (if up then 0x80 else 0) s)) = vc (kc s)"
    by (simp add: mediumraw_def)
qed

lemma medium_codes_bytes:
  assumes "1 \<le> k" "k < 16384"
  shows "medium_codes (medium_bytes k up @ bs) = (k, up) # medium_codes bs"
proof (cases "k < 128")
  case True
  then show ?thesis
    using assms by (simp add: medium_bytes_def)
next
  case False
  have "(k div 128 + 128) mod 128 = k div 128"
    using assms by (simp add: mod_pos_pos_trivial pos_imp_zdiv_nonneg_iff)
  moreover have "128 * (k div 128) + k mod 128 = k"
    by simp
  ultimately show ?thesis
    using False or_0x80(2) [of k] by (simp add: medium_bytes_def)
qed

text \<open>
  C27. The medium raw mode loses nothing. Whatever sequence of keys is pressed and released, the bytes
  queued for it take apart into exactly those key codes and directions, in order.
\<close>

theorem medium_raw_roundtrip:
  assumes "vc_tty (vc (kc s)) = Some t" "\<forall>(k, up) \<in> set es. 1 \<le> k \<and> k < 16384"
  shows "\<exists>bs. trace (kc (fold (\<lambda>(k, up). mediumraw k (if up then 0x80 else 0)) es s)) = trace (kc s) @ typed t bs \<and>
    medium_codes bs = es"
  using assms
proof (induction es arbitrary: s)
  case Nil
  then show ?case by (auto intro: exI [of _ "[]"])
next
  case (Cons e es)
  obtain k up where e: "e = (k, up)"
    by fastforce
  let ?s = "mediumraw k (if up then 0x80 else 0) s"
  have k: "1 \<le> k" "k < 16384"
    using Cons.prems(2) by (auto simp: e)
  then have m: "trace (kc ?s) = trace (kc s) @ typed t (medium_bytes k up)" "vc (kc ?s) = vc (kc s)"
    using mediumraw_bytes [OF Cons.prems(1), of k up] by auto
  then obtain bs where "trace (kc (fold (\<lambda>(k, up). mediumraw k (if up then 0x80 else 0)) es ?s)) = trace (kc ?s) @ typed t bs"
    "medium_codes bs = es"
    using Cons.IH [of ?s] Cons.prems by auto
  then show ?case
    using m medium_codes_bytes [OF k, of up bs]
    by (intro exI [of _ "medium_bytes k up @ bs"]) (simp add: e)
qed

theorem medium_raw_roundtrip_witness:
  "\<exists>bs. trace (kc (fold (\<lambda>(k, up). mediumraw k (if up then 0x80 else 0)) [(30, False), (300, True)] kcon0))
      = trace (kc kcon0) @ typed 1 bs \<and> medium_codes bs = [(30, False), (300, True)]"
  by (rule medium_raw_roundtrip) (simp_all add: kcon0_sel con0_def vc0_def)

section \<open>The next and the previous console\<close>

text \<open>What a request for the console in pool entry \<open>p\<close> leaves behind.\<close>

definition requested :: "int option \<Rightarrow> 'd kcon \<Rightarrow> 'd kcon res \<Rightarrow> bool" where
  "requested p s r \<longleftrightarrow>
     (case p of
        None \<Rightarrow> r = Inr s
      | Some n \<Rightarrow> (\<exists>v s'. get_console (kc s) n = Some v \<and> r = Inr s' \<and> want_vc (vts (kc s') (display_fg v)) = p))"

lemma set_console_requested:
  "get_console (kc s) n \<noteq> None \<Longrightarrow> step (kc s) = set_console (Some n) (kc s) \<Longrightarrow>
   requested (Some n) s (on_con_res step s)"
  by (auto simp: requested_def on_con_res_def set_console_def log_def upd_vt_def)

text \<open>
  C28. The search for the next and for the previous console ends, whatever entries of the pool are free, and asks for the nearest
  allocated console in its direction; it asks for none only when no other console of the display is allocated.
\<close>

theorem neighbour_console:
  assumes "wf_con (vga_contract ty b e bufs) (kc s)" "wf_front (kc s)" "is_visible (kc s)"
    and "t = vt (kc s)" "n = vc_count t" "j = vc_num (vc (kc s)) - first_vc t"
  shows "\<exists>p q. nearest (behind n j) n (vc_cons t) p \<and> requested p s (fn_dec_console s) \<and>
    nearest (ahead n j) n (vc_cons t) q \<and> requested q s (fn_inc_console s)"
proof -
  have "\<exists>p. nearest pos n (vc_cons t) p \<and> requested p s (on_con_res (step_console loop dir) s)"
    if l: "(loop, dir, pos) = (dec_console_loop, -1, behind n j) \<or> (loop, dir, pos) = (inc_console_loop, 1, ahead n j)"
    for loop dir pos
  proof -
    obtain p where p: "nearest pos n (vc_cons t) p"
      "case p of None \<Rightarrow> step_console loop dir (kc s) = Inr (kc s)
       | Some x \<Rightarrow> get_console (kc s) x \<noteq> None \<and> step_console loop dir (kc s) = set_console (Some x) (kc s)"
      using step_console_run [OF assms l] by blast
    then have "requested p s (on_con_res (step_console loop dir) s)"
      by (cases p) (simp_all add: set_console_requested, simp add: requested_def on_con_res_def)
    then show ?thesis
      using p(1) by blast
  qed
  from this [of dec_console_loop "-1" "behind n j"] this [of inc_console_loop 1 "ahead n j"] show ?thesis
    unfolding fn_dec_console_def fn_inc_console_def by blast
qed

theorem neighbour_console_witness:
  "\<exists>p q. nearest (behind 2 0) 2 (vc_cons vt0) p \<and> requested p kcon0 (fn_dec_console kcon0) \<and>
    nearest (ahead 2 0) 2 (vc_cons vt0) q \<and> requested q kcon0 (fn_inc_console kcon0)"
  by (rule neighbour_console, unfold kcon0_sel)
    ((rule wf_con0 wf_front0)+, simp_all add: con0_def vt0_def vc0_def is_visible_def vt_def)

end
