(* ===== verification/Vt_Alloc.thy ===== *)
theory Vt_Alloc
  imports Con_Write
begin

text \<open>
  Allocation of consoles: \<open>visual_init\<close>, \<open>vc_init\<close> and \<open>vc_allocate\<close> of drivers/char/vt.c, for a
  number that has no console yet, as the ioctls call it.

  Memory is given by \<open>vc_kmem\<close>: whether the console structure can be had, and where a
  buffer of a size lies. The driver's \<open>con_init\<close> is the argument \<open>ci\<close>; \<open>dfont\<close> are the
  tables of the default font, which come from a generated file. \<open>own_loc n\<close> is the place of the map pointer
  in the structure of console \<open>n\<close>.
\<close>

record vc_kmem =
  struct_ok :: bool
  buffer_at :: "int \<Rightarrow> int option"

definition own_loc :: "int \<Rightarrow> int" where
  "own_loc n = n + 1"

text \<open>A console structure filled with zeros.\<close>

definition vc_zero :: vc_data where
  "vc_zero =
     \<lparr>vc_num = 0, vc_cols = 0, vc_rows = 0, vc_size_row = 0, vc_scan_lines = 0,
      vc_mode = KD_TEXT, vc_origin = 0, vc_scr_end = 0, vc_visible_origin = 0,
      vc_top = 0, vc_bottom = 0, vc_screenbuf = 0, vc_screenbuf_size = 0,
      vc_attr = 0, vc_def_color = 0, vc_color = 0, vc_s_color = 0,
      vc_ulcolor = 0, vc_halfcolor = 0, vc_cursor_type = 0,
      vc_complement_mask = 0, vc_s_complement_mask = 0, vc_video_erase_char = 0,
      vc_x = 0, vc_y = 0, vc_pos = 0, vc_saved_x = 0, vc_saved_y = 0,
      vc_state = ESinit, vc_npar = 0, vc_par = replicate 16 0,
      kbd_table = \<lparr>lockstate = 0, slockstate = 0, ledmode = LED_SHOW_FLAGS, ledflagstate = 0,
        default_ledflagstate = 0, kbdmode = VC_XLATE, modeflags = 0\<rparr>,
      vc_hi_font_mask = 0, vc_font_height = 0, display_fg = 0, vc_tty = None,
      vt_mode = \<lparr>vtm_mode = VT_AUTO, vtm_waitv = 0, vtm_relsig = 0, vtm_acqsig = 0, vtm_frsig = 0\<rparr>,
      vt_pid = 0, vt_newvt = 0, vc_charset = False, vc_s_charset = False, vc_disp_ctrl = False,
      vc_toggle_meta = False, vc_decscnm = False, vc_decom = False, vc_decawm = False,
      vc_dectcem = False, vc_irm = False, vc_intensity = 0, vc_underline = False, vc_blink = False,
      vc_reverse = False, vc_s_intensity = 0, vc_s_underline = False, vc_s_blink = False,
      vc_s_reverse = False, vc_priv1 = False, vc_priv2 = False, vc_priv3 = False, vc_priv4 = False,
      vc_need_wrap = False, vc_can_do_color = False, vc_report_mouse = 0, vc_utf = False,
      vc_utf_count = 0, vc_utf_char = 0, vc_tab_stop = replicate 8 0, vc_palette = replicate 48 0,
      vc_translate = 0, vc_G0_charset = 0, vc_G1_charset = 0, vc_G2_charset = 0, vc_G3_charset = 0,
      vc_GS_charset = 0, vc_saved_G0 = 0, vc_saved_G1 = 0, vc_saved_G2 = 0, vc_saved_G3 = 0,
      vc_bell_pitch = 0, vc_bell_duration = 0, vc_uni_pagedir_loc = 0,
      vc_decscl = 0, vc_c8bit = False, vc_shift = False, vc_decckm = False, vc_decsclm = False,
      vc_decarm = False, vc_decnkm = False, vc_kam = False, vc_crm = False, vc_lnm = False\<rparr>"

definition visual_init :: "(bool \<Rightarrow> 'd con \<Rightarrow> 'd con) \<Rightarrow> bool \<Rightarrow> 'd con \<Rightarrow> 'd con" where
  "visual_init ci init c =
     (let c1 = upd_vc (\<lambda>v. v\<lparr>vc_uni_pagedir_loc := own_loc (vc_num v), vc_hi_font_mask := 0,
                  vc_complement_mask := 0, vc_can_do_color := False\<rparr>) c;
          c2 = ci init (c1\<lparr>cm := set_loc (vc c1) 0 (cm c1)\<rparr>);
          c3 = upd_vc (\<lambda>v. if vc_complement_mask v = 0
                  then v\<lparr>vc_complement_mask := (if vc_can_do_color v then 0x7700 else 0x0800)\<rparr> else v) c2
      in upd_vc (\<lambda>v. v\<lparr>vc_s_complement_mask := vc_complement_mask v, vc_size_row := vc_cols v * 2,
             vc_screenbuf_size := vc_rows v * (vc_cols v * 2)\<rparr>) c3)"

definition vc_init :: "'d consw \<Rightarrow> bool \<Rightarrow> 'd con \<Rightarrow> 'd con" where
  "vc_init sw do_clear c =
     vte_ris sw do_clear
       (upd_vc (\<lambda>v. v\<lparr>vc_def_color := 0x07, vc_ulcolor := 0x0f, vc_halfcolor := 0x08\<rparr>)
         (reset_vc sw False (upd_vc (\<lambda>v. v\<lparr>vc_pos := vc_origin v\<rparr>) (set_origin sw c))))"

fun find_display :: "int \<Rightarrow> (int \<Rightarrow> vt_struct) \<Rightarrow> int list \<Rightarrow> int option" where
  "find_display n t [] = None"
| "find_display n t (d # ds) =
     (if n < first_vc (t d) + vc_count (t d) \<and> n \<ge> first_vc (t d) then Some d else find_display n t ds)"

text \<open>The consoles of a display that are allocated.\<close>

definition pool_consoles :: "int \<Rightarrow> 'd con \<Rightarrow> vc_data list" where
  "pool_consoles d c =
     concat (map (\<lambda>p. case p of
         None \<Rightarrow> []
       | Some n \<Rightarrow> (case get_console c n of None \<Rightarrow> [] | Some v \<Rightarrow> [v])) (vc_cons (vts c d)))"

definition register_console :: "int \<Rightarrow> int \<Rightarrow> 'd con \<Rightarrow> 'd con" where
  "register_console d n = upd_vt d (\<lambda>t.
     let t1 = t\<lparr>vc_cons := (vc_cons t)[nat (n - first_vc t) := Some n]\<rparr> in
     if first_vc t = n
     then t1\<lparr>want_vc := Some n, fg_console := Some n, last_console := Some n\<rparr> else t1)"

definition vc_allocate ::
  "'d consw \<Rightarrow> (bool \<Rightarrow> 'd con \<Rightarrow> 'd con) \<Rightarrow> nat list \<times> nat list \<Rightarrow> vc_kmem \<Rightarrow> int \<Rightarrow> 'd con
     \<Rightarrow> (int option \<times> 'd con) res" where
  "vc_allocate sw ci dfont km n c =
     (if n \<ge> 63 then Inr (None, c)
      else case find_display n (vts c) (vt_list c) of
          None \<Rightarrow> Inr (None, c)
        | Some d \<Rightarrow>
            let slab = (kmalloced (vts c d) \<or> first_vc (vts c d) \<noteq> n) in
            if \<not> struct_ok km then Inr (None, c)
            else
              res_bind (in_console (Some n) (\<lambda>c. Inr (visual_init ci True c))
                 (c\<lparr>pool := (pool c)(n \<mapsto> vc_zero\<lparr>vc_num := n, display_fg := d\<rparr>)\<rparr>)) (\<lambda>c1.
              case get_console c1 n of
                None \<Rightarrow> Inl Dangling
              | Some v \<Rightarrow>
                  (case buffer_at km (vc_screenbuf_size v) of
                     None \<Rightarrow> Inr (None, c1\<lparr>pool := (pool c1)(n := None)\<rparr>)
                   | Some p \<Rightarrow>
                       res_bind (in_console (Some n) (\<lambda>c.
                         let c2 = upd_vc (\<lambda>v. v\<lparr>vc_screenbuf := p\<rparr>) c in
                         res_bind
                           (if slab \<and> locs (cm c2) (vc_uni_pagedir_loc (vc c2)) = 0
                            then res_bind (con_set_default_unimap (fst dfont) (snd dfont) (vc c2)
                                   (pool_consoles d c2) (cm c2)) (\<lambda>(_, m). Inr (c2\<lparr>cm := m\<rparr>))
                            else Inr c2)
                           (\<lambda>c3. Inr (vc_init sw True
                              (register_console d n (upd_vt d (\<lambda>t. t\<lparr>kmalloced := kmalloced t \<or> slab\<rparr>) c3))))) c1)
                         (\<lambda>c4. Inr (Some n, c4)))))"

end
