(* ===== verification/Vt_Switch.thy ===== *)
theory Vt_Switch
  imports Keyboard Vt_Alloc
begin

text \<open>
  Switching consoles: \<open>switch_screen\<close>, \<open>change_console\<close>, \<open>complete_change_console\<close> and the ioctls
  \<open>VT_SETMODE\<close>, \<open>VT_GETMODE\<close>, \<open>VT_RELDISP\<close>, \<open>VT_LOCKSWITCH\<close>, \<open>VT_UNLOCKSWITCH\<close> of
  drivers/char/vt_ioctl.c, with the work queue handler \<open>vt_callback\<close> of drivers/char/vt.c.

  The console at hand is the old one, the console in front, and the new one is given by its
  number. A console in process mode is switched away from in two steps: its process is
  sent a signal and the number of the new console is stored in \<open>vt_newvt\<close>; the process answers with
  \<open>VT_RELDISP\<close>, which completes or drops the switch.
\<close>

section \<open>The screens\<close>

text \<open>The part of \<open>switch_screen\<close> for two different consoles.\<close>

definition show_console :: "'d consw \<Rightarrow> 'd con \<Rightarrow> 'd con res" where
  "show_console sw c =
     (let (update, c1) = con_switch sw (set_origin sw c);
          c2 = set_palette sw c1
      in if update \<and> vc_mode (vc c2) \<noteq> KD_GRAPHICS
         then do_update_region sw (vc_origin (vc c2)) (vc_screenbuf_size (vc c2) div 2) c2
         else Inr c2)"

definition swap_screens :: "'d consw \<Rightarrow> int \<Rightarrow> 'd con \<Rightarrow> 'd con res" where
  "swap_screens sw n c =
     (case get_console c n of
        None \<Rightarrow> Inl Dangling
      | Some v \<Rightarrow>
          let c1 = upd_vt (display_fg v) (\<lambda>t. t\<lparr>fg_console := Some n\<rparr>) c;
              c2 = set_origin sw (save_screen sw c1)
          in in_console (Some n) (show_console sw) c2)"

text \<open>
  \<open>switch_screen\<close>: \<open>None\<close> is a null pointer, \<open>switch_con\<close> the part on the consoles,
  with \<open>set_leds\<close>; \<open>compute_shiftstate\<close> comes last.
\<close>

definition switch_con :: "'d consw \<Rightarrow> int \<Rightarrow> 'd con \<Rightarrow> 'd con res" where
  "switch_con sw n c =
     res_bind (hide_cursor sw c) (\<lambda>c1.
     res_bind (if n \<noteq> vc_num (vc c1) then swap_screens sw n c1 else Inr c1) (\<lambda>c2.
     res_bind (in_console (Some n) (set_cursor sw) c2) (\<lambda>c3. Inr (log Set_leds c3))))"

definition switch_screen :: "'d consw \<Rightarrow> int option \<Rightarrow> 'd kcon \<Rightarrow> 'd kcon res" where
  "switch_screen sw p s =
     (case p of
        None \<Rightarrow> Inr s
      | Some n \<Rightarrow> res_bind (on_con_res (switch_con sw n) s) shiftstate_k)"

section \<open>The back end\<close>

text \<open>On the new console; \<open>old_mode\<close> is the mode of the console switched away from.\<close>

definition mode_changed :: "'d consw \<Rightarrow> kd_mode \<Rightarrow> 'd con \<Rightarrow> 'd con res" where
  "mode_changed sw old_mode c =
     (if old_mode = vc_mode (vc c) then Inr c
      else if vc_mode (vc c) = KD_TEXT then unblank_vt sw (display_fg (vc c)) c
      else do_blank_screen sw (display_fg (vc c)) True c)"

definition acquired :: "'d consw \<Rightarrow> kenv \<Rightarrow> kd_mode \<Rightarrow> 'd con \<Rightarrow> 'd con res" where
  "acquired sw e old_mode c =
     (if vtm_mode (vt_mode (vc c)) = VT_PROCESS
      then
        let pid = vt_pid (vc c); sig = vtm_acqsig (vt_mode (vc c)); c1 = log (Kill_proc pid sig) c in
        if kill_proc_fails e pid sig
        then mode_changed sw old_mode (reset_vc sw (in_interrupt e) c1)
        else Inr c1
      else Inr c)"

definition complete_change_console :: "'d consw \<Rightarrow> kenv \<Rightarrow> int \<Rightarrow> 'd kcon \<Rightarrow> 'd kcon res" where
  "complete_change_console sw e n s =
     (case get_console (kc s) n of
        None \<Rightarrow> Inl Dangling
      | Some v \<Rightarrow>
          let old_mode = vc_mode (vc (kc s));
              s1 = on_con (\<lambda>c. upd_vt (display_fg v) (\<lambda>t. t\<lparr>last_console := Some (vc_num (vc c))\<rparr>) c) s
          in res_bind (switch_screen sw (Some n) s1)
               (on_con_res (\<lambda>c. res_bind
                  (in_console (Some n) (\<lambda>c. res_bind (mode_changed sw old_mode c) (acquired sw e old_mode)) c)
                  (\<lambda>c. Inr (log Wake_activate c)))))"

section \<open>The front end\<close>

definition change_console :: "'d consw \<Rightarrow> kenv \<Rightarrow> int option \<Rightarrow> 'd kcon \<Rightarrow> 'd kcon res" where
  "change_console sw e p s =
     (case p of
        None \<Rightarrow> Inr s
      | Some n \<Rightarrow>
          let v = vc (kc s); pid = vt_pid v; sig = vtm_relsig (vt_mode v);
              process = (vtm_mode (vt_mode v) = VT_PROCESS);
              s1 = (if process then on_con (log (Kill_proc pid sig)) s else s)
          in if process \<and> \<not> kill_proc_fails e pid sig
             then (case get_console (kc s) n of
                 None \<Rightarrow> Inl Dangling
               | Some w \<Rightarrow> Inr (on_con (upd_vc (\<lambda>v. v\<lparr>vt_newvt := vc_num w\<rparr>)) s1))
             else
               let s2 = (if process then on_con (reset_vc sw (in_interrupt e)) s1 else s1)
               in if vc_mode (vc (kc s2)) = KD_GRAPHICS then Inr s2
                  else complete_change_console sw e n s2)"

section \<open>The work queue handler\<close>

text \<open>\<open>vt_callback\<close>, one definition per block of the function.\<close>

definition callback_switch :: "'d consw \<Rightarrow> kenv \<Rightarrow> int \<Rightarrow> 'd kcon \<Rightarrow> 'd kcon res" where
  "callback_switch sw e d s =
     (let t = vts (kc s) d in
      if want_vc t \<noteq> fg_console t \<and> \<not> vt_dont_switch t
      then in_kconsole (fg_console t) (\<lambda>s.
             res_bind (on_con_res (hide_cursor sw) s) (change_console sw e (want_vc t))) s
      else Inr s)"

definition callback_poke :: "'d consw \<Rightarrow> int \<Rightarrow> 'd kcon \<Rightarrow> 'd kcon res" where
  "callback_poke sw d s =
     (if do_poke_blanked_console (kb s)
      then on_con_res (poke_blanked_console sw d) (upd_kb (\<lambda>b. b\<lparr>do_poke_blanked_console := False\<rparr>) s)
      else Inr s)"

definition callback_scroll :: "'d consw \<Rightarrow> int \<Rightarrow> 'd con \<Rightarrow> 'd con res" where
  "callback_scroll sw d c =
     (if scrollback_delta (vts c d) \<noteq> 0
      then
        res_bind (clear_selection sw c) (\<lambda>c1.
        res_bind (in_console (fg_console (vts c1 d)) (\<lambda>c.
           Inr (if vc_mode (vc c) = KD_TEXT then con_scroll sw (scrollback_delta (vts c d)) c else c)) c1) (\<lambda>c2.
          Inr (upd_vt d (\<lambda>t. t\<lparr>scrollback_delta := 0\<rparr>) c2)))
      else Inr c)"

definition callback_blank :: "'d consw \<Rightarrow> int \<Rightarrow> 'd con \<Rightarrow> 'd con res" where
  "callback_blank sw d c =
     (if blank_timer_expired (vts c d)
      then res_bind (do_blank_screen sw d False c) (\<lambda>c1.
             Inr (upd_vt d (\<lambda>t. t\<lparr>blank_timer_expired := False\<rparr>) c1))
      else Inr c)"

definition vt_callback :: "'d consw \<Rightarrow> kenv \<Rightarrow> int \<Rightarrow> 'd kcon \<Rightarrow> 'd kcon res" where
  "vt_callback sw e d s =
     (case want_vc (vts (kc s) d) of
        None \<Rightarrow> Inr s
      | Some w \<Rightarrow>
          (case get_console (kc s) w of
             None \<Rightarrow> Inl Dangling
           | Some v \<Rightarrow>
               if vc_tty v = None then Inr s
               else
                 res_bind (callback_switch sw e d s) (\<lambda>s1.
                 res_bind (callback_poke sw d s1) (\<lambda>s2.
                 res_bind (on_con_res (callback_scroll sw d) s2) (on_con_res (callback_blank sw d))))))"

section \<open>The process's side\<close>

text \<open>
  Replies of an ioctl: an error, or a value with the new state. \<open>perm\<close> is the caller's
  permission, \<open>admin\<close> the capability \<open>CAP_SYS_TTY_CONFIG\<close>, \<open>pid\<close> the caller. A copy from user space that fails is \<open>None\<close>.
\<close>

definition vt_setmode :: "bool \<Rightarrow> int \<Rightarrow> (bool \<times> vt_mode) option \<Rightarrow> 'd con \<Rightarrow> errno + 'd con" where
  "vt_setmode perm pid arg c =
     (if \<not> perm then Inl EPERM
      else case arg of
          None \<Rightarrow> Inl EFAULT
        | Some (known, m) \<Rightarrow>
            if \<not> known then Inl EINVAL
            else Inr (upd_vc (\<lambda>v. v\<lparr>vt_mode := m\<lparr>vtm_frsig := 0\<rparr>, vt_pid := pid, vt_newvt := -1\<rparr>) c))"

definition vt_getmode :: "'d con \<Rightarrow> vt_mode" where
  "vt_getmode c = vt_mode (vc c)"

definition vt_lockswitch :: "bool \<Rightarrow> bool \<Rightarrow> 'd con \<Rightarrow> errno + 'd con" where
  "vt_lockswitch admin locked c =
     (if \<not> admin then Inl EPERM
      else Inr (upd_vt (display_fg (vc c)) (\<lambda>t. t\<lparr>vt_dont_switch := locked\<rparr>) c))"

text \<open>
  \<open>VT_RELDISP\<close> on the console at hand: an error, or the return value with the new state. A
  target that does not exist is allocated; \<open>VT_ACKACQ\<close> is 2.
\<close>

definition vt_reldisp ::
  "'d consw \<Rightarrow> kenv \<Rightarrow> (bool \<Rightarrow> 'd con \<Rightarrow> 'd con) \<Rightarrow> nat list \<times> nat list \<Rightarrow> vc_kmem \<Rightarrow> bool \<Rightarrow> int
     \<Rightarrow> 'd kcon \<Rightarrow> (errno + int \<times> 'd kcon) res" where
  "vt_reldisp sw e ci dfont km perm arg s =
     (let v = vc (kc s); forget = on_con (upd_vc (\<lambda>v. v\<lparr>vt_newvt := -1\<rparr>)) in
      if \<not> perm then Inr (Inl EPERM)
      else if vtm_mode (vt_mode v) \<noteq> VT_PROCESS then Inr (Inl EINVAL)
      else if vt_newvt v \<ge> 0
      then if arg = 0 then Inr (Inr (0, forget s))
        else
          res_bind (find_vc (vt_newvt v) (kc s)) (\<lambda>found.
          res_bind (if found = None then vc_allocate sw ci dfont km (vt_newvt v) (kc s)
                    else Inr (found, kc s)) (\<lambda>(tmp, c1).
            let s1 = forget (s\<lparr>kc := c1\<rparr>) in
            case tmp of
              None \<Rightarrow> Inr (Inr (vt_newvt v, s1))
            | Some n \<Rightarrow>
                res_bind (in_kconsole (fg_console (vts (kc s1) (display_fg (vc (kc s1)))))
                            (complete_change_console sw e n) s1) (\<lambda>s2. Inr (Inr (0, s2)))))
      else if arg \<noteq> 2 then Inr (Inl EINVAL)
      else Inr (Inr (0, s)))"

end
