(* ===== verification/Switch_Inv.thy ===== *)
theory Switch_Inv
  imports Vt_Switch Keyboard_Keep Vga_Example
begin

text \<open>
  Switching consoles keeps the invariant. Between the moment the new console becomes the one
  in front and the moment its origin is set, the display is not ready to scroll: that part runs under the relaxed
  contract. The locale \<open>placing_driver\<close> says when setting the origin makes the display ready again; the
  VGA driver is an instance for every state of its blanking variables.
\<close>

section \<open>Frames\<close>

text \<open>
  What an operation that changes displays leaves alone: memory outside \<open>R\<close>, the consoles, and
  what the displays are apart from the records \<open>t\<close>.
\<close>

definition framed :: "int set \<Rightarrow> (int \<Rightarrow> vt_struct) \<Rightarrow> 'd con \<Rightarrow> 'd con \<Rightarrow> bool" where
  "framed R t c c' \<longleftrightarrow>
     same_off R (mem c) (mem c') \<and> vc_num (vc c') = vc_num (vc c) \<and>
     (\<forall>n. map_option vc_ids (get_console c' n) = map_option vc_ids (get_console c n)) \<and>
     maps (cm c') = maps (cm c) \<and> vt_list c' = vt_list c \<and> (\<forall>d. vt_ids (vts c' d) = vt_ids (t d)) \<and>
     (\<forall>n. pred_option settled (get_console c n) \<longrightarrow> pred_option settled (get_console c' n))"

lemma keeps_framed: "keeps K c c' \<Longrightarrow> framed (scr_region K) (vts c) c c'"
  by (simp add: keeps_def framed_def)

lemma framed_trans:
  "framed R t a b \<Longrightarrow> framed R u b c \<Longrightarrow> (\<And>d. vt_ids (u d) = vt_ids (vts b d)) \<Longrightarrow> framed R t a c"
  by (auto simp: framed_def intro: same_off_trans)

lemma framed_then: "framed R t a b \<Longrightarrow> framed R u b c \<Longrightarrow> framed R u a c"
  by (auto simp: framed_def intro: same_off_trans)

lemma framed_keeps: "framed R t a b \<Longrightarrow> keeps K b c \<Longrightarrow> scr_region K = R \<Longrightarrow> framed R t a c"
  by (metis framed_trans keeps_framed)

lemma framed_upd_vt: "framed R ((vts c)(d := f (vts c d))) c (upd_vt d f c)"
  by (simp add: framed_def)

lemma framed_cong: "framed R t a b \<Longrightarrow> (\<And>d. vt_ids (t d) = vt_ids (u d)) \<Longrightarrow> framed R u a b"
  by (simp add: framed_def)

lemma framed_fg:
  "framed R t c c' \<Longrightarrow> fg_console (vts c' d) = fg_console (t d)"
  "framed R t c c' \<Longrightarrow> last_console (vts c' d) = last_console (t d)"
  "framed R t c c' \<Longrightarrow> first_vc (vts c' d) = first_vc (t d)"
  "framed R t c c' \<Longrightarrow> vc_count (vts c' d) = vc_count (t d)"
  "framed R t c c' \<Longrightarrow> vc_cons (vts c' d) = vc_cons (t d)"
  by (simp_all add: framed_def vt_ids_def)

lemma framed_console:
  assumes "framed R t c c'"
  shows "get_console c' n = None \<longleftrightarrow> get_console c n = None"
    and "map_option display_fg (get_console c' n) = map_option display_fg (get_console c n)"
proof -
  have *: "map_option vc_ids (get_console c' n) = map_option vc_ids (get_console c n)"
    using assms by (simp add: framed_def)
  then show "get_console c' n = None \<longleftrightarrow> get_console c n = None"
    by (metis map_option_is_None)
  have "map_option fst (map_option vc_ids (get_console c' n)) = map_option fst (map_option vc_ids (get_console c n))"
    using * by simp
  then show "map_option display_fg (get_console c' n) = map_option display_fg (get_console c n)"
    by (simp add: option.map_comp o_def)
qed

lemma framed_display: "framed R t c c' \<Longrightarrow> display_fg (vc c') = display_fg (vc c)"
  using framed_console(2) [of R t c c' "vc_num (vc c')"] get_console_own [of c] get_console_own [of c']
  by (simp add: framed_def)

section \<open>Working on another console\<close>

text \<open>The same state seen from another console.\<close>

definition refocus :: "'d con \<Rightarrow> 'd con \<Rightarrow> bool" where
  "refocus c c' \<longleftrightarrow> get_console c' = get_console c \<and> (\<exists>v p. c' = c\<lparr>vc := v, pool := p\<rparr>)"

lemma refocusI: "get_console (c\<lparr>vc := v, pool := p\<rparr>) = get_console c \<Longrightarrow> refocus c (c\<lparr>vc := v, pool := p\<rparr>)"
  unfolding refocus_def by blast

lemma refocus_refl [simp]: "refocus c c"
  using refocusI [where c = c and v = "vc c" and p = "pool c"] by simp

lemma refocus_sel:
  assumes "refocus c c'"
  shows "get_console c' = get_console c" "vts c' = vts c" "vt_list c' = vt_list c" "mem c' = mem c"
    "drv c' = drv c" "cm c' = cm c" "sel_cons c' = sel_cons c" "sel_start c' = sel_start c"
    "sel_end c' = sel_end c" "cp_p c' = cp_p c" "trace c' = trace c"
  using assms unfolding refocus_def by auto

lemma wf_con_refocus: "refocus c c' \<Longrightarrow> wf_con K c \<Longrightarrow> wf_con K c'"
  using refocus_sel [of c c'] wf_con_cong [of c' c K] by simp

lemma in_console_run:
  assumes num: "\<And>m v. get_console c m = Some v \<Longrightarrow> vc_num v = m" and n: "get_console c n \<noteq> None"
    and f: "\<And>c'. refocus c c' \<Longrightarrow> vc_num (vc c') = n \<Longrightarrow>
      res_ok (\<lambda>c''. framed R t c' c'' \<and> Q c'' \<and> (\<forall>m v. get_console c'' m = Some v \<longrightarrow> vc_num v = m)) (f c')"
    and Q: "\<And>c' d. Q c' \<Longrightarrow> refocus c' d \<Longrightarrow> Q d"
  shows "res_ok (\<lambda>c'. framed R t c c' \<and> Q c') (in_console (Some n) f c)"
proof (cases "n = vc_num (vc c)")
  case True
  then show ?thesis
    using f [of c] by (auto simp: in_console_def elim: res_ok_mono)
next
  case False
  let ?me = "vc_num (vc c)"
  obtain v where v: "pool c n = Some v"
    using n False by (auto simp: get_console_def)
  let ?c1 = "c\<lparr>vc := v, pool := (pool c)(?me \<mapsto> vc c)\<rparr>"
  have vn: "vc_num v = n"
    using num [of n v] v False by (simp add: get_console_def)
  have r1: "refocus c ?c1"
    using v vn False by (intro refocusI) (auto simp: get_console_def fun_eq_iff)
  obtain c2 where c2: "f ?c1 = Inr c2" "framed R t ?c1 c2" "Q c2"
    "\<And>m v. get_console c2 m = Some v \<Longrightarrow> vc_num v = m"
    using f [OF r1] vn by (auto simp: res_ok_ex)
  have n2: "vc_num (vc c2) = n"
    using c2(2) vn by (simp add: framed_def)
  have "get_console c2 ?me \<noteq> None"
    using framed_console(1) [OF c2(2), of ?me] refocus_sel(1) [OF r1] by simp
  then obtain v0 where v0: "pool c2 ?me = Some v0"
    using False n2 by (auto simp: get_console_def)
  let ?c3 = "c2\<lparr>vc := v0, pool := (pool c2)(n \<mapsto> vc c2)\<rparr>"
  have v0n: "vc_num v0 = ?me"
    using c2(4) [of ?me v0] v0 n2 False by (simp add: get_console_def)
  have r3: "refocus c2 ?c3"
    using v0 v0n n2 False by (intro refocusI) (auto simp: get_console_def fun_eq_iff)
  have "framed R t c ?c3"
    using c2(2) refocus_sel [OF r1] refocus_sel [OF r3] v0n by (simp add: framed_def)
  then show ?thesis
    using v c2(1) v0 n2 False Q [OF c2(3) r3] by (simp add: in_console_def)
qed

lemma in_console_wf:
  assumes "wf_con K c" "get_console c n \<noteq> None"
    and f: "\<And>c'. refocus c c' \<Longrightarrow> wf_con K c' \<Longrightarrow> vc_num (vc c') = n \<Longrightarrow>
      res_ok (\<lambda>c''. framed R t c' c'' \<and> wf_con K' c'' \<and> Q c'') (f c')"
    and Q: "\<And>c' d. Q c' \<Longrightarrow> refocus c' d \<Longrightarrow> Q d"
  shows "res_ok (\<lambda>c'. framed R t c c' \<and> wf_con K' c' \<and> Q c') (in_console (Some n) f c)"
proof (rule in_console_run)
  show "get_console c m = Some v \<Longrightarrow> vc_num v = m" for m v
    using wf_conD(2) [OF assms(1)] .
  fix c' assume c': "refocus c c'" "vc_num (vc c') = n"
  show "res_ok (\<lambda>c''. framed R t c' c'' \<and> (wf_con K' c'' \<and> Q c'') \<and>
      (\<forall>m v. get_console c'' m = Some v \<longrightarrow> vc_num v = m)) (f c')"
    using f [OF c'(1) wf_con_refocus [OF c'(1) assms(1)] c'(2)]
    by (rule res_ok_mono) (use wf_conD(2) in blast)
next
  fix c' d assume "wf_con K' c' \<and> Q c'" "refocus c' d"
  then show "wf_con K' d \<and> Q d"
    using wf_con_refocus Q by blast
qed (rule assms(2))

section \<open>Showing a console\<close>

locale placing_driver = drawing_driver sw K + core: drawing_driver sw "relaxed K"
  for sw :: "'d consw" and K :: "'d contract" +
  fixes placeable :: "bool \<Rightarrow> bool" \<comment> \<open>of the blanked flag of the display\<close>
  assumes placeable_mono: "placeable b \<Longrightarrow> placeable False"
    and shown_switch: "wf_con K c \<Longrightarrow> keeps K c (snd (con_switch sw c))"
    and place: "wf_con (relaxed K) c \<Longrightarrow> is_visible c \<Longrightarrow> placeable (vt_blanked (vt c)) \<Longrightarrow>
        keeps (relaxed K) c (set_origin sw c) \<and> wf_con K (set_origin sw c)"
begin

lemma show_console_ok:
  assumes "wf_con (relaxed K) c" "is_visible c" "placeable (vt_blanked (vt c))"
  shows "res_ok (\<lambda>c'. keeps (relaxed K) c c' \<and> wf_con K c') (show_console sw c)"
proof -
  let ?c1 = "set_origin sw c"
  have k1: "keeps (relaxed K) c ?c1" and wf1: "wf_con K ?c1"
    using place [OF assms] by auto
  have k2: "keeps K ?c1 (set_palette sw (snd (con_switch sw ?c1)))"
    by (rule keeps_then_palette [OF shown_switch [OF wf1]])
  have "res_ok (keeps K ?c1) (show_console sw c)"
    unfolding show_console_def Let_def case_prod_beta
    using k2 keeps_then [OF k2 do_update_region_ok] by simp
  then show ?thesis
    by (rule res_ok_mono) (blast intro: keeps_trans [OF k1] keeps_relaxed keeps_wf)
qed

lemma wf_con_fg:
  assumes wf: "wf_con K c" and "is_visible c" and n: "get_console c n = Some w" "display_fg w = display_fg (vc c)"
  shows "wf_con (relaxed K) (upd_vt (display_fg (vc c)) (\<lambda>t. t\<lparr>fg_console := Some n\<rparr>) c)"
proof -
  let ?d = "display_fg (vc c)"
  let ?c = "upd_vt ?d (\<lambda>t. t\<lparr>fg_console := Some n\<rparr>) c"
  have "fg_console (vts c d) = None" if "d \<noteq> ?d" for d
    using wf_conD(9) [OF wf] assms(2) that unfolding wf_drv_def is_visible_def vt_def by (metis option.distinct(1))
  then have "wf_drv (relaxed K) ?c"
    using wf_conD(9) [OF wf] by (auto simp: wf_drv_def split: if_splits)
  moreover have "wf_sel ?c" "wf_displayed (relaxed K) ?c" "wf_switch ?c" "wf_maps ?c"
    using wf_conD(6,8,10) [OF wf] by (auto simp: wf_sel_def wf_displayed_def wf_switch_def wf_maps_def)
  ultimately show ?thesis
    using wf_conD(1-5) [OF wf] n by (intro wf_conI) (auto split: if_splits)
qed

text \<open>The records of the displays with console \<open>n\<close> in front of display \<open>d\<close>.\<close>

abbreviation (input) fronted :: "'d con \<Rightarrow> int \<Rightarrow> int \<Rightarrow> int \<Rightarrow> vt_struct" where
  "fronted c d n \<equiv> (vts c)(d := (vts c d)\<lparr>fg_console := Some n\<rparr>)"

lemma swap_screens_ok:
  assumes wf: "wf_con K c" and vis: "is_visible c" and n: "get_console c n = Some w" "display_fg w = display_fg (vc c)"
    and "n \<noteq> vc_num (vc c)" "placeable (vt_blanked (vt c))"
  shows "res_ok (\<lambda>c'. framed (scr_region K) (fronted c (display_fg (vc c)) n) c c' \<and> wf_con K c' \<and>
      (\<forall>d. vt_blanked (vts c' d) \<longrightarrow> vt_blanked (vts c d))) (swap_screens sw n c)"
proof -
  let ?d = "display_fg (vc c)"
  define c1 where "c1 = upd_vt ?d (\<lambda>t. t\<lparr>fg_console := Some n\<rparr>) c"
  have wf1: "wf_con (relaxed K) c1"
    unfolding c1_def using wf vis n by (rule wf_con_fg)
  have f1: "framed (scr_region K) (fronted c ?d n) c c1"
    unfolding c1_def by (rule framed_upd_vt)
  have k2: "keeps (relaxed K) c1 (save_screen sw c1)"
    using wf1 by (rule core.save_screen_ok)
  have "\<not> is_visible c1"
    using assms(5) by (simp add: c1_def is_visible_def vt_def)
  then have k3: "keeps (relaxed K) c1 (set_origin sw (save_screen sw c1))"
    using k2 keeps_visible [OF k2] by (intro keeps_step [OF k2 set_origin_hidden]) auto
  define c3 where "c3 = set_origin sw (save_screen sw c1)"
  have f3: "framed (scr_region K) (fronted c ?d n) c c3"
    unfolding c3_def using framed_keeps [OF f1 k3] by simp
  have b3: "vt_blanked (vts c3 d) \<Longrightarrow> vt_blanked (vts c d)" for d
    using k3 by (auto simp: keeps_def c3_def c1_def split: if_splits)
  have wf3: "wf_con (relaxed K) c3"
    unfolding c3_def using k3 by (rule keeps_wf)
  have ex: "get_console c3 n \<noteq> None"
    using framed_console(1) [OF f3, of n] n(1) by simp
  have "res_ok (\<lambda>c'. framed (scr_region K) (vts c3) c3 c' \<and> wf_con K c' \<and>
      (\<forall>d. vt_blanked (vts c' d) \<longrightarrow> vt_blanked (vts c d))) (in_console (Some n) (show_console sw) c3)"
  proof (rule in_console_wf [OF wf3 ex])
    fix c' assume c': "refocus c3 c'" "wf_con (relaxed K) c'" "vc_num (vc c') = n"
    have "get_console c3 n = Some (vc c')"
      using c'(1,3) get_console_own [of c'] by (simp add: refocus_sel)
    then have d: "display_fg (vc c') = ?d"
      using framed_console(2) [OF f3, of n] n by simp
    then have v: "is_visible c'"
      using c'(1,3) framed_fg(1) [OF f3, of ?d] by (simp add: is_visible_def vt_def refocus_sel)
    have "placeable (vt_blanked (vt c'))"
    proof (cases "vt_blanked (vt c')")
      case True
      then have "vt_blanked (vt c)"
        using b3 d c'(1) by (simp add: vt_def refocus_sel)
      then show ?thesis
        using True assms(6) by simp
    next
      case False
      then show ?thesis
        using placeable_mono [OF assms(6)] by simp
    qed
    then show "res_ok (\<lambda>c''. framed (scr_region K) (vts c3) c' c'' \<and> wf_con K c'' \<and>
        (\<forall>d. vt_blanked (vts c'' d) \<longrightarrow> vt_blanked (vts c d))) (show_console sw c')"
    proof (rule res_ok_mono [OF show_console_ok [OF c'(2) v]])
      fix c'' assume k: "keeps (relaxed K) c' c'' \<and> wf_con K c''"
      then have "\<forall>d. vt_blanked (vts c'' d) \<longrightarrow> vt_blanked (vts c d)"
        using b3 refocus_sel(2) [OF c'(1)] by (auto simp: keeps_def)
      then show "framed (scr_region K) (vts c3) c' c'' \<and> wf_con K c'' \<and>
          (\<forall>d. vt_blanked (vts c'' d) \<longrightarrow> vt_blanked (vts c d))"
        using k keeps_framed [of "relaxed K" c' c''] refocus_sel(2) [OF c'(1)] by simp
    qed
  next
    fix c' d' :: "'d con"
    assume "\<forall>d. vt_blanked (vts c' d) \<longrightarrow> vt_blanked (vts c d)" "refocus c' d'"
    then show "\<forall>d. vt_blanked (vts d' d) \<longrightarrow> vt_blanked (vts c d)"
      by (simp add: refocus_sel)
  qed
  then show ?thesis
    unfolding swap_screens_def n(1) option.case n(2) Let_def c1_def [symmetric] c3_def [symmetric]
    by (rule res_ok_mono) (use framed_trans [OF f3] in blast)
qed

lemma fronted_cong: "framed R (vts c) c c1 \<Longrightarrow> framed R (fronted c1 d n) a b \<Longrightarrow> framed R (fronted c d n) a b"
  by (erule framed_cong) (simp add: framed_def vt_ids_def)

lemma switch_con_ok:
  assumes wf: "wf_con K c" and vis: "is_visible c" and n: "get_console c n = Some w" "display_fg w = display_fg (vc c)"
    and "placeable (vt_blanked (vt c))"
  shows "res_ok (\<lambda>c'. framed (scr_region K) (fronted c (display_fg (vc c)) n) c c' \<and> wf_con K c' \<and>
      (\<forall>d. vt_blanked (vts c' d) \<longrightarrow> vt_blanked (vts c d))) (switch_con sw n c)"
  unfolding switch_con_def
proof (rule res_ok_bind [OF hide_cursor_ok [OF wf]])
  let ?d = "display_fg (vc c)"
  let ?P = "\<lambda>c'. framed (scr_region K) (fronted c ?d n) c c' \<and> wf_con K c' \<and>
      (\<forall>d. vt_blanked (vts c' d) \<longrightarrow> vt_blanked (vts c d))"
  fix c1 assume k1: "keeps K c c1"
  note f1 = keeps_framed [OF k1]
  have c1: "is_visible c1" "display_fg (vc c1) = ?d" "vc_num (vc c1) = vc_num (vc c)"
    using keeps_visible [OF k1] keeps_display_fg [OF k1] vis k1 by (auto simp: keeps_def)
  have b1: "vt_blanked (vts c1 d) \<Longrightarrow> vt_blanked (vts c d)" for d
    using k1 by (simp add: keeps_def)
  have pl: "placeable (vt_blanked (vt c1))"
    using b1 [of ?d] assms(5) placeable_mono [OF assms(5)] c1(2)
    by (cases "vt_blanked (vt c1)") (simp_all add: vt_def)
  have "\<exists>w1. get_console c1 n = Some w1 \<and> display_fg w1 = ?d"
    using framed_console(2) [OF f1, of n] n by auto
  then obtain w1 where w1: "get_console c1 n = Some w1" "display_fg w1 = display_fg (vc c1)"
    using c1(2) by auto
  have "res_ok ?P (if n \<noteq> vc_num (vc c1) then swap_screens sw n c1 else Inr c1)"
  proof (cases "n = vc_num (vc c1)")
    case True
    have "vts c1 d = fronted c1 ?d n d" for d
      using c1 True by (simp add: is_visible_def vt_def)
    then have "framed (scr_region K) (fronted c ?d n) c c1"
      using f1 by (intro fronted_cong [OF f1]) (simp add: framed_def)
    then show ?thesis
      using True b1 keeps_wf [OF k1] by simp
  next
    case False
    then have "res_ok ?P (swap_screens sw n c1)"
      by (rule_tac res_ok_mono [OF swap_screens_ok [OF keeps_wf [OF k1] c1(1) w1 False pl]])
        (use b1 c1(2) framed_then [OF f1 fronted_cong [OF f1]] in auto)
    then show ?thesis
      using False by simp
  qed
  then show "res_ok ?P (res_bind (if n \<noteq> vc_num (vc c1) then swap_screens sw n c1 else Inr c1)
      (\<lambda>c2. res_bind (in_console (Some n) (set_cursor sw) c2) (\<lambda>c3. Inr (log Set_leds c3))))"
  proof (rule res_ok_bind)
    fix c2 assume c2: "?P c2"
    then have "get_console c2 n \<noteq> None"
      using framed_console(1) [OF conjunct1, of "scr_region K" "fronted c ?d n" c c2] n(1) by auto
    then have "res_ok (keeps K c2) (in_console (Some n) (set_cursor sw) c2)"
      using c2 set_cursor_ok by (intro keeps_in_console [OF _ refl]) auto
    then show "res_ok ?P (res_bind (in_console (Some n) (set_cursor sw) c2) (\<lambda>c3. Inr (log Set_leds c3)))"
    proof (rule res_ok_bind)
      fix c3 assume "keeps K c2 c3"
      then have "keeps K c2 (log Set_leds c3)"
        using keeps_step [OF _ keeps_log] by blast
      then show "res_ok ?P (Inr (log Set_leds c3))"
        using c2 framed_keeps [of "scr_region K" "fronted c ?d n" c c2 K] by (auto simp: keeps_def)
    qed
  qed
qed

end

section \<open>The VGA driver\<close>

text \<open>The contract with the driver's blanking variables fixed.\<close>

definition vga_contract_at :: "int \<Rightarrow> bool \<times> bool \<Rightarrow> int \<Rightarrow> int \<Rightarrow> int set \<Rightarrow> vga contract" where
  "vga_contract_at ty ph b e bufs = (vga_contract ty b e bufs)
     \<lparr>drv_ok := (\<lambda>d. drv_ok (vga_contract ty b e bufs) d \<and> (vga_is_gfx d, vga_palette_blanked d) = ph)\<rparr>"

lemma contract_at_sel [simp]:
  "scr_region (vga_contract_at ty ph b e bufs) = {b ..< e} \<union> bufs"
  "scr_max (vga_contract_at ty ph b e bufs) = e - b"
  "scr_ready (vga_contract_at ty ph b e bufs) = scr_ready (vga_contract ty b e bufs)"
  "unlocked (vga_contract_at ty ph b e bufs) = unlocked (vga_contract ty b e bufs)"
  "drv_ok (vga_contract_at ty ph b e bufs) d \<longleftrightarrow>
     drv_ok (vga_contract ty b e bufs) d \<and> (vga_is_gfx d, vga_palette_blanked d) = ph"
  by (simp_all add: vga_contract_at_def)

lemma layout_at: "layout_contract (vga_contract_at ty ph b e bufs)"
  by (auto simp: layout_contract_def vga_contract_at_def vga_contract_def vga_layout_def)

lemma wf_con_at:
  "wf_con (vga_contract_at ty ph b e bufs) c \<longleftrightarrow> wf_con (vga_contract ty b e bufs) c \<and>
     (vga_is_gfx (drv c), vga_palette_blanked (drv c)) = ph"
  by (auto simp: wf_con_def wf_displayed_def wf_drv_def)

text \<open>Where setting the origin puts a console.\<close>

definition to_buf :: "vc_data \<Rightarrow> vc_data" where
  "to_buf v = v\<lparr>vc_origin := vc_screenbuf v, vc_visible_origin := vc_screenbuf v,
     vc_scr_end := vc_screenbuf v + vc_screenbuf_size v,
     vc_pos := vc_screenbuf v + vc_size_row v * vc_y v + 2 * vc_x v\<rparr>"

lemma to_buf_moved:
  assumes "wf_vc R v"
  shows "to_buf v = moved_to (vc_screenbuf v) v"
    and "to_buf (v\<lparr>vc_origin := p, vc_visible_origin := q\<rparr>) = moved_to (vc_screenbuf v) v"
  using wf_vcD(8) [OF assms] by (simp_all add: to_buf_def moved_to_def algebra_simps)

lemma set_origin_refused: "\<not> fst (vgacon_set_origin c) \<Longrightarrow> set_origin vga_con c = c\<lparr>vc := to_buf (vc c)\<rparr>"
  by (auto simp: set_origin_def vga_con_def vgacon_set_origin_def upd_vc_def to_buf_def Let_def split: if_splits)

lemma vgacon_set_origin_drv:
  assumes "fst (vgacon_set_origin c)"
  shows "\<exists>x. snd (vgacon_set_origin c) = c\<lparr>vc := (vc c)\<lparr>vc_origin := vga_vram_base (drv c),
      vc_visible_origin := vga_vram_base (drv c)\<rparr>, drv := x\<rparr> \<and> vga_layout x = vga_layout (drv c)"
proof -
  have "snd (vgacon_set_origin c) = c\<lparr>vc := (vc c)\<lparr>vc_origin := vga_vram_base (drv c),
      vc_visible_origin := vga_vram_base (drv c)\<rparr>, drv := (write_vga 12 0 (drv c))\<lparr>vga_rolled_over := 0\<rparr>\<rparr>"
    using assms by (auto simp: vgacon_set_origin_def vga_set_mem_top_def upd_drv_def upd_vc_def split: if_splits)
  then show ?thesis
    by (intro exI) (rule conjI, assumption, simp)
qed

lemma set_origin_accepted:
  assumes "fst (vgacon_set_origin c)" "is_visible c" "wf_vc R (vc c)"
  shows "\<exists>x. set_origin vga_con c = c\<lparr>vc := moved_to (vga_vram_base (drv c)) (vc c), drv := x\<rparr> \<and>
    vga_layout x = vga_layout (drv c)"
proof -
  obtain x where x: "snd (vgacon_set_origin c) = c\<lparr>vc := (vc c)\<lparr>vc_origin := vga_vram_base (drv c),
      vc_visible_origin := vga_vram_base (drv c)\<rparr>, drv := x\<rparr>" "vga_layout x = vga_layout (drv c)"
    using vgacon_set_origin_drv [OF assms(1)] by blast
  have r: "vgacon_set_origin c = (True, c\<lparr>vc := (vc c)\<lparr>vc_origin := vga_vram_base (drv c),
      vc_visible_origin := vga_vram_base (drv c)\<rparr>, drv := x\<rparr>)"
    using assms(1) x(1) by (cases "vgacon_set_origin c") simp
  show ?thesis
    using assms(2) wf_vcD(8) [OF assms(3)] x(2)
    by (intro exI [of _ x]) (simp add: set_origin_def vga_con_def r upd_vc_def moved_to_def Let_def mult.commute)
qed

lemma set_origin_placed:
  assumes wf: "wf_con (relaxed (vga_contract_at ty ph b e bufs)) c" and vis: "is_visible c"
    and pl: "vt_blanked (vt c) \<longrightarrow> fst ph \<or> snd ph" and c1: "c1 = set_origin vga_con c"
  shows "keeps (relaxed (vga_contract_at ty ph b e bufs)) c c1 \<and> wf_con (vga_contract_at ty ph b e bufs) c1"
proof -
  let ?K = "vga_contract_at ty ph b e bufs"
  note l = layout_relaxed [OF layout_at]
  have d: "drv_ok ?K (drv c)" "vc_screenbuf_size (vc c) \<le> e - b"
    using wf_conD(9) [OF wf] get_console_own [of c] unfolding wf_drv_def by (simp, fastforce)
  have "\<exists>q. vc c1 = moved_to q (vc c) \<and> c1 = c\<lparr>vc := moved_to q (vc c), mem := mem c, drv := drv c1\<rparr> \<and>
      vga_layout (drv c1) = vga_layout (drv c) \<and> (vga_is_gfx (drv c) \<and> q = vc_screenbuf (vc c) \<or> q = b)"
  proof (cases "fst (vgacon_set_origin c)")
    case True
    obtain x where "c1 = c\<lparr>vc := moved_to (vga_vram_base (drv c)) (vc c), drv := x\<rparr>" "vga_layout x = vga_layout (drv c)"
      using set_origin_accepted [OF True vis wf_con_vc [OF wf]] c1 by blast
    then show ?thesis
      using d(1) by (intro exI [of _ b]) simp
  next
    case False
    then have "vga_is_gfx (drv c)"
      using d(1) pl by (auto simp: vgacon_set_origin_def split: if_splits)
    then show ?thesis
      using set_origin_refused [OF False] to_buf_moved(1) [OF wf_con_vc [OF wf]]
      by (intro exI [of _ "vc_screenbuf (vc c)"]) (simp add: c1)
  qed
  then obtain q where q: "c1 = c\<lparr>vc := moved_to q (vc c), mem := mem c, drv := drv c1\<rparr>" "vc c1 = moved_to q (vc c)"
    "vga_layout (drv c1) = vga_layout (drv c)" "vga_is_gfx (drv c) \<and> q = vc_screenbuf (vc c) \<or> q = b"
    by blast
  have "{q ..< q + vc_screenbuf_size (vc c)} \<subseteq> {b ..< e} \<union> bufs"
    using q(4) d(2) wf_vcD(7) [OF wf_con_vc [OF wf]] by auto
  then have k: "keeps (relaxed ?K) c c1"
    by (intro keeps_moved [OF l wf q(1) _ q(3)]) simp_all
  have "scr_ready ?K (drv c1) (vc_origin (vc c1)) (vc_screenbuf_size (vc c1))"
    using q d(2) by (auto simp: moved_to_def vga_layout_def)
  then show ?thesis
    using k keeps_visible [OF k] vis by (auto intro: wf_con_unrelaxed [OF keeps_wf [OF k]])
qed

interpretation vga_at: placing_driver vga_con "vga_contract_at ty ph b e bufs" "\<lambda>blanked. blanked \<longrightarrow> fst ph \<or> snd ph"
  for ty ph b e bufs
proof (intro placing_driver.intro placing_driver_axioms.intro)
  show "drawing_driver vga_con (vga_contract_at ty ph b e bufs)"
    "drawing_driver vga_con (relaxed (vga_contract_at ty ph b e bufs))"
    using vga_drawing layout_at layout_relaxed by blast+
qed (simp_all add: vga_con_sel vgacon_switch_keeps set_origin_placed)


section \<open>Blanking\<close>

text \<open>
  The wf part of \<open>keeps\<close> does not depend on \<open>unlocked\<close>; without it a display may enter
  graphics mode.
\<close>

definition lockable :: "'d contract \<Rightarrow> 'd contract" where
  "lockable K = K\<lparr>unlocked := (\<lambda>d. False)\<rparr>"

lemma lockable_sel [simp]:
  "scr_region (lockable K) = scr_region K" "scr_max (lockable K) = scr_max K" "drv_ok (lockable K) = drv_ok K"
  "scr_ready (lockable K) = scr_ready K" "\<not> unlocked (lockable K) d"
  by (simp_all add: lockable_def)

lemma wf_con_lockable [simp]: "wf_con (lockable K) c = wf_con K c"
  by (simp add: wf_con_def wf_displayed_def wf_drv_def)

lemma layout_lockable: "layout_contract K \<Longrightarrow> layout_contract (lockable K)"
proof -
  have "unlocked (lockable K) d' = unlocked (lockable K) d" for d d'
    by simp
  then show "layout_contract K \<Longrightarrow> layout_contract (lockable K)"
    unfolding layout_contract_def lockable_sel(1-4) by blast
qed

lemma wf_con_blanked:
  "wf_con K (upd_vt d (\<lambda>t. t\<lparr>vt_blanked := x\<rparr>) c) = wf_con K c"
proof -
  let ?c = "upd_vt d (\<lambda>t. t\<lparr>vt_blanked := x\<rparr>) c"
  have *: "fg_console (vts ?c a) = fg_console (vts c a)" "last_console (vts ?c a) = last_console (vts c a)"
    "vc_count (vts ?c a) = vc_count (vts c a)" "vc_cons (vts ?c a) = vc_cons (vts c a)"
    "want_vc (vts ?c a) = want_vc (vts c a)" for a
    by simp_all
  show ?thesis
    unfolding wf_con_def wf_sel_def wf_displayed_def wf_switch_def wf_drv_def wf_maps_def *
      upd_vt_sel(1,4,6-9,12,13) ..
qed

lemma wf_con_last:
  assumes "wf_con K c" "get_console c m \<noteq> None"
  shows "wf_con K (upd_vt d (\<lambda>t. t\<lparr>last_console := Some m\<rparr>) c)"
proof -
  let ?c = "upd_vt d (\<lambda>t. t\<lparr>last_console := Some m\<rparr>) c"
  have *: "fg_console (vts ?c a) = fg_console (vts c a)" for a
    by simp
  have "wf_switch ?c"
    using wf_conD(8) [OF assms(1)] assms(2) by (auto simp: wf_switch_def)
  then show ?thesis
    using assms(1) unfolding wf_con_def wf_sel_def wf_displayed_def wf_drv_def wf_maps_def *
      upd_vt_sel(1,4,6-9,12,13) by blast
qed

lemma framed_blanked: "framed R t c c' \<Longrightarrow> framed R t c (upd_vt d (\<lambda>t. t\<lparr>vt_blanked := x\<rparr>) c')"
  by (simp add: framed_def vt_ids_def)

text \<open>Entering graphics mode moves the screen to the console's buffer.\<close>

lemma enter_gfx_shape:
  assumes "wf_vc R (vc c)" "display_fg (vc c) = d"
    and c1: "c1 = set_origin vga_con (upd_vt d (\<lambda>t. t\<lparr>vt_blanked := True\<rparr>) (snd (vgacon_blank (-1) True c)))"
  shows "\<exists>x. c1 = upd_vt d (\<lambda>t. t\<lparr>vt_blanked := True\<rparr>)
      (c\<lparr>vc := moved_to (vc_screenbuf (vc c)) (vc c),
         mem := scr_memsetw (vga_vram_base (drv c)) BLANK (vc_screenbuf_size (vc c)) (mem c), drv := x\<rparr>) \<and>
    vga_layout x = vga_layout ((drv c)\<lparr>vga_is_gfx := True\<rparr>)"
proof -
  let ?s = "snd (vgacon_set_origin c)"
  let ?m = "scr_memsetw (vga_vram_base (drv c)) BLANK (vc_screenbuf_size (vc c)) (mem c)"
  have "\<exists>v x. ?s = c\<lparr>vc := v, drv := x\<rparr> \<and> to_buf v = moved_to (vc_screenbuf (vc c)) (vc c) \<and>
      vga_layout x = vga_layout (drv c)"
  proof (cases "fst (vgacon_set_origin c)")
    case True
    then show ?thesis
      using vgacon_set_origin_drv [OF True] to_buf_moved(2) [OF assms(1)] by blast
  next
    case False
    then have "?s = c\<lparr>vc := vc c, drv := drv c\<rparr>"
      by (auto simp: vgacon_set_origin_def split: if_splits)
    then show ?thesis
      using to_buf_moved(1) [OF assms(1)] by blast
  qed
  then obtain v x where s: "?s = c\<lparr>vc := v, drv := x\<rparr>" "to_buf v = moved_to (vc_screenbuf (vc c)) (vc c)"
    "vga_layout x = vga_layout (drv c)" by blast
  let ?c = "upd_vt d (\<lambda>t. t\<lparr>vt_blanked := True\<rparr>) (c\<lparr>vc := v, mem := ?m, drv := x\<lparr>vga_is_gfx := True\<rparr>\<rparr>)"
  have "upd_vt d (\<lambda>t. t\<lparr>vt_blanked := True\<rparr>) (snd (vgacon_blank (-1) True c)) = ?c"
    by (simp add: vgacon_blank_def Let_def s(1) upd_drv_def upd_mem_def)
  moreover have "\<not> fst (vgacon_set_origin ?c)"
    by (simp add: vgacon_set_origin_def)
  ultimately have "c1 = ?c\<lparr>vc := to_buf (vc ?c)\<rparr>"
    unfolding c1 using set_origin_refused by metis
  then show ?thesis
    using s(2,3) by (intro exI [of _ "x\<lparr>vga_is_gfx := True\<rparr>"]) (simp add: upd_vt_def vga_layout_def)
qed

lemma do_blank_gfx_ok:
  assumes wf: "wf_con (vga_contract ty b e bufs) c" and d: "display_fg (vc c) = d" and "is_visible c"
  shows "res_ok (\<lambda>c'. framed ({b ..< e} \<union> bufs) (vts c) c c' \<and> wf_con (vga_contract ty b e bufs) c') (do_blank_gfx vga_con d c)"
  unfolding do_blank_gfx_def
proof (rule res_ok_bind [OF vga.hide_cursor_ok [OF wf]])
  let ?K = "vga_contract ty b e bufs"
  fix c1 assume k1: "keeps ?K c c1"
  define c2 where "c2 = save_screen vga_con c1"
  have k2: "keeps ?K c c2"
    unfolding c2_def using k1 vga.save_screen_ok by (rule keeps_step)
  note wf2 = keeps_wf [OF k2]
  have v2: "wf_vc ({b ..< e} \<union> bufs) (vc c2)"
    using wf_con_vc [OF wf2] by simp
  have d2: "display_fg (vc c2) = d"
    using keeps_display_fg [OF k2] d by simp
  obtain x where x: "set_origin vga_con (upd_vt d (\<lambda>t. t\<lparr>vt_blanked := True\<rparr>) (snd (vgacon_blank (-1) True c2)))
      = upd_vt d (\<lambda>t. t\<lparr>vt_blanked := True\<rparr>) (c2\<lparr>vc := moved_to (vc_screenbuf (vc c2)) (vc c2),
         mem := scr_memsetw (vga_vram_base (drv c2)) BLANK (vc_screenbuf_size (vc c2)) (mem c2), drv := x\<rparr>)"
    "vga_layout x = vga_layout ((drv c2)\<lparr>vga_is_gfx := True\<rparr>)"
    using enter_gfx_shape [OF v2 d2 refl] by blast
  let ?c3 = "upd_drv (\<lambda>d. d\<lparr>vga_is_gfx := True\<rparr>) c2"
  let ?c4 = "c2\<lparr>vc := moved_to (vc_screenbuf (vc c2)) (vc c2),
         mem := scr_memsetw (vga_vram_base (drv c2)) BLANK (vc_screenbuf_size (vc c2)) (mem c2), drv := x\<rparr>"
  have k3: "keeps (lockable ?K) c2 ?c3"
    using wf2 by (intro keeps_upd_drv) simp_all
  have "{vga_vram_base (drv c2) ..< vga_vram_base (drv c2) + vc_screenbuf_size (vc c2)} \<subseteq> {b ..< e} \<union> bufs"
    using wf_conD(9) [OF wf2] get_console_own [of c2] unfolding wf_drv_def by fastforce
  then have "keeps (lockable ?K) ?c3 ?c4"
    using wf_vcD(7) [OF v2] x(2)
    by (intro keeps_moved [OF layout_lockable [OF layout_vga] keeps_wf [OF k3], where p = "vc_screenbuf (vc c2)"
          and m = "scr_memsetw (vga_vram_base (drv c2)) BLANK (vc_screenbuf_size (vc c2)) (mem c2)" and d = x])
      (auto simp: upd_drv_def same_off_memsetw)
  then have k4: "keeps (lockable ?K) c2 ?c4"
    by (rule keeps_trans [OF k3])
  have f4: "framed ({b ..< e} \<union> bufs) (vts c) c ?c4"
    using framed_keeps [OF keeps_framed [OF k2] k4] by simp
  have "wf_con ?K ?c4"
    using keeps_wf [OF k4] by simp
  then show "res_ok (\<lambda>c'. framed ({b ..< e} \<union> bufs) (vts c) c c' \<and> wf_con ?K c')
      (let c2 = snd (con_blank vga_con (-1) True (save_screen vga_con c1))
       in Inr (set_origin vga_con (upd_vt d (\<lambda>t. t\<lparr>vt_blanked := True\<rparr>) c2)))"
    using framed_blanked [OF f4] by (simp add: c2_def [symmetric] vga_con_sel x(1) wf_con_blanked)
qed


lemma vesa_blank_layout [simp]: "vga_layout (vga_vesa_blank m d) = vga_layout d"
  by (simp add: vga_vesa_blank_def Let_def crtc_w_def vga_layout_def)

text \<open>Blanking by VESA modes, and any blanking of a VGA card whose palette is blanked already.\<close>

lemma vesa_keeps:
  "layout_contract K \<Longrightarrow> wf_con K c \<Longrightarrow> k \<notin> {0, 1, -1} \<Longrightarrow> keeps K c (snd (vgacon_blank k ms c))"
  by (auto simp: vgacon_blank_def intro: keeps_regs)

lemma palette_blank_at:
  assumes wf: "wf_con (vga_contract_at VIDEO_TYPE_VGAC (g, p) b e bufs) c" and k: "k = 1 \<or> k = -1"
  shows "fst (vgacon_blank k False c) = False"
    and "framed ({b ..< e} \<union> bufs) (vts c) c (snd (vgacon_blank k False c))"
    and "wf_con (vga_contract_at VIDEO_TYPE_VGAC (g, True) b e bufs) (snd (vgacon_blank k False c))"
    and "vts (snd (vgacon_blank k False c)) = vts c"
proof -
  have d: "vga_video_type (drv c) = VIDEO_TYPE_VGAC" "vga_is_gfx (drv c) = g" "wf_con (vga_contract VIDEO_TYPE_VGAC b e bufs) c"
    using wf wf_conD(9) [OF wf] by (simp_all add: wf_con_at wf_drv_def)
  have r: "vgacon_blank k False c = (False, upd_drv (\<lambda>d. (vga_pal_blank d)\<lparr>vga_palette_blanked := True\<rparr>) c)"
    using d(1) k by (auto simp: vgacon_blank_def)
  have l: "vga_layout (vga_pal_blank (drv c)) = vga_layout (drv c)"
    by simp
  then have k: "keeps (vga_contract VIDEO_TYPE_VGAC b e bufs) c (upd_drv (\<lambda>d. (vga_pal_blank d)\<lparr>vga_palette_blanked := True\<rparr>) c)"
    using wf_conD(9) [OF d(3)] by (intro keeps_upd_drv [OF d(3)]) (simp_all add: vga_layout_def wf_drv_def)
  then show "framed ({b ..< e} \<union> bufs) (vts c) c (snd (vgacon_blank k False c))"
    using keeps_framed [of "vga_contract VIDEO_TYPE_VGAC b e bufs" c] by (simp add: r)
  show "wf_con (vga_contract_at VIDEO_TYPE_VGAC (g, True) b e bufs) (snd (vgacon_blank k False c))"
    using keeps_wf [OF k] l d by (simp add: r wf_con_at vga_layout_def)
qed (use wf_conD(9) [OF wf] k in \<open>auto simp: wf_drv_def vgacon_blank_def\<close>)

lemma blank_again_at:
  assumes wf: "wf_con (vga_contract_at VIDEO_TYPE_VGAC (g, True) b e bufs) c"
  shows "framed ({b ..< e} \<union> bufs) (vts c) c (snd (vgacon_blank k False c)) \<and>
    wf_con (vga_contract VIDEO_TYPE_VGAC b e bufs) (snd (vgacon_blank k False c))"
proof -
  have d: "vga_palette_blanked (drv c)" "wf_con (vga_contract VIDEO_TYPE_VGAC b e bufs) c"
    using wf by (simp_all add: wf_con_at)
  consider "k = 0" | "k = 1 \<or> k = -1" | "k \<notin> {0, 1, -1}" by auto
  then show ?thesis
  proof cases
    case 1
    have "\<not> fst (vgacon_blank 0 False c)"
      using d(1) by (simp add: vgacon_blank_def Let_def vga_vesa_unblank_def crtc_w_def)
    then show ?thesis
      using 1 vgacon_unblank_quiet [OF d(2)] vgacon_unblank_keeps [OF wf_con_relaxed [OF d(2)], THEN keeps_framed]
      by simp
  next
    case 2
    then show ?thesis
      using palette_blank_at(2,3) [OF wf] by (simp add: wf_con_at)
  next
    case 3
    then show ?thesis
      using vesa_keeps [OF layout_vga d(2)] keeps_framed [of "vga_contract VIDEO_TYPE_VGAC b e bufs" c] keeps_wf by fastforce
  qed
qed

lemma do_blank_text_ok:
  assumes wf: "wf_con (vga_contract VIDEO_TYPE_VGAC b e bufs) c"
  shows "res_ok (\<lambda>c'. framed ({b ..< e} \<union> bufs) (vts c) c c' \<and> wf_con (vga_contract VIDEO_TYPE_VGAC b e bufs) c') (do_blank_text vga_con d c)"
proof -
  let ?K = "vga_contract_at VIDEO_TYPE_VGAC (vga_is_gfx (drv c), vga_palette_blanked (drv c)) b e bufs"
  let ?L = "vga_contract_at VIDEO_TYPE_VGAC (vga_is_gfx (drv c), True) b e bufs"
  have wfK: "wf_con ?K c"
    using wf by (simp add: wf_con_at)
  show ?thesis
    unfolding do_blank_text_def
  proof (rule res_ok_bind [OF vga_at.hide_cursor_ok [OF wfK]])
    fix c1 assume k1: "keeps ?K c c1"
    define c2 where "c2 = save_screen vga_con (upd_vt d (\<lambda>t. t\<lparr>timer := None, blank_timer_expired := False\<rparr>) c1)"
    have k2: "keeps ?K c c2"
      unfolding c2_def by (rule keeps_step [OF keeps_step [OF k1 vga_at.keeps_timers(4)] vga_at.save_screen_ok])
    note pb = palette_blank_at [OF keeps_wf [OF k2], of 1, OF disjI1 [OF refl]]
    define c4 where "c4 = upd_vt d (\<lambda>t. t\<lparr>vt_blanked := True\<rparr>) (snd (vgacon_blank 1 False c2))"
    have f4: "framed ({b ..< e} \<union> bufs) (vts c) c c4"
    proof -
      have "framed ({b ..< e} \<union> bufs) (vts c) c c2"
        using keeps_framed [OF k2] by simp
      then show ?thesis
        unfolding c4_def by (rule framed_trans [OF _ framed_blanked [OF pb(2)]]) simp
    qed
    have wf4: "wf_con ?L c4"
      unfolding c4_def wf_con_blanked by (rule pb(3))
    define c6 where "c6 = (if console_blank_hook c4 = None then c4 else log (Blank_hook 1) c4)"
    have k6: "keeps ?L c4 c6"
      unfolding c6_def using wf4 by simp
    define c7 where "c7 = (if off_interval (vts c6 d) \<noteq> 0
        then mod_timer d (off_interval (vts c6 d)) (upd_vt d (\<lambda>t. t\<lparr>blank_state := blank_vesa_wait\<rparr>) c6) else c6)"
    have k7: "keeps ?L c4 c7"
      unfolding c7_def using k6 keeps_step [OF keeps_step [OF k6 vga_at.keeps_timers(2)] vga_at.keeps_timers(1)] by simp
    have fin: "framed ({b ..< e} \<union> bufs) (vts c) c c' \<and> wf_con (vga_contract VIDEO_TYPE_VGAC b e bufs) c'" if "keeps ?L c4 c'" for c'
      using framed_keeps [OF f4 that] keeps_wf [OF that] by (simp add: wf_con_at)
    have "framed ({b ..< e} \<union> bufs) (vts c) c c' \<and> wf_con (vga_contract VIDEO_TYPE_VGAC b e bufs) c'"
      if "c' = snd (vgacon_blank k False c7)" for c' k
      using blank_again_at [OF keeps_wf [OF k7], of k] fin [OF k7] framed_trans [of _ "vts c" c c7 "vts c7"] that by auto
    then show "res_ok (\<lambda>c'. framed ({b ..< e} \<union> bufs) (vts c) c c' \<and> wf_con (vga_contract VIDEO_TYPE_VGAC b e bufs) c')
      (let c2 = upd_vt d (\<lambda>t. t\<lparr>timer := None, blank_timer_expired := False\<rparr>) c1;
           (i, c3) = con_blank vga_con 1 False (save_screen vga_con c2);
           c4 = upd_vt d (\<lambda>t. t\<lparr>vt_blanked := True\<rparr>) c3;
           c5 = (if i then set_origin vga_con c4 else c4);
           hooked = (case console_blank_hook c5 of None \<Rightarrow> False | Some f \<Rightarrow> f 1);
           c6 = (if console_blank_hook c5 = None then c5 else log (Blank_hook 1) c5)
       in if hooked then Inr c6
          else
            let c7 = (if off_interval (vts c6 d) \<noteq> 0
                      then mod_timer d (off_interval (vts c6 d))
                             (upd_vt d (\<lambda>t. t\<lparr>blank_state := blank_vesa_wait\<rparr>) c6)
                      else c6)
            in Inr (if blank_mode (vts c7 d) \<noteq> 0
                    then snd (con_blank vga_con (blank_mode (vts c7 d) + 1) False c7) else c7))"
      using fin [OF k6] fin [OF k7]
      by (simp only: Let_def c2_def [symmetric] vga_con_sel case_prod_beta pb(1) if_False c4_def [symmetric]
          c6_def [symmetric] c7_def [symmetric]) simp
  qed
qed

lemma powerdown_ok: "wf_con (vga_contract ty b e bufs) c \<Longrightarrow> keeps (vga_contract ty b e bufs) c (powerdown_screen vga_con c)"
  unfolding powerdown_screen_def vga_con_sel by (auto intro: vesa_keeps [OF layout_vga])

text \<open>The whole of \<open>do_blank_screen\<close>: on a VGA card, or when graphics mode is entered.\<close>

lemma do_blank_screen_ok:
  assumes wf: "wf_con (vga_contract ty b e bufs) c" and fg: "fg_console (vts c d) \<noteq> None"
    and ty: "gfx \<or> ty = VIDEO_TYPE_VGAC"
  shows "res_ok (\<lambda>c'. framed ({b ..< e} \<union> bufs) (vts c) c c' \<and> wf_con (vga_contract ty b e bufs) c') (do_blank_screen vga_con d gfx c)"
    (is "res_ok ?P _")
proof -
  let ?K = "vga_contract ty b e bufs"
  obtain n where n: "fg_console (vts c d) = Some n"
    using fg by blast
  define c1 where "c1 = upd_vt d (\<lambda>t. t\<lparr>blank_state := blank_off\<rparr>) c"
  have k1: "keeps ?K c c1"
    unfolding c1_def using wf by (rule vga.keeps_timers)
  have "map_option display_fg (get_console c1 n) = Some d"
    using wf_conD(3) [OF wf n] by (simp add: c1_def)
  then obtain v where v: "get_console c1 n = Some v" "display_fg v = d"
    by auto
  have in1: "res_ok ?P (in_console (Some n) f c1)"
    if f: "\<And>c'. wf_con ?K c' \<Longrightarrow> display_fg (vc c') = d \<Longrightarrow> is_visible c' \<Longrightarrow> drv c' = drv c \<Longrightarrow>
        res_ok (\<lambda>c''. framed ({b ..< e} \<union> bufs) (vts c') c' c'' \<and> wf_con ?K c'') (f c')" for f
  proof -
    have "res_ok (\<lambda>c'. framed ({b ..< e} \<union> bufs) (vts c1) c1 c' \<and> wf_con ?K c' \<and> True) (in_console (Some n) f c1)"
    proof (rule in_console_wf [OF keeps_wf [OF k1]])
      show "get_console c1 n \<noteq> None"
        using v by simp
      fix c' assume c': "refocus c1 c'" "wf_con ?K c'" "vc_num (vc c') = n"
      have "get_console c1 n = Some (vc c')"
        using c'(1,3) get_console_own [of c'] by (simp add: refocus_sel)
      then have "display_fg (vc c') = d"
        using v by simp
      moreover have "is_visible c'"
        using c' n calculation by (simp add: is_visible_def vt_def refocus_sel c1_def)
      ultimately show "res_ok (\<lambda>c''. framed ({b ..< e} \<union> bufs) (vts c1) c' c'' \<and> wf_con ?K c'' \<and> True) (f c')"
        using f [OF c'(2)] refocus_sel(2,5) [OF c'(1)] by (simp add: c1_def)
    qed simp
    then show ?thesis
      by (rule res_ok_mono) (use framed_trans [OF keeps_framed [OF k1]] in auto)
  qed
  have "res_ok ?P (in_console (Some n) (\<lambda>c. Inr (powerdown_screen vga_con c)) c1)"
    by (rule in1) (use powerdown_ok keeps_framed keeps_wf in fastforce)
  moreover have "res_ok ?P (in_console (Some n) (\<lambda>c.
        if gfx then do_blank_gfx vga_con d c
        else if vc_mode (vc c) \<noteq> KD_TEXT then Inr (upd_vt d (\<lambda>t. t\<lparr>vt_blanked := True\<rparr>) c)
        else do_blank_text vga_con d c) c1)"
  proof (rule in1)
    fix c' assume c': "wf_con ?K c'" "display_fg (vc c') = d" "is_visible c'" "drv c' = drv c"
    have "framed ({b ..< e} \<union> bufs) (vts c') c' c'"
      using keeps_framed [of ?K c' c'] c'(1) by simp
    then show "res_ok (\<lambda>c''. framed ({b ..< e} \<union> bufs) (vts c') c' c'' \<and> wf_con ?K c'') (
        if gfx then do_blank_gfx vga_con d c'
        else if vc_mode (vc c') \<noteq> KD_TEXT then Inr (upd_vt d (\<lambda>t. t\<lparr>vt_blanked := True\<rparr>) c')
        else do_blank_text vga_con d c')"
      using do_blank_gfx_ok [OF c'(1,2,3)] do_blank_text_ok ty c'(1) framed_blanked
      by (auto simp: wf_con_blanked)
  qed
  moreover have "framed ({b ..< e} \<union> bufs) (vts c) c c"
    using keeps_framed [of ?K c c] wf by simp
  ultimately show ?thesis
    using wf by (simp add: do_blank_screen_def n c1_def [symmetric])
qed

end
