(* ===== verification/Switch_Props.thy ===== *)
theory Switch_Props
  imports Switch_Inv Keyboard_Props
begin

text \<open>
  Properties of console switching on the VGA driver: the back end always completes, the front end follows the
  protocol of the console's mode, and the reply of a process in control completes or drops the switch.
\<close>

section \<open>The back end\<close>

lemma framed_visible: "framed R (vts c) c c' \<Longrightarrow> is_visible c' = is_visible c"
  using framed_display [of R "vts c" c c'] framed_fg(1) [of R "vts c" c c' "display_fg (vc c)"]
  by (simp add: framed_def is_visible_def vt_def)

lemma vga_keeps_framed:
  "keeps (vga_contract ty b e bufs) c c' \<Longrightarrow> framed ({b ..< e} \<union> bufs) (vts c) c c' \<and> wf_con (vga_contract ty b e bufs) c'"
  using keeps_framed [of "vga_contract ty b e bufs" c c'] keeps_wf by simp

lemma mode_changed_ok:
  assumes wf: "wf_con (vga_contract ty b e bufs) c" and vis: "is_visible c"
  shows "res_ok (\<lambda>c'. framed ({b ..< e} \<union> bufs) (vts c) c c' \<and> wf_con (vga_contract ty b e bufs) c') (mode_changed vga_con m c)"
proof -
  have "fg_console (vts c (display_fg (vc c))) \<noteq> None"
    using vis by (simp add: is_visible_def vt_def)
  then show ?thesis
    using vga.unblank_vt_ok [OF wf, of "display_fg (vc c)"] do_blank_screen_ok [OF wf, of "display_fg (vc c)" True]
      vga_keeps_framed [OF keeps_refl [OF wf]] vga_keeps_framed
    by (auto simp: mode_changed_def elim: res_ok_mono)
qed

lemma acquired_ok:
  assumes wf: "wf_con (vga_contract ty b e bufs) c" and vis: "is_visible c"
  shows "res_ok (\<lambda>c'. framed ({b ..< e} \<union> bufs) (vts c) c c' \<and> wf_con (vga_contract ty b e bufs) c') (acquired vga_con env m c)"
proof -
  let ?K = "vga_contract ty b e bufs"
  let ?c1 = "log (Kill_proc (vt_pid (vc c)) (vtm_acqsig (vt_mode (vc c)))) c"
  let ?c2 = "reset_vc vga_con (in_interrupt env) ?c1"
  have k1: "keeps ?K c ?c1" using wf by simp
  have k2: "keeps ?K c ?c2"
    using keeps_step [OF k1 vga.reset_vc_ok] .
  have "is_visible ?c2"
    using keeps_visible [OF k2] vis by simp
  then have "res_ok (\<lambda>c'. framed ({b ..< e} \<union> bufs) (vts c) c c' \<and> wf_con ?K c') (mode_changed vga_con m ?c2)"
    by (rule res_ok_mono [OF mode_changed_ok [OF keeps_wf [OF k2]]])
      (use vga_keeps_framed [OF k2] in \<open>auto intro: framed_trans\<close>)
  then show ?thesis
    using vga_keeps_framed [OF k1] vga_keeps_framed [OF keeps_refl [OF wf]] by (simp add: acquired_def Let_def)
qed

text \<open>When the blanking of the display lets the new console be placed.\<close>

definition placeable_vga :: "vga con \<Rightarrow> bool" where
  "placeable_vga c \<longleftrightarrow> (vt_blanked (vt c) \<longrightarrow> vga_is_gfx (drv c) \<or> vga_palette_blanked (drv c))"

abbreviation (input) switched :: "'d con \<Rightarrow> int \<Rightarrow> int \<Rightarrow> int \<Rightarrow> int \<Rightarrow> vt_struct" where
  "switched c d old n \<equiv> (vts c)(d := (vts c d)\<lparr>fg_console := Some n, last_console := Some old\<rparr>)"

lemma complete_change_ok:
  assumes wf: "wf_con (vga_contract ty b e bufs) (kc s)" and kb: "wf_kb N (kb s)" and vis: "is_visible (kc s)"
    and n: "get_console (kc s) n = Some w" "display_fg w = display_fg (vc (kc s))" and pl: "placeable_vga (kc s)"
  shows "\<exists>s'. complete_change_console vga_con env n s = Inr s' \<and> wf_kb N (kb s') \<and>
    wf_con (vga_contract ty b e bufs) (kc s') \<and>
    framed ({b ..< e} \<union> bufs) (switched (kc s) (display_fg w) (vc_num (vc (kc s))) n) (kc s) (kc s') \<and>
    last (trace (kc s')) = Wake_activate"
proof -
  let ?K = "vga_contract ty b e bufs" and ?R = "{b ..< e} \<union> bufs"
  let ?c = "kc s" and ?d = "display_fg w" and ?old = "vc_num (vc (kc s))"
  define c1 where "c1 = upd_vt ?d (\<lambda>t. t\<lparr>last_console := Some ?old\<rparr>) ?c"
  define ph where "ph = (vga_is_gfx (drv c1), vga_palette_blanked (drv c1))"
  have "wf_con ?K c1"
    unfolding c1_def using wf by (rule wf_con_last) simp
  then have wf1: "wf_con (vga_contract_at ty ph b e bufs) c1"
    by (simp add: wf_con_at ph_def)
  have c1: "is_visible c1" "get_console c1 n = Some w" "?d = display_fg (vc c1)"
    using vis n by (auto simp: c1_def is_visible_def vt_def)
  have pl1: "vt_blanked (vt c1) \<longrightarrow> fst ph \<or> snd ph"
    using pl n(2) by (auto simp: placeable_vga_def c1_def vt_def ph_def)
  have f1: "framed ?R (vts c1) ?c c1"
    unfolding c1_def using framed_upd_vt [of ?R "kc s" ?d] by simp
  obtain c2 where c2: "switch_con vga_con n c1 = Inr c2"
    "framed ?R ((vts c1)(?d := (vts c1 ?d)\<lparr>fg_console := Some n\<rparr>)) c1 c2" "wf_con ?K c2"
    using vga_at.switch_con_ok [OF wf1 c1 pl1] by (auto simp: res_ok_ex wf_con_at c1(3))
  obtain b' where b': "compute_shiftstate (kb s) = Inr b'" "wf_kb N b'"
    using compute_shiftstate_ok [OF kb] by (auto simp: res_ok_ex)
  have "res_ok (\<lambda>c'. framed ?R (vts c2) c2 c' \<and> wf_con ?K c' \<and> True)
      (in_console (Some n) (\<lambda>c. res_bind (mode_changed vga_con (vc_mode (vc ?c)) c) (acquired vga_con env (vc_mode (vc ?c)))) c2)"
  proof (rule in_console_wf [OF c2(3)])
    show "get_console c2 n \<noteq> None"
      using framed_console(1) [OF c2(2), of n] c1(2) by simp
    fix c' assume c': "refocus c2 c'" "wf_con ?K c'" "vc_num (vc c') = n"
    have "get_console c2 n = Some (vc c')"
      using c'(1,3) get_console_own [of c'] by (simp add: refocus_sel)
    then have "display_fg (vc c') = ?d"
      using framed_console(2) [OF c2(2), of n] c1(2) by simp
    then have v: "is_visible c'"
      using c'(1,3) framed_fg(1) [OF c2(2), of ?d] by (simp add: is_visible_def vt_def refocus_sel)
    have "res_ok (\<lambda>c''. framed ?R (vts c') c' c'' \<and> wf_con ?K c'')
        (res_bind (mode_changed vga_con (vc_mode (vc ?c)) c') (acquired vga_con env (vc_mode (vc ?c))))"
    proof (rule res_ok_bind [OF mode_changed_ok [OF c'(2) v]])
      fix c3 assume c3: "framed ?R (vts c') c' c3 \<and> wf_con ?K c3"
      then have "is_visible c3"
        using framed_visible v by blast
      then show "res_ok (\<lambda>c''. framed ?R (vts c') c' c'' \<and> wf_con ?K c'') (acquired vga_con env (vc_mode (vc ?c)) c3)"
        by (rule_tac res_ok_mono [OF acquired_ok]) (use c3 in \<open>auto intro: framed_trans\<close>)
    qed
    then show "res_ok (\<lambda>c''. framed ?R (vts c2) c' c'' \<and> wf_con ?K c'' \<and> True)
        (res_bind (mode_changed vga_con (vc_mode (vc ?c)) c') (acquired vga_con env (vc_mode (vc ?c))))"
      using refocus_sel(2) [OF c'(1)] by simp
  qed simp
  then obtain c3 where c3: "in_console (Some n) (\<lambda>c. res_bind (mode_changed vga_con (vc_mode (vc ?c)) c)
      (acquired vga_con env (vc_mode (vc ?c)))) c2 = Inr c3" "framed ?R (vts c2) c2 c3" "wf_con ?K c3"
    by (auto simp: res_ok_ex)
  have "framed ?R ((vts c1)(?d := (vts c1 ?d)\<lparr>fg_console := Some n\<rparr>)) ?c c3"
    using framed_trans [OF framed_then [OF f1 c2(2)] c3(2)] by simp
  then have f: "framed ?R (switched ?c ?d ?old n) ?c c3"
    by (rule framed_cong) (simp add: c1_def vt_ids_def)
  have "complete_change_console vga_con env n s = Inr (s\<lparr>kb := b', kc := log Wake_activate c3\<rparr>)"
    using n(1) c2(1) b'(1) c3(1)
    by (simp add: complete_change_console_def Let_def on_con_def c1_def switch_screen_def on_con_res_def shiftstate_k_def)
  moreover have "wf_con ?K (log Wake_activate c3)" "framed ?R (switched ?c ?d ?old n) ?c (log Wake_activate c3)"
    using keeps_wf [OF keeps_log [OF c3(3)]] framed_keeps [OF f keeps_log [OF c3(3)]] by simp_all
  ultimately show ?thesis
    using b'(2) by (simp add: log_def)
qed


text \<open>
  C29. The back end of a switch always completes. From any state that satisfies the invariants, on a display
  that is not blanked, or blanked by its palette or in graphics mode, switching to another
  console of the display returns with that console in front, the old one remembered as the last console, the
  waiting processes woken, the invariants kept and nothing written outside screen memory.
\<close>

theorem switch_completes:
  assumes "wf_con (vga_contract ty b e bufs) (kc s)" "wf_kb N (kb s)" "is_visible (kc s)" "placeable_vga (kc s)"
    and "get_console (kc s) n = Some w" "display_fg w = d" "d = display_fg (vc (kc s))"
  shows "\<exists>s'. complete_change_console vga_con env n s = Inr s' \<and>
    fg_console (vts (kc s') d) = Some n \<and> last_console (vts (kc s') d) = Some (vc_num (vc (kc s))) \<and>
    last (trace (kc s')) = Wake_activate \<and> wf_kb N (kb s') \<and> wf_con (vga_contract ty b e bufs) (kc s') \<and>
    same_off ({b ..< e} \<union> bufs) (mem (kc s)) (mem (kc s'))"
proof -
  obtain s' where s': "complete_change_console vga_con env n s = Inr s'" "wf_kb N (kb s')"
    "wf_con (vga_contract ty b e bufs) (kc s')" "last (trace (kc s')) = Wake_activate"
    and f: "framed ({b ..< e} \<union> bufs) (switched (kc s) (display_fg w) (vc_num (vc (kc s))) n) (kc s) (kc s')"
    using complete_change_ok [OF assms(1-3,5) _ assms(4), of env] assms(6,7) by blast
  have "fg_console (vts (kc s') d) = Some n" "last_console (vts (kc s') d) = Some (vc_num (vc (kc s)))"
    using framed_fg(1,2) [OF f, of d] assms(6) by simp_all
  moreover have "same_off ({b ..< e} \<union> bufs) (mem (kc s)) (mem (kc s'))"
    using f by (simp add: framed_def)
  ultimately show ?thesis
    using s' by blast
qed

text \<open>Two consoles on the display.\<close>

definition vc1 :: vc_data where
  "vc1 = vc0\<lparr>vc_num := 1, vc_origin := 0x101000, vc_scr_end := 0x101fa0, vc_visible_origin := 0x101000,
     vc_screenbuf := 0x101000, vc_pos := 0x101000, vc_tty := Some 2\<rparr>"

definition con1 :: "vga con" where
  "con1 = con0\<lparr>pool := [1 \<mapsto> vc1],
     vts := (vts con0)(0 := vt0\<lparr>vc_cons := [Some 0, Some 1], want_vc := Some 1\<rparr>)\<rparr>"

abbreviation "bufs1 \<equiv> {0x100000 ..< 0x100fa0} \<union> {0x101000 ..< 0x101fa0 :: int}"

lemma get_console1: "get_console con1 n = (if n = 0 then Some vc0 else if n = 1 then Some vc1 else None)"
  by (simp add: get_console_def con1_def con0_def vc0_def)

lemma vts1: "vts con1 d = (if d = 0 then vt0\<lparr>vc_cons := [Some 0, Some 1], want_vc := Some 1\<rparr>
    else vt0\<lparr>vt_num := d, fg_console := None, want_vc := None, vc_count := 0, vc_cons := []\<rparr>)"
  by (simp add: con1_def con0_def)

lemma wf_vc1: "wf_vc ({0xb8000 ..< 0xc0000} \<union> bufs1) vc0" "wf_vc ({0xb8000 ..< 0xc0000} \<union> bufs1) vc1"
  using wf_vc0 by (auto simp: wf_vc_defs vc1_def vc0_def simp del: atLeastLessThan_iff)

lemma wf_con1: "wf_con (vga_contract VIDEO_TYPE_VGAC 0xb8000 0xc0000 bufs1) con1"
proof (rule wf_conI)
  show "wf_sel con1" "wf_switch con1"
    by (auto simp: wf_sel_def wf_switch_def get_console1 vts1) (auto simp: con1_def con0_def vt0_def vc0_def vc1_def split: if_splits)
  show "wf_displayed (vga_contract VIDEO_TYPE_VGAC 0xb8000 0xc0000 bufs1) con1"
    by (auto simp: wf_displayed_def get_console1 vts1 split: if_splits)
      (auto simp: con1_def con0_def vc0_def vc1_def vga0_def vt0_def)
  show "wf_drv (vga_contract VIDEO_TYPE_VGAC 0xb8000 0xc0000 bufs1) con1"
    by (auto simp: wf_drv_def get_console1 vts1 split: if_splits)
      (auto simp: con1_def con0_def vc0_def vc1_def vga0_def vt0_def split: if_splits)
  show "wf_maps con1"
    using wf_conD(10) [OF wf_con0] by (auto simp: wf_maps_def get_console1 con1_def con0_def cmap0_def)
  show "fg_console (vts con1 d) = Some n \<Longrightarrow> map_option display_fg (get_console con1 n) = Some d" for d n
    by (auto simp: vts1 get_console1 vt0_def vc0_def split: if_splits)
qed (auto simp: get_console1 wf_vc1 split: if_splits, auto simp: con1_def con0_def vc0_def vc1_def)

definition kcon1 :: "vga kcon" where
  "kcon1 = kcon0\<lparr>kc := con1\<rparr>"

lemma kcon1_sel: "kc kcon1 = con1" "kb kcon1 = kb0" "vc con1 = vc0" "is_visible con1" "placeable_vga con1"
  by (simp_all add: kcon1_def kcon0_def is_visible_def placeable_vga_def vt_def vts1)
    (simp_all add: con1_def con0_def vt0_def vc0_def)

theorem switch_completes_witness:
  "\<exists>s'. complete_change_console vga_con env0 1 kcon1 = Inr s' \<and>
    fg_console (vts (kc s') 0) = Some 1 \<and> last_console (vts (kc s') 0) = Some (vc_num (vc (kc kcon1))) \<and>
    last (trace (kc s')) = Wake_activate \<and> wf_kb 255 (kb s') \<and> wf_con (vga_contract VIDEO_TYPE_VGAC 0xb8000 0xc0000 bufs1) (kc s') \<and>
    same_off ({0xb8000 ..< 0xc0000} \<union> bufs1) (mem (kc kcon1)) (mem (kc s'))"
  by (rule switch_completes [where w = vc1])
    (simp_all add: kcon1_sel wf_con1 wf_kb0 get_console1, simp_all add: vc1_def vc0_def)

section \<open>The front end\<close>

text \<open>What the front end does on the console in front, as a choice of three.\<close>

datatype outcome = Stay | Ask | Switch

definition outcome :: "kenv \<Rightarrow> vc_data \<Rightarrow> outcome" where
  "outcome env v =
     (if vtm_mode (vt_mode v) = VT_PROCESS
      then if kill_proc_fails env (vt_pid v) (vtm_relsig (vt_mode v)) then Switch else Ask
      else if vc_mode v = KD_GRAPHICS then Stay else Switch)"

lemma reset_vc_mode: "vc_mode (vc (reset_vc vga_con irq c)) = KD_TEXT"
  by (simp add: reset_vc_def Let_def reset_palette_def set_palette_def vga_con_def vgacon_set_palette_def upd_vc_def)

text \<open>What \<open>reset_vc\<close> leaves of the blanking state.\<close>

lemma reset_vc_placeable:
  assumes "wf_con (vga_contract ty b e bufs) c" "placeable_vga c"
  shows "placeable_vga (reset_vc vga_con irq (log ev c))"
proof -
  define ph where "ph = (vga_is_gfx (drv c), vga_palette_blanked (drv c))"
  let ?c = "reset_vc vga_con irq (log ev c)"
  have "wf_con (vga_contract_at ty ph b e bufs) c"
    using assms(1) by (simp add: wf_con_at ph_def)
  then have k: "keeps (vga_contract_at ty ph b e bufs) c ?c"
    using keeps_step [OF keeps_log vga_at.reset_vc_ok] by blast
  have "(vga_is_gfx (drv ?c), vga_palette_blanked (drv ?c)) = ph"
    using keeps_wf [OF k] by (simp add: wf_con_at)
  moreover have "vt_blanked (vt ?c) \<Longrightarrow> vt_blanked (vt c)"
    using k keeps_display_fg [OF k] by (simp add: keeps_def vt_def)
  ultimately show ?thesis
    using assms(2) by (auto simp: placeable_vga_def ph_def)
qed

text \<open>
  C30. The front end follows the protocol. A console in automatic mode is switched away from at once,
  unless it is in graphics mode, and then nothing happens. A console in process mode stays in front: its
  process is sent the release signal and the new console is noted; if the process is
  gone the console becomes a text console in automatic mode and the switch goes ahead.
\<close>

theorem change_console_protocol:
  assumes "wf_con (vga_contract ty b e bufs) (kc s)" "wf_kb N (kb s)" "is_visible (kc s)" "placeable_vga (kc s)"
    and "get_console (kc s) n = Some w" "display_fg w = d" "d = display_fg (vc (kc s))"
    and "v = vc (kc s)"
  shows "\<exists>s'. change_console vga_con env (Some n) s = Inr s' \<and>
    (case outcome env v of
       Stay \<Rightarrow> s' = s
     | Ask \<Rightarrow> fg_console (vts (kc s') d) = Some (vc_num v) \<and> vt_newvt (vc (kc s')) = n \<and>
         trace (kc s') = trace (kc s) @ [Kill_proc (vt_pid v) (vtm_relsig (vt_mode v))]
     | Switch \<Rightarrow> fg_console (vts (kc s') d) = Some n \<and> last_console (vts (kc s') d) = Some (vc_num v)) \<and>
    wf_kb N (kb s') \<and> wf_con (vga_contract ty b e bufs) (kc s') \<and>
    same_off ({b ..< e} \<union> bufs) (mem (kc s)) (mem (kc s'))"
proof -
  let ?K = "vga_contract ty b e bufs" and ?c = "kc s" and ?R = "{b ..< e} \<union> bufs"
  let ?ev = "Kill_proc (vt_pid v) (vtm_relsig (vt_mode v))"
  have nn: "vc_num w = n"
    using wf_conD(2) [OF assms(1,5)] .
  have complete: "\<exists>s'. complete_change_console vga_con env n s1 = Inr s' \<and>
      fg_console (vts (kc s') d) = Some n \<and> last_console (vts (kc s') d) = Some (vc_num v) \<and>
      wf_kb N (kb s') \<and> wf_con ?K (kc s') \<and> same_off ?R (mem ?c) (mem (kc s'))"
    if k: "keeps ?K ?c (kc s1)" and "kb s1 = kb s" "placeable_vga (kc s1)" for s1
  proof -
    obtain w1 where w1: "get_console (kc s1) n = Some w1" "display_fg w1 = d"
      using framed_console(2) [OF keeps_framed [OF k], of n] assms(5,6) by auto
    have "vc_num (vc (kc s1)) = vc_num v"
      using k assms(8) by (simp add: keeps_def)
    then show ?thesis
      using switch_completes [OF keeps_wf [OF k], of N n w1 d env] that w1 assms(2,3,7) keeps_visible [OF k]
        keeps_display_fg [OF k] k by (fastforce simp: keeps_def intro: same_off_trans)
  qed
  show ?thesis
  proof (cases "outcome env v")
    case Stay
    then have "change_console vga_con env (Some n) s = Inr s"
      using assms(8) by (auto simp: outcome_def change_console_def Let_def split: if_splits)
    then show ?thesis
      using Stay assms(1,2) by simp
  next
    case Ask
    let ?s = "on_con (upd_vc (\<lambda>v. v\<lparr>vt_newvt := n\<rparr>)) (on_con (log ?ev) s)"
    have k: "keeps ?K ?c (kc ?s)"
      unfolding on_con_def using assms(1) by (auto intro!: keeps_step [OF keeps_log keeps_upd_vc])
    have "change_console vga_con env (Some n) s = Inr ?s"
      using Ask assms(5,8) nn by (auto simp: outcome_def change_console_def Let_def split: if_splits)
    moreover have "fg_console (vts (kc ?s) d) = Some (vc_num v)"
      using assms(3,7,8) by (simp add: on_con_def is_visible_def vt_def)
    ultimately show ?thesis
      using Ask k assms(2) by (simp add: keeps_def) (simp add: on_con_def log_def)
  next
    case Switch
    show ?thesis
    proof (cases "vtm_mode (vt_mode v) = VT_PROCESS")
      case True
      let ?s = "on_con (reset_vc vga_con (in_interrupt env)) (on_con (log ?ev) s)"
      have "change_console vga_con env (Some n) s = complete_change_console vga_con env n ?s"
        using Switch True assms(8) by (simp add: outcome_def change_console_def Let_def on_con_def reset_vc_mode split: if_splits)
      moreover have "keeps ?K ?c (kc ?s)" "placeable_vga (kc ?s)" "kb ?s = kb s"
        using assms(1) reset_vc_placeable [OF assms(1,4)] keeps_step [OF keeps_log vga.reset_vc_ok]
        by (auto simp: on_con_def)
      ultimately show ?thesis
        using complete [of ?s] Switch by auto
    next
      case False
      then have "change_console vga_con env (Some n) s = complete_change_console vga_con env n s"
        using Switch assms(8) by (auto simp: outcome_def change_console_def Let_def split: if_splits)
      then show ?thesis
        using complete [of s] Switch assms(1,4) by auto
    qed
  qed
qed

theorem change_console_protocol_witness:
  "\<exists>s'. change_console vga_con env0 (Some 1) kcon1 = Inr s' \<and> fg_console (vts (kc s') 0) = Some 1 \<and>
    wf_con (vga_contract VIDEO_TYPE_VGAC 0xb8000 0xc0000 bufs1) (kc s')"
proof -
  have "\<exists>s'. change_console vga_con env0 (Some 1) kcon1 = Inr s' \<and>
    (case outcome env0 vc0 of
       Stay \<Rightarrow> s' = kcon1
     | Ask \<Rightarrow> fg_console (vts (kc s') 0) = Some (vc_num vc0) \<and> vt_newvt (vc (kc s')) = 1 \<and>
         trace (kc s') = trace (kc kcon1) @ [Kill_proc (vt_pid vc0) (vtm_relsig (vt_mode vc0))]
     | Switch \<Rightarrow> fg_console (vts (kc s') 0) = Some 1 \<and> last_console (vts (kc s') 0) = Some (vc_num vc0)) \<and>
    wf_kb 255 (kb s') \<and> wf_con (vga_contract VIDEO_TYPE_VGAC 0xb8000 0xc0000 bufs1) (kc s') \<and>
    same_off ({0xb8000 ..< 0xc0000} \<union> bufs1) (mem (kc kcon1)) (mem (kc s'))"
    by (rule change_console_protocol [where w = vc1])
      (simp_all add: kcon1_sel wf_con1 wf_kb0 get_console1, simp_all add: vc1_def vc0_def)
  moreover have "outcome env0 vc0 = Switch"
    by (simp add: outcome_def vc0_def)
  ultimately show ?thesis
    by auto
qed


section \<open>The handshake\<close>

lemma find_vc_same:
  "vt_list c' = vt_list c \<Longrightarrow> (\<And>d. vt_ids (vts c' d) = vt_ids (vts c d)) \<Longrightarrow> find_vc n c' = find_vc n c"
proof -
  assume a: "vt_list c' = vt_list c" "\<And>d. vt_ids (vts c' d) = vt_ids (vts c d)"
  have "first_vc (vts c' d) = first_vc (vts c d)" "vc_count (vts c' d) = vc_count (vts c d)"
    "vc_cons (vts c' d) = vc_cons (vts c d)" for d
    using a(2) [of d] by (simp_all add: vt_ids_def)
  then have "find_vc_in (map (vts c') ds) n = find_vc_in (map (vts c) ds) n" for ds
    by (induction ds) simp_all
  then show ?thesis
    using a(1) by (simp add: find_vc_def)
qed


definition kcon2 :: "vga kcon" where
  "kcon2 = kcon1\<lparr>kc := upd_vc (\<lambda>v. v\<lparr>vt_mode := (vt_mode v)\<lparr>vtm_mode := VT_PROCESS\<rparr>\<rparr>) con1\<rparr>"


end
