(* ===== verification/System_Inv.thy ===== *)
theory System_Inv
  imports Switch_Props Output_Props
begin

text \<open>
  The invariant of the driver as a whole, what a step leaves alone, and the proof that the parts of
  the work queue handler keep it: the switch, the poke and the blanking that were requested.
\<close>

section \<open>The invariant\<close>

text \<open>Every console is registered in its display's pool, and a display in use remembers its last console.\<close>

definition wf_pool :: "'d con \<Rightarrow> bool" where
  "wf_pool c \<longleftrightarrow>
     (\<forall>d n. map_option display_fg (get_console c n) = Some d \<longrightarrow>
        d \<in> set (vt_list c) \<and> first_vc (vts c d) \<le> n \<and> n < first_vc (vts c d) + vc_count (vts c d) \<and>
        vc_cons (vts c d) ! nat (n - first_vc (vts c d)) = Some n) \<and>
     (\<forall>d. fg_console (vts c d) \<noteq> None \<longrightarrow> last_console (vts c d) \<noteq> None)"

definition all_settled :: "'d con \<Rightarrow> bool" where
  "all_settled c \<longleftrightarrow> (\<forall>n. pred_option settled (get_console c n))"

definition sys_inv :: "nat \<Rightarrow> 'd contract \<Rightarrow> 'd kcon \<Rightarrow> bool" where
  "sys_inv N K s \<longleftrightarrow> wf_con K (kc s) \<and> wf_kb N (kb s) \<and> wf_pool (kc s) \<and> all_settled (kc s)"

lemma sys_invD:
  assumes "sys_inv N K s"
  shows "wf_con K (kc s)" "wf_kb N (kb s)" "wf_pool (kc s)" "all_settled (kc s)"
  using assms by (simp_all add: sys_inv_def)

lemma wf_pool_front: "wf_con K c \<Longrightarrow> wf_pool c \<Longrightarrow> wf_front c"
  using wf_conD(3) unfolding wf_pool_def wf_front_def by (metis option.distinct(1))

lemma all_settledD: "all_settled c \<Longrightarrow> get_console c n = Some v \<Longrightarrow> settled v"
  unfolding all_settled_def by (metis option.pred_inject(2))

text \<open>
  What a step leaves alone: memory outside \<open>R\<close> and the pools; the console in front may be
  another one, if the last one is remembered.
\<close>

definition stays :: "int set \<Rightarrow> 'd con \<Rightarrow> 'd con \<Rightarrow> bool" where
  "stays R c c' \<longleftrightarrow> (\<exists>t. framed R t c c' \<and>
     (\<forall>d. first_vc (t d) = first_vc (vts c d) \<and> vc_count (t d) = vc_count (vts c d) \<and>
        vc_cons (t d) = vc_cons (vts c d) \<and>
        (fg_console (t d) = fg_console (vts c d) \<and> last_console (t d) = last_console (vts c d) \<or>
         fg_console (t d) \<noteq> None \<and> last_console (t d) \<noteq> None)))"

lemma framed_stays: "framed R (vts c) c c' \<Longrightarrow> stays R c c'"
  by (auto simp: stays_def)

lemma switched_stays: "framed R (switched c d m n) c c' \<Longrightarrow> stays R c c'"
  unfolding stays_def by (rule exI [of _ "switched c d m n"]) simp

lemma keeps_stays: "keeps K c c' \<Longrightarrow> stays (scr_region K) c c'"
  using framed_stays keeps_framed by blast

lemma stays_trans:
  assumes "stays R a b" "stays R b c"
  shows "stays R a c"
proof -
  obtain t where t: "framed R t a b" "\<And>d. first_vc (t d) = first_vc (vts a d) \<and> vc_count (t d) = vc_count (vts a d) \<and>
      vc_cons (t d) = vc_cons (vts a d) \<and>
      (fg_console (t d) = fg_console (vts a d) \<and> last_console (t d) = last_console (vts a d) \<or>
       fg_console (t d) \<noteq> None \<and> last_console (t d) \<noteq> None)"
    using assms(1) unfolding stays_def by blast
  obtain u where u: "framed R u b c" "\<And>d. first_vc (u d) = first_vc (vts b d) \<and> vc_count (u d) = vc_count (vts b d) \<and>
      vc_cons (u d) = vc_cons (vts b d) \<and>
      (fg_console (u d) = fg_console (vts b d) \<and> last_console (u d) = last_console (vts b d) \<or>
       fg_console (u d) \<noteq> None \<and> last_console (u d) \<noteq> None)"
    using assms(2) unfolding stays_def by blast
  have "framed R u a c"
    using t(1) u(1) by (rule framed_then)
  then show ?thesis
    unfolding stays_def using t(2) u(2) framed_fg [OF t(1)] by metis
qed

lemma stays_region: "stays R c c' \<Longrightarrow> same_off R (mem c) (mem c')"
  by (auto simp: stays_def framed_def)

lemma stays_pool:
  assumes "stays R c c'" "wf_pool c"
  shows "wf_pool c'"
proof -
  obtain t where t: "framed R t c c'" "\<And>d. first_vc (t d) = first_vc (vts c d) \<and> vc_count (t d) = vc_count (vts c d) \<and>
      vc_cons (t d) = vc_cons (vts c d) \<and>
      (fg_console (t d) = fg_console (vts c d) \<and> last_console (t d) = last_console (vts c d) \<or>
       fg_console (t d) \<noteq> None \<and> last_console (t d) \<noteq> None)"
    using assms(1) unfolding stays_def by blast
  have l: "vt_list c' = vt_list c"
    using t(1) by (simp add: framed_def)
  show ?thesis
    using assms(2) t(2) unfolding wf_pool_def l framed_console(2) [OF t(1)] framed_fg [OF t(1)] by metis
qed

lemma stays_settled: "stays R c c' \<Longrightarrow> all_settled c \<Longrightarrow> all_settled c'"
  by (auto simp: stays_def framed_def all_settled_def)

text \<open>What a step does with the state.\<close>

definition sys_ok :: "nat \<Rightarrow> 'd contract \<Rightarrow> 'd kcon \<Rightarrow> 'd kcon \<Rightarrow> bool" where
  "sys_ok N K s s' \<longleftrightarrow> wf_con K (kc s') \<and> wf_kb N (kb s') \<and> stays (scr_region K) (kc s) (kc s')"

lemma sys_ok_inv: "sys_ok N K s s' \<Longrightarrow> sys_inv N K s \<Longrightarrow> sys_inv N K s'"
  unfolding sys_ok_def sys_inv_def using stays_pool stays_settled by blast

lemma sys_ok_refl: "wf_con K (kc s) \<Longrightarrow> wf_kb N (kb s) \<Longrightarrow> sys_ok N K s s"
  using keeps_stays [OF keeps_refl] by (simp add: sys_ok_def)

lemma sys_ok_trans: "sys_ok N K a b \<Longrightarrow> sys_ok N K b c \<Longrightarrow> sys_ok N K a c"
  unfolding sys_ok_def using stays_trans by blast

lemma keeps_sys_ok: "keeps K (kc s) (kc s') \<Longrightarrow> wf_kb N (kb s') \<Longrightarrow> sys_ok N K s s'"
  unfolding sys_ok_def using keeps_stays keeps_wf by blast

lemma sys_ok_bind:
  assumes "res_ok (sys_ok N K s0) r" "\<And>s. sys_ok N K s0 s \<Longrightarrow> res_ok (sys_ok N K s) (f s)"
  shows "res_ok (sys_ok N K s0) (res_bind r f)"
proof (rule res_ok_bind [OF assms(1)])
  fix s assume s: "sys_ok N K s0 s"
  show "res_ok (sys_ok N K s0) (f s)"
    using assms(2) [OF s] by (rule res_ok_mono) (use s sys_ok_trans in blast)
qed

lemma on_con_res_sys:
  assumes "wf_kb N (kb s)" "res_ok (\<lambda>c'. stays (scr_region K) (kc s) c' \<and> wf_con K c') (f (kc s))"
  shows "res_ok (sys_ok N K s) (on_con_res f s)"
  using assms by (auto simp: on_con_res_def res_ok_ex sys_ok_def)

section \<open>Working on another console\<close>

lemma refocus_framed:
  assumes "refocus c c'" "framed R t c c''" "vc_num (vc c') = vc_num (vc c'')"
  shows "framed R t c' c''"
  using assms(2,3) refocus_sel [OF assms(1)] by (simp add: framed_def)

lemma refocus_framed_back:
  assumes "refocus c c'" "framed R t c' c''" "vc_num (vc c) = vc_num (vc c'')"
  shows "framed R t c c''"
  using assms(2,3) refocus_sel [OF assms(1)] by (simp add: framed_def)

lemma refocus_pool:
  assumes "wf_con K c" "pool c n = Some v" "n \<noteq> vc_num (vc c)"
  shows "refocus c (c\<lparr>vc := v, pool := (pool c)(vc_num (vc c) \<mapsto> vc c)\<rparr>)" "vc_num v = n"
  using refocusI [OF get_console_focus [OF assms]] wf_conD(2) [OF assms(1), of n v] assms(2,3)
  by (simp_all add: get_console_def)

lemma in_kconsole_sys:
  assumes wf: "wf_con K (kc s)" "wf_kb N (kb s)" and n: "get_console (kc s) n \<noteq> None"
    and f: "\<And>s'. refocus (kc s) (kc s') \<Longrightarrow> vc_num (vc (kc s')) = n \<Longrightarrow> wf_kb N (kb s') \<Longrightarrow> wf_con K (kc s') \<Longrightarrow>
      kb s' = kb s \<Longrightarrow> res_ok (sys_ok N K s') (f s')"
  shows "res_ok (sys_ok N K s) (in_kconsole (Some n) f s)"
proof (cases "n = vc_num (vc (kc s))")
  case True
  then show ?thesis
    using f [of s] wf by (simp add: in_kconsole_def)
next
  case False
  let ?me = "vc_num (vc (kc s))"
  obtain v where v: "pool (kc s) n = Some v"
    using n False by (auto simp: get_console_def)
  let ?c1 = "(kc s)\<lparr>vc := v, pool := (pool (kc s))(?me \<mapsto> vc (kc s))\<rparr>"
  note r1 = refocus_pool [OF wf(1) v False]
  obtain s' where s': "f (s\<lparr>kc := ?c1\<rparr>) = Inr s'" "sys_ok N K (s\<lparr>kc := ?c1\<rparr>) s'"
    using f [of "s\<lparr>kc := ?c1\<rparr>"] wf r1 wf_con_refocus [OF r1(1) wf(1)] by (auto simp: res_ok_ex)
  obtain t where t: "framed (scr_region K) t ?c1 (kc s')" "\<And>d. first_vc (t d) = first_vc (vts ?c1 d) \<and>
      vc_count (t d) = vc_count (vts ?c1 d) \<and> vc_cons (t d) = vc_cons (vts ?c1 d) \<and>
      (fg_console (t d) = fg_console (vts ?c1 d) \<and> last_console (t d) = last_console (vts ?c1 d) \<or>
       fg_console (t d) \<noteq> None \<and> last_console (t d) \<noteq> None)"
    using s'(2) unfolding sys_ok_def stays_def by auto
  have num: "vc_num (vc (kc s')) = n"
    using t(1) r1(2) by (simp add: framed_def)
  have "res_ok (\<lambda>c'. framed (scr_region K) t (kc s) c' \<and> wf_con K c' \<and> True) (in_console (Some n) (\<lambda>_. Inr (kc s')) (kc s))"
  proof (rule in_console_wf [OF wf(1) n])
    fix c' assume c': "refocus (kc s) c'" "vc_num (vc c') = n"
    have "framed (scr_region K) t c' (kc s')"
      using t(1) refocus_sel [OF r1(1)] refocus_sel [OF c'(1)] num c'(2) by (simp add: framed_def)
    then show "res_ok (\<lambda>c''. framed (scr_region K) t c' c'' \<and> wf_con K c'' \<and> True) (Inr (kc s'))"
      using s'(2) by (simp add: sys_ok_def)
  qed simp
  then obtain c3 where c3: "in_console (Some n) (\<lambda>_. Inr (kc s')) (kc s) = Inr c3"
    "framed (scr_region K) t (kc s) c3" "wf_con K c3"
    by (auto simp: res_ok_ex)
  have "in_kconsole (Some n) f s = Inr (s'\<lparr>kc := c3\<rparr>)"
    using False v s'(1) c3(1) by (auto simp: in_kconsole_def in_console_def Let_def split: option.splits)
  moreover have "stays (scr_region K) (kc s) c3"
    unfolding stays_def using c3(2) t(2) by (intro exI [of _ t]) simp
  ultimately show ?thesis
    using c3(3) s'(2) by (simp add: sys_ok_def)
qed

text \<open>The same for an operation that may meet a request for a console that does not exist.\<close>

lemma in_console_run_ok:
  assumes wf: "wf_con K c" and n: "get_console c n \<noteq> None"
    and f: "\<And>c'. refocus c c' \<Longrightarrow> wf_con K c' \<Longrightarrow> vc_num (vc c') = n \<Longrightarrow> run_ok b K c' id (f c')"
  shows "run_ok b K c id (in_console (Some n) f c)"
proof (cases "n = vc_num (vc c)")
  case True
  then show ?thesis
    using f [of c] wf by (simp add: in_console_def)
next
  case False
  let ?c1 = "\<lambda>v. c\<lparr>vc := v, pool := (pool c)(vc_num (vc c) \<mapsto> vc c)\<rparr>"
  obtain v where v: "pool c n = Some v"
    using n False by (auto simp: get_console_def)
  note r1 = refocus_pool [OF wf v False]
  have r: "run_ok b K (?c1 v) id (f (?c1 v))"
    using f r1 wf_con_refocus [OF r1(1) wf] by simp
  show ?thesis
  proof (cases "f (?c1 v)")
    case (Inl e)
    then show ?thesis
      using r False v by (simp add: in_console_def)
  next
    case (Inr c')
    then have "res_ok (keeps K c) (in_console (Some n) (\<lambda>c. if c = ?c1 v then Inr c' else Inr c) c)"
      using r by (intro keeps_in_console [OF wf refl n]) auto
    then show ?thesis
      using Inr False v by (auto simp: in_console_def res_ok_ex)
  qed
qed

section \<open>The work queue handler\<close>

lemma vga_sys_ok:
  "framed ({b ..< e} \<union> bufs) (vts (kc s)) (kc s) (kc s') \<Longrightarrow> wf_con (vga_contract ty b e bufs) (kc s') \<Longrightarrow>
   wf_kb N (kb s') \<Longrightarrow> sys_ok N (vga_contract ty b e bufs) s s'"
  using framed_stays by (simp add: sys_ok_def)

lemma hide_cursor_placeable:
  assumes wf: "wf_con (vga_contract ty b e bufs) c" and pl: "placeable_vga c"
  shows "res_ok (\<lambda>c'. keeps (vga_contract ty b e bufs) c c' \<and> placeable_vga c') (hide_cursor vga_con c)"
proof -
  define ph where "ph = (vga_is_gfx (drv c), vga_palette_blanked (drv c))"
  have at: "wf_con (vga_contract_at ty ph b e bufs) c"
    using wf by (simp add: wf_con_at ph_def)
  obtain c1 where c1: "hide_cursor vga_con c = Inr c1" "keeps (vga_contract_at ty ph b e bufs) c c1"
    using vga_at.hide_cursor_ok [OF at] by (auto simp: res_ok_ex)
  have "(vga_is_gfx (drv c1), vga_palette_blanked (drv c1)) = ph"
    using keeps_wf [OF c1(2)] by (simp add: wf_con_at)
  moreover have "vt_blanked (vt c1) \<Longrightarrow> vt_blanked (vt c)"
    using c1(2) keeps_display_fg [OF c1(2)] by (simp add: keeps_def vt_def)
  ultimately have "placeable_vga c1"
    using pl by (auto simp: placeable_vga_def ph_def)
  then show ?thesis
    using vga.hide_cursor_ok [OF wf] c1(1) by simp
qed

lemma complete_change_sys:
  assumes wf: "wf_con (vga_contract ty b e bufs) (kc s)" "wf_kb N (kb s)" "is_visible (kc s)"
    and n: "get_console (kc s) n = Some w" "display_fg w = display_fg (vc (kc s))"
    and k: "keeps (vga_contract ty b e bufs) (kc s) (kc s1)" and s1: "kb s1 = kb s" "placeable_vga (kc s1)"
  shows "res_ok (sys_ok N (vga_contract ty b e bufs) s) (complete_change_console vga_con env n s1)"
proof -
  let ?K = "vga_contract ty b e bufs"
  obtain w1 where w1: "get_console (kc s1) n = Some w1" "display_fg w1 = display_fg (vc (kc s1))"
    using framed_console(2) [OF keeps_framed [OF k], of n] n keeps_display_fg [OF k] by auto
  obtain s' where s': "complete_change_console vga_con env n s1 = Inr s'" "wf_kb N (kb s')" "wf_con ?K (kc s')"
    "framed ({b ..< e} \<union> bufs) (switched (kc s1) (display_fg w1) (vc_num (vc (kc s1))) n) (kc s1) (kc s')"
    using complete_change_ok [OF keeps_wf [OF k] _ _ w1 s1(2), of N env] keeps_visible [OF k] wf(2,3) s1(1) by auto
  have "stays ({b ..< e} \<union> bufs) (kc s) (kc s')"
    using stays_trans [OF keeps_stays [OF k]] switched_stays [OF s'(4)] by simp
  then show ?thesis
    using s'(1-3) by (simp add: sys_ok_def)
qed

lemma change_console_sys:
  assumes wf: "wf_con (vga_contract ty b e bufs) (kc s)" "wf_kb N (kb s)" "is_visible (kc s)" "placeable_vga (kc s)"
    and n: "get_console (kc s) n = Some w" "display_fg w = display_fg (vc (kc s))"
  shows "res_ok (sys_ok N (vga_contract ty b e bufs) s) (change_console vga_con env (Some n) s)"
proof -
  let ?K = "vga_contract ty b e bufs" and ?v = "vc (kc s)"
  let ?ev = "Kill_proc (vt_pid ?v) (vtm_relsig (vt_mode ?v))"
  have complete: "res_ok (sys_ok N ?K s) (complete_change_console vga_con env n s1)"
    if "keeps ?K (kc s) (kc s1)" "kb s1 = kb s" "placeable_vga (kc s1)" for s1 :: "vga kcon"
    using complete_change_sys [OF wf(1-3) n that] .
  let ?s2 = "on_con (reset_vc vga_con (in_interrupt env)) (on_con (log ?ev) s)"
  have k1: "keeps ?K (kc s) (log ?ev (kc s))" "kb ?s2 = kb s"
    using wf(1) by (simp_all add: on_con_def)
  have k2: "keeps ?K (kc s) (kc ?s2)" "placeable_vga (kc ?s2)"
    using reset_vc_placeable [OF wf(1,4)] keeps_step [OF k1(1) vga.reset_vc_ok] by (simp_all add: on_con_def)
  have k3: "keeps ?K (kc s) (upd_vc (\<lambda>v. v\<lparr>vt_newvt := m\<rparr>) (log ?ev (kc s)))" for m
    using k1(1) by (rule keeps_step) (auto intro: keeps_upd_vc)
  have ask: "sys_ok N ?K s (on_con (upd_vc (\<lambda>v. v\<lparr>vt_newvt := m\<rparr>)) (on_con (log ?ev) s))" for m
    using k3 [of m] wf(2) by (intro keeps_sys_ok) (simp_all add: on_con_def)
  have still: "res_ok (sys_ok N ?K s) (Inr s)"
    using sys_ok_refl wf(1,2) by simp
  have mode: "vc_mode (vc (kc ?s2)) \<noteq> KD_GRAPHICS"
    using reset_vc_mode by (simp add: on_con_def)
  have auto_mode: "res_ok (sys_ok N ?K s) (complete_change_console vga_con env n s)"
    using complete [of s] wf by simp
  show ?thesis
    using ask [of "vc_num w"] still complete [OF k2(1) k1(2) k2(2)] auto_mode n(1) mode
    by (simp add: change_console_def Let_def)
qed

lemma callback_switch_sys:
  assumes wf: "wf_con (vga_contract ty b e bufs) (kc s)" "wf_kb N (kb s)" and fg: "fg_console (vts (kc s) d) \<noteq> None"
    and w: "want_vc (vts (kc s) d) \<noteq> None"
    and pl: "vt_blanked (vts (kc s) d) \<longrightarrow> vga_is_gfx (drv (kc s)) \<or> vga_palette_blanked (drv (kc s))"
  shows "res_ok (sys_ok N (vga_contract ty b e bufs) s) (callback_switch vga_con env d s)"
proof -
  let ?K = "vga_contract ty b e bufs"
  obtain n where n: "fg_console (vts (kc s) d) = Some n"
    using fg by blast
  obtain m where m: "want_vc (vts (kc s) d) = Some m"
    using w by blast
  have "map_option display_fg (get_console (kc s) m) = Some d"
    using wf_conD(8) [OF wf(1)] m by (simp add: wf_switch_def)
  then obtain w where w: "get_console (kc s) m = Some w" "display_fg w = d"
    by auto
  obtain v where v: "get_console (kc s) n = Some v" "display_fg v = d"
    using wf_conD(3) [OF wf(1) n] by auto
  have "res_ok (sys_ok N ?K s) (in_kconsole (Some n)
      (\<lambda>s. res_bind (on_con_res (hide_cursor vga_con) s) (change_console vga_con env (Some m))) s)"
  proof (rule in_kconsole_sys [OF wf])
    fix s' :: "vga kcon"
    assume s': "refocus (kc s) (kc s')" "vc_num (vc (kc s')) = n" "wf_kb N (kb s')" "wf_con ?K (kc s')"
    have "get_console (kc s) n = Some (vc (kc s'))"
      using s'(1,2) get_console_own [of "kc s'"] by (simp add: refocus_sel)
    then have d: "display_fg (vc (kc s')) = d"
      using v by simp
    have vis: "is_visible (kc s')" "placeable_vga (kc s')"
      using d n s'(1,2) pl by (simp_all add: is_visible_def placeable_vga_def vt_def refocus_sel)
    show "res_ok (sys_ok N ?K s') (res_bind (on_con_res (hide_cursor vga_con) s') (change_console vga_con env (Some m)))"
    proof (rule res_ok_bind [of "\<lambda>s1 :: vga kcon. kb s1 = kb s' \<and> keeps ?K (kc s') (kc s1) \<and> placeable_vga (kc s1)"])
      show "res_ok (\<lambda>s1. kb s1 = kb s' \<and> keeps ?K (kc s') (kc s1) \<and> placeable_vga (kc s1))
          (on_con_res (hide_cursor vga_con) s')"
        using hide_cursor_placeable [OF s'(4) vis(2)] by (auto simp: on_con_res_def res_ok_ex)
      fix s1 :: "vga kcon" assume s1: "kb s1 = kb s' \<and> keeps ?K (kc s') (kc s1) \<and> placeable_vga (kc s1)"
      then have k: "keeps ?K (kc s') (kc s1)" by blast
      obtain w1 where "get_console (kc s1) m = Some w1" "display_fg w1 = display_fg (vc (kc s1))"
        using framed_console(2) [OF keeps_framed [OF k], of m] w d s'(1) keeps_display_fg [OF k]
        by (auto simp: refocus_sel)
      then have "res_ok (sys_ok N ?K s1) (change_console vga_con env (Some m) s1)"
        using s1 s'(3) keeps_visible [OF k] vis(1) by (intro change_console_sys [OF keeps_wf [OF k], where w = w1]) auto
      then show "res_ok (sys_ok N ?K s') (change_console vga_con env (Some m) s1)"
        by (rule res_ok_mono) (rule sys_ok_trans [OF keeps_sys_ok [OF k]], use s1 s'(3) in simp)
    qed
  qed (use v in simp)
  then show ?thesis
    using n m sys_ok_refl [OF wf] by (simp add: callback_switch_def Let_def)
qed


lemma callback_poke_sys:
  assumes "wf_con (vga_contract ty b e bufs) (kc s)" "wf_kb N (kb s)"
  shows "res_ok (sys_ok N (vga_contract ty b e bufs) s) (callback_poke vga_con d s)"
proof -
  let ?s = "upd_kb (\<lambda>b. b\<lparr>do_poke_blanked_console := False\<rparr>) s"
  have "kc ?s = kc s" "wf_kb N (kb ?s)"
    using assms(2) by (simp_all add: upd_kb_def)
  then have "res_ok (sys_ok N (vga_contract ty b e bufs) s) (on_con_res (poke_blanked_console vga_con d) ?s)"
    using vga.poke_blanked_console_ok [OF assms(1), of d] by (auto simp: on_con_res_def res_ok_ex intro!: keeps_sys_ok)
  then show ?thesis
    using sys_ok_refl [OF assms] by (simp add: callback_poke_def)
qed

lemma callback_blank_ok:
  assumes "wf_con (vga_contract VIDEO_TYPE_VGAC b e bufs) c" "fg_console (vts c d) \<noteq> None"
  shows "res_ok (\<lambda>c'. stays ({b ..< e} \<union> bufs) c c' \<and> wf_con (vga_contract VIDEO_TYPE_VGAC b e bufs) c') (callback_blank vga_con d c)"
proof -
  let ?K = "vga_contract VIDEO_TYPE_VGAC b e bufs"
  obtain c1 where c1: "do_blank_screen vga_con d False c = Inr c1" "framed ({b ..< e} \<union> bufs) (vts c) c c1" "wf_con ?K c1"
    using do_blank_screen_ok [OF assms] by (auto simp: res_ok_ex)
  have k: "keeps ?K c1 (upd_vt d (\<lambda>t. t\<lparr>blank_timer_expired := False\<rparr>) c1)"
    using c1(3) by (rule keeps_upd_vt) (simp_all add: vt_ids_def)
  then have "stays ({b ..< e} \<union> bufs) c (upd_vt d (\<lambda>t. t\<lparr>blank_timer_expired := False\<rparr>) c1)"
    using framed_stays [OF framed_keeps [OF c1(2) k]] by simp
  then show ?thesis
    using c1(1) keeps_wf [OF k] keeps_stays [OF keeps_refl [OF assms(1)]] assms(1) by (simp add: callback_blank_def)
qed

end
