(* ===== verification/Vt_Ioctl.thy ===== *)
theory Vt_Ioctl
  imports Vt_Switch
begin

text \<open>
  The requests of \<open>vt_ioctl\<close>, drivers/char/vt_ioctl.c, that set and report the mode, keyboard, leds, palette and
  size of a console, activate a console and ask which are in use. The protocol of a console switch is
  in \<open>Vt_Switch\<close>, the key tables in \<open>Kbd_Ioctl\<close>.

  Each request is a function of its own of the permission \<open>perm\<close> (the terminal is the process's own, or it
  may configure terminals), the argument and the state; arguments that are pointers are replaced by what was read there, \<open>None\<close>
  being a fault of the user's memory. Values written to the user are returned. \<open>in_use\<close> says of a tty that it is open.
\<close>

type_synonym ioctl_ret = "errno + int"

section \<open>Sound\<close>

text \<open>\<open>rate\<close> is \<open>CLOCK_TICK_RATE\<close>.\<close>

definition kiocsound :: "int \<Rightarrow> bool \<Rightarrow> int \<Rightarrow> 'd con \<Rightarrow> ioctl_ret \<times> 'd con" where
  "kiocsound rate perm arg c =
     (if \<not> perm then (Inl EPERM, c)
      else (Inr 0, log (Mksound (if arg \<noteq> 0 then rate div arg else arg) 0) c))"

definition kdmktone :: "int \<Rightarrow> bool \<Rightarrow> int \<Rightarrow> 'd con \<Rightarrow> ioctl_ret \<times> 'd con" where
  "kdmktone rate perm arg c =
     (if \<not> perm then (Inl EPERM, c)
      else
        let ticks = HZ c * ((arg div 65536) mod 65536) div 1000;
            count = (if ticks \<noteq> 0 then arg mod 65536 else 0)
        in (Inr 0, log (Mksound (if count \<noteq> 0 then rate div count else count) ticks) c))"

section \<open>Text and graphics mode\<close>

text \<open>The modes of linux/kd.h; 2 and 3 are old names of text mode.\<close>

definition kd_mode_arg :: "int \<Rightarrow> kd_mode option" where
  "kd_mode_arg arg =
     (if arg = 1 then Some KD_GRAPHICS else if arg = 0 \<or> arg = 2 \<or> arg = 3 then Some KD_TEXT else None)"

definition kdsetmode :: "'d consw \<Rightarrow> bool \<Rightarrow> int \<Rightarrow> 'd con \<Rightarrow> (ioctl_ret \<times> 'd con) res" where
  "kdsetmode sw perm arg c =
     (if \<not> perm then Inr (Inl EPERM, c)
      else case kd_mode_arg arg of
          None \<Rightarrow> Inr (Inl EINVAL, c)
        | Some m \<Rightarrow>
            if vc_mode (vc c) = m then Inr (Inr 0, c)
            else
              let c1 = upd_vc (\<lambda>v. v\<lparr>vc_mode := m\<rparr>) c; d = display_fg (vc c1) in
              if \<not> is_visible c1 then Inr (Inr 0, c1)
              else res_bind (if m = KD_TEXT then unblank_vt sw d c1 else do_blank_screen sw d True c1) (\<lambda>c2.
                Inr (Inr 0, c2)))"

definition kdgetmode :: "'d con \<Rightarrow> int" where
  "kdgetmode c = (case vc_mode (vc c) of KD_TEXT \<Rightarrow> 0 | KD_GRAPHICS \<Rightarrow> 1)"

section \<open>Keyboard mode and leds\<close>

definition kbd_mode_arg :: "int \<Rightarrow> kbdmode option" where
  "kbd_mode_arg arg =
     (if arg = 0 then Some VC_RAW else if arg = 1 then Some VC_XLATE
      else if arg = 2 then Some VC_MEDIUMRAW else if arg = 3 then Some VC_UNICODE else None)"

definition kdskbmode :: "int \<Rightarrow> bool \<Rightarrow> int \<Rightarrow> 'd kcon \<Rightarrow> (ioctl_ret \<times> 'd kcon) res" where
  "kdskbmode tty perm arg s =
     (if \<not> perm then Inr (Inl EPERM, s)
      else case kbd_mode_arg arg of
          None \<Rightarrow> Inr (Inl EINVAL, s)
        | Some m \<Rightarrow>
            let s1 = upd_table (\<lambda>k. k\<lparr>kbdmode := m\<rparr>) s in
            res_bind (if m = VC_XLATE \<or> m = VC_UNICODE then shiftstate_k s1 else Inr s1) (\<lambda>s2.
              Inr (Inr 0, on_con (log (Ldisc_flush tty)) s2)))"

definition kdgkbmode :: "kbd_struct \<Rightarrow> int" where
  "kdgkbmode k =
     (if kbdmode k = VC_RAW then 0 else if kbdmode k = VC_MEDIUMRAW then 2
      else if kbdmode k = VC_UNICODE then 3 else 1)"

definition kdskbmeta :: "int \<Rightarrow> kbd_struct \<Rightarrow> ioctl_ret \<times> kbd_struct" where
  "kdskbmeta arg k =
     (if arg = 3 then (Inr 0, clr_kbd_mode VC_META k)
      else if arg = 4 then (Inr 0, set_kbd_mode VC_META k) else (Inl EINVAL, k))"

definition kdgkbmeta :: "kbd_struct \<Rightarrow> int" where
  "kdgkbmeta k = (if get_kbd_mode k VC_META then 4 else 3)"

definition kdgkbled :: "kbd_struct \<Rightarrow> u8" where
  "kdgkbled k = ucast (ledflagstate k) OR push_bit 4 (ucast (default_ledflagstate k))"

definition kdskbled :: "bool \<Rightarrow> 32 word \<Rightarrow> 'd kcon \<Rightarrow> ioctl_ret \<times> 'd kcon" where
  "kdskbled perm arg s =
     (if \<not> perm then (Inl EPERM, s)
      else if arg AND NOT 0x77 \<noteq> 0 then (Inl EINVAL, s)
      else
        (Inr 0, on_con (log Set_leds) (upd_table (\<lambda>k.
           k\<lparr>ledflagstate := ucast (arg AND 7), default_ledflagstate := ucast (drop_bit 4 arg AND 7)\<rparr>) s)))"

definition setledstate :: "32 word \<Rightarrow> 'd kcon \<Rightarrow> 'd kcon" where
  "setledstate led s =
     on_con (log Set_leds)
       (if led AND NOT 7 = 0
        then upd_table (\<lambda>k. k\<lparr>ledmode := LED_SHOW_IOCTL\<rparr>)
               (on_con (\<lambda>c. upd_vt (display_fg (vc c)) (\<lambda>t. t\<lparr>vt_ledioctl := ucast led\<rparr>) c) s)
        else upd_table (\<lambda>k. k\<lparr>ledmode := LED_SHOW_FLAGS\<rparr>) s)"

definition kdsetled :: "bool \<Rightarrow> 32 word \<Rightarrow> 'd kcon \<Rightarrow> ioctl_ret \<times> 'd kcon" where
  "kdsetled perm arg s = (if \<not> perm then (Inl EPERM, s) else (Inr 0, setledstate arg s))"

text \<open>\<open>SIGKILL\<close> is 9, the last signal 64.\<close>

definition kdsigaccept :: "bool \<Rightarrow> bool \<Rightarrow> int \<Rightarrow> int \<Rightarrow> 'd kcon \<Rightarrow> ioctl_ret \<times> 'd kcon" where
  "kdsigaccept perm cap_kill pid arg s =
     (if \<not> perm \<or> \<not> cap_kill then (Inl EPERM, s)
      else if arg > 64 \<or> arg < 1 \<or> arg = 9 then (Inl EINVAL, s)
      else (Inr 0, upd_kb (\<lambda>b. b\<lparr>spawnpid := pid, spawnsig := arg\<rparr>) s))"

section \<open>Which consoles are in use\<close>

definition vt_is_in_use :: "(int \<Rightarrow> bool) \<Rightarrow> int \<Rightarrow> 'd con \<Rightarrow> bool res" where
  "vt_is_in_use in_use n c =
     (case get_console c n of
        None \<Rightarrow> Inl Dangling
      | Some v \<Rightarrow> Inr (case vc_tty v of None \<Rightarrow> False | Some tty \<Rightarrow> in_use tty))"

text \<open>\<open>VT_GETSTATE\<close>: the active console and the mask of consoles in use.\<close>

fun getstate_loop :: "(int \<Rightarrow> bool) \<Rightarrow> 'd con \<Rightarrow> nat \<Rightarrow> int \<Rightarrow> u16 \<Rightarrow> u16 \<Rightarrow> u16 res" where
  "getstate_loop in_use c 0 j mk state = Inr state"
| "getstate_loop in_use c (Suc n) j mk state =
     (if mk = 0 then Inr state
      else res_bind (find_vc j c) (\<lambda>tmp.
        res_bind (case tmp of None \<Rightarrow> Inr False | Some k \<Rightarrow> vt_is_in_use in_use k c) (\<lambda>used.
          getstate_loop in_use c n (j + 1) (push_bit 1 mk) (if used then state OR mk else state))))"

definition vt_getstate :: "(int \<Rightarrow> bool) \<Rightarrow> 'd con \<Rightarrow> (int \<times> u16) res" where
  "vt_getstate in_use c =
     (case fg_console (vt c) of
        None \<Rightarrow> Inl Null_deref
      | Some n \<Rightarrow> (case get_console c n of
          None \<Rightarrow> Inl Dangling
        | Some v \<Rightarrow>
            res_bind (getstate_loop in_use c (nat (vc_count (vt c))) (first_vc (vt c)) 0 0) (\<lambda>state.
              Inr (vc_num v + 1, state))))"

text \<open>\<open>VT_OPENQRY\<close>: the first console that is not open; the answer goes through an \<open>unsigned char\<close>.\<close>

fun openqry_loop :: "(int \<Rightarrow> bool) \<Rightarrow> 'd con \<Rightarrow> nat \<Rightarrow> int \<Rightarrow> int option res" where
  "openqry_loop in_use c 0 j = Inr None"
| "openqry_loop in_use c (Suc n) j =
     res_bind (find_vc j c) (\<lambda>tmp.
     res_bind (case tmp of None \<Rightarrow> Inr False | Some k \<Rightarrow> vt_is_in_use in_use k c) (\<lambda>used.
       if \<not> used then Inr (Some j) else openqry_loop in_use c n (j + 1)))"

definition vt_openqry :: "(int \<Rightarrow> bool) \<Rightarrow> 'd con \<Rightarrow> u8 res" where
  "vt_openqry in_use c =
     res_bind (openqry_loop in_use c (nat (vc_count (vt c))) (first_vc (vt c))) (\<lambda>r.
       Inr (case r of Some j \<Rightarrow> word_of_int (j + 1) | None \<Rightarrow> -1))"

section \<open>Activating consoles\<close>

abbreviation (input) "MAX_NR_CONSOLES \<equiv> (63::int)"

definition vt_activate ::
  "'d consw \<Rightarrow> (bool \<Rightarrow> 'd con \<Rightarrow> 'd con) \<Rightarrow> nat list \<times> nat list \<Rightarrow> vc_kmem \<Rightarrow> bool \<Rightarrow> int
     \<Rightarrow> 'd con \<Rightarrow> (ioctl_ret \<times> 'd con) res" where
  "vt_activate sw ci dfont km perm arg c =
     (if \<not> perm then Inr (Inl EPERM, c)
      else if arg = 0 \<or> arg > MAX_NR_CONSOLES then Inr (Inl ENXIO, c)
      else
        let n = arg - 1 in
        res_bind (find_vc n c) (\<lambda>found.
        res_bind (if found = None then vc_allocate sw ci dfont km n c else Inr (found, c)) (\<lambda>(tmp, c1).
          case tmp of
            None \<Rightarrow> Inr (Inr n, c1)
          | Some k \<Rightarrow> (case get_console c1 k of
              None \<Rightarrow> Inl Dangling
            | Some v \<Rightarrow>
                if display_fg v \<noteq> display_fg (vc c1) then Inr (Inl ENXIO, c1)
                else res_bind (set_console tmp c1) (\<lambda>c2. Inr (Inr 0, c2))))))"

text \<open>
  \<open>vt_waitactive\<close> sleeps until the console is visible or a signal is pending; \<open>visible k\<close>
  and \<open>signal k\<close> are what it finds when it wakes up for the \<open>k\<close>th time.
\<close>

fun vt_waitactive :: "(nat \<Rightarrow> bool) \<Rightarrow> (nat \<Rightarrow> bool) \<Rightarrow> nat \<Rightarrow> nat \<Rightarrow> ioctl_ret res" where
  "vt_waitactive visible signal 0 k = Inl No_return"
| "vt_waitactive visible signal (Suc fuel) k =
     (if visible k then Inr (Inr 0)
      else if signal k then Inr (Inl EINTR)
      else vt_waitactive visible signal fuel (Suc k))"

definition vt_waitactive_ioctl ::
  "(nat \<Rightarrow> bool) \<Rightarrow> (nat \<Rightarrow> bool) \<Rightarrow> nat \<Rightarrow> bool \<Rightarrow> int \<Rightarrow> 'd con \<Rightarrow> ioctl_ret res" where
  "vt_waitactive_ioctl visible signal fuel perm arg c =
     res_bind (find_vc (arg - 1) c) (\<lambda>tmp.
       if \<not> perm then Inr (Inl EPERM)
       else if arg > MAX_NR_CONSOLES \<or> tmp = None then Inr (Inl ENXIO)
       else case get_console c (the tmp) of
           None \<Rightarrow> Inl Dangling
         | Some v \<Rightarrow>
             if display_fg v \<noteq> display_fg (vc c) then Inr (Inl ENXIO)
             else vt_waitactive visible signal fuel 0)"

section \<open>Palette\<close>

fun set_palettes :: "u8 list \<Rightarrow> int option list \<Rightarrow> 'd con \<Rightarrow> 'd con res" where
  "set_palettes cmap [] c = Inr c"
| "set_palettes cmap (p # ps) c =
     res_bind (case p of
         None \<Rightarrow> Inr c
       | Some n \<Rightarrow> in_console (Some n) (\<lambda>c. Inr (upd_vc (\<lambda>v. v\<lparr>vc_palette := cmap\<rparr>) c)) c)
       (set_palettes cmap ps)"

text \<open>\<open>cmap\<close> is the 48 bytes that were read.\<close>

definition con_set_cmap :: "'d consw \<Rightarrow> u8 list \<Rightarrow> 'd con \<Rightarrow> 'd con res" where
  "con_set_cmap sw cmap c =
     res_bind (set_palettes cmap (vc_cons (vt c)) c) (\<lambda>c1.
       in_console (fg_console (vt c1)) (\<lambda>c. Inr (set_palette sw c)) c1)"

definition con_get_cmap :: "vc_data \<Rightarrow> u8 list" where
  "con_get_cmap v = concat (map (\<lambda>i. replicate 3 (vc_palette v ! i)) [0..<16])"

end
