(* ===== verification/Kbd_Ioctl.thy ===== *)
theory Kbd_Ioctl
  imports Keyboard
begin

text \<open>
  The ioctls on the keyboard's tables, drivers/char/vt_ioctl.c: entries of the key maps
  (\<open>KDGKBENT\<close>, \<open>KDSKBENT\<close>), the strings of the function keys (\<open>KDGKBSENT\<close>, \<open>KDSKBSENT\<close>) and the table of
  accents (\<open>KDGKBDIACR\<close>, \<open>KDSKBDIACR\<close>).

  An ioctl returns an error or nothing, together with the new tables, since some errors are found after a
  change. What the caller may do and whether memory can be had are \<open>ioctl_env\<close>.
\<close>

record ioctl_env =
  has_perm :: bool \<comment> \<open>owner of the tty, or \<open>CAP_SYS_TTY_CONFIG\<close>\<close>
  cap_sys_admin :: bool
  cap_sys_resource :: bool
  cap_tty_config :: bool
  cap_kill :: bool
  current_pid :: int
  kmalloc_ok :: bool

section \<open>Key maps\<close>

abbreviation (input) "NR_TYPES \<equiv> (14::int)"
abbreviation (input) "K_HOLE \<equiv> (0x0200::u16)"
abbreviation (input) "K_SAK \<equiv> (0x020f::u16)"
abbreviation (input) "K_ALLOCATED \<equiv> (0x027e::u16)"
abbreviation (input) "K_NOSUCHMAP \<equiv> (0x027f::u16)"
abbreviation (input) "MAX_NR_OF_USER_KEYMAPS \<equiv> (256::int)"

definition kdgkbent :: "vc_data \<Rightarrow> u8 \<Rightarrow> u8 \<Rightarrow> keyboard \<Rightarrow> u16 res" where
  "kdgkbent vd i s b =
     res_bind (arr_get (key_maps b) (uint s)) (\<lambda>key_map.
       case key_map of
         None \<Rightarrow> Inr (if i \<noteq> 0 then K_HOLE else K_NOSUCHMAP)
       | Some m \<Rightarrow> res_bind (arr_get m (uint i)) (\<lambda>w.
           Inr (if kbdmode (kbd_table vd) \<noteq> VC_UNICODE \<and> KTYP (U w) \<ge> NR_TYPES then K_HOLE else U w)))"

definition drop_key_map :: "u8 \<Rightarrow> keyboard \<Rightarrow> keyboard res" where
  "drop_key_map s b =
     res_bind (arr_get (key_maps b) (uint s)) (\<lambda>key_map.
       case key_map of
         None \<Rightarrow> Inr b
       | Some m \<Rightarrow>
           if s = 0 then Inr b
           else res_bind (arr_get m 0) (\<lambda>w.
             Inr (b\<lparr>key_maps := (key_maps b)[unat s := None],
                    keymap_count := (if w = U K_ALLOCATED then keymap_count b - 1 else keymap_count b)\<rparr>)))"

definition keysym_allowed :: "vc_data \<Rightarrow> u16 \<Rightarrow> bool" where
  "keysym_allowed vd v =
     (if KTYP v < NR_TYPES then KVAL v \<le> max_vals ! nat (KTYP v)
      else kbdmode (kbd_table vd) = VC_UNICODE)"

text \<open>The map is made when there is none; \<open>nr\<close> is \<open>NR_KEYS\<close>.\<close>

definition need_key_map :: "ioctl_env \<Rightarrow> nat \<Rightarrow> u8 \<Rightarrow> keyboard \<Rightarrow> (errno option \<times> keyboard) res" where
  "need_key_map e nr s b =
     res_bind (arr_get (key_maps b) (uint s)) (\<lambda>key_map.
       Inr (case key_map of
          Some m \<Rightarrow> (None, b)
        | None \<Rightarrow>
            if keymap_count b \<ge> MAX_NR_OF_USER_KEYMAPS \<and> \<not> cap_sys_resource e then (Some EPERM, b)
            else if \<not> kmalloc_ok e then (Some ENOMEM, b)
            else (None, b\<lparr>key_maps := (key_maps b)[unat s := Some (U K_ALLOCATED # replicate (nr - 1) (U K_HOLE))],
                         keymap_count := keymap_count b + 1\<rparr>)))"

definition store_key :: "ioctl_env \<Rightarrow> u8 \<Rightarrow> u8 \<Rightarrow> u16 \<Rightarrow> keyboard \<Rightarrow> (errno option \<times> keyboard) res" where
  "store_key e i s v b =
     res_bind (arr_get (key_maps b) (uint s)) (\<lambda>key_map.
       case key_map of
         None \<Rightarrow> Inl Null_deref
       | Some m \<Rightarrow> res_bind (arr_get m (uint i)) (\<lambda>w.
           let ov = U w in
           if v = ov then Inr (None, b)
           else if (ov = K_SAK \<or> v = K_SAK) \<and> \<not> cap_sys_admin e then Inr (Some EPERM, b)
           else
             let b1 = b\<lparr>key_maps := (key_maps b)[unat s := Some (m[unat i := U v])]\<rparr> in
             if s = 0 \<and> (KTYP ov = KT_SHIFT \<or> KTYP v = KT_SHIFT)
             then res_bind (compute_shiftstate b1) (\<lambda>b2. Inr (None, b2))
             else Inr (None, b1)))"

definition kdskbent ::
  "ioctl_env \<Rightarrow> nat \<Rightarrow> vc_data \<Rightarrow> u8 \<Rightarrow> u8 \<Rightarrow> u16 \<Rightarrow> keyboard \<Rightarrow> (errno option \<times> keyboard) res" where
  "kdskbent e nr vd i s v b =
     (if \<not> has_perm e then Inr (Some EPERM, b)
      else if i = 0 \<and> v = K_NOSUCHMAP then res_bind (drop_key_map s b) (\<lambda>b. Inr (None, b))
      else if \<not> keysym_allowed vd v then Inr (Some EINVAL, b)
      else if i = 0 then Inr (None, b)
      else res_bind (need_key_map e nr s b) (\<lambda>(r, b1).
        if r \<noteq> None then Inr (r, b1) else store_key e i s v b1))"

section \<open>Strings of function keys\<close>

text \<open>
  The strings lie one after another in a buffer with free space behind them; \<open>func_table\<close> holds
  their offsets, \<open>funcbufleft\<close> is the size of the free space. Copies that leave the
  buffer are faults.
\<close>

definition get_bytes :: "int \<Rightarrow> int \<Rightarrow> int list \<Rightarrow> int list res" where
  "get_bytes at n buf =
     (if 0 \<le> at \<and> 0 \<le> n \<and> at + n \<le> int (length buf) then Inr (take (nat n) (drop (nat at) buf)) else Inl Out_of_bounds)"

definition put_bytes :: "int \<Rightarrow> int list \<Rightarrow> int list \<Rightarrow> int list res" where
  "put_bytes at xs buf =
     (if 0 \<le> at \<and> at + int (length xs) \<le> int (length buf)
      then Inr (take (nat at) buf @ xs @ drop (nat at + length xs) buf) else Inl Out_of_bounds)"

definition move_bytes :: "int \<Rightarrow> int \<Rightarrow> int \<Rightarrow> int list \<Rightarrow> int list \<Rightarrow> int list res" where
  "move_bytes to from n src dst = res_bind (get_bytes from n src) (\<lambda>xs. put_bytes to xs dst)"

text \<open>The user's string, ended after 511 characters.\<close>

definition user_string :: "int list \<Rightarrow> int list" where
  "user_string raw = takeWhile (\<lambda>ch. ch \<noteq> 0) (take 511 raw)"

text \<open>The next function key after \<open>i\<close> that has a string, or the length of the table.\<close>

definition next_func :: "nat \<Rightarrow> int option list \<Rightarrow> nat" where
  "next_func i tab = Suc i + length (takeWhile (\<lambda>p. p = None) (drop (Suc i) tab))"

definition shift_funcs :: "nat \<Rightarrow> int \<Rightarrow> int option list \<Rightarrow> int option list" where
  "shift_funcs j delta tab = take j tab @ map (map_option (\<lambda>p. p + delta)) (drop j tab)"

text \<open>\<open>while (sz < need) sz <<= 1\<close>, from 256 on.\<close>

function grow_size :: "int \<Rightarrow> int \<Rightarrow> int" where
  "grow_size sz need = (if 0 < sz \<and> sz < need then grow_size (2 * sz) need else sz)"
  by pat_completeness auto

termination by (relation "measure (\<lambda>(sz, need). nat (need - sz))") auto

declare grow_size.simps [simp del]

text \<open>It fits in the current buffer.\<close>

definition func_fits :: "nat \<Rightarrow> nat \<Rightarrow> int \<Rightarrow> int \<Rightarrow> int \<Rightarrow> keyboard \<Rightarrow> keyboard res" where
  "func_fits i j fj first_free delta b =
     res_bind (if j < 256 then move_bytes (fj + delta) fj (first_free - fj) (func_buf b) (func_buf b)
               else Inr (func_buf b)) (\<lambda>buf.
       let tab = (if j < 256 then shift_funcs j delta (func_table b) else func_table b) in
       Inr (b\<lparr>func_buf := buf, func_table := (if tab ! i = None then tab[i := Some fj] else tab),
              funcbufleft := funcbufleft b - delta\<rparr>))"

text \<open>
  A larger buffer is needed; \<open>fnw\<close> is its content as it comes from \<open>kmalloc\<close>. Entries that are not moved along
  would point into the buffer that is freed.
\<close>

definition func_grows :: "nat \<Rightarrow> nat \<Rightarrow> int \<Rightarrow> int \<Rightarrow> int \<Rightarrow> int \<Rightarrow> int list \<Rightarrow> keyboard \<Rightarrow> keyboard res" where
  "func_grows i j fj first_free delta sz fnw b =
     (let tab = (if func_table b ! i = None then (func_table b)[i := Some fj] else func_table b) in
      res_bind (if fj > 0 then move_bytes 0 0 fj (func_buf b) fnw else Inr fnw) (\<lambda>buf.
      res_bind (if first_free > fj then move_bytes (fj + delta) fj (first_free - fj) (func_buf b) buf
                else if list_all (\<lambda>p. p = None) (drop j tab) then Inr buf else Inl Dangling) (\<lambda>buf.
        Inr (b\<lparr>func_buf := buf, func_table := (if first_free > fj then shift_funcs j delta tab else tab),
               funcbufleft := funcbufleft b - delta + sz - funcbufsize b, funcbufsize := sz\<rparr>))))"

definition kdskbsent ::
  "ioctl_env \<Rightarrow> (int \<Rightarrow> int list option) \<Rightarrow> u8 \<Rightarrow> int list \<Rightarrow> keyboard \<Rightarrow> (errno option \<times> keyboard) res" where
  "kdskbsent e newbuf func raw b =
     (if \<not> has_perm e then Inr (Some EPERM, b)
      else
        let i = unat func; cs = user_string raw; j = next_func i (func_table b);
            first_free = funcbufsize b - funcbufleft b;
            fj = (if j < 256 then the (func_table b ! j) else first_free)
        in
        res_bind (case func_table b ! i of
             None \<Rightarrow> Inr 1
           | Some q \<Rightarrow> res_bind (c_string (func_buf b) q) (\<lambda>s. Inr (- int (length s)))) (\<lambda>old.
        let delta = old + int (length cs) in
        res_bind
          (if delta \<le> funcbufleft b then res_bind (func_fits i j fj first_free delta b) (\<lambda>b. Inr (None, b))
           else
             let sz = grow_size 256 (funcbufsize b - funcbufleft b + delta) in
             (case newbuf sz of
                None \<Rightarrow> Inr (Some ENOMEM, b)
              | Some fnw \<Rightarrow> res_bind (func_grows i j fj first_free delta sz fnw b) (\<lambda>b. Inr (None, b)))) (\<lambda>(r, b1).
        if r \<noteq> None then Inr (r, b1)
        else (case func_table b1 ! i of
            None \<Rightarrow> Inl Null_deref
          | Some p \<Rightarrow> res_bind (put_bytes p (cs @ [0]) (func_buf b1)) (\<lambda>buf. Inr (None, b1\<lparr>func_buf := buf\<rparr>))))))"

text \<open>The bytes the user gets, without the terminating zero, and the error.\<close>

definition kdgkbsent :: "u8 \<Rightarrow> keyboard \<Rightarrow> (errno option \<times> int list) res" where
  "kdgkbsent func b =
     (case func_table b ! unat func of
        None \<Rightarrow> Inr (None, [])
      | Some p \<Rightarrow> res_bind (c_string (func_buf b) p) (\<lambda>s.
          Inr (if length s > 511 then Some EOVERFLOW else None, take 511 s)))"

section \<open>Accents\<close>

text \<open>\<open>count\<close> and \<open>entries\<close> are what the user's memory holds; \<open>None\<close> if it cannot be read.\<close>

definition kdskbdiacr ::
  "ioctl_env \<Rightarrow> nat option \<Rightarrow> (u8 \<times> u8 \<times> u8) list option \<Rightarrow> keyboard \<Rightarrow> errno option \<times> keyboard" where
  "kdskbdiacr e count entries b =
     (if \<not> has_perm e then (Some EPERM, b)
      else case count of
          None \<Rightarrow> (Some EFAULT, b)
        | Some ct \<Rightarrow>
            if ct \<ge> 256 then (Some EINVAL, b)
            else
              let b1 = b\<lparr>accent_table_size := ct\<rparr> in
              (case entries of
                 None \<Rightarrow> (Some EFAULT, b1)
               | Some xs \<Rightarrow> (None, b1\<lparr>accent_table := take ct xs @ drop ct (accent_table b)\<rparr>)))"

definition kdgkbdiacr :: "keyboard \<Rightarrow> (u8 \<times> u8 \<times> u8) list" where
  "kdgkbdiacr b = take (accent_table_size b) (accent_table b)"

end
