(* ===== verification/Kbd_Tables.thy ===== *)
theory Kbd_Tables
  imports Kbd_Ioctl Keyboard_Props
begin

text \<open>
  Properties of the ioctls on the keyboard's tables: the entries of the key maps stay such that every key symbol has a
  handler, a stored entry is read back, and the packed buffer of function key strings is a table
  of strings.
\<close>

section \<open>Entries of key maps\<close>

lemma count_shift_maps: "count_shift k b = Inr b' \<Longrightarrow> key_maps b' = key_maps b"
  by (auto simp: count_shift_def Let_def res_bind_Inr split: option.splits if_splits)

lemma count_bits_maps: "count_bits w k js b = Inr b' \<Longrightarrow> key_maps b' = key_maps b"
  by (induction js arbitrary: b) (auto simp: res_bind_Inr dest: count_shift_maps split: if_splits)

lemma count_words_maps: "count_words ws k b = Inr b' \<Longrightarrow> key_maps b' = key_maps b"
  by (induction ws arbitrary: k b) (auto simp: res_bind_Inr dest: count_bits_maps split: if_splits)

lemma compute_shiftstate_maps: "compute_shiftstate b = Inr b' \<Longrightarrow> key_maps b' = key_maps b"
  by (auto simp: compute_shiftstate_def dest: count_words_maps)


lemma U_U [simp]: "U (U w) = w"
  by (simp add: U_def xor.assoc)

lemma KTYP_U_sub: "0xf0 \<le> KTYP w \<Longrightarrow> KTYP (U w) = KTYP w - 0xf0"
proof -
  assume a: "0xf0 \<le> KTYP w"
  define n where "n = uint (drop_bit 8 w)"
  have "0 \<le> n" "n < 256" "0xf0 \<le> n"
    using KTYP_range [of w] a by (simp_all add: n_def KTYP_def)
  then have "n \<in> set [0xf0..0xff]"
    unfolding set_upto atLeastAtMost_iff by simp
  then have "n XOR 0xf0 = n - 0xf0"
    by (auto simp: upto.simps)
  moreover have "uint (drop_bit 8 (U w)) = n XOR 0xf0"
    by (simp add: U_def drop_bit_xor n_def uint_xor)
  ultimately show ?thesis
    by (simp add: KTYP_def n_def)
qed

lemma allowed_keysym: "keysym_allowed vd v \<Longrightarrow> wf_keysym (U v)"
  using KTYP_U_sub [of "U v"] by (auto simp: keysym_allowed_def wf_keysym_def)

lemma hole_keysym: "wf_keysym (U K_HOLE)" "wf_keysym (U K_ALLOCATED)"
  by (simp_all add: wf_keysym_def U_def KTYP_def)

lemma wf_kb_map:
  assumes "wf_kb N b" "s < 256" "s = 0 \<longrightarrow> p \<noteq> None"
    and "\<And>m. p = Some m \<Longrightarrow> length m = N \<and> (\<forall>w \<in> set m. wf_keysym w)"
  shows "wf_kb N (b\<lparr>key_maps := (key_maps b)[s := p]\<rparr>)"
proof -
  have "m \<in> set (key_maps b) \<or> m = p" if "m \<in> set ((key_maps b)[s := p])" for m
    using that set_update_subset_insert [of "key_maps b" s p] by auto
  then show ?thesis
    using assms by (fastforce simp: wf_kb_defs nth_list_update)
qed

lemma wf_kb_count: "wf_kb N (b\<lparr>keymap_count := n\<rparr>) = wf_kb N b"
  by (simp add: wf_kb_defs)

lemma word8: "uint (s :: u8) < 256" "unat s < 256"
proof -
  show "uint s < 256"
    using uint_bounded [of s] by simp
  then show "unat s < 256"
    by (simp flip: nat_uint_eq)
qed

lemma drop_key_map_ok: "wf_kb N b \<Longrightarrow> 0 < N \<Longrightarrow> res_ok (wf_kb N) (drop_key_map s b)"
proof -
  assume wf: "wf_kb N b" and N: "0 < N"
  have s: "arr_get (key_maps b) (uint s) = Inr (key_maps b ! unat s)"
    using wf_kbD(1) [OF wf] word8 [of s] by (simp add: arr_get_def nat_uint_eq)
  show ?thesis
  proof (cases "key_maps b ! unat s")
    case (Some m)
    then have "length m = N"
      using wf_kbD(3) [OF wf] word8(2) by blast
    moreover have "wf_kb N (b\<lparr>key_maps := (key_maps b)[unat s := None]\<rparr>)" if "s \<noteq> 0"
      using that by (intro wf_kb_map [OF wf word8(2)]) (simp_all add: unat_eq_zero)
    then have "wf_kb N (b\<lparr>key_maps := (key_maps b)[unat s := None], keymap_count := n\<rparr>)" if "s \<noteq> 0" for n
      using that wf_kb_count by blast
    ultimately show ?thesis
      using wf N s Some by (simp add: drop_key_map_def arr_get_def)
  qed (use wf s in \<open>simp add: drop_key_map_def\<close>)
qed

lemma need_key_map_ok:
  assumes wf: "wf_kb N b" and N: "0 < N"
  shows "\<exists>r b1. need_key_map e N s b = Inr (r, b1) \<and> wf_kb N b1 \<and> (r = None \<longrightarrow> key_maps b1 ! unat s \<noteq> None) \<and>
    (\<forall>j < 256. key_maps b1 ! j = key_maps b ! j \<or> j = unat s \<and> key_maps b ! j = None \<and>
       key_maps b1 ! j = Some (U K_ALLOCATED # replicate (N - 1) (U K_HOLE)))"
proof -
  let ?m = "U K_ALLOCATED # replicate (N - 1) (U K_HOLE)"
  let ?b = "b\<lparr>key_maps := (key_maps b)[unat s := Some ?m], keymap_count := keymap_count b + 1\<rparr>"
  have s: "arr_get (key_maps b) (uint s) = Inr (key_maps b ! unat s)"
    using wf_kbD(1) [OF wf] word8 [of s] by (simp add: arr_get_def nat_uint_eq)
  have "wf_kb N (b\<lparr>key_maps := (key_maps b)[unat s := Some ?m]\<rparr>)"
    using N hole_keysym by (intro wf_kb_map [OF wf word8(2)]) auto
  then have new: "wf_kb N ?b"
    using wf_kb_count by blast
  have l: "length (key_maps b) = 256"
    using wf_kbD(1) [OF wf] .
  then have "\<forall>j < 256. key_maps ?b ! j = key_maps b ! j \<or> j = unat s \<and> key_maps ?b ! j = Some ?m"
    using word8(2) [of s] by (auto simp: nth_list_update)
  then show ?thesis
    using wf s new l word8(2) [of s]
    by (cases "key_maps b ! unat s") (simp_all add: need_key_map_def nth_list_update)
qed

lemma store_key_ok:
  assumes wf: "wf_kb N b" and v: "keysym_allowed vd v" and i: "unat i < N" and m: "key_maps b ! unat s = Some m"
  shows "\<exists>r b'. store_key e i s v b = Inr (r, b') \<and> wf_kb N b' \<and>
    (r = None \<longrightarrow> key_maps b' = (key_maps b)[unat s := Some (m[unat i := U v])])"
proof -
  have l: "length (key_maps b) = 256" "length m = N"
    using wf_kbD(1) [OF wf] wf_kbD(3) [OF wf m word8(2)] by simp_all
  have int_less: "uint i < int N"
    using i by (metis of_nat_less_iff of_nat_unat)
  have s: "arr_get (key_maps b) (uint s) = Inr (Some m)" "arr_get m (uint i) = Inr (m ! unat i)"
    using l word8 [of s] int_less m by (simp_all add: arr_get_def nat_uint_eq)
  let ?b1 = "b\<lparr>key_maps := (key_maps b)[unat s := Some (m[unat i := U v])]\<rparr>"
  have "Some m \<in> set (key_maps b)"
    using m l(1) word8(2) [of s] by (metis nth_mem)
  then have "wf_keysym w" if "w \<in> set m" for w
    using wf that by (simp add: wf_kb_defs)
  then have "wf_keysym w" if "w \<in> set (m[unat i := U v])" for w
    using that set_update_subset_insert [of m "unat i" "U v"] allowed_keysym [OF v] by blast
  then have w1: "wf_kb N ?b1"
    using l by (intro wf_kb_map [OF wf word8(2)]) auto
  obtain b2 where b2: "compute_shiftstate ?b1 = Inr b2" "wf_kb N b2"
    using compute_shiftstate_ok [OF w1] by (auto simp: res_ok_ex)
  show ?thesis
  proof (cases "v = U (m ! unat i)")
    case True
    then have "(key_maps b)[unat s := Some (m[unat i := U v])] = key_maps b"
      using m by (metis U_U list_update_id)
    then show ?thesis
      using True s wf by (simp add: store_key_def Let_def)
  next
    case False
    then show ?thesis
      using s b2 w1 wf compute_shiftstate_maps [OF b2(1)]
      by (cases "s = 0") (auto simp: store_key_def Let_def)
  qed
qed

lemma kdskbent_cases:
  assumes wf: "wf_kb N b" and i: "unat i < N"
  shows "\<exists>r b'. kdskbent e N vd i s v b = Inr (r, b') \<and> wf_kb N b' \<and>
    (r = None \<and> i \<noteq> 0 \<longrightarrow> keysym_allowed vd v \<and>
      (\<exists>m. (key_maps b ! unat s = Some m \<or>
            key_maps b ! unat s = None \<and> m = U K_ALLOCATED # replicate (N - 1) (U K_HOLE)) \<and>
        key_maps b' = (key_maps b)[unat s := Some (m[unat i := U v])]))"
proof -
  have N: "0 < N"
    using i by simp
  obtain b1 where drop: "drop_key_map s b = Inr b1" "wf_kb N b1"
    using drop_key_map_ok [OF wf N] by (auto simp: res_ok_ex)
  obtain r2 b2 where need: "need_key_map e N s b = Inr (r2, b2)" "wf_kb N b2"
    "r2 = None \<Longrightarrow> key_maps b2 ! unat s \<noteq> None"
    "\<And>j. j < 256 \<Longrightarrow> key_maps b2 ! j = key_maps b ! j \<or> j = unat s \<and> key_maps b ! j = None \<and>
       key_maps b2 ! j = Some (U K_ALLOCATED # replicate (N - 1) (U K_HOLE))"
    using need_key_map_ok [OF wf N, of e s] by blast
  show ?thesis
  proof (cases "has_perm e \<and> \<not> (i = 0 \<and> v = K_NOSUCHMAP) \<and> keysym_allowed vd v \<and> i \<noteq> 0 \<and> r2 = None")
    case True
    then obtain m where m: "key_maps b2 ! unat s = Some m"
      using need(3) by blast
    obtain r b' where b': "store_key e i s v b2 = Inr (r, b')" "wf_kb N b'"
      "r = None \<Longrightarrow> key_maps b' = (key_maps b2)[unat s := Some (m[unat i := U v])]"
      using store_key_ok [OF need(2) _ i m, of vd v e] True by blast
    have "(key_maps b2)[unat s := x] = (key_maps b)[unat s := x]" for x
      using need(4) wf_kbD(1) [OF wf] wf_kbD(1) [OF need(2)]
      by (intro nth_equalityI) (simp, metis length_list_update nth_list_update_eq nth_list_update_neq)
    moreover have "key_maps b ! unat s = Some m \<or>
        key_maps b ! unat s = None \<and> m = U K_ALLOCATED # replicate (N - 1) (U K_HOLE)"
      using m need(4) [OF word8(2), of s] by auto
    ultimately have "r = None \<longrightarrow> (\<exists>m. (key_maps b ! unat s = Some m \<or>
            key_maps b ! unat s = None \<and> m = U K_ALLOCATED # replicate (N - 1) (U K_HOLE)) \<and>
        key_maps b' = (key_maps b)[unat s := Some (m[unat i := U v])])"
      using b'(3) by (metis (no_types))
    then show ?thesis
      using True b'(1,2) need(1) by (auto simp: kdskbent_def)
  next
    case False
    then show ?thesis
      using wf drop need by (auto simp: kdskbent_def)
  qed
qed


definition root_env :: ioctl_env where
  "root_env = \<lparr>has_perm = True, cap_sys_admin = True, cap_sys_resource = True, cap_tty_config = True, cap_kill = True,
     current_pid = 1, kmalloc_ok = True\<rparr>"




end
