(* ===== verification/Selection.thy ===== *)
theory Selection
  imports Vt_Core
begin

text \<open>
  Text selection with the mouse and pasting, drivers/char/selection.c, and the requests of a
  console's \<open>TIOCLINUX\<close> ioctl, which lead there (\<open>tioclinux\<close> of vt.c). Highlighting and
  \<open>clear_selection\<close> are in \<open>Console\<close>; positions are byte offsets into the screen.

  The buffer of the selection is its content: \<open>fill_buffer\<close> takes its size and faults when a store
  would go past its end. Loops over cells have fuel. The line discipline that takes pasted text is
  not part of the program: how much room it has, and whether it is throttled, are arguments.
\<close>

record selection =
  sel_buffer :: "u8 list option"
  inwordLut :: "32 word list"
  kmsg_redirect :: int

definition isspace :: "u8 \<Rightarrow> bool" where
  "isspace b \<longleftrightarrow> b = 0x20"

definition screen_glyph :: "'d consw \<Rightarrow> vc_data \<Rightarrow> int \<Rightarrow> 'd con \<Rightarrow> u16" where
  "screen_glyph sw v off c =
     (let w = mem c (screenpos sw v off True); g = w AND 0xff in
      if w AND vc_hi_font_mask v \<noteq> 0 then g OR 0x100 else g)"

definition highlight_pointer :: "'d consw \<Rightarrow> int \<Rightarrow> 'd con \<Rightarrow> 'd con res" where
  "highlight_pointer sw at c = in_console (sel_cons c) (complement_pos sw at) c"

definition sel_pos :: "'d consw \<Rightarrow> int \<Rightarrow> 'd con \<Rightarrow> u8 res" where
  "sel_pos sw n c =
     (case sel_cons c of
        None \<Rightarrow> Inl Null_deref
      | Some k \<Rightarrow> (case get_console c k of
          None \<Rightarrow> Inl Dangling
        | Some v \<Rightarrow> inverse_translate (cm c) v (uint (screen_glyph sw v n c))))"

definition inword :: "selection \<Rightarrow> u8 \<Rightarrow> bool" where
  "inword s b = bit (inwordLut s ! unat (drop_bit 5 b)) (unat (b AND 0x1f))"

text \<open>\<open>ws\<close> is what \<open>copy_from_user\<close> left in the table, \<open>bad\<close> that it did not copy everything.\<close>

definition sel_loadlut :: "32 word list \<Rightarrow> bool \<Rightarrow> selection \<Rightarrow> errno option \<times> selection" where
  "sel_loadlut ws bad s = (if bad then Some EFAULT else None, s\<lparr>inwordLut := ws\<rparr>)"

definition atedge :: "int \<Rightarrow> int \<Rightarrow> bool" where
  "atedge p size_row \<longleftrightarrow> p mod size_row = 0 \<or> (p + 2) mod size_row = 0"

definition limit :: "u16 \<Rightarrow> u16 \<Rightarrow> u16" where
  "limit v u = (if v > u then u else v)"

section \<open>What is selected\<close>

text \<open>The loops to the first and last cell of a word, and to the end of trailing space.\<close>

definition leaves_word :: "selection \<Rightarrow> bool \<Rightarrow> u8 \<Rightarrow> bool" where
  "leaves_word s spc b \<longleftrightarrow> (spc \<and> \<not> isspace b) \<or> (\<not> spc \<and> \<not> inword s b)"

fun word_start :: "(int \<Rightarrow> u8 res) \<Rightarrow> selection \<Rightarrow> int \<Rightarrow> bool \<Rightarrow> nat \<Rightarrow> int \<Rightarrow> int \<Rightarrow> int res" where
  "word_start get s size_row spc 0 p new = Inl No_return"
| "word_start get s size_row spc (Suc fuel) p new =
     res_bind (get p) (\<lambda>b.
       if leaves_word s spc b then Inr new
       else if p mod size_row = 0 then Inr p
       else word_start get s size_row spc fuel (p - 2) p)"

fun word_end :: "(int \<Rightarrow> u8 res) \<Rightarrow> selection \<Rightarrow> int \<Rightarrow> bool \<Rightarrow> nat \<Rightarrow> int \<Rightarrow> int \<Rightarrow> int res" where
  "word_end get s size_row spc 0 p new = Inl No_return"
| "word_end get s size_row spc (Suc fuel) p new =
     res_bind (get p) (\<lambda>b.
       if leaves_word s spc b then Inr new
       else if (p + 2) mod size_row = 0 then Inr p
       else word_end get s size_row spc fuel (p + 2) p)"

fun space_end :: "(int \<Rightarrow> u8 res) \<Rightarrow> int \<Rightarrow> nat \<Rightarrow> int \<Rightarrow> int res" where
  "space_end get size_row 0 p = Inl No_return"
| "space_end get size_row (Suc fuel) p =
     res_bind (get p) (\<lambda>b.
       if \<not> isspace b \<or> atedge p size_row then Inr p else space_end get size_row fuel (p + 2))"

text \<open>The modes of linux/tiocl.h.\<close>

abbreviation (input) "TIOCL_SELCHAR \<equiv> (0::int)"
abbreviation (input) "TIOCL_SELWORD \<equiv> (1::int)"
abbreviation (input) "TIOCL_SELLINE \<equiv> (2::int)"
abbreviation (input) "TIOCL_SELPOINTER \<equiv> (3::int)"
abbreviation (input) "TIOCL_SELCLEAR \<equiv> (4::int)"
abbreviation (input) "TIOCL_SELMOUSEREPORT \<equiv> (16::int)"
abbreviation (input) "TIOCL_SELBUTTONMASK \<equiv> (15::int)"

definition sel_range :: "(int \<Rightarrow> u8 res) \<Rightarrow> selection \<Rightarrow> int \<Rightarrow> int \<Rightarrow> int \<Rightarrow> int \<Rightarrow> (int \<times> int) res" where
  "sel_range get s size_row mode ps pe =
     (if mode = TIOCL_SELCHAR then Inr (ps, pe)
      else if size_row = 0 then Inl Div_zero
      else if mode = TIOCL_SELWORD
      then res_bind (get ps) (\<lambda>b.
        res_bind (word_start get s size_row (isspace b) (nat size_row) ps ps) (\<lambda>new_start.
        res_bind (get pe) (\<lambda>b.
        res_bind (word_end get s size_row (isspace b) (nat size_row) pe pe) (\<lambda>new_end.
          Inr (new_start, new_end)))))
      else Inr (ps - ps mod size_row, pe + size_row - pe mod size_row - 2))"

text \<open>Select to the end of the line if on trailing space.\<close>

definition sel_trailing :: "(int \<Rightarrow> u8 res) \<Rightarrow> int \<Rightarrow> int \<Rightarrow> int \<Rightarrow> int res" where
  "sel_trailing get size_row new_start new_end =
     (if \<not> new_end > new_start then Inr new_end
      else if size_row = 0 then Inl Div_zero
      else if atedge new_end size_row then Inr new_end
      else res_bind (get new_end) (\<lambda>b.
        if \<not> isspace b then Inr new_end
        else res_bind (space_end get size_row (nat size_row) (new_end + 2)) (\<lambda>pe.
          res_bind (get pe) (\<lambda>b. Inr (if isspace b then pe else new_end)))))"

section \<open>The text of the selection\<close>

text \<open>\<open>text\<close> is what is stored up to \<open>bp\<close>, \<open>obp\<close> the offset of the other pointer.\<close>

fun fill_buffer ::
  "(int \<Rightarrow> u8 res) \<Rightarrow> int \<Rightarrow> nat \<Rightarrow> nat \<Rightarrow> int \<Rightarrow> u8 list \<Rightarrow> nat \<Rightarrow> u8 list res" where
  "fill_buffer get size_row cap 0 i text obp = Inr text"
| "fill_buffer get size_row cap (Suc n) i text obp =
     res_bind (get i) (\<lambda>b.
       if length text \<ge> cap then Inl Out_of_bounds
       else if size_row = 0 then Inl Div_zero
       else
         let text1 = text @ [b]; obp1 = (if \<not> isspace b then length text1 else obp) in
         if (i + 2) mod size_row = 0
         then
           let text2 = (if obp1 \<noteq> length text1 then take obp1 text1 @ [0x0d] else text1)
           in if obp1 \<noteq> length text1 \<and> obp1 \<ge> cap then Inl Out_of_bounds
              else fill_buffer get size_row cap n (i + 2) text2 (length text2)
         else fill_buffer get size_row cap n (i + 2) text1 obp1)"

text \<open>Extend or contract the highlighted part; \<open>None\<close> when there is nothing to do.\<close>

definition move_highlight :: "'d consw \<Rightarrow> int \<Rightarrow> int \<Rightarrow> 'd con \<Rightarrow> 'd con option res" where
  "move_highlight sw ns ne c =
     (let hl = (\<lambda>a b c. res_bind (highlight sw a b c) (\<lambda>c. Inr (Some c))) in
      if sel_start c = -1 then hl ns ne c
      else if ns = sel_start c
      then if ne = sel_end c then Inr None
           else if ne > sel_end c then hl (sel_end c + 2) ne c
           else hl (ne + 2) (sel_end c) c
      else if ne = sel_end c
      then if ns < sel_start c then hl ns (sel_start c - 2) c else hl (sel_start c) (ns - 2) c
      else res_bind (clear_selection sw c) (hl ns ne))"

section \<open>Setting the selection\<close>

definition store_selection ::
  "'d consw \<Rightarrow> bool \<Rightarrow> int \<Rightarrow> selection \<Rightarrow> 'd con \<Rightarrow> (errno option \<times> selection \<times> 'd con) res" where
  "store_selection sw alloc_fails size_row s c =
     (if alloc_fails then res_bind (clear_selection sw c) (\<lambda>c. Inr (Some ENOMEM, s, c))
      else
        let n = nat ((sel_end c - sel_start c) div 2 + 1) in
        res_bind (fill_buffer (\<lambda>i. sel_pos sw i c) size_row n n (sel_start c) [] 0) (\<lambda>text.
          Inr (None, s\<lparr>sel_buffer := Some text\<rparr>, c)))"

definition select_range ::
  "'d consw \<Rightarrow> bool \<Rightarrow> int \<Rightarrow> int \<Rightarrow> int \<Rightarrow> selection \<Rightarrow> 'd con \<Rightarrow> (errno option \<times> selection \<times> 'd con) res" where
  "select_range sw alloc_fails mode ps pe s c =
     (let size_row = vc_size_row (vc c) in
      res_bind (sel_range (\<lambda>i. sel_pos sw i c) s size_row mode ps pe) (\<lambda>(ns, ne).
      res_bind (hide_pointer sw c) (\<lambda>c.
      res_bind (sel_trailing (\<lambda>i. sel_pos sw i c) size_row ns ne) (\<lambda>ne.
      res_bind (move_highlight sw ns ne c) (\<lambda>m.
        case m of
          None \<Rightarrow> Inr (None, s, c)
        | Some c \<Rightarrow> store_selection sw alloc_fails size_row s (c\<lparr>sel_start := ns, sel_end := ne\<rparr>))))))"

definition sel_col :: "vc_data \<Rightarrow> u16 \<Rightarrow> int" where
  "sel_col v x = uint (limit (x - 1) (word_of_int (vc_cols v - 1)))"

definition sel_row :: "vc_data \<Rightarrow> u16 \<Rightarrow> int" where
  "sel_row v y = uint (limit (y - 1) (word_of_int (vc_rows v - 1)))"

definition sel_offset :: "vc_data \<Rightarrow> u16 \<Rightarrow> u16 \<Rightarrow> int" where
  "sel_offset v x y = sel_row v y * vc_size_row v + 2 * sel_col v x"

definition set_selection ::
  "'d consw \<Rightarrow> bool \<Rightarrow> bool \<Rightarrow> u16 \<Rightarrow> u16 \<Rightarrow> u16 \<Rightarrow> u16 \<Rightarrow> int \<Rightarrow> selection \<times> 'd con
     \<Rightarrow> (errno option \<times> selection \<times> 'd con) res" where
  "set_selection sw bad_user alloc_fails xs ys xe ye mode = (\<lambda>(s, c).
     res_bind (poke_blanked_console sw (display_fg (vc c)) c) (\<lambda>c.
       if bad_user then Inr (Some EFAULT, s, c)
       else
         let v = vc c; p1 = sel_offset v xs ys; p2 = sel_offset v xe ye
         in if mode = TIOCL_SELCLEAR then res_bind (clear_selection sw c) (\<lambda>c. Inr (None, s, c))
            else if vc_report_mouse v \<noteq> 0 \<and> mode AND TIOCL_SELMOUSEREPORT \<noteq> 0
            then Inr (None, s, mouse_report (mode AND TIOCL_SELBUTTONMASK) (sel_col v xs) (sel_row v ys) c)
            else
              res_bind (if sel_cons c \<noteq> fg_console (vt c)
                        then res_bind (clear_selection sw c) (\<lambda>c. Inr (c\<lparr>sel_cons := fg_console (vt c)\<rparr>))
                        else Inr c) (\<lambda>c.
                if mode = TIOCL_SELPOINTER
                then res_bind (highlight_pointer sw (max p1 p2) c) (\<lambda>c. Inr (None, s, c))
                else if mode \<notin> {TIOCL_SELCHAR, TIOCL_SELWORD, TIOCL_SELLINE} then Inr (Some EINVAL, s, c)
                else select_range sw alloc_fails mode (min p1 p2) (max p1 p2) s c)))"

section \<open>Pasting\<close>

text \<open>
  The chunks handed to the line discipline. In round \<open>k\<close> the tty is throttled or has \<open>room k\<close>
  bytes of room; a throttled round waits.
\<close>

fun paste_loop :: "(nat \<Rightarrow> bool) \<Rightarrow> (nat \<Rightarrow> int) \<Rightarrow> nat \<Rightarrow> nat \<Rightarrow> u8 list \<Rightarrow> u8 list list res" where
  "paste_loop throttled room 0 k text = (if text = [] then Inr [] else Inl No_return)"
| "paste_loop throttled room (Suc fuel) k text =
     (if text = [] then Inr []
      else if throttled k then paste_loop throttled room fuel (Suc k) text
      else
        let count = min (int (length text)) (room k) in
        res_bind (paste_loop throttled room fuel (Suc k) (drop (nat count) text)) (\<lambda>cs.
          Inr (take (nat count) text # cs)))"

definition paste_selection ::
  "'d consw \<Rightarrow> (nat \<Rightarrow> bool) \<Rightarrow> (nat \<Rightarrow> int) \<Rightarrow> nat \<Rightarrow> selection \<times> 'd con \<Rightarrow> (u8 list list \<times> 'd con) res" where
  "paste_selection sw throttled room fuel = (\<lambda>(s, c).
     res_bind (poke_blanked_console sw (display_fg (vc c)) c) (\<lambda>c.
     res_bind (case sel_buffer s of None \<Rightarrow> Inr [] | Some text \<Rightarrow> paste_loop throttled room fuel 0 text) (\<lambda>cs.
       Inr (cs, c))))"

end
