(* ===== verification/Selection_Props.thy ===== *)
theory Selection_Props
  imports Selection Output_Props
begin

text \<open>
  The selection stays on the screen and its text fits the buffer: every loop of
  \<open>set_selection\<close> ends within the row or the range it works on, what is stored is the text
  of the selected cells line by line without trailing blanks, and pasting hands over all of it.
\<close>

section \<open>The range of a selection\<close>

lemma even_gap: "even m \<Longrightarrow> even n \<Longrightarrow> m < n \<Longrightarrow> m \<le> n - 2" for m n :: int
  by presburger

lemma row_rest:
  fixes p row :: int
  assumes "even row" "0 < row" "even p"
  shows "p mod row \<noteq> 0 \<Longrightarrow> (p - 2) - (p - 2) mod row = p - p mod row \<and> (p - 2) mod row = p mod row - 2"
    and "(p + 2) mod row \<noteq> 0 \<Longrightarrow> (p + 2) - (p + 2) mod row = p - p mod row \<and> (p + 2) mod row = p mod row + 2"
    and "p mod row \<le> row - 2" "even (p mod row)"
    and "(p + 2) mod row = 0 \<longleftrightarrow> p mod row = row - 2"
proof -
  show ev: "even (p mod row)"
    using assms by (simp add: dvd_mod_iff)
  have lt: "0 \<le> p mod row" "p mod row < row"
    using assms(2) by simp_all
  then show le: "p mod row \<le> row - 2"
    using ev assms(1) by (intro even_gap)
  have up: "(p + 2) mod row = (if p mod row = row - 2 then 0 else p mod row + 2)"
  proof -
    have "(p + 2) mod row = (p mod row + 2) mod row" by (simp add: mod_add_left_eq)
    then show ?thesis using lt le by (auto simp: mod_pos_pos_trivial)
  qed
  then show "(p + 2) mod row = 0 \<longleftrightarrow> p mod row = row - 2"
    using lt by auto
  show "(p + 2) mod row \<noteq> 0 \<Longrightarrow> (p + 2) - (p + 2) mod row = p - p mod row \<and> (p + 2) mod row = p mod row + 2"
    using up by (auto split: if_splits)
  assume "p mod row \<noteq> 0"
  then have "2 \<le> p mod row" using lt ev even_gap [of 0 "p mod row"] by simp
  moreover have "(p - 2) mod row = (p mod row - 2) mod row" by (simp add: mod_diff_left_eq)
  ultimately show "(p - 2) - (p - 2) mod row = p - p mod row \<and> (p - 2) mod row = p mod row - 2"
    using lt by (simp add: mod_pos_pos_trivial)
qed

lemma word_start_ok:
  assumes "even row" "0 < row"
  shows "even p \<Longrightarrow> even new \<Longrightarrow> p \<le> new \<Longrightarrow> p mod row < 2 * int fuel \<Longrightarrow>
    \<exists>r. word_start (\<lambda>i. Inr (g i)) s row spc fuel p new = Inr r \<and> p - p mod row \<le> r \<and> r \<le> new \<and> even r"
proof (induction fuel arbitrary: p new)
  case 0
  then show ?case using assms(2) pos_mod_sign [of row p] by linarith
next
  case (Suc fuel)
  note r = row_rest [OF assms Suc.prems(1)]
  have "0 \<le> p mod row" using assms(2) by simp
  moreover have "p mod row \<noteq> 0 \<Longrightarrow> \<exists>r. word_start (\<lambda>i. Inr (g i)) s row spc fuel (p - 2) p = Inr r \<and>
      p - p mod row \<le> r \<and> r \<le> new \<and> even r"
    using Suc.IH [of "p - 2" p] Suc.prems r by fastforce
  ultimately show ?case
    using Suc.prems by auto
qed

lemma word_end_ok:
  assumes "even row" "0 < row"
  shows "even p \<Longrightarrow> even new \<Longrightarrow> new \<le> p \<Longrightarrow> new \<le> p - p mod row + row - 2 \<Longrightarrow> row - p mod row \<le> 2 * int fuel \<Longrightarrow>
    \<exists>r. word_end (\<lambda>i. Inr (g i)) s row spc fuel p new = Inr r \<and> new \<le> r \<and> r \<le> p - p mod row + row - 2 \<and> even r"
proof (induction fuel arbitrary: p new)
  case 0
  have "p mod row < row" using assms(2) by simp
  then show ?case using 0 by linarith
next
  case (Suc fuel)
  note r = row_rest [OF assms Suc.prems(1)]
  have "(p + 2) mod row \<noteq> 0 \<Longrightarrow> \<exists>r. word_end (\<lambda>i. Inr (g i)) s row spc fuel (p + 2) p = Inr r \<and>
      new \<le> r \<and> r \<le> p - p mod row + row - 2 \<and> even r"
    using Suc.IH [of "p + 2" p] Suc.prems r by fastforce
  then show ?case
    using Suc.prems r by auto
qed

lemma space_end_ok:
  assumes "even row" "0 < row"
  shows "even p \<Longrightarrow> row - p mod row \<le> 2 * int fuel \<Longrightarrow>
    \<exists>r. space_end (\<lambda>i. Inr (g i)) row fuel p = Inr r \<and> p \<le> r \<and> r \<le> p - p mod row + row - 2 \<and> even r"
proof (induction fuel arbitrary: p)
  case 0
  have "p mod row < row" using assms(2) by simp
  then show ?case using 0 by linarith
next
  case (Suc fuel)
  note r = row_rest [OF assms Suc.prems(1)]
  have "\<not> atedge p row \<Longrightarrow> \<exists>r. space_end (\<lambda>i. Inr (g i)) row fuel (p + 2) = Inr r \<and>
      p \<le> r \<and> r \<le> p - p mod row + row - 2 \<and> even r"
    using Suc.IH [of "p + 2"] Suc.prems r unfolding atedge_def by fastforce
  then show ?case
    using Suc.prems r by auto
qed


text \<open>A row ends before the end of the screen.\<close>

lemma row_end_bound:
  fixes p row n :: int
  assumes "0 < row" "0 \<le> p" "p < n * row"
  shows "0 \<le> p - p mod row" "p - p mod row + row \<le> n * row"
proof -
  have d: "p - p mod row = p div row * row"
    by (simp add: minus_mod_eq_div_mult)
  moreover have "p div row * row < n * row"
    using d pos_mod_sign [of row p] assms by linarith
  then have "0 \<le> p div row" "p div row < n"
    using assms by (simp_all add: pos_imp_zdiv_nonneg_iff mult_less_cancel_right)
  then have "0 \<le> p div row" "p div row + 1 \<le> n" by simp_all
  ultimately show "0 \<le> p - p mod row" "p - p mod row + row \<le> n * row"
    using assms(1) mult_right_mono [of "p div row + 1" n row] by (simp_all add: distrib_right)
qed

lemma sel_range_ok:
  assumes "even row" "0 < row" "even ps" "even pe" "0 \<le> ps" "ps \<le> pe" "pe < n * row"
  shows "\<exists>ns ne. sel_range (\<lambda>i. Inr (g i)) s row mode ps pe = Inr (ns, ne) \<and>
    0 \<le> ns \<and> ns \<le> ps \<and> pe \<le> ne \<and> ne + 2 \<le> n * row \<and> even ns \<and> even ne"
proof -
  note p = row_rest [OF assms(1,2,3)] row_rest [OF assms(1,2,4)]
  note e = row_end_bound [OF assms(2), of ps n] row_end_bound [OF assms(2), of pe n]
  have fuel: "ps mod row < 2 * int (nat row)" "row - pe mod row \<le> 2 * int (nat row)"
    using assms(2) pos_mod_bound [of row ps] pos_mod_sign [of row pe] by linarith+
  have m: "0 \<le> ps mod row" "0 \<le> pe mod row" "pe mod row \<le> row - 2"
    using assms(2) p(8) by simp_all
  obtain a where "word_start (\<lambda>i. Inr (g i)) s row (isspace (g ps)) (nat row) ps ps = Inr a"
    "ps - ps mod row \<le> a" "a \<le> ps" "even a"
    using word_start_ok [OF assms(1,2,3,3) order_refl fuel(1)] by blast
  moreover obtain z where "word_end (\<lambda>i. Inr (g i)) s row (isspace (g pe)) (nat row) pe pe = Inr z"
    "pe \<le> z" "z \<le> pe - pe mod row + row - 2" "even z"
    using word_end_ok [OF assms(1,2,4,4) order_refl _ fuel(2)] m by fastforce
  ultimately show ?thesis
    using assms p e m by (simp add: sel_range_def)
qed

lemma sel_trailing_ok:
  assumes "even row" "0 < row" "even ne" "0 \<le> ne" "ne + 2 \<le> n * row"
  shows "\<exists>r. sel_trailing (\<lambda>i. Inr (g i)) row ns ne = Inr r \<and> ne \<le> r \<and> r + 2 \<le> n * row \<and> even r"
proof (cases "ns < ne \<and> \<not> atedge ne row \<and> isspace (g ne)")
  case True
  have ne: "(ne + 2) mod row \<noteq> 0" using True by (simp add: atedge_def)
  note r = row_rest [OF assms(1-3)] row_end_bound [OF assms(2,4), of n]
  have pre: "even (ne + 2)" "row - (ne + 2) mod row \<le> 2 * int (nat row)"
    using assms(2,3) pos_mod_sign [of row "ne + 2"] by (simp, linarith)
  obtain z where z: "space_end (\<lambda>i. Inr (g i)) row (nat row) (ne + 2) = Inr z"
    "ne + 2 \<le> z" "z \<le> (ne + 2) - (ne + 2) mod row + row - 2" "even z"
    using space_end_ok [OF assms(1,2) pre] by blast
  then show ?thesis
    using True r(2) [OF ne] r(7) assms by (simp add: sel_trailing_def)
qed (use assms in \<open>auto simp: sel_trailing_def\<close>)


section \<open>The text\<close>

text \<open>A line is stored without trailing blanks; when there were some, a carriage return ends it.\<close>

definition strip :: "u8 list \<Rightarrow> u8 list" where
  "strip l = rev (dropWhile isspace (rev l))"

definition end_line :: "u8 list \<Rightarrow> u8 list" where
  "end_line l = (if strip l = l then l else strip l @ [0x0d])"

text \<open>The text of cells of which \<open>k\<close> are left in the first row of \<open>w\<close>; the last, unfinished line is stored as it is.\<close>

function sel_lines :: "nat \<Rightarrow> nat \<Rightarrow> u8 list \<Rightarrow> u8 list" where
  "sel_lines w k bs = (if k = 0 \<or> length bs < k then bs else end_line (take k bs) @ sel_lines w w (drop k bs))"
  by auto

termination by (relation "measure (\<lambda>(w, k, bs). length bs)") auto

declare sel_lines.simps [simp del]

lemma strip_snoc [simp]: "strip (l @ [b]) = (if isspace b then strip l else l @ [b])"
  by (simp add: strip_def)

lemma strip_Nil [simp]: "strip [] = []"
  by (simp add: strip_def)

lemma strip_prefix: "take (length (strip l)) l = strip l" "length (strip l) \<le> length l"
proof -
  have "strip l @ rev (takeWhile isspace (rev l)) = l"
    by (simp add: strip_def flip: rev_append)
  then show "take (length (strip l)) l = strip l" "length (strip l) \<le> length l"
    by (metis append_eq_conv_conj, metis length_append le_add1)
qed

lemma strip_length: "length (strip l) = length l \<longleftrightarrow> strip l = l"
  using strip_prefix(1) [of l] by (metis take_all order_refl)

lemma length_end_line: "length (end_line l) \<le> length l"
  using strip_prefix(2) [of l] strip_length [of l] by (auto simp: end_line_def)

lemma fill_buffer_lines:
  assumes "even row" "0 < row"
  shows "even i \<Longrightarrow> length d + length cur + n \<le> cap \<Longrightarrow>
    fill_buffer (\<lambda>i. Inr (g i)) row cap n i (d @ cur) (length d + length (strip cur)) =
      Inr (d @ sel_lines (nat (row div 2)) (length cur + nat ((row - i mod row) div 2))
        (cur @ map (\<lambda>j. g (i + 2 * int j)) [0 ..< n]))"
proof (induction n arbitrary: i d cur)
  case 0
  have "i mod row < row" "even (row - i mod row)" using assms row_rest(4) [OF assms 0(1)] by simp_all
  then have "0 < (row - i mod row) div 2"
    using even_gap [of 0 "row - i mod row"] by (simp add: pos_imp_zdiv_pos_iff)
  then show ?case by (subst sel_lines.simps) simp
next
  case (Suc n)
  note r = row_rest [OF assms Suc.prems(1)]
  define cur1 where "cur1 = cur @ [g i]"
  have cells: "cur @ map (\<lambda>j. g (i + 2 * int j)) [0 ..< Suc n]
      = cur1 @ map (\<lambda>j. g (i + 2 + 2 * int j)) [0 ..< n]"
    by (simp add: cur1_def upt_conv_Cons map_Suc_upt [symmetric] algebra_simps del: upt_Suc)
  have obp: "(if \<not> isspace (g i) then length ((d @ cur) @ [g i]) else length d + length (strip cur))
      = length d + length (strip cur1)"
    by (simp add: cur1_def)
  show ?case
  proof (cases "(i + 2) mod row = 0")
    case True
    then have k: "length cur + nat ((row - i mod row) div 2) = length cur1" "(i + 2) mod row = 0"
      using r(5) by (simp_all add: cur1_def)
    have step: "fill_buffer (\<lambda>i. Inr (g i)) row cap (Suc n) i (d @ cur) (length d + length (strip cur))
        = fill_buffer (\<lambda>i. Inr (g i)) row cap n (i + 2) (d @ end_line cur1) (length (d @ end_line cur1))"
    proof (cases "strip cur1 = cur1")
      case same: True
      then have "\<not> isspace (g i)"
        using strip_prefix(2) [of cur] by (auto simp: cur1_def)
      then show ?thesis
        using Suc.prems(2) True assms(2) same by (simp add: Let_def end_line_def cur1_def)
    next
      case stripped: False
      then have l: "length (strip cur1) < length cur1" "min (length cur1) (length (strip cur1)) = length (strip cur1)"
        using strip_prefix(2) [of cur1] strip_length [of cur1] by auto
      have blank: "isspace (g i)" "strip cur = strip cur1"
        using stripped by (auto simp: cur1_def split: if_splits)
      have "length (strip cur1) < Suc (length cur)" "take (length (strip cur1)) (cur @ [g i]) = strip cur1"
        using l(1) strip_prefix(1) [of cur1] by (simp_all add: cur1_def)
      then show ?thesis
        using Suc.prems(2) True assms(2) stripped l(2) blank by (simp add: Let_def end_line_def)
    qed
    have "length (d @ end_line cur1) + length [] + n \<le> cap"
      using length_end_line [of cur1] Suc.prems(2) by (simp add: cur1_def)
    from Suc.IH [OF _ this, of "i + 2"] have "fill_buffer (\<lambda>i. Inr (g i)) row cap n (i + 2) (d @ end_line cur1) (length (d @ end_line cur1))
      = Inr (d @ end_line cur1 @ sel_lines (nat (row div 2)) (nat (row div 2)) (map (\<lambda>j. g (i + 2 + 2 * int j)) [0 ..< n]))"
      using Suc.prems(1) k(2) by simp
    moreover have "sel_lines (nat (row div 2)) (length cur1) (cur1 @ map (\<lambda>j. g (i + 2 + 2 * int j)) [0 ..< n])
      = end_line cur1 @ sel_lines (nat (row div 2)) (nat (row div 2)) (map (\<lambda>j. g (i + 2 + 2 * int j)) [0 ..< n])"
      by (subst sel_lines.simps) (simp add: cur1_def)
    ultimately show ?thesis
      unfolding cells k(1) step by simp
  next
    case False
    have "i mod row < row - 2" using r(3,5) False by simp
    then have k: "length cur + nat ((row - i mod row) div 2) = length cur1 + nat ((row - (i + 2) mod row) div 2)"
      using r(2) [OF False] by (simp add: cur1_def)
    have "length d + length cur1 + n \<le> cap" using Suc.prems(2) by (simp add: cur1_def)
    moreover have "strip cur1 = (if isspace (g i) then strip cur else cur1)" by (simp add: cur1_def)
    ultimately show ?thesis
      using Suc.IH [of "i + 2" d cur1] Suc.prems False assms(2) unfolding cells k
      by (auto simp: Let_def cur1_def [symmetric])
  qed
qed

lemma paste_loop_all:
  assumes "\<And>k. \<not> throttled k" "\<And>k. 0 < room k"
  shows "length bs \<le> fuel \<Longrightarrow> \<exists>cs. paste_loop throttled room fuel k bs = Inr cs \<and> concat cs = bs"
proof (induction fuel arbitrary: k bs)
  case (Suc fuel)
  show ?case
  proof (cases "bs = []")
    case False
    define n where "n = nat (min (int (length bs)) (room k))"
    have "0 < n" using False assms(2) [of k] by (simp add: n_def)
    then obtain cs where "paste_loop throttled room fuel (Suc k) (drop n bs) = Inr cs" "concat cs = drop n bs"
      using Suc.IH [of "drop n bs" "Suc k"] Suc.prems \<open>0 < n\<close> by fastforce
    then show ?thesis
      using False assms(1) [of k] by (simp add: Let_def n_def [symmetric])
  qed simp
qed simp


section \<open>The console whose selection it is\<close>

definition own_sel :: "vga contract \<Rightarrow> vga con \<Rightarrow> bool" where
  "own_sel K c \<longleftrightarrow> wf_con K c \<and> sel_cons c = Some (vc_num (vc c))"

definition sel_keeps :: "vga contract \<Rightarrow> vga con \<Rightarrow> vga con \<Rightarrow> bool" where
  "sel_keeps K c c' \<longleftrightarrow> keeps K c c' \<and> vc c' = vc c \<and> sel_cons c' = sel_cons c"

lemma sel_keeps_trans: "sel_keeps K a b \<Longrightarrow> sel_keeps K b c \<Longrightarrow> sel_keeps K a c"
  by (auto simp: sel_keeps_def intro: keeps_trans)

lemma sel_keeps_own: "own_sel K c \<Longrightarrow> sel_keeps K c c' \<Longrightarrow> own_sel K c'"
  by (auto simp: sel_keeps_def own_sel_def keeps_wf)

lemma sel_pos_total:
  assumes "own_sel K c"
  shows "\<exists>g. (\<lambda>i. sel_pos sw i c) = (\<lambda>i. Inr (g i))"
proof -
  have "locs (cm c) (vc_uni_pagedir_loc (vc c)) = 0 \<or> udirs (cm c) (locs (cm c) (vc_uni_pagedir_loc (vc c))) \<noteq> None"
    using assms get_console_own wf_conD(10) unfolding own_sel_def wf_maps_def by blast
  then have "\<exists>b. inverse_translate (cm c) (vc c) n = Inr b" for n
    by (auto simp: inverse_translate_def deref_dir_def Let_def split: option.split)
  then have "\<forall>i. \<exists>b. sel_pos sw i c = Inr b"
    using assms by (simp add: sel_pos_def own_sel_def)
  then show ?thesis by (metis (no_types))
qed

lemma vga_uncomplement: "vc (uncomplement vga_con c) = vc c \<and> sel_cons (uncomplement vga_con c) = sel_cons c \<and>
    sel_start (uncomplement vga_con c) = sel_start c \<and> sel_end (uncomplement vga_con c) = sel_end c"
  by (simp add: uncomplement_def Let_def vga_con_def upd_mem_def split: option.split)

lemma hide_pointer_kept:
  assumes K: "K = vga_contract ty b e bufs" and "own_sel K c"
  shows "\<exists>c'. hide_pointer vga_con c = Inr c' \<and> sel_keeps K c c' \<and> sel_start c' = sel_start c \<and> sel_end c' = sel_end c"
proof -
  have "res_ok (keeps K c) (hide_pointer vga_con c)"
    using assms(2) unfolding K own_sel_def by (intro vga.hide_pointer_ok) simp
  then obtain c' where c': "hide_pointer vga_con c = Inr c'" "keeps K c c'" by (auto simp: res_ok_ex)
  moreover have "vc c' = vc c \<and> sel_cons c' = sel_cons c \<and> sel_start c' = sel_start c \<and> sel_end c' = sel_end c"
    using c'(1) assms(2) vga_uncomplement [of c]
    by (auto simp: hide_pointer_def in_console_def complement_pos_def own_sel_def Let_def split: if_splits)
  ultimately show ?thesis by (auto simp: sel_keeps_def)
qed

lemma highlight_kept:
  assumes K: "K = vga_contract ty b e bufs" and own: "own_sel K c" and r: "0 \<le> i" "i \<le> j + 2" "j + 2 \<le> vc_screenbuf_size (vc c)"
  shows "\<exists>c'. highlight vga_con i j c = Inr c' \<and> sel_keeps K c c'"
proof -
  have "res_ok (keeps K c) (invert_screen vga_con i (j - i + 2) True c)"
    using own r unfolding K own_sel_def by (intro vga.invert_screen_ok) auto
  then obtain c' where c': "highlight vga_con i j c = Inr c'" "keeps K c c'"
    using own by (auto simp: highlight_def in_console_def own_sel_def res_ok_ex)
  moreover have "vc c' = vc c \<and> sel_cons c' = sel_cons c"
    using c'(1) own vga_update_region
    by (fastforce simp: highlight_def in_console_def invert_screen_def Let_def vga_con_def own_sel_def
        vgacon_invert_region_def upd_mem_def split: if_splits)
  ultimately show ?thesis by (auto simp: sel_keeps_def)
qed

lemma wf_own_sel:
  assumes "own_sel K c" "sel_start c \<noteq> -1"
  shows "0 \<le> sel_start c" "sel_start c \<le> sel_end c" "sel_end c + 2 \<le> vc_screenbuf_size (vc c)"
  using assms wf_conD(6) get_console_own unfolding own_sel_def wf_sel_def by fastforce+

lemma clear_selection_start:
  "clear_selection sw c = Inr c' \<Longrightarrow> sel_start c' = -1"
  by (auto simp: clear_selection_def res_bind_Inr split: if_splits)

lemma clear_selection_kept:
  assumes K: "K = vga_contract ty b e bufs" and own: "own_sel K c"
  shows "\<exists>c'. clear_selection vga_con c = Inr c' \<and> sel_keeps K c c' \<and> sel_start c' = -1"
proof -
  obtain c1 where c1: "hide_pointer vga_con c = Inr c1" "sel_keeps K c c1"
    using hide_pointer_kept [OF K own] by blast
  note own1 = sel_keeps_own [OF own c1(2)]
  show ?thesis
  proof (cases "sel_start c1 = -1")
    case False
    then obtain c2 where c2: "highlight vga_con (sel_start c1) (sel_end c1) c1 = Inr c2" "sel_keeps K c1 c2"
      using highlight_kept [OF K own1, of "sel_start c1" "sel_end c1"] wf_own_sel [OF own1 False] by auto
    have "sel_keeps K c2 (c2\<lparr>sel_start := -1\<rparr>)"
      using sel_keeps_own [OF own1 c2(2)] keeps_sel_fields(2) by (simp add: sel_keeps_def own_sel_def)
    then have "sel_keeps K c (c2\<lparr>sel_start := -1\<rparr>)"
      using sel_keeps_trans [OF c1(2) sel_keeps_trans [OF c2(2)]] by blast
    moreover have "clear_selection vga_con c = Inr (c2\<lparr>sel_start := -1\<rparr>)"
      using c1(1) c2(1) False by (simp add: clear_selection_def)
    ultimately show ?thesis by simp
  qed (use c1 in \<open>simp add: clear_selection_def\<close>)
qed


text \<open>Setting the range and the console of the selection.\<close>

lemma keeps_sel_range:
  assumes "own_sel K c" "0 \<le> i" "i \<le> j" "j + 2 \<le> vc_screenbuf_size (vc c)"
  shows "sel_keeps K c (c\<lparr>sel_start := i, sel_end := j\<rparr>)"
proof -
  let ?c = "c\<lparr>sel_start := i, sel_end := j\<rparr>"
  have g: "get_console ?c = get_console c" by (simp add: get_console_def fun_eq_iff)
  have wf: "wf_con K c" and own: "sel_cons c = Some (vc_num (vc c))" using assms(1) by (simp_all add: own_sel_def)
  have "wf_sel ?c"
    using own assms get_console_own [of c] by (simp add: wf_sel_def g)
  moreover have "wf_displayed K ?c" "wf_switch ?c" "wf_drv K ?c" "wf_maps ?c"
    using wf_conD(7-10) [OF wf] by (simp_all add: wf_displayed_def wf_switch_def wf_drv_def wf_maps_def g)
  ultimately have "wf_con K ?c"
    using wf_conD(1-5) [OF wf] by (intro wf_conI) (simp_all add: g)
  then show ?thesis
    by (simp add: sel_keeps_def keeps_def g)
qed

lemma keeps_sel_cons:
  assumes wf: "wf_con K c" and "sel_start c = -1" and n: "get_console c n \<noteq> None"
  shows "keeps K c (c\<lparr>sel_cons := Some n\<rparr>)"
proof -
  let ?c = "c\<lparr>sel_cons := Some n\<rparr>"
  have g: "get_console ?c = get_console c" by (simp add: get_console_def fun_eq_iff)
  have "wf_sel ?c"
    using assms by (simp add: wf_sel_def g)
  moreover have "wf_displayed K ?c" "wf_switch ?c" "wf_drv K ?c" "wf_maps ?c"
    using wf_conD(7-10) [OF wf] by (simp_all add: wf_displayed_def wf_switch_def wf_drv_def wf_maps_def g)
  ultimately have "wf_con K ?c"
    using wf_conD(1-5) [OF wf] by (intro wf_conI) (simp_all add: g)
  then show ?thesis
    by (simp add: keeps_def g)
qed

lemma move_highlight_kept:
  assumes K: "K = vga_contract ty b e bufs" and own: "own_sel K c"
    and r: "0 \<le> ns" "ns \<le> ne" "ne + 2 \<le> vc_screenbuf_size (vc c)"
  shows "\<exists>m. move_highlight vga_con ns ne c = Inr m \<and>
    (case m of None \<Rightarrow> ns = sel_start c \<and> ne = sel_end c | Some c' \<Rightarrow> sel_keeps K c c')"
proof (cases "sel_start c \<noteq> -1 \<and> ns \<noteq> sel_start c \<and> ne \<noteq> sel_end c")
  case True
  obtain c1 where c1: "clear_selection vga_con c = Inr c1" "sel_keeps K c c1"
    using clear_selection_kept [OF K own] by blast
  have "ne + 2 \<le> vc_screenbuf_size (vc c1)" using c1(2) r by (simp add: sel_keeps_def)
  then obtain c2 where "highlight vga_con ns ne c1 = Inr c2" "sel_keeps K c1 c2"
    using highlight_kept [OF K sel_keeps_own [OF own c1(2)], of ns ne] r by auto
  then show ?thesis
    using True c1 sel_keeps_trans [OF c1(2)] by (simp add: move_highlight_def Let_def)
next
  case False
  have hl: "\<exists>c'. highlight vga_con i j c = Inr c' \<and> sel_keeps K c c'"
    if "0 \<le> i" "i \<le> j + 2" "j + 2 \<le> vc_screenbuf_size (vc c)" for i j
    using highlight_kept [OF K own that] .
  show ?thesis
  proof (cases "sel_start c = -1")
    case True
    then show ?thesis using hl [of ns ne] r by (auto simp: move_highlight_def)
  next
    case sel: False
    note w = wf_own_sel [OF own sel]
    show ?thesis
      using False sel hl [of "sel_end c + 2" ne] hl [of "ne + 2" "sel_end c"] hl [of ns "sel_start c - 2"]
        hl [of "sel_start c" "ns - 2"] w r
      by (auto simp: move_highlight_def Let_def)
  qed
qed


lemma limit_bound:
  assumes "0 < n" "n \<le> 65536"
  shows "uint (limit (x - 1) (word_of_int (n - 1))) < n"
proof -
  have "0 \<le> m \<Longrightarrow> m < 65536 \<Longrightarrow> uint (word_of_int m :: u16) = m" for m
    by (simp add: uint_word_of_int_eq take_bit_int_eq_self)
  from this [of "n - 1"] have "uint (word_of_int (n - 1) :: u16) = n - 1"
    using assms by linarith
  then show ?thesis
    by (auto simp: limit_def word_less_def not_less)
qed

lemma sel_offset_bounds:
  assumes "wf_geom v"
  shows "0 \<le> sel_offset v x y" "sel_offset v x y < vc_rows v * vc_size_row v" "even (sel_offset v x y)"
proof -
  note g = wf_geomD [OF assms]
  have x: "0 \<le> sel_col v x" "sel_col v x < vc_cols v" and y: "0 \<le> sel_row v y" "sel_row v y < vc_rows v"
    using g limit_bound by (simp_all add: sel_col_def sel_row_def)
  show "0 \<le> sel_offset v x y" using x y g by (simp add: sel_offset_def)
  show "sel_offset v x y < vc_rows v * vc_size_row v"
    using cell_in_buffer(2) [OF assms x y] g by (simp add: sel_offset_def)
  show "even (sel_offset v x y)" using g by (simp add: sel_offset_def)
qed

lemma pointer_kept:
  assumes K: "K = vga_contract ty b e bufs" and own: "own_sel K c"
    and r: "0 \<le> p" "p + 2 \<le> vc_screenbuf_size (vc c)"
  shows "\<exists>c'. highlight_pointer vga_con p c = Inr c' \<and> keeps K c c'"
proof -
  define c1 where "c1 = uncomplement vga_con c"
  have k1: "keeps K c c1"
    unfolding c1_def K using own by (intro vga.uncomplement_ok) (simp add: own_sel_def K)
  have own1: "own_sel K c1" "vc c1 = vc c"
    using sel_keeps_own [OF own, of c1] k1 vga_uncomplement [of c] by (simp_all add: sel_keeps_def c1_def)
  note wf1 = own1(1) [unfolded own_sel_def, THEN conjunct1]
  define q where "q = screenpos vga_con (vc c1) p True"
  have q: "q \<in> scr_region K"
  proof -
    have "{q ..< q + 2 * 1} \<subseteq> scr_region K"
      unfolding q_def K using r own1(2) by (intro vga.screenpos_region wf_con_vc [OF wf1 [unfolded K]]) auto
    then show ?thesis by auto
  qed
  define c2 where "c2 = upd_mem (scr_writew (mem c1 q XOR vc_complement_mask (vc c1)) q) (c1\<lparr>cp_p := Some q, cp_old := mem c1 q\<rparr>)"
  have g: "get_console c2 = get_console c1"
    by (simp add: c2_def upd_mem_def get_console_def fun_eq_iff)
  have wf2: "wf_con K c2"
  proof (rule wf_conI)
    show "wf_sel c2" "wf_displayed K c2" "wf_switch c2" "wf_drv K c2" "wf_maps c2"
      using wf_conD(6-10) [OF wf1]
      by (simp_all add: wf_sel_def wf_displayed_def wf_switch_def wf_drv_def wf_maps_def g) (simp_all add: c2_def upd_mem_def)
  qed (use wf_conD(1-3) [OF wf1] q own1(1) g in \<open>simp_all add: c2_def upd_mem_def own_sel_def\<close>)
  have "keeps K c1 c2"
    using wf2 same_off_writew [OF q same_off_refl] by (simp add: keeps_def g) (simp add: c2_def upd_mem_def)
  then have k2: "keeps K c c2" using keeps_trans [OF k1] by blast
  have cols: "vc_cols (vc c2) \<noteq> 0"
    using wf_geomD(1) [OF wf_con_geom [OF wf2]] by simp
  have vis: "is_visible (c1\<lparr>cp_p := Some q, cp_old := mem c1 q\<rparr>) = is_visible c2"
    by (simp add: c2_def is_visible_def vt_def upd_mem_def)
  have "p \<noteq> -1" using r by simp
  moreover have "sel_cons c = Some (vc_num (vc c))" using own by (simp add: own_sel_def)
  ultimately have "highlight_pointer vga_con p c = (if \<not> is_visible c2 then Inr c2
      else Inr (c2\<lparr>cp_oldx := (p div 2) mod vc_cols (vc c2), cp_oldy := (p div 2) div vc_cols (vc c2)\<rparr>))"
    using cols by (simp add: highlight_pointer_def in_console_def complement_pos_def Let_def c1_def [symmetric]
        q_def [symmetric] c2_def [symmetric]) (simp add: vga_con_def vis)
  moreover have "keeps K c (c2\<lparr>cp_oldx := i, cp_oldy := j\<rparr>)" for i j
    using keeps_trans [OF k2] keeps_trans [OF keeps_fields(2) [OF wf2] keeps_fields(3) [OF keeps_wf [OF keeps_fields(2) [OF wf2]]]]
    by blast
  ultimately show ?thesis
    using k2 by simp
qed


section \<open>The selection\<close>

lemma sel_lines_length: "length (sel_lines w k bs) \<le> length bs"
proof (induction w k bs rule: sel_lines.induct)
  case (1 w k bs)
  show ?case
  proof (cases "k = 0 \<or> length bs < k")
    case False
    have "length (end_line (take k bs)) \<le> k"
      using length_end_line [of "take k bs"] by simp
    moreover have "length (sel_lines w w (drop k bs)) \<le> length bs - k"
      using 1 [OF False] by simp
    ultimately show ?thesis using False by (subst sel_lines.simps) (simp, linarith)
  qed (subst sel_lines.simps, simp)
qed

definition sel_text :: "vc_data \<Rightarrow> (int \<Rightarrow> u8) \<Rightarrow> int \<Rightarrow> int \<Rightarrow> u8 list" where
  "sel_text v g i j =
     (let row = vc_size_row v in
      sel_lines (nat (row div 2)) (nat ((row - i mod row) div 2))
        (map (\<lambda>k. g (i + 2 * int k)) [0 ..< nat ((j - i) div 2 + 1)]))"

lemma store_selection_ok:
  assumes own: "own_sel K c" and r: "0 \<le> sel_start c" "even (sel_start c)" "sel_start c \<le> sel_end c"
  shows "\<exists>g. (\<forall>i. sel_pos sw i c = Inr (g i)) \<and>
    store_selection sw False (vc_size_row (vc c)) s c
      = Inr (None, s\<lparr>sel_buffer := Some (sel_text (vc c) g (sel_start c) (sel_end c))\<rparr>, c)"
proof -
  obtain g where g: "(\<lambda>i. sel_pos sw i c) = (\<lambda>i. Inr (g i))"
    using sel_pos_total [OF own] by blast
  have "wf_con K c" using own by (simp add: own_sel_def)
  note geom = wf_geomD [OF wf_con_geom [OF this]]
  have row: "even (vc_size_row (vc c))" "0 < vc_size_row (vc c)" using geom by simp_all
  have "store_selection sw False (vc_size_row (vc c)) s c
      = Inr (None, s\<lparr>sel_buffer := Some (sel_text (vc c) g (sel_start c) (sel_end c))\<rparr>, c)"
    using fill_buffer_lines [OF row, of "sel_start c" "[]" "[]" _ _ g] r
    by (simp add: store_selection_def g Let_def sel_text_def)
  moreover have "sel_pos sw i c = Inr (g i)" for i
    using fun_cong [OF g, of i] by simp
  ultimately show ?thesis by blast
qed

lemma select_range_ok:
  assumes K: "K = vga_contract ty b e bufs" and own: "own_sel K c" and mode: "mode \<in> {0, 1, 2}"
    and r: "even ps" "even pe" "0 \<le> ps" "ps \<le> pe" "pe < vc_rows (vc c) * vc_size_row (vc c)"
  shows "\<exists>r s' c'. select_range vga_con af mode ps pe s c = Inr (r, s', c') \<and> keeps K c c' \<and>
    (r = None \<and> sel_cons c' = Some (vc_num (vc c')) \<and> vc c' = vc c \<and> 0 \<le> sel_start c' \<and> sel_start c' \<le> ps \<and> pe \<le> sel_end c' \<or>
     r = Some ENOMEM \<and> af)"
proof -
  have "wf_con K c" using own by (simp add: own_sel_def)
  note geom = wf_geomD [OF wf_con_geom [OF this]]
  let ?row = "vc_size_row (vc c)"
  have row: "even ?row" "0 < ?row" using geom by simp_all
  obtain g where g: "(\<lambda>i. sel_pos vga_con i c) = (\<lambda>i. Inr (g i))"
    using sel_pos_total [OF own] by blast
  obtain ns z where nz: "sel_range (\<lambda>i. sel_pos vga_con i c) s ?row mode ps pe = Inr (ns, z)"
    "0 \<le> ns" "ns \<le> ps" "pe \<le> z" "z + 2 \<le> vc_rows (vc c) * ?row" "even ns" "even z"
    using sel_range_ok [OF row r, of g s mode] unfolding g by blast
  obtain c1 where c1: "hide_pointer vga_con c = Inr c1" "sel_keeps K c c1"
    using hide_pointer_kept [OF K own] by blast
  note own1 = sel_keeps_own [OF own c1(2)]
  obtain g1 where g1: "(\<lambda>i. sel_pos vga_con i c1) = (\<lambda>i. Inr (g1 i))"
    using sel_pos_total [OF own1] by blast
  have "0 \<le> z" using nz r by linarith
  then obtain ne where ne: "sel_trailing (\<lambda>i. sel_pos vga_con i c1) ?row ns z = Inr ne" "z \<le> ne"
    "ne + 2 \<le> vc_rows (vc c) * ?row" "even ne"
    using sel_trailing_ok [OF row nz(7) _ nz(5)] unfolding g1 by blast
  have fits: "ne + 2 \<le> vc_screenbuf_size (vc c1)"
    using ne(3) geom(6) c1(2) by (simp add: sel_keeps_def)
  have "ns \<le> ne" using nz ne r by linarith
  from move_highlight_kept [OF K own1 nz(2) this fits] obtain m where
    m: "move_highlight vga_con ns ne c1 = Inr m"
    "case m of None \<Rightarrow> ns = sel_start c1 \<and> ne = sel_end c1 | Some c' \<Rightarrow> sel_keeps K c1 c'" by blast
  have sr: "select_range vga_con af mode ps pe s c = (case m of
      None \<Rightarrow> Inr (None, s, c1)
    | Some c' \<Rightarrow> store_selection vga_con af ?row s (c'\<lparr>sel_start := ns, sel_end := ne\<rparr>))"
    using nz(1) c1(1) ne(1) m(1) by (simp add: select_range_def Let_def)
  show ?thesis
  proof (cases m)
    case None
    then show ?thesis
      using sr m(2) own1 c1(2) nz ne by (auto simp: own_sel_def sel_keeps_def)
  next
    case (Some c2)
    define c3 where "c3 = c2\<lparr>sel_start := ns, sel_end := ne\<rparr>"
    have k2: "sel_keeps K c1 c2" using m(2) Some by simp
    have own2: "own_sel K c2" using sel_keeps_own [OF own1 k2] .
    have k3: "sel_keeps K c2 c3"
      unfolding c3_def using keeps_sel_range [OF own2 nz(2) \<open>ns \<le> ne\<close>] fits k2 by (simp add: sel_keeps_def)
    have own3: "own_sel K c3" using sel_keeps_own [OF own2 k3] .
    have k: "keeps K c c3" using sel_keeps_trans [OF c1(2) sel_keeps_trans [OF k2 k3]] by (simp add: sel_keeps_def)
    have v3: "vc c3 = vc c" using c1(2) k2 k3 by (simp add: sel_keeps_def)
    show ?thesis
    proof (cases af)
      case True
      obtain c4 where "clear_selection vga_con c3 = Inr c4" "sel_keeps K c3 c4"
        using clear_selection_kept [OF K own3] by blast
      then show ?thesis
        using True Some sr keeps_trans [OF k] by (auto simp: store_selection_def c3_def [symmetric] sel_keeps_def)
    next
      case False
      obtain s' where "store_selection vga_con False (vc_size_row (vc c3)) s c3 = Inr (None, s', c3)"
        using store_selection_ok [OF own3, of vga_con s] nz ne \<open>ns \<le> ne\<close> by (auto simp: c3_def)
      then show ?thesis
        using False Some sr own3 v3 nz ne k by (auto simp: c3_def own_sel_def)
    qed
  qed
qed


text \<open>Clearing a selection on another console leaves the current one alone too.\<close>

lemma in_console_vc:
  assumes "in_console p f c = Inr c'" "\<And>c c'. f c = Inr c' \<Longrightarrow> vc c' = vc c \<and> pool c' = pool c"
  shows "vc c' = vc c"
proof (cases "p = Some (vc_num (vc c))")
  case True
  then show ?thesis using assms by (simp add: in_console_def)
next
  case False
  then obtain n v d where "f (c\<lparr>vc := v, pool := (pool c)(vc_num (vc c) \<mapsto> vc c)\<rparr>) = Inr d"
    and d: "(case pool d (vc_num (vc c)) of None \<Rightarrow> Inl Dangling
      | Some v0 \<Rightarrow> Inr (d\<lparr>vc := v0, pool := (pool d)(n \<mapsto> vc d)\<rparr>)) = Inr c'"
    using assms(1) by (auto simp: in_console_def Let_def res_bind_Inr split: option.splits if_splits)
  from assms(2) [OF this(1)] have "pool d (vc_num (vc c)) = Some (vc c)" by simp
  then show ?thesis using d by auto
qed

lemma vga_clear_vc: "clear_selection vga_con c = Inr c' \<Longrightarrow> vc c' = vc c"
proof -
  have "complement_pos vga_con (-1) d = Inr d' \<Longrightarrow> vc d' = vc d \<and> pool d' = pool d" for d d'
    by (auto simp: complement_pos_def uncomplement_def Let_def vga_con_def upd_mem_def split: option.splits if_splits)
  then have h: "hide_pointer vga_con d = Inr d' \<Longrightarrow> vc d' = vc d" for d d'
    using in_console_vc [of "sel_cons d" "complement_pos vga_con (-1)" d d'] by (auto simp: hide_pointer_def split: if_splits)
  have inv: "con_invert_region vga_con = Some vgacon_invert_region" by (simp add: vga_con_def)
  have i: "vc d' = vc d \<and> pool d' = pool d" if "invert_screen vga_con i j True d = Inr d'" for i j d d'
  proof -
    let ?d = "vgacon_invert_region (screenpos vga_con (vc d) i True) (j div 2) d"
    have "d' = ?d"
      using that vga_update_region [of _ _ ?d d'] by (auto simp: invert_screen_def Let_def inv split: if_splits)
    then show ?thesis by (simp add: vgacon_invert_region_def upd_mem_def)
  qed
  have hl: "vc d' = vc d" if "highlight vga_con i j d = Inr d'" for i j d d'
    using in_console_vc [OF that [unfolded highlight_def]] i by blast
  assume "clear_selection vga_con c = Inr c'"
  then obtain c1 where "hide_pointer vga_con c = Inr c1" and
    r: "(if sel_start c1 \<noteq> -1 then res_bind (highlight vga_con (sel_start c1) (sel_end c1) c1) (\<lambda>c2. Inr (c2\<lparr>sel_start := -1\<rparr>))
      else Inr c1) = Inr c'"
    unfolding clear_selection_def res_bind_Inr by blast
  from h [OF this(1)] have "vc c1 = vc c" .
  then show "vc c' = vc c"
    using r hl by (auto simp: res_bind_Inr split: if_splits)
qed

lemma set_selection_keeps:
  assumes "wf_con (vga_contract ty b e bufs) c" "is_visible c"
  shows "\<exists>r s' c'. set_selection vga_con bad af xs ys xe ye mode (s, c) = Inr (r, s', c') \<and>
    keeps (vga_contract ty b e bufs) c c' \<and>
    (mode \<in> {0, 1, 2} \<and> r = None \<longrightarrow> sel_cons c' = Some (vc_num (vc c')) \<and>
       0 \<le> sel_start c' \<and> sel_end c' + 2 \<le> vc_screenbuf_size (vc c') \<and>
       (\<forall>p \<in> {sel_offset (vc c') xs ys, sel_offset (vc c') xe ye}. sel_start c' \<le> p \<and> p \<le> sel_end c'))"
proof -
  define K where "K = vga_contract ty b e bufs"
  have "res_ok (keeps K c) (poke_blanked_console vga_con (display_fg (vc c)) c)"
    unfolding K_def by (rule vga.poke_blanked_console_ok [OF assms(1)])
  then obtain c1 where c1: "poke_blanked_console vga_con (display_fg (vc c)) c = Inr c1" "keeps K c c1"
    by (auto simp: res_ok_ex)
  have wf1: "wf_con K c1" and vis: "is_visible c1"
    using c1(2) assms(2) keeps_wf keeps_visible [OF c1(2)] by auto
  have fg: "fg_console (vt c1) = Some (vc_num (vc c1))" using vis by (simp add: is_visible_def)
  obtain c0 where c0: "clear_selection vga_con c1 = Inr c0" "keeps K c1 c0"
    using vga.clear_selection_ok [OF wf1 [unfolded K_def]] by (auto simp: res_ok_ex K_def)
  have front: "\<exists>c2. (if sel_cons c1 \<noteq> fg_console (vt c1)
        then res_bind (clear_selection vga_con c1) (\<lambda>c. Inr (c\<lparr>sel_cons := fg_console (vt c)\<rparr>)) else Inr c1) = Inr c2 \<and>
      own_sel K c2 \<and> keeps K c1 c2"
  proof (cases "sel_cons c1 = fg_console (vt c1)")
    case True
    then show ?thesis using wf1 fg by (simp add: own_sel_def)
  next
    case False
    have "fg_console (vt c0) = Some (vc_num (vc c0))"
      using keeps_visible [OF c0(2)] vis by (simp add: is_visible_def)
    then have "keeps K c0 (c0\<lparr>sel_cons := fg_console (vt c0)\<rparr>)"
      using keeps_sel_cons [OF keeps_wf [OF c0(2)] clear_selection_start [OF c0(1)], of "vc_num (vc c0)"] by simp
    then show ?thesis
      using False c0 keeps_trans [OF c0(2)] keeps_wf \<open>fg_console (vt c0) = Some (vc_num (vc c0))\<close>
      by (auto simp: own_sel_def)
  qed
  have v0: "vc c0 = vc c1" by (rule vga_clear_vc [OF c0(1)])
  from front obtain c2 where c2: "(if sel_cons c1 \<noteq> fg_console (vt c1)
        then res_bind (clear_selection vga_con c1) (\<lambda>c. Inr (c\<lparr>sel_cons := fg_console (vt c)\<rparr>)) else Inr c1) = Inr c2"
      "own_sel K c2" "keeps K c c2" using keeps_trans [OF c1(2)] by blast
  have v2: "vc c2 = vc c1" using c2(1) c0(1) v0 by (auto split: if_splits)
  define p1 p2 where "p1 = sel_offset (vc c1) xs ys" and "p2 = sel_offset (vc c1) xe ye"
  have wf2: "wf_con K c2" using c2(2) by (simp add: own_sel_def)
  note geom = wf_geomD [OF wf_con_geom [OF wf2]]
  have p: "even (min p1 p2)" "even (max p1 p2)" "0 \<le> min p1 p2" "min p1 p2 \<le> max p1 p2"
    "max p1 p2 < vc_rows (vc c2) * vc_size_row (vc c2)"
    using sel_offset_bounds [OF wf_con_geom [OF wf1]] v2 by (auto simp: p1_def p2_def min_def max_def)
  have "even (vc_screenbuf_size (vc c2))" using geom by simp
  then have "max p1 p2 + 2 \<le> vc_screenbuf_size (vc c2)" "0 \<le> max p1 p2"
    using p geom(6) even_gap [of "max p1 p2" "vc_screenbuf_size (vc c2)"] by linarith+
  then obtain c3 where c3: "highlight_pointer vga_con (max p1 p2) c2 = Inr c3" "keeps K c c3"
    using pointer_kept [OF K_def c2(2)] keeps_trans [OF c2(3)] by blast
  have report: "keeps K c (mouse_report m x y c1)" for m x y
    using keeps_trans [OF c1(2)] vga.mouse_report_ok [OF wf1 [unfolded K_def]] unfolding K_def by blast
  have start: "set_selection vga_con bad af xs ys xe ye mode (s, c) =
    (if bad then Inr (Some EFAULT, s, c1)
     else if mode = 4 then Inr (None, s, c0)
     else if vc_report_mouse (vc c1) \<noteq> 0 \<and> mode AND 16 \<noteq> 0
     then Inr (None, s, mouse_report (mode AND 15) (sel_col (vc c1) xs) (sel_row (vc c1) ys) c1)
     else if mode = 3 then Inr (None, s, c3)
     else if mode \<notin> {0, 1, 2} then Inr (Some EINVAL, s, c2)
     else select_range vga_con af mode (min p1 p2) (max p1 p2) s c2)"
    by (simp only: set_selection_def prod.case c1(1) res_bind_simps Let_def c2(1)) (simp only: c0(1) c3(1) [unfolded p1_def p2_def] p1_def p2_def res_bind_simps)
  show ?thesis
  proof (cases "mode \<in> {0, 1, 2} \<and> \<not> bad")
    case True
    then obtain r s' c4 where r: "select_range vga_con af mode (min p1 p2) (max p1 p2) s c2 = Inr (r, s', c4)"
      "keeps K c c4" "r = None \<and> sel_cons c4 = Some (vc_num (vc c4)) \<and> vc c4 = vc c2 \<and> 0 \<le> sel_start c4 \<and> sel_start c4 \<le> min p1 p2 \<and>
        max p1 p2 \<le> sel_end c4 \<or> r = Some ENOMEM \<and> af"
      using select_range_ok [OF K_def c2(2) _ p, of mode af s] keeps_trans [OF c2(3)] by blast
    have "set_selection vga_con bad af xs ys xe ye mode (s, c) = Inr (r, s', c4)"
      using start True r(1) by auto
    moreover have "sel_end c4 + 2 \<le> vc_screenbuf_size (vc c4)" if "r = None"
      using wf_own_sel(3) [of K c4] keeps_wf [OF r(2)] r(3) that by (simp add: own_sel_def)
    ultimately show ?thesis
      using r(2,3) v2 unfolding K_def p1_def p2_def by force
  next
    case other: False
    have "\<exists>r c'. set_selection vga_con bad af xs ys xe ye mode (s, c) = Inr (r, s, c') \<and> keeps K c c' \<and>
      (mode \<in> {0, 1, 2} \<longrightarrow> r \<noteq> None)"
    proof (cases "bad \<or> mode = 4 \<or> vc_report_mouse (vc c1) \<noteq> 0 \<and> mode AND 16 \<noteq> 0 \<or> mode = 3")
      case True
      then show ?thesis
        using start c1(2) report keeps_trans [OF c1(2) c0(2)] c3(2) other by auto
    next
      case False
      then have "set_selection vga_con bad af xs ys xe ye mode (s, c) = Inr (Some EINVAL, s, c2)"
        using start other by auto
      then show ?thesis using c2(3) by blast
    qed
    then show ?thesis unfolding K_def by blast
  qed
qed

text \<open>
  C39. Selecting with the mouse is safe. On the console in front of a VGA, from a state that satisfies the invariant, any
  request with any coordinates returns with the invariant kept: no loop over cells runs away, the screen
  is only highlighted within its bounds and nothing is stored outside the buffer. A request to select
  that succeeds leaves a selection of this console that contains both positions, limited to the screen.
\<close>

theorem selection_safe:
  assumes "wf_con (vga_contract ty b e bufs) c" "is_visible c"
  shows "\<exists>r s' c'. set_selection vga_con bad af xs ys xe ye mode (s, c) = Inr (r, s', c') \<and>
    wf_con (vga_contract ty b e bufs) c' \<and>
    (mode \<in> {0, 1, 2} \<and> r = None \<longrightarrow> sel_cons c' = Some (vc_num (vc c')) \<and>
       0 \<le> sel_start c' \<and> sel_end c' + 2 \<le> vc_screenbuf_size (vc c') \<and>
       (\<forall>p \<in> {sel_offset (vc c') xs ys, sel_offset (vc c') xe ye}. sel_start c' \<le> p \<and> p \<le> sel_end c'))"
  using set_selection_keeps [OF assms, of bad af xs ys xe ye mode s] keeps_wf by blast

definition sel0 :: selection where
  "sel0 = \<lparr>sel_buffer = None, inwordLut = [0, 0x03FF0000, 0x87FFFFFE, 0x07FFFFFE, 0, 0, 0xFF7FFFFF, 0xFF7FFFFF], kmsg_redirect = 0\<rparr>"

theorem selection_safe_witness:
  "\<exists>r s' c'. set_selection vga_con False False 3 1 7 2 1 (sel0, con0) = Inr (r, s', c') \<and> wf_con vga0_contract c'"
proof -
  have "is_visible con0" by (simp add: is_visible_def vt_def con0_def vc0_def vt0_def)
  then show ?thesis
    using selection_safe [OF wf_con0, of False False 3 1 7 2 1 sel0] by blast
qed

text \<open>
  C40. The buffer of the selection holds the selected text. When the selection belongs to the current console and a buffer can be
  allocated, storing it never writes past the buffer and gives the selected cells, translated back to
  characters, line by line: a line that is selected to its end is stored without its trailing blanks and, if it
  had some, ended by a carriage return.
\<close>

theorem selection_text:
  assumes "wf_con (vga_contract ty b e bufs) c" "sel_cons c = Some (vc_num (vc c))"
    and "0 \<le> sel_start c" "even (sel_start c)" "sel_start c \<le> sel_end c"
  shows "\<exists>g. (\<forall>i. sel_pos vga_con i c = Inr (g i)) \<and>
    store_selection vga_con False (vc_size_row (vc c)) s c
      = Inr (None, s\<lparr>sel_buffer := Some (sel_text (vc c) g (sel_start c) (sel_end c))\<rparr>, c) \<and>
    length (sel_text (vc c) g (sel_start c) (sel_end c)) \<le> nat ((sel_end c - sel_start c) div 2 + 1)"
proof -
  have "own_sel (vga_contract ty b e bufs) c"
    using assms(1,2) by (simp add: own_sel_def)
  moreover have "length (sel_text v g i j) \<le> nat ((j - i) div 2 + 1)" for v g i j
    using sel_lines_length [of "nat (vc_size_row v div 2)"] by (simp add: sel_text_def Let_def order.trans [OF sel_lines_length])
  ultimately show ?thesis
    using store_selection_ok assms(3-5) by blast
qed


theorem selection_text_witness:
  "\<exists>g. store_selection vga_con False 160 sel0 (con0\<lparr>sel_cons := Some 0, sel_start := 2, sel_end := 162\<rparr>)
    = Inr (None, sel0\<lparr>sel_buffer := Some (sel_text vc0 g 2 162)\<rparr>, con0\<lparr>sel_cons := Some 0, sel_start := 2, sel_end := 162\<rparr>) \<and>
    length (sel_text vc0 g 2 162) \<le> 81"
proof -
  let ?c = "con0\<lparr>sel_cons := Some 0\<rparr>"
  have f: "sel_start con0 = -1" "get_console con0 0 \<noteq> None" "vc con0 = vc0" "vc_num vc0 = 0" "vc_screenbuf_size vc0 = 4000"
    "vc_size_row vc0 = 160"
    by (simp_all add: con0_def get_console_def vc0_def)
  have "own_sel vga0_contract ?c"
    using keeps_wf [OF keeps_sel_cons [OF wf_con0 f(1,2)]] f by (simp add: own_sel_def)
  from sel_keeps_own [OF this keeps_sel_range [OF this, of 2 162]]
  have "wf_con vga0_contract (?c\<lparr>sel_start := 2, sel_end := 162\<rparr>)"
    using f by (simp add: own_sel_def)
  from selection_text [OF this, of sel0] show ?thesis
    using f by auto
qed

end
