(* ===== verification/Vt_Requests.thy ===== *)
theory Vt_Requests
  imports System_Inv Vt_Ioctl Kbd_Tables Selection_Props
begin

text \<open>
  The requests of processes on a console, as steps: the ioctls of \<open>Vt_Ioctl\<close>, \<open>Vt_Switch\<close> and
  \<open>Kbd_Ioctl\<close> that change the state. The proof is that every one returns and keeps the invariant of the driver.
  There is no memory for new consoles: a request that would allocate one fails.
\<close>

datatype request =
    Sound int bool int
  | Tone int bool int
  | Set_mode bool int
  | Set_kbd_mode int bool int
  | Set_meta int
  | Set_leds_flags bool "32 word"
  | Set_lights bool "32 word"
  | Accept_signal bool bool int int
  | Set_vt_mode bool int "(bool \<times> vt_mode) option"
  | Lock_switch bool bool
  | Release_display kenv bool int
  | Activate bool int
  | Set_cmap "u8 list"
  | Set_entry ioctl_env nat u8 u8 u16

definition no_memory :: vc_kmem where
  "no_memory = \<lparr>struct_ok = False, buffer_at = (\<lambda>_. None)\<rparr>"

text \<open>The state after a request on the console at hand.\<close>

definition request_step :: "'d consw \<Rightarrow> request \<Rightarrow> 'd kcon \<Rightarrow> 'd kcon res" where
  "request_step sw r s =
     (case r of
        Sound rate perm arg \<Rightarrow> Inr (on_con (\<lambda>c. snd (kiocsound rate perm arg c)) s)
      | Tone rate perm arg \<Rightarrow> Inr (on_con (\<lambda>c. snd (kdmktone rate perm arg c)) s)
      | Set_mode perm arg \<Rightarrow> on_con_res (\<lambda>c. res_bind (kdsetmode sw perm arg c) (\<lambda>(_, c'). Inr c')) s
      | Set_kbd_mode tty perm arg \<Rightarrow> res_bind (kdskbmode tty perm arg s) (\<lambda>(_, s'). Inr s')
      | Set_meta arg \<Rightarrow> Inr (upd_table (\<lambda>k. snd (kdskbmeta arg k)) s)
      | Set_leds_flags perm arg \<Rightarrow> Inr (snd (kdskbled perm arg s))
      | Set_lights perm arg \<Rightarrow> Inr (snd (kdsetled perm arg s))
      | Accept_signal perm cap pid arg \<Rightarrow> Inr (snd (kdsigaccept perm cap pid arg s))
      | Set_vt_mode perm pid arg \<Rightarrow>
          Inr (on_con (\<lambda>c. case vt_setmode perm pid arg c of Inl _ \<Rightarrow> c | Inr c' \<Rightarrow> c') s)
      | Lock_switch admin locked \<Rightarrow>
          Inr (on_con (\<lambda>c. case vt_lockswitch admin locked c of Inl _ \<Rightarrow> c | Inr c' \<Rightarrow> c') s)
      | Release_display e perm arg \<Rightarrow>
          res_bind (vt_reldisp sw e (\<lambda>_ c. c) ([], []) no_memory perm arg s) (\<lambda>r.
            Inr (case r of Inl _ \<Rightarrow> s | Inr (_, s') \<Rightarrow> s'))
      | Activate perm arg \<Rightarrow>
          on_con_res (\<lambda>c. res_bind (vt_activate sw (\<lambda>_ c. c) ([], []) no_memory perm arg c) (\<lambda>(_, c'). Inr c')) s
      | Set_cmap cmap \<Rightarrow> on_con_res (con_set_cmap sw cmap) s
      | Set_entry e nr i t v \<Rightarrow>
          res_bind (kdskbent e nr (vc (kc s)) i t v (kb s)) (\<lambda>(_, b). Inr (s\<lparr>kb := b\<rparr>)))"

text \<open>
  When a request can be made: a palette is 48 bytes and the display is in use, a key index is below the length of the maps, and a console
  whose process releases the display waits for a console of the same display, which is not blanked by other means than its palette or graphics mode.
\<close>

definition request_enabled :: "nat \<Rightarrow> vga con \<Rightarrow> int \<Rightarrow> request \<Rightarrow> bool" where
  "request_enabled N c n r \<longleftrightarrow>
     (case get_console c n of
        None \<Rightarrow> False
      | Some v \<Rightarrow>
          let t = vts c (display_fg v) in
          (case r of
             Release_display e perm arg \<Rightarrow>
               fg_console t = Some n \<and> (vt_blanked t \<longrightarrow> vga_is_gfx (drv c) \<or> vga_palette_blanked (drv c)) \<and>
               (case find_vc (vt_newvt v) c of
                  Inr (Some m) \<Rightarrow> map_option display_fg (get_console c m) = Some (display_fg v)
                | _ \<Rightarrow> True)
           | Set_cmap cmap \<Rightarrow> length cmap = 48 \<and> fg_console t \<noteq> None
           | Set_entry e nr i m w \<Rightarrow> nr = N \<and> unat i < N
           | _ \<Rightarrow> True))"

lemma request_enabled_refocus: "refocus c c' \<Longrightarrow> request_enabled N c' n r = request_enabled N c n r"
proof -
  assume r: "refocus c c'"
  have f: "find_vc m c' = find_vc m c" for m
    by (simp add: find_vc_def refocus_sel [OF r])
  show ?thesis
    unfolding request_enabled_def f refocus_sel [OF r] ..
qed

section \<open>Requests on the state of the console\<close>

lemma on_con_sys:
  assumes "keeps K (kc s) (f (kc s))" "wf_kb N (kb s)"
  shows "sys_ok N K s (on_con f s)"
  using assms by (intro keeps_sys_ok) (simp_all add: on_con_def)

lemma on_con_res_keeps:
  assumes "res_ok (keeps K (kc s)) (f (kc s))" "wf_kb N (kb s)"
  shows "res_ok (sys_ok N K s) (on_con_res f s)"
  using assms by (auto simp: on_con_res_def res_ok_ex intro!: keeps_sys_ok)

lemma upd_table_sys:
  assumes "wf_con K (kc s)" "wf_kb N (kb s)"
  shows "sys_ok N K s (upd_table f s)"
  unfolding upd_table_def by (intro on_con_sys kbd_table_ok assms)

lemma log_sys: "wf_con K (kc s) \<Longrightarrow> wf_kb N (kb s) \<Longrightarrow> sys_ok N K s (on_con (log e) s)"
  by (rule on_con_sys) simp_all

lemma sys_ok_step: "sys_ok N K a b \<Longrightarrow> (wf_con K (kc b) \<Longrightarrow> wf_kb N (kb b) \<Longrightarrow> sys_ok N K b c) \<Longrightarrow> sys_ok N K a c"
  using sys_ok_trans unfolding sys_ok_def by (meson stays_trans)

lemma set_kbd_mode_sys:
  assumes "wf_con K (kc s)" "wf_kb N (kb s)"
  shows "res_ok (\<lambda>(_, s'). sys_ok N K s s') (kdskbmode tty perm arg s)"
proof -
  have flush: "sys_ok N K s (on_con (log e) s2)" if "sys_ok N K s s2" for e s2
    using sys_ok_step [OF that log_sys] .
  have "res_ok (\<lambda>(_, s'). sys_ok N K s s') (res_bind (if m = VC_XLATE \<or> m = VC_UNICODE
      then shiftstate_k (upd_table (\<lambda>k. k\<lparr>kbdmode := m\<rparr>) s) else Inr (upd_table (\<lambda>k. k\<lparr>kbdmode := m\<rparr>) s)) (\<lambda>s2.
      Inr (Inr 0, on_con (log (Ldisc_flush tty)) s2)))" for m
  proof -
    let ?s = "upd_table (\<lambda>k. k\<lparr>kbdmode := m\<rparr>) s"
    have t: "sys_ok N K s ?s" by (rule upd_table_sys [OF assms])
    have "kb ?s = kb s" by (simp add: upd_table_def on_con_def)
    then obtain b where "compute_shiftstate (kb ?s) = Inr b" "wf_kb N b"
      using compute_shiftstate_ok [OF assms(2)] by (auto simp: res_ok_ex)
    moreover have "sys_ok N K s (?s\<lparr>kb := b\<rparr>)" if "wf_kb N b" for b
      using t that by (simp add: sys_ok_def)
    ultimately show ?thesis
      using t flush by (auto simp: shiftstate_k_def res_ok_ex)
  qed
  note all = this
  show ?thesis
  proof (cases "perm \<and> kbd_mode_arg arg \<noteq> None")
    case True
    then obtain m where "kbd_mode_arg arg = Some m" by blast
    then show ?thesis using True all [of m] by (simp only: kdskbmode_def Let_def option.case simp_thms if_False)
  qed (use sys_ok_refl [OF assms] in \<open>auto simp: kdskbmode_def split: option.split\<close>)
qed

lemma set_mode_sys:
  assumes wf: "wf_con (vga_contract ty b e bufs) c"
  shows "res_ok (\<lambda>(_, c'). stays ({b ..< e} \<union> bufs) c c' \<and> wf_con (vga_contract ty b e bufs) c') (kdsetmode vga_con perm arg c)"
proof -
  let ?K = "vga_contract ty b e bufs"
  have still: "stays ({b ..< e} \<union> bufs) c c" using keeps_stays [OF keeps_refl [OF wf]] by simp
  have "res_ok (\<lambda>(_, c'). stays ({b ..< e} \<union> bufs) c c' \<and> wf_con ?K c')
      (res_bind (if m = KD_TEXT then unblank_vt vga_con (display_fg (vc (upd_vc (\<lambda>v. v\<lparr>vc_mode := m\<rparr>) c))) (upd_vc (\<lambda>v. v\<lparr>vc_mode := m\<rparr>) c)
         else do_blank_screen vga_con (display_fg (vc (upd_vc (\<lambda>v. v\<lparr>vc_mode := m\<rparr>) c))) True (upd_vc (\<lambda>v. v\<lparr>vc_mode := m\<rparr>) c))
       (\<lambda>c2. Inr (r, c2)))"
    if vis: "is_visible c" for m and r :: ioctl_ret
  proof -
    let ?c = "upd_vc (\<lambda>v. v\<lparr>vc_mode := m\<rparr>) c"
    have k: "keeps ?K c ?c" by (rule keeps_upd_vc [OF wf]) simp_all
    have fg: "fg_console (vts ?c (display_fg (vc ?c))) \<noteq> None"
      using vis by (simp add: is_visible_def vt_def)
    have "res_ok (\<lambda>c'. stays ({b ..< e} \<union> bufs) c c' \<and> wf_con ?K c') (unblank_vt vga_con (display_fg (vc ?c)) ?c)"
      using vga.unblank_vt_ok [OF keeps_wf [OF k]] keeps_stays [OF keeps_trans [OF k]] keeps_wf
      by (fastforce simp: res_ok_ex)
    moreover obtain c2 where "do_blank_screen vga_con (display_fg (vc ?c)) True ?c = Inr c2"
      "framed ({b ..< e} \<union> bufs) (vts ?c) ?c c2" "wf_con ?K c2"
      using do_blank_screen_ok [OF keeps_wf [OF k] fg, of True] by (auto simp: res_ok_ex)
    moreover have "stays ({b ..< e} \<union> bufs) c ?c" using keeps_stays [OF k] by simp
    moreover note stays_trans [OF calculation(5) framed_stays [OF calculation(3)]]
    ultimately show ?thesis by (auto simp: res_ok_ex)
  qed
  moreover have "wf_con ?K (upd_vc (\<lambda>v. v\<lparr>vc_mode := m\<rparr>) c) \<and> stays ({b ..< e} \<union> bufs) c (upd_vc (\<lambda>v. v\<lparr>vc_mode := m\<rparr>) c)" for m
  proof -
    have "keeps ?K c (upd_vc (\<lambda>v. v\<lparr>vc_mode := m\<rparr>) c)" by (rule keeps_upd_vc [OF wf]) simp_all
    then show ?thesis using keeps_stays keeps_wf by fastforce
  qed
  moreover have "is_visible (upd_vc (\<lambda>v. v\<lparr>vc_mode := m\<rparr>) c) = is_visible c" for m
    by (simp add: is_visible_def vt_def)
  ultimately show ?thesis
    using wf still by (simp add: kdsetmode_def Let_def split: option.split)
qed


text \<open>Nothing is allocated without memory.\<close>

lemma vc_allocate_no_memory: "vc_allocate sw ci dfont no_memory n c = Inr (None, c)"
  by (simp add: vc_allocate_def no_memory_def Let_def split: option.split)

lemma newvt_keeps: "wf_con K c \<Longrightarrow> keeps K c (upd_vc (\<lambda>v. v\<lparr>vt_newvt := m\<rparr>) c)"
  by (rule keeps_upd_vc) simp_all

lemma release_sys:
  assumes wf: "wf_con (vga_contract ty b e bufs) (kc s)" "wf_kb N (kb s)"
    and en: "request_enabled N (kc s) (vc_num (vc (kc s))) (Release_display env perm arg)"
  shows "res_ok (sys_ok N (vga_contract ty b e bufs) s) (request_step vga_con (Release_display env perm arg) s)"
proof -
  let ?K = "vga_contract ty b e bufs"
  let ?s1 = "on_con (upd_vc (\<lambda>v. v\<lparr>vt_newvt := -1\<rparr>)) s"
  have k1: "keeps ?K (kc s) (kc ?s1)" "kb ?s1 = kb s"
    using newvt_keeps [OF wf(1)] by (simp_all add: on_con_def)
  have drop: "sys_ok N ?K s ?s1" using keeps_sys_ok [OF k1(1)] wf(2) k1(2) by simp
  have vis: "is_visible (kc s)" "placeable_vga (kc ?s1)"
    using en by (simp_all add: request_enabled_def placeable_vga_def on_con_def vt_def is_visible_def Let_def)
  have still: "sys_ok N ?K s s" using sys_ok_refl [OF wf] .
  show ?thesis
  proof (cases "perm \<and> vtm_mode (vt_mode (vc (kc s))) = VT_PROCESS \<and> vt_newvt (vc (kc s)) \<ge> 0 \<and> arg \<noteq> 0")
    case False
    then show ?thesis
      using still drop by (auto simp: request_step_def vt_reldisp_def Let_def)
  next
    case True
    obtain found where f: "find_vc (vt_newvt (vc (kc s))) (kc s) = Inr found" "\<And>n. found = Some n \<Longrightarrow> get_console (kc s) n \<noteq> None"
      using find_vc_ok [OF wf(1)] by (auto simp: res_ok_ex)
    show ?thesis
    proof (cases found)
      case None
      then show ?thesis
        using True f(1) drop by (auto simp: request_step_def vt_reldisp_def Let_def vc_allocate_no_memory)
    next
      case (Some n)
      then obtain w where w: "get_console (kc s) n = Some w" "display_fg w = display_fg (vc (kc s))"
        using f en by (auto simp: request_enabled_def Let_def)
      have fg: "fg_console (vts (kc ?s1) (display_fg (vc (kc ?s1)))) = Some (vc_num (vc (kc ?s1)))"
        using vis(1) by (simp add: on_con_def is_visible_def vt_def)
      obtain s2 where "complete_change_console vga_con env n ?s1 = Inr s2" "sys_ok N ?K s s2"
        using complete_change_sys [OF wf vis(1) w k1 vis(2), of env] by (auto simp: res_ok_ex)
      then show ?thesis
        using True Some f(1) fg by (simp add: request_step_def vt_reldisp_def Let_def in_kconsole_def)
    qed
  qed
qed

lemma activate_keeps:
  assumes wf: "wf_con (vga_contract ty b e bufs) c"
  shows "res_ok (keeps (vga_contract ty b e bufs) c)
    (res_bind (vt_activate vga_con ci dfont no_memory perm arg c) (\<lambda>(_, c'). Inr c'))"
proof -
  obtain found where f: "find_vc (arg - 1) c = Inr found" "\<And>n. found = Some n \<Longrightarrow> get_console c n \<noteq> None"
    using find_vc_ok [OF wf] by (auto simp: res_ok_ex)
  show ?thesis
  proof (cases found)
    case None
    then show ?thesis
      using wf f(1) by (simp add: vt_activate_def Let_def vc_allocate_no_memory)
  next
    case (Some n)
    then obtain v where v: "get_console c n = Some v" using f(2) by blast
    obtain c' where "set_console (Some n) c = Inr c'" "keeps (vga_contract ty b e bufs) c c'"
      using vga.set_console_ok [OF wf v] by (auto simp: res_ok_ex)
    then show ?thesis
      using wf f(1) Some v by (simp add: vt_activate_def Let_def)
  qed
qed

lemma set_palettes_keeps:
  assumes "wf_con K c" "length cmap = 48" "\<And>n. Some n \<in> set ps \<Longrightarrow> get_console c n \<noteq> None"
  shows "res_ok (keeps K c) (set_palettes cmap ps c)"
  using assms(1,3)
proof (induction ps arbitrary: c)
  case (Cons p ps)
  have one: "res_ok (keeps K c) (case p of None \<Rightarrow> Inr c
      | Some n \<Rightarrow> in_console (Some n) (\<lambda>c. Inr (upd_vc (\<lambda>v. v\<lparr>vc_palette := cmap\<rparr>) c)) c)"
  proof (cases p)
    case (Some n)
    have "res_ok (keeps K c') (Inr (upd_vc (\<lambda>v. v\<lparr>vc_palette := cmap\<rparr>) c'))" if "wf_con K c'" for c'
      using keeps_upd_vc [OF that, of "\<lambda>v. v\<lparr>vc_palette := cmap\<rparr>"] assms(2) by simp
    then show ?thesis
      using Some Cons.prems by (auto intro!: keeps_in_console)
  qed (use Cons.prems in simp)
  then obtain c1 where c1: "(case p of None \<Rightarrow> Inr c
      | Some n \<Rightarrow> in_console (Some n) (\<lambda>c. Inr (upd_vc (\<lambda>v. v\<lparr>vc_palette := cmap\<rparr>) c)) c) = Inr c1" "keeps K c c1"
    by (auto simp: res_ok_ex)
  have "get_console c1 n \<noteq> None" if "Some n \<in> set ps" for n
    using framed_console(2) [OF keeps_framed [OF c1(2)], of n] Cons.prems(2) [of n] that by auto
  then have "res_ok (keeps K c1) (set_palettes cmap ps c1)"
    using Cons.IH keeps_wf [OF c1(2)] by blast
  then show ?case
    using c1 keeps_trans [OF c1(2)] by (auto simp: res_ok_ex)
qed simp

lemma set_cmap_keeps:
  assumes wf: "wf_con (vga_contract ty b e bufs) c" and pl: "wf_pool c" and "length cmap = 48" "fg_console (vt c) \<noteq> None"
  shows "res_ok (keeps (vga_contract ty b e bufs) c) (con_set_cmap vga_con cmap c)"
proof -
  let ?K = "vga_contract ty b e bufs"
  have "display_fg (vc c) \<in> set (vt_list c)"
    using pl get_console_own [of c] unfolding wf_pool_def by fastforce
  then have "\<And>n. Some n \<in> set (vc_cons (vt c)) \<Longrightarrow> get_console c n \<noteq> None"
    using wf_conD(8) [OF wf] by (auto simp: wf_switch_def vt_def)
  then obtain c1 where c1: "set_palettes cmap (vc_cons (vt c)) c = Inr c1" "keeps ?K c c1"
    using set_palettes_keeps [OF wf assms(3)] by (auto simp: res_ok_ex)
  obtain n where n: "fg_console (vt c1) = Some n"
    using keeps_ids [OF c1(2), of "display_fg (vc c)"] keeps_display_fg [OF c1(2)] assms(4) by (auto simp: vt_def vt_ids_def)
  have "get_console c1 n \<noteq> None"
    using wf_conD(3) [OF keeps_wf [OF c1(2)]] n by (fastforce simp: vt_def)
  then have "res_ok (keeps ?K c1) (in_console (Some n) (\<lambda>c. Inr (set_palette vga_con c)) c1)"
    using keeps_wf [OF c1(2)] by (auto intro!: keeps_in_console vga.set_palette_ok)
  then show ?thesis
    using c1 n keeps_trans [OF c1(2)] by (auto simp: con_set_cmap_def res_ok_ex)
qed


section \<open>Every request\<close>

lemma request_ok:
  assumes inv: "sys_inv N (vga_contract ty b e bufs) s" and en: "request_enabled N (kc s) (vc_num (vc (kc s))) r"
  shows "res_ok (sys_ok N (vga_contract ty b e bufs) s) (request_step vga_con r s)"
proof -
  let ?K = "vga_contract ty b e bufs"
  note wf = sys_invD(1,2) [OF inv]
  have still: "sys_ok N ?K s s" using sys_ok_refl [OF wf] .
  have logs: "sys_ok N ?K s (on_con (\<lambda>c. if p then c else log (ev c) c) s)" for p ev
    using wf by (intro on_con_sys) simp_all
  have tables: "sys_ok N ?K s (on_con (log ev) (upd_table f s1))" if "sys_ok N ?K s s1" for ev f s1
    using sys_ok_step [OF sys_ok_step [OF that upd_table_sys] log_sys] .
  show ?thesis
  proof (cases r)
    case (Sound rate perm arg)
    then show ?thesis
      using logs [of "\<not> perm" "\<lambda>c. Mksound (if arg \<noteq> 0 then rate div arg else arg) 0"]
      by (simp add: request_step_def kiocsound_def if_distrib [of snd] cong: if_cong)
  next
    case (Tone rate perm arg)
    let ?ev = "\<lambda>c. let ticks = HZ c * ((arg div 65536) mod 65536) div 1000; count = (if ticks \<noteq> 0 then arg mod 65536 else 0)
      in Mksound (if count \<noteq> 0 then rate div count else count) ticks"
    show ?thesis
      using Tone logs [of "\<not> perm" ?ev] by (simp add: request_step_def kdmktone_def if_distrib [of snd] Let_def cong: if_cong)
  next
    case (Set_mode perm arg)
    obtain x c' where "kdsetmode vga_con perm arg (kc s) = Inr (x, c')" "stays ({b ..< e} \<union> bufs) (kc s) c'" "wf_con ?K c'"
      using set_mode_sys [OF wf(1), of perm arg] by (auto simp: res_ok_ex)
    then show ?thesis
      using Set_mode on_con_res_sys [OF wf(2), of ?K "\<lambda>c. res_bind (kdsetmode vga_con perm arg c) (\<lambda>(_, c'). Inr c')"]
      by (simp add: request_step_def)
  next
    case (Set_kbd_mode tty perm arg)
    then show ?thesis
      using set_kbd_mode_sys [OF wf, of tty perm arg] by (auto simp: request_step_def res_ok_ex)
  next
    case (Set_meta arg)
    then show ?thesis using upd_table_sys [OF wf] by (simp add: request_step_def)
  next
    case (Set_leds_flags perm arg)
    then show ?thesis using still tables [OF still] by (simp add: request_step_def kdskbled_def)
  next
    case (Set_lights perm arg)
    have "sys_ok N ?K s (on_con (\<lambda>c. upd_vt (display_fg (vc c)) (\<lambda>t. t\<lparr>vt_ledioctl := w\<rparr>) c) s)" for w
      using wf by (intro on_con_sys keeps_upd_vt) (simp_all add: vt_ids_def)
    then show ?thesis
      using Set_lights still tables by (simp add: request_step_def kdsetled_def setledstate_def)
  next
    case (Accept_signal perm cap pid arg)
    have "sys_ok N ?K s (upd_kb (\<lambda>b. b\<lparr>spawnpid := pid, spawnsig := arg\<rparr>) s)"
      using still wf(2) by (simp add: sys_ok_def upd_kb_def)
    then show ?thesis using Accept_signal still by (simp add: request_step_def kdsigaccept_def)
  next
    case (Set_vt_mode perm pid arg)
    have "keeps ?K (kc s) (upd_vc (\<lambda>v. v\<lparr>vt_mode := m, vt_pid := pid, vt_newvt := -1\<rparr>) (kc s))" for m
      by (rule keeps_upd_vc [OF wf(1)]) simp_all
    then have "keeps ?K (kc s) (case vt_setmode perm pid arg (kc s) of Inl x \<Rightarrow> kc s | Inr c' \<Rightarrow> c')"
      using wf(1) by (auto simp: vt_setmode_def split: option.split)
    then show ?thesis using Set_vt_mode on_con_sys [OF _ wf(2)] by (simp add: request_step_def)
  next
    case (Lock_switch admin locked)
    have "keeps ?K (kc s) (case vt_lockswitch admin locked (kc s) of Inl x \<Rightarrow> kc s | Inr c' \<Rightarrow> c')"
      using wf(1) by (auto simp: vt_lockswitch_def vt_ids_def intro!: keeps_upd_vt)
    then show ?thesis using Lock_switch on_con_sys [OF _ wf(2)] by (simp add: request_step_def)
  next
    case (Release_display env perm arg)
    then show ?thesis using release_sys [OF wf] en by blast
  next
    case (Activate perm arg)
    then show ?thesis
      using activate_keeps [OF wf(1)] wf(2) by (simp add: request_step_def on_con_res_keeps)
  next
    case (Set_cmap cmap)
    then have "res_ok (keeps ?K (kc s)) (con_set_cmap vga_con cmap (kc s))"
      using en by (intro set_cmap_keeps [OF wf(1) sys_invD(3) [OF inv]]) (simp_all add: request_enabled_def Let_def vt_def)
    then show ?thesis using Set_cmap on_con_res_keeps [OF _ wf(2)] by (simp add: request_step_def)
  next
    case (Set_entry env nr i t w)
    obtain x kb' where "kdskbent env nr (vc (kc s)) i t w (kb s) = Inr (x, kb')" "wf_kb N kb'"
      using kdskbent_cases [OF wf(2), of i env "vc (kc s)" t w] en Set_entry by (fastforce simp: request_enabled_def Let_def)
    then show ?thesis
      using Set_entry still by (simp add: request_step_def sys_ok_def)
  qed
qed

end
