(* ===== verification/Vc_Screen.thy ===== *)
theory Vc_Screen
  imports Vt_Core
begin

text \<open>
  The screen memory devices /dev/vcs and /dev/vcsa, drivers/char/vc_screen.c. A device without attributes
  is the characters of the screen, one with attributes a header of four bytes (rows, columns, cursor) and the cells in little
  endian order.

  Reading and writing go through a buffer of \<open>bsz\<close> bytes in rounds. \<open>uncopied pos n\<close> is how many
  of \<open>n\<close> bytes at \<open>pos\<close> could not be copied from or to the user. A round that would not fit its
  buffer is a fault. The console semaphore, which is dropped while the user's memory is accessed, is not modelled.
\<close>

definition screen_pos :: "'d consw \<Rightarrow> vc_data \<Rightarrow> int \<Rightarrow> bool \<Rightarrow> int" where
  "screen_pos sw v w_offset viewed = screenpos sw v (2 * w_offset) viewed"

definition getconsxy :: "vc_data \<Rightarrow> u8 list" where
  "getconsxy v = [word_of_int (vc_x v), word_of_int (vc_y v)]"

definition putconsxy :: "'d consw \<Rightarrow> u8 \<Rightarrow> u8 \<Rightarrow> 'd con \<Rightarrow> 'd con res" where
  "putconsxy sw x y c = set_cursor sw (upd_vc (gotoxy (uint x) (uint y)) c)"

definition vcs_scr_readw :: "'d con \<Rightarrow> int \<Rightarrow> u16" where
  "vcs_scr_readw c org =
     (case cursor_original (vt c) of
        Some i \<Rightarrow> if org = vc_pos (vc c) then i else mem c org
      | None \<Rightarrow> mem c org)"

definition vcs_scr_writew :: "'d consw \<Rightarrow> u16 \<Rightarrow> int \<Rightarrow> 'd con \<Rightarrow> 'd con" where
  "vcs_scr_writew sw val org c =
     (let c1 = upd_mem (scr_writew val org) c in
      if org = vc_pos (vc c)
      then add_softcursor sw (upd_vt (display_fg (vc c)) (\<lambda>t. t\<lparr>cursor_original := None\<rparr>) c1)
      else c1)"

abbreviation (input) "HEADER_SIZE \<equiv> (4::int)"

definition vcs_size :: "bool \<Rightarrow> vc_data \<Rightarrow> int" where
  "vcs_size attr v = (if attr then 2 * (vc_rows v * vc_cols v) + HEADER_SIZE else vc_rows v * vc_cols v)"

text \<open>\<open>orig\<close> is 0 for an offset from the start, 1 from the position, 2 from the end.\<close>

definition vcs_lseek :: "bool \<Rightarrow> int \<Rightarrow> int \<Rightarrow> int \<Rightarrow> vc_data \<Rightarrow> errno + int" where
  "vcs_lseek attr f_pos offset orig v =
     (let size = vcs_size attr v;
          at = (if orig = 2 then offset + size else if orig = 1 then offset + f_pos else offset)
      in if orig \<notin> {0, 1, 2} \<or> at < 0 \<or> at > size then Inl EINVAL else Inr at)"

section \<open>Reading\<close>

text \<open>\<open>n\<close> cells from \<open>org\<close> on; at the end of a row the position is computed anew.\<close>

fun read_cells :: "'d consw \<Rightarrow> 'd con \<Rightarrow> bool \<Rightarrow> nat \<Rightarrow> int \<Rightarrow> int \<Rightarrow> int \<Rightarrow> u16 list" where
  "read_cells sw c viewed 0 org col p = []"
| "read_cells sw c viewed (Suc n) org col p =
     vcs_scr_readw c org #
       (if col + 1 = vc_cols (vc c)
        then read_cells sw c viewed n (screen_pos sw (vc c) p viewed) 0 (p + vc_cols (vc c))
        else read_cells sw c viewed n (org + 2) (col + 1) p)"

definition cells_at :: "'d consw \<Rightarrow> 'd con \<Rightarrow> bool \<Rightarrow> nat \<Rightarrow> int \<Rightarrow> u16 list res" where
  "cells_at sw c viewed n p =
     (if vc_cols (vc c) = 0 then Inl Div_zero
      else let col = p mod vc_cols (vc c) in
        Inr (read_cells sw c viewed n (screen_pos sw (vc c) p viewed) col (p + vc_cols (vc c) - col)))"

definition cell_bytes :: "u16 \<Rightarrow> u8 list" where
  "cell_bytes w = [ucast w, ucast (drop_bit 8 w)]"

text \<open>Where the data starts in the buffer, how much of it there is to read, and how much goes to the user.\<close>

definition attr_round :: "int \<Rightarrow> int \<Rightarrow> int \<Rightarrow> int \<times> int \<times> int" where
  "attr_round bsz p n =
     (if p < HEADER_SIZE
      then let (n1, orig) = (if n + p > bsz then (bsz, bsz - p) else (n + p, n)) in
           (p, n1 - (if HEADER_SIZE > n1 then n1 else HEADER_SIZE), orig)
      else if p mod 2 \<noteq> 0 then (if n < bsz then (1, n + 1, n) else (1, n, n - 1))
      else (0, n, n))"

definition read_round :: "'d consw \<Rightarrow> int \<Rightarrow> bool \<Rightarrow> bool \<Rightarrow> int \<Rightarrow> int \<Rightarrow> 'd con \<Rightarrow> u8 list res" where
  "read_round sw bsz attr viewed p n c =
     (if \<not> attr then res_bind (cells_at sw c viewed (nat n) p) (\<lambda>ws. Inr (map ucast ws))
      else
        let (start, rest, orig) = attr_round bsz p n; v = vc c;
            header = (if p < HEADER_SIZE then [word_of_int (vc_rows v), word_of_int (vc_cols v)] @ getconsxy v else []);
            p1 = (if p < HEADER_SIZE then HEADER_SIZE else p);
            words = (if rest > 0 then nat ((rest + 1) div 2) else 0)
        in if int (length header) + 2 * int words > bsz then Inl Out_of_bounds
           else
             res_bind (if words = 0 then Inr [] else cells_at sw c viewed words ((p1 - HEADER_SIZE) div 2)) (\<lambda>ws.
               Inr (take (nat orig) (drop (nat start) (header @ concat (map cell_bytes ws))))))"

fun vcs_read_loop ::
  "'d consw \<Rightarrow> int \<Rightarrow> bool \<Rightarrow> bool \<Rightarrow> (int \<Rightarrow> int \<Rightarrow> int) \<Rightarrow> 'd con \<Rightarrow> nat \<Rightarrow> int \<Rightarrow> int \<Rightarrow> u8 list
     \<Rightarrow> (errno option \<times> u8 list) res" where
  "vcs_read_loop sw bsz attr viewed uncopied c 0 pos count got = Inl No_return"
| "vcs_read_loop sw bsz attr viewed uncopied c (Suc fuel) pos count got =
     (let size = vcs_size attr (vc c) in
      if count = 0 \<or> pos \<ge> size then Inr (None, got)
      else
        let count = (if count > size - pos then size - pos else count) in
        res_bind (read_round sw bsz attr viewed pos (if count > bsz then bsz else count) c) (\<lambda>data.
          let n = int (length data); bad = uncopied pos n in
          if bad \<noteq> 0
          then let got = got @ take (nat (n - bad)) data in Inr (if got = [] then Some EFAULT else None, got)
          else vcs_read_loop sw bsz attr viewed uncopied c fuel (pos + n) (count - n) (got @ data)))"

text \<open>The error if nothing could be read, and the bytes read; the file position moves by their number.\<close>

definition vcs_read ::
  "'d consw \<Rightarrow> int \<Rightarrow> bool \<Rightarrow> (int \<Rightarrow> int \<Rightarrow> int) \<Rightarrow> int \<Rightarrow> int \<Rightarrow> 'd con \<Rightarrow> (errno option \<times> u8 list) res" where
  "vcs_read sw bsz attr uncopied pos count c =
     (if pos < 0 then Inr (Some EINVAL, [])
      else vcs_read_loop sw bsz attr (is_visible c) uncopied c (Suc (nat count)) pos count [])"

section \<open>Writing\<close>

text \<open>The loops return the position behind the last whole cell.\<close>

fun write_chars :: "'d consw \<Rightarrow> bool \<Rightarrow> u8 list \<Rightarrow> int \<Rightarrow> int \<Rightarrow> int \<Rightarrow> 'd con \<Rightarrow> int \<times> 'd con" where
  "write_chars sw viewed [] org col p c = (org, c)"
| "write_chars sw viewed (b # bs) org col p c =
     (let c1 = vcs_scr_writew sw ((vcs_scr_readw c org AND 0xff00) OR ucast b) org c in
      if col + 1 = vc_cols (vc c)
      then write_chars sw viewed bs (screen_pos sw (vc c1) p viewed) 0 (p + vc_cols (vc c)) c1
      else write_chars sw viewed bs (org + 2) (col + 1) p c1)"

fun write_words :: "'d consw \<Rightarrow> bool \<Rightarrow> u8 list \<Rightarrow> int \<Rightarrow> int \<Rightarrow> int \<Rightarrow> 'd con \<Rightarrow> int \<times> 'd con" where
  "write_words sw viewed (lo # hi # bs) org col p c =
     (let c1 = vcs_scr_writew sw (push_bit 8 (ucast hi) OR ucast lo) org c in
      if col + 1 = vc_cols (vc c)
      then write_words sw viewed bs (screen_pos sw (vc c1) p viewed) 0 (p + vc_cols (vc c)) c1
      else write_words sw viewed bs (org + 2) (col + 1) p c1)"
| "write_words sw viewed [lo] org col p c =
     (org, vcs_scr_writew sw ((vcs_scr_readw c org AND 0xff00) OR ucast lo) org c)"
| "write_words sw viewed [] org col p c = (org, c)"

text \<open>Cells from byte \<open>p\<close> behind the header on; an odd byte at the start is the attribute of its cell.\<close>

definition write_cells :: "'d consw \<Rightarrow> bool \<Rightarrow> u8 list \<Rightarrow> int \<Rightarrow> 'd con \<Rightarrow> int \<times> 'd con" where
  "write_cells sw viewed bs p c =
     (let col = (p div 2) mod vc_cols (vc c); org = screen_pos sw (vc c) (p div 2) viewed in
      case bs of
        b # rest \<Rightarrow>
          if p mod 2 \<noteq> 0
          then
            let c1 = vcs_scr_writew sw (push_bit 8 (ucast b) OR (vcs_scr_readw c org AND 0xff)) org c;
                (org1, col1) = (if col + 1 = vc_cols (vc c) then (screen_pos sw (vc c1) ((p + 1) div 2) viewed, 0)
                                else (org + 2, col + 1))
            in write_words sw viewed rest org1 col1 ((p + 1) div 2 + vc_cols (vc c) - col1) c1
          else write_words sw viewed bs org col (p div 2 + vc_cols (vc c) - col) c
      | [] \<Rightarrow> (org, c))"

text \<open>One round; the region that was changed is updated on the screen.\<close>

definition write_round :: "'d consw \<Rightarrow> bool \<Rightarrow> bool \<Rightarrow> int \<Rightarrow> u8 list \<Rightarrow> 'd con \<Rightarrow> 'd con res" where
  "write_round sw attr viewed p data c =
     (if vc_cols (vc c) = 0 then Inl Div_zero
      else if \<not> attr
      then
        let org0 = screen_pos sw (vc c) p viewed; col = p mod vc_cols (vc c);
            (org, c1) = write_chars sw viewed data org0 col (p + vc_cols (vc c) - col) c
        in update_region sw org0 ((org - org0) div 2) c1
      else
        let k = (if p < HEADER_SIZE then min (nat (HEADER_SIZE - p)) (length data) else 0);
            header = take (nat p) ([0, 0] @ getconsxy (vc c)) @ take k data @ drop (nat p + k) ([0, 0] @ getconsxy (vc c));
            rest = drop k data
        in res_bind (if p < HEADER_SIZE \<and> \<not> viewed then putconsxy sw (header ! 2) (header ! 3) c else Inr c) (\<lambda>c1.
             if rest = [] then Inr c1
             else
               let p1 = p + int k - HEADER_SIZE; org0 = screen_pos sw (vc c1) (p1 div 2) viewed;
                   (org, c2) = write_cells sw viewed rest p1 c1
               in update_region sw org0 ((org - org0) div 2) c2))"

fun vcs_write_loop ::
  "'d consw \<Rightarrow> int \<Rightarrow> bool \<Rightarrow> bool \<Rightarrow> (int \<Rightarrow> int \<Rightarrow> int) \<Rightarrow> nat \<Rightarrow> int \<Rightarrow> u8 list \<Rightarrow> int \<Rightarrow> 'd con
     \<Rightarrow> ((errno + int) \<times> 'd con) res" where
  "vcs_write_loop sw bsz attr viewed uncopied 0 pos buf written c = Inl No_return"
| "vcs_write_loop sw bsz attr viewed uncopied (Suc fuel) pos buf written c =
     (if buf = [] then Inr (Inr written, c)
      else
        let n0 = min (int (length buf)) bsz; n = n0 - uncopied pos n0; size = vcs_size attr (vc c) in
        if n \<le> 0 then Inr (if written > 0 then Inr written else Inl EFAULT, c)
        else if pos \<ge> size then Inr (Inr written, c)
        else
          let n = (if n > size - pos then size - pos else n) in
          res_bind (write_round sw attr viewed pos (take (nat n) buf) c)
            (vcs_write_loop sw bsz attr viewed uncopied fuel (pos + n) (drop (nat n) buf) (written + n)))"

text \<open>The error or the number of bytes written, by which the file position moves.\<close>

definition vcs_write ::
  "'d consw \<Rightarrow> int \<Rightarrow> bool \<Rightarrow> (int \<Rightarrow> int \<Rightarrow> int) \<Rightarrow> int \<Rightarrow> u8 list \<Rightarrow> 'd con \<Rightarrow> ((errno + int) \<times> 'd con) res" where
  "vcs_write sw bsz attr uncopied pos buf c =
     (let size = vcs_size attr (vc c) in
      if pos < 0 \<or> pos > size then Inr (Inl EINVAL, c)
      else
        let buf = (if int (length buf) > size - pos then take (nat (size - pos)) buf else buf) in
        vcs_write_loop sw bsz attr (is_visible c) uncopied (Suc (length buf)) pos buf 0 c)"

text \<open>Opening the device of a minor number.\<close>

definition vcs_open :: "int \<Rightarrow> 'd con \<Rightarrow> (errno + int) res" where
  "vcs_open minor c =
     res_bind (find_vc (minor AND 127) c) (\<lambda>p. Inr (case p of None \<Rightarrow> Inl ENXIO | Some n \<Rightarrow> Inr n))"

end
