(* ===== verification/Vc_Screen_Props.thy ===== *)
theory Vc_Screen_Props
  imports Vc_Screen Output_Props
begin

text \<open>
  The screen memory devices show and change the screen as a file of bytes: reading any part of
  the device gives that part of \<open>vcs_bytes\<close>, however the rounds of the buffer cut it, and
  writing replaces the bytes written and no others.
\<close>

section \<open>The device as bytes\<close>

definition shown_at :: "'d con \<Rightarrow> int" where
  "shown_at c = (if is_visible c then vc_visible_origin (vc c) else vc_origin (vc c))"

definition shown_cells :: "'d con \<Rightarrow> u16 list" where
  "shown_cells c = map (\<lambda>i. vcs_scr_readw c (shown_at c + 2 * int i)) [0 ..< nat (vc_rows (vc c) * vc_cols (vc c))]"

definition vcs_header :: "vc_data \<Rightarrow> u8 list" where
  "vcs_header v = [word_of_int (vc_rows v), word_of_int (vc_cols v)] @ getconsxy v"

definition vcs_bytes :: "bool \<Rightarrow> 'd con \<Rightarrow> u8 list" where
  "vcs_bytes attr c =
     (if attr then vcs_header (vc c) @ concat (map cell_bytes (shown_cells c)) else map ucast (shown_cells c))"

lemma length_vcs_header [simp]: "length (vcs_header v) = 4"
  by (simp add: vcs_header_def getconsxy_def)

lemma length_cell_bytes [simp]: "length (cell_bytes w) = 2"
  by (simp add: cell_bytes_def)

lemma length_cells_bytes: "length (concat (map cell_bytes ws)) = 2 * length ws"
  by (induction ws) simp_all

lemma drop_cells_bytes: "drop (2 * k) (concat (map cell_bytes ws)) = concat (map cell_bytes (drop k ws))"
proof (induction ws arbitrary: k)
  case (Cons w ws)
  then show ?case by (cases k) (simp_all add: cell_bytes_def)
qed simp

lemma take_cells_bytes: "take (2 * k) (concat (map cell_bytes ws)) = concat (map cell_bytes (take k ws))"
proof (induction ws arbitrary: k)
  case (Cons w ws)
  then show ?case by (cases k) (simp_all add: cell_bytes_def)
qed simp

lemma length_vcs_bytes:
  "0 \<le> vc_rows (vc c) * vc_cols (vc c) \<Longrightarrow> int (length (vcs_bytes attr c)) = vcs_size attr (vc c)"
  by (simp add: vcs_bytes_def vcs_size_def length_cells_bytes shown_cells_def del: map_map)

section \<open>Reading\<close>

lemma screen_pos_linear:
  "con_screen_pos sw = None \<Longrightarrow> screen_pos sw (vc c) p (is_visible c) = shown_at c + 2 * p"
  by (simp add: screen_pos_def screenpos_def shown_at_def)

lemma read_cells_linear:
  assumes "con_screen_pos sw = None"
  shows "read_cells sw c (is_visible c) n (shown_at c + 2 * q) col (q + vc_cols (vc c) - col)
    = map (\<lambda>i. vcs_scr_readw c (shown_at c + 2 * (q + int i))) [0 ..< n]"
proof (induction n arbitrary: q col)
  case (Suc n)
  have e: "map (\<lambda>i. vcs_scr_readw c (shown_at c + 2 * (q + int i))) [0 ..< Suc n]
    = vcs_scr_readw c (shown_at c + 2 * q) # map (\<lambda>i. vcs_scr_readw c (shown_at c + 2 * (q + 1 + int i))) [0 ..< n]"
    by (simp add: upt_conv_Cons map_Suc_upt [symmetric] algebra_simps del: upt_Suc)
  show ?case
  proof (cases "col + 1 = vc_cols (vc c)")
    case True
    then have p: "q + vc_cols (vc c) - col = q + 1" by simp
    show ?thesis
      using Suc.IH [of "q + 1" 0] True screen_pos_linear [OF assms, of c "q + 1"]
      unfolding e read_cells.simps p by simp
  next
    case False
    have "shown_at c + 2 * q + 2 = shown_at c + 2 * (q + 1)"
      "q + vc_cols (vc c) - col = q + 1 + vc_cols (vc c) - (col + 1)"
      by simp_all
    then show ?thesis
      using Suc.IH [of "q + 1" "col + 1"] False unfolding e by (simp only: read_cells.simps if_False)
  qed
qed simp

lemma cells_at_shown:
  assumes "con_screen_pos sw = None" "0 < vc_cols (vc c)" "0 \<le> p"
    and "p + int n \<le> vc_rows (vc c) * vc_cols (vc c)"
  shows "cells_at sw c (is_visible c) n p = Inr (take n (drop (nat p) (shown_cells c)))"
proof -
  have "cells_at sw c (is_visible c) n p = Inr (map (\<lambda>i. vcs_scr_readw c (shown_at c + 2 * (p + int i))) [0 ..< n])"
    using assms(2) read_cells_linear [OF assms(1), of c n p "p mod vc_cols (vc c)"]
    by (simp add: cells_at_def Let_def screen_pos_linear [OF assms(1)])
  also have "map (\<lambda>i. vcs_scr_readw c (shown_at c + 2 * (p + int i))) [0 ..< n] = take n (drop (nat p) (shown_cells c))"
    using assms(3,4) by (intro nth_equalityI) (simp_all add: shown_cells_def zless_nat_eq_int_zless)
  finally show ?thesis .
qed


text \<open>One round gives the part of the device that \<open>attr_round\<close> names.\<close>

lemma attr_round_bounds:
  assumes "attr_round bsz p n = (at, rest, orig)" "even bsz" "4 < bsz" "0 \<le> p" "0 < n" "n \<le> bsz"
  shows "0 < orig" "orig \<le> n" "0 \<le> at" "0 \<le> rest"
    and "p < 4 \<Longrightarrow> at = p \<and> at + orig \<le> 4 + rest" and "4 \<le> p \<Longrightarrow> at = p mod 2 \<and> at + orig \<le> rest"
    and "p < 4 \<Longrightarrow> rest \<le> max 0 (n + p - 4) \<and> 4 + rest \<le> bsz" and "4 \<le> p \<Longrightarrow> rest \<le> n + p mod 2 \<and> rest \<le> bsz"
  using assms by (auto simp: attr_round_def Let_def max_def odd_iff_mod_2_eq_one split: if_splits)


lemma words_fit:
  fixes rest p n bsz cells :: int
  assumes "p + n \<le> 2 * cells + 4" "even bsz" "0 \<le> rest" "0 \<le> p" "0 \<le> cells"
  shows "p < 4 \<Longrightarrow> rest \<le> max 0 (n + p - 4) \<and> 4 + rest \<le> bsz \<Longrightarrow>
      (rest + 1) div 2 \<le> cells \<and> 4 + 2 * ((rest + 1) div 2) \<le> bsz"
    and "4 \<le> p \<Longrightarrow> rest \<le> n + p mod 2 \<and> rest \<le> bsz \<Longrightarrow>
      (p - 4) div 2 + (rest + 1) div 2 \<le> cells \<and> 2 * ((rest + 1) div 2) \<le> bsz"
  using assms by presburger+

lemma take_drop_take: "p + m \<le> k \<Longrightarrow> take m (drop p (take k xs)) = take m (drop p xs)"
  by (simp add: drop_take min_def)

lemma read_words:
  assumes "con_screen_pos sw = None" "0 < vc_cols (vc c)" "0 \<le> q" "0 \<le> w"
    and "q + w \<le> vc_rows (vc c) * vc_cols (vc c)"
  shows "(if nat w = 0 then Inr [] else cells_at sw c (is_visible c) (nat w) q)
    = Inr (take (nat w) (drop (nat q) (shown_cells c)))"
  using cells_at_shown [OF assms(1-3), of "nat w"] assms(4,5) by simp

lemma read_round_part:
  assumes sw: "con_screen_pos sw = None" and g: "0 < vc_cols (vc c)" "0 \<le> vc_rows (vc c)"
    and b: "even bsz" "4 < bsz" and n: "0 \<le> p" "0 < n" "n \<le> bsz" "p + n \<le> vcs_size attr (vc c)"
  shows "\<exists>m. 0 < m \<and> m \<le> n \<and>
    read_round sw bsz attr (is_visible c) p n c = Inr (take (nat m) (drop (nat p) (vcs_bytes attr c)))"
proof (cases attr)
  case False
  then have "p + int (nat n) \<le> vc_rows (vc c) * vc_cols (vc c)"
    using n by (simp add: vcs_size_def)
  then show ?thesis
    using False cells_at_shown [OF sw g(1) n(1), of "nat n"] n(2)
    by (auto simp: read_round_def vcs_bytes_def take_map drop_map intro!: exI [of _ n])
next
  case True
  obtain at rest m where r: "attr_round bsz p n = (at, rest, m)"
    by (cases "attr_round bsz p n") auto
  note bd = attr_round_bounds [OF r b n(1-3)]
  define cells where "cells = vc_rows (vc c) * vc_cols (vc c)"
  define w where "w = (rest + 1) div 2"
  have cells: "0 \<le> cells" "p + n \<le> 2 * cells + 4"
    using g n(4) True by (simp_all add: cells_def vcs_size_def)
  note fit = words_fit [OF cells(2) b(1) bd(4) n(1) cells(1)]
  have w: "0 \<le> w" "rest \<le> 2 * w" "rest > 0 \<or> w = 0"
    using bd(4) by (auto simp: w_def)
  have w0: "w \<le> 0 \<longleftrightarrow> w = 0" using w(1) by auto
  show ?thesis
  proof (cases "p < 4")
    case lt: True
    then have e: "(if rest > 0 then nat ((rest + 1) div 2) else 0) = nat w" using w by (auto simp: w_def)
    have "read_round sw bsz attr (is_visible c) p n c
      = Inr (take (nat m) (drop (nat at) (vcs_header (vc c) @ concat (map cell_bytes (take (nat w) (shown_cells c))))))"
      using True lt r fit(1) [OF lt bd(7) [OF lt]] read_words [OF sw g(1), of 0 w] 
      by (cases "w = 0") (simp_all add: read_round_def Let_def w0 vcs_header_def getconsxy_def cells_def [symmetric] e w_def [symmetric] w)
    also have "vcs_header (vc c) @ concat (map cell_bytes (take (nat w) (shown_cells c)))
        = take (4 + 2 * nat w) (vcs_bytes attr c)"
      using True by (simp add: vcs_bytes_def take_cells_bytes)
    also have "take (nat m) (drop (nat at) (take (4 + 2 * nat w) (vcs_bytes attr c)))
        = take (nat m) (drop (nat p) (vcs_bytes attr c))"
    proof -
      have "nat at + nat m \<le> 4 + 2 * nat w" "at = p"
        using bd(1,3,5) lt w by linarith+
      then show ?thesis using take_drop_take by blast
    qed
    finally show ?thesis using bd(1,2) by blast
  next
    case ge: False
    then have e: "(if rest > 0 then nat ((rest + 1) div 2) else 0) = nat w" using w by (auto simp: w_def)
    have "p = 2 * ((p - 4) div 2) + p mod 2 + 4" "0 \<le> (p - 4) div 2" "0 \<le> p mod 2" "at = p mod 2"
      using ge bd(6) by presburger+
    then have q: "0 \<le> (p - 4) div 2" "nat p = 2 * nat ((p - 4) div 2) + nat at + 4"
      by linarith+
    have "read_round sw bsz attr (is_visible c) p n c
      = Inr (take (nat m) (drop (nat at) (concat (map cell_bytes (take (nat w) (drop (nat ((p - 4) div 2)) (shown_cells c)))))))"
      using True ge r fit(2) [OF _ bd(8)] read_words [OF sw g(1) q(1) w(1)]
      by (cases "w = 0") (simp_all add: read_round_def Let_def w0 cells_def [symmetric] e w_def [symmetric] w)
    also have "concat (map cell_bytes (take (nat w) (drop (nat ((p - 4) div 2)) (shown_cells c))))
        = take (2 * nat w) (drop (2 * nat ((p - 4) div 2) + 4) (vcs_bytes attr c))"
      using True by (simp add: vcs_bytes_def take_cells_bytes drop_cells_bytes)
    also have "take (nat m) (drop (nat at) (take (2 * nat w) (drop (2 * nat ((p - 4) div 2) + 4) (vcs_bytes attr c))))
        = take (nat m) (drop (nat p) (vcs_bytes attr c))"
    proof -
      have "nat at + nat m \<le> 2 * nat w"
        using bd(1,3,6) ge w by linarith
      then show ?thesis
        unfolding q(2) by (subst take_drop_take) (simp_all add: add.commute add.left_commute)
    qed
    finally show ?thesis using bd(1,2) by blast
  qed
qed


lemma take_slices:
  "0 \<le> m \<Longrightarrow> m \<le> n \<Longrightarrow> 0 \<le> p \<Longrightarrow>
   take (nat m) (drop (nat p) xs) @ take (nat (n - m)) (drop (nat (p + m)) xs) = take (nat n) (drop (nat p) xs)"
  by (simp add: take_add [symmetric] nat_add_distrib nat_diff_distrib flip: drop_drop)
     (metis add.commute drop_drop le_add_diff_inverse nat_mono take_add)

lemma vcs_read_loop_part:
  assumes sw: "con_screen_pos sw = None" and g: "0 < vc_cols (vc c)" "0 \<le> vc_rows (vc c)"
    and b: "even bsz" "4 < bsz" and n: "0 \<le> p" "0 \<le> n" "nat n < fuel"
  shows "vcs_read_loop sw bsz attr (is_visible c) (\<lambda>_ _. 0) c fuel p n got
    = Inr (None, got @ take (nat n) (drop (nat p) (vcs_bytes attr c)))"
  using n
proof (induction fuel arbitrary: p n got)
  case (Suc fuel)
  let ?size = "vcs_size attr (vc c)"
  have len: "int (length (vcs_bytes attr c)) = ?size"
    using g by (intro length_vcs_bytes) simp
  show ?case
  proof (cases "n = 0 \<or> ?size \<le> p")
    case True
    then have "take (nat n) (drop (nat p) (vcs_bytes attr c)) = []"
      using len Suc.prems by auto
    then show ?thesis using True by (simp add: Let_def)
  next
    case False
    define n1 where "n1 = (if n > ?size - p then ?size - p else n)"
    define n2 where "n2 = (if n1 > bsz then bsz else n1)"
    have n12: "0 < n1" "n1 \<le> n" "p + n1 \<le> ?size" "0 < n2" "n2 \<le> bsz" "p + n2 \<le> ?size" "n2 \<le> n1"
      using False Suc.prems b by (auto simp: n1_def n2_def)
    obtain m D where m: "0 < m" "m \<le> n2" and D: "D = take (nat m) (drop (nat p) (vcs_bytes attr c))"
      and r: "read_round sw bsz attr (is_visible c) p n2 c = Inr D"
      using read_round_part [OF sw g b Suc.prems(1) n12(4-6)] by blast
    have "nat m \<le> length (vcs_bytes attr c) - nat p"
      using len m n12 Suc.prems by linarith
    then have l: "int (length D) = m" using m(1) by (simp add: D)
    have "take (nat n) (drop (nat p) (vcs_bytes attr c)) = D @ take (nat (n1 - m)) (drop (nat (p + m)) (vcs_bytes attr c))"
      using len Suc.prems n12 m take_slices [of m n1 p "vcs_bytes attr c"] by (auto simp: n1_def D)
    then show ?thesis
      using False r l m Suc.IH [of "p + m" "n1 - m"] Suc.prems n12
      by (simp add: Let_def n1_def [symmetric] n2_def [symmetric])
  qed
qed simp


lemma shown_cells0: "shown_cells con0 = replicate 2000 0x0720"
  by (intro nth_equalityI)
    (simp_all add: shown_cells_def vcs_scr_readw_def con0_def vc0_def vt0_def vt_def)

lemma vcs_read_all:
  assumes "con_screen_pos sw = None" "0 < vc_cols (vc c)" "0 \<le> vc_rows (vc c)"
    and "even bsz" "4 < bsz" "0 \<le> pos" "0 \<le> count"
  shows "vcs_read sw bsz attr (\<lambda>_ _. 0) pos count c
    = Inr (None, take (nat count) (drop (nat pos) (vcs_bytes attr c)))"
  using assms(6,7) vcs_read_loop_part [OF assms(1-7)] by (simp add: vcs_read_def del: vcs_read_loop.simps)

text \<open>
  C37. Reading a screen memory device gives its bytes. From any position and for any count, with a buffer of even size
  above four bytes, a driver with linear screen memory and no fault of the user's memory, \<open>vcs_read\<close> returns
  the bytes of the device from the position on, at most the count and up to the end: the characters on the screen, or
  the header and the cells in little endian order, wherever the rounds of the buffer cut them.
\<close>

theorem vcs_read_part:
  assumes "con_screen_pos sw = None" "0 < vc_cols (vc c)" "0 \<le> vc_rows (vc c)"
    and "even bsz" "4 < bsz" "0 \<le> pos" "0 \<le> count"
  shows "vcs_read sw bsz attr (\<lambda>_ _. 0) pos count c
    = Inr (None, take (nat count) (drop (nat pos) (vcs_bytes attr c)))"
  using assms by (rule vcs_read_all)

theorem vcs_read_part_witness:
  "vcs_read vga_con 4096 True (\<lambda>_ _. 0) 1 4 con0 = Inr (None, [80, 0, 0, 0x20])"
proof -
  have "take 1 (concat (map cell_bytes (replicate 2000 0x0720))) = [0x20]"
    using replicate_Suc [of 1999 "0x0720 :: u16"] by (simp add: cell_bytes_def)
  moreover have "vc con0 = vc0" "vc_cols vc0 = 80" "vc_rows vc0 = 25" "vc_x vc0 = 0" "vc_y vc0 = 0" "con_screen_pos vga_con = None"
    by (simp_all add: con0_def vc0_def vga_con_def)
  ultimately show ?thesis
    using vcs_read_part [of vga_con con0 4096 1 4 True]
    by (simp add: vcs_bytes_def shown_cells0 vcs_header_def getconsxy_def)
qed


section \<open>Writing\<close>

text \<open>
  A console of a VGA without a software cursor, a selection and a rolled back view, on which
  drawing the cursor does not change the cells; and what writing keeps of it.
\<close>

definition vcs_steady :: "vga contract \<Rightarrow> vga con \<Rightarrow> bool" where
  "vcs_steady K c \<longleftrightarrow> wf_con K c \<and> vc_cursor_type (vc c) AND 0x10 = 0 \<and> sel_cons c \<noteq> Some (vc_num (vc c)) \<and>
     (is_visible c \<longrightarrow> vc_visible_origin (vc c) = vc_origin (vc c))"

definition vcs_wrote :: "vga contract \<Rightarrow> vga con \<Rightarrow> vga con \<Rightarrow> bool" where
  "vcs_wrote K c c' \<longleftrightarrow> vcs_steady K c' \<and> vc c' = vc c \<and> is_visible c' = is_visible c"

lemma vcs_wrote_trans: "vcs_wrote K a b \<Longrightarrow> vcs_wrote K b c \<Longrightarrow> vcs_wrote K a c"
  by (simp add: vcs_wrote_def)

lemma vcs_wrote_size: "vcs_wrote K c c' \<Longrightarrow> vcs_size attr (vc c') = vcs_size attr (vc c)"
  by (simp add: vcs_wrote_def)

lemma vcs_wrote_shown: "vcs_steady K c \<Longrightarrow> vcs_wrote K c c' \<Longrightarrow> shown_at c' = shown_at c"
  by (simp add: vcs_wrote_def shown_at_def)

lemma steady_cells:
  assumes "vcs_steady K c"
  shows "0 < vc_cols (vc c)" "0 < vc_rows (vc c)" "0 < vc_rows (vc c) * vc_cols (vc c)" "shown_at c = vc_origin (vc c)"
    and "0 \<le> i \<Longrightarrow> i < vc_rows (vc c) * vc_cols (vc c) \<Longrightarrow> shown_at c + 2 * i \<in> scr_region K"
proof -
  have wf: "wf_con K c" using assms by (simp add: vcs_steady_def)
  note g = wf_geomD [OF wf_con_geom [OF wf]]
  show "0 < vc_cols (vc c)" "0 < vc_rows (vc c)" "0 < vc_rows (vc c) * vc_cols (vc c)" using g by simp_all
  show o: "shown_at c = vc_origin (vc c)"
    using assms by (simp add: vcs_steady_def shown_at_def)
  assume "0 \<le> i" "i < vc_rows (vc c) * vc_cols (vc c)"
  then have "shown_at c + 2 * i \<in> {vc_origin (vc c) ..< vc_origin (vc c) + vc_screenbuf_size (vc c)}"
    using g(5,6) o by (simp add: mult.commute mult.left_commute)
  then show "shown_at c + 2 * i \<in> scr_region K"
    using wf_vcD(5) [OF wf_con_vc [OF wf]] by blast
qed

lemma writew_steady:
  assumes K: "K = vga_contract ty b e bufs" and st: "vcs_steady K c" and i: "i < length (shown_cells c)"
    and c': "c' = vcs_scr_writew vga_con w (shown_at c + 2 * int i) c"
  shows "vcs_wrote K c c'" "shown_cells c' = (shown_cells c)[i := w]"
proof -
  let ?a = "shown_at c + 2 * int i"
  have a: "?a \<in> scr_region K"
    using i st by (intro steady_cells(5)) (simp_all add: shown_cells_def zless_nat_eq_int_zless)
  have wf: "wf_con K c" and cur: "vc_cursor_type (vc c) AND 0x10 = 0"
    using st by (simp_all add: vcs_steady_def)
  have m: "keeps K c (upd_mem (scr_writew w ?a) c)"
    using wf a by (intro keeps_upd_mem same_off_writew) simp_all
  have soft: "add_softcursor vga_con c1 = c1" if "vc c1 = vc c" for c1
    using cur that by (simp add: add_softcursor_def)
  have eq: "c' = (if ?a = vc_pos (vc c)
      then upd_vt (display_fg (vc c)) (\<lambda>t. t\<lparr>cursor_original := None\<rparr>) (upd_mem (scr_writew w ?a) c)
      else upd_mem (scr_writew w ?a) c)"
    by (simp add: c' vcs_scr_writew_def Let_def soft)
  have "wf_con K c'"
    using keeps_wf [OF m] keeps_wf [OF vga.cursor_original_ok [OF keeps_wf [OF m [unfolded K]]]]
    unfolding eq K by (cases "?a = vc_pos (vc c)") (simp_all only: if_True if_False refl)
  then show w: "vcs_wrote K c c'"
    using st by (simp add: eq vcs_wrote_def vcs_steady_def is_visible_def vt_def upd_vt_def)
  have "vcs_scr_readw c' x = (if x = ?a then w else vcs_scr_readw c x)" for x
    by (auto simp: eq vcs_scr_readw_def vt_def upd_vt_def scr_writew_def split: option.split)
  moreover have "shown_at c' = shown_at c" "vc c' = vc c"
    using vcs_wrote_shown [OF st w] w by (simp_all add: vcs_wrote_def)
  ultimately show "shown_cells c' = (shown_cells c)[i := w]"
    by (intro nth_equalityI) (auto simp: shown_cells_def nth_list_update)
qed


definition same_shown :: "vga con \<Rightarrow> vga con \<Rightarrow> bool" where
  "same_shown c c1 \<longleftrightarrow> vc c1 = vc c \<and> sel_cons c1 = sel_cons c \<and> is_visible c1 = is_visible c \<and>
     vcs_scr_readw c1 = vcs_scr_readw c"

lemma hide_cursor_shown:
  assumes "sel_cons c \<noteq> Some (vc_num (vc c))" "vc_visible_origin (vc c) = vc_origin (vc c)"
  shows "\<exists>c1. hide_cursor vga_con c = Inr c1 \<and> same_shown c c1"
proof -
  have h: "hide_cursor vga_con c = Inr (hide_softcursor vga_con (vgacon_cursor CM_ERASE c))"
    using assms by (simp add: hide_cursor_def vga_con_def)
  show ?thesis
    unfolding h using assms
    by (cases "cursor_original (vt c)")
      (auto simp: same_shown_def hide_softcursor_def vga_con_def vgacon_cursor_def Let_def
        upd_drv_def vt_def upd_vt_def upd_mem_def is_visible_def vcs_scr_readw_def scr_writew_def)
qed

lemma set_cursor_shown:
  assumes "sel_cons c \<noteq> Some (vc_num (vc c))" "vc_visible_origin (vc c) = vc_origin (vc c)"
    "vc_cursor_type (vc c) AND 0x10 = 0"
  shows "\<exists>c1. set_cursor vga_con c = Inr c1 \<and> same_shown c c1"
proof -
  have "same_shown c (con_cursor vga_con CM_DRAW c)"
    using assms by (simp add: same_shown_def vga_con_def vgacon_cursor_def Let_def
        upd_drv_def vt_def is_visible_def vcs_scr_readw_def fun_eq_iff split: prod.split option.split)
  then show ?thesis
    using hide_cursor_shown [OF assms(1,2)] assms
    by (auto simp: set_cursor_def add_softcursor_def Let_def) (simp_all add: same_shown_def)
qed

lemma update_region_steady:
  assumes K: "K = vga_contract ty b e bufs" and st: "vcs_steady K c"
  shows "\<exists>c'. update_region vga_con p n c = Inr c' \<and> vcs_wrote K c c' \<and> shown_cells c' = shown_cells c"
proof (cases "is_visible c")
  case True
  have wf: "wf_con K c" and cur: "vc_cursor_type (vc c) AND 0x10 = 0"
    and sel: "sel_cons c \<noteq> Some (vc_num (vc c))" and org: "vc_visible_origin (vc c) = vc_origin (vc c)"
    using st True by (simp_all add: vcs_steady_def)
  obtain c1 where c1: "hide_cursor vga_con c = Inr c1" "same_shown c c1"
    using hide_cursor_shown [OF sel org] by blast
  have "res_ok (keeps K c) (hide_cursor vga_con c)"
    unfolding K by (rule vga.hide_cursor_ok [OF wf [unfolded K]])
  then have "wf_con K c1" using c1(1) keeps_wf by simp
  then have "res_ok (keeps K c1) (do_update_region vga_con p n c1)"
    unfolding K by (rule vga.do_update_region_ok)
  then have "do_update_region vga_con p n c1 = Inr c1"
    using vga_update_region by (cases "do_update_region vga_con p n c1") auto
  moreover obtain c2 where c2: "set_cursor vga_con c1 = Inr c2" "same_shown c1 c2"
    using set_cursor_shown [of c1] c1(2) sel org cur by (auto simp: same_shown_def)
  ultimately have u: "update_region vga_con p n c = Inr c2"
    using True c1 by (simp add: update_region_def)
  moreover have "wf_con K c2"
    using vga.update_region_ok [OF wf [unfolded K], of p n] keeps_wf unfolding u K by auto
  then have "vcs_wrote K c c2"
    using st c1(2) c2(2) by (simp add: vcs_wrote_def vcs_steady_def same_shown_def)
  moreover have "shown_cells c2 = shown_cells c"
    using c1(2) c2(2) by (simp add: same_shown_def shown_cells_def shown_at_def)
  ultimately show ?thesis by blast
next
  case False
  then show ?thesis using st by (simp add: update_region_def vcs_wrote_def)
qed


text \<open>Storing bytes one after the other.\<close>

fun put_at :: "nat \<Rightarrow> u8 list \<Rightarrow> u8 list \<Rightarrow> u8 list" where
  "put_at p [] xs = xs"
| "put_at p (b # bs) xs = put_at (Suc p) bs (xs[p := b])"

lemma put_at_append: "put_at p (as @ bs) xs = put_at (p + length as) bs (put_at p as xs)"
  by (induction as arbitrary: p xs) simp_all

lemma put_at_splice:
  "p + length bs \<le> length xs \<Longrightarrow> put_at p bs xs = take p xs @ bs @ drop (p + length bs) xs"
proof (induction bs arbitrary: p xs)
  case (Cons b bs)
  have "take (Suc p) (xs[p := b]) = take p xs @ [b]"
    using Cons.prems by (simp add: take_Suc_conv_app_nth)
  then show ?case
    using Cons by simp
qed simp

lemma cell_bytes_update:
  assumes "i < length ws"
  shows "concat (map cell_bytes (ws[i := w])) =
    (concat (map cell_bytes ws))[2 * i := ucast w, 2 * i + 1 := ucast (drop_bit 8 w)]"
  using assms
proof (induction ws arbitrary: i)
  case (Cons x ws)
  then show ?case by (cases i) (simp_all add: cell_bytes_def)
qed simp

lemma cell_bytes_nth:
  assumes "i < length ws"
  shows "concat (map cell_bytes ws) ! (2 * i) = ucast (ws ! i)"
    "concat (map cell_bytes ws) ! (2 * i + 1) = ucast (drop_bit 8 (ws ! i))"
  using assms
proof (induction ws arbitrary: i)
  case (Cons x ws)
  { case 1 then show ?case using Cons by (cases i) (simp_all add: cell_bytes_def) }
  { case 2 then show ?case using Cons by (cases i) (simp_all add: cell_bytes_def) }
qed simp_all

lemma cell_parts:
  fixes w :: u16 and lo hi :: u8
  shows "ucast ((w AND 0xff00) OR ucast lo :: u16) = lo"
    "(ucast (drop_bit 8 ((w AND 0xff00) OR ucast lo :: u16)) :: u8) = ucast (drop_bit 8 w)"
    "ucast (push_bit 8 (ucast hi) OR (w AND 0xff) :: u16) = (ucast w :: u8)"
    "ucast (drop_bit 8 (push_bit 8 (ucast hi) OR (w AND 0xff) :: u16)) = hi"
    "ucast (push_bit 8 (ucast hi) OR ucast lo :: u16) = lo"
    "ucast (drop_bit 8 (push_bit 8 (ucast hi) OR ucast lo :: u16)) = hi"
  by (rule bit_word_eqI; simp add: bit_simps; auto simp: numeral_eq_Suc less_Suc_eq dest: bit_imp_le_length)+


lemma writew_bytes:
  assumes "K = vga_contract ty b e bufs" "vcs_steady K c" "i < length (shown_cells c)"
    and "c' = vcs_scr_writew vga_con w (shown_at c + 2 * int i) c"
  shows "vcs_bytes False c' = (vcs_bytes False c)[i := ucast w]"
    "vcs_bytes True c' = (vcs_bytes True c)[4 + 2 * i := ucast w, 5 + 2 * i := ucast (drop_bit 8 w)]"
proof -
  note w = writew_steady [OF assms]
  have v: "vc c' = vc c" using w(1) by (simp add: vcs_wrote_def)
  show "vcs_bytes False c' = (vcs_bytes False c)[i := ucast w]"
    by (simp add: vcs_bytes_def w(2) map_update)
  show "vcs_bytes True c' = (vcs_bytes True c)[4 + 2 * i := ucast w, 5 + 2 * i := ucast (drop_bit 8 w)]"
    using assms(3) by (simp add: vcs_bytes_def w(2) v cell_bytes_update list_update_append)
qed

lemma shown_bytes_nth:
  assumes "i < length (shown_cells c)"
  shows "vcs_bytes True c ! (4 + 2 * i) = ucast (vcs_scr_readw c (shown_at c + 2 * int i))"
    and "vcs_bytes True c ! (5 + 2 * i) = ucast (drop_bit 8 (vcs_scr_readw c (shown_at c + 2 * int i)))"
proof -
  have "shown_cells c ! i = vcs_scr_readw c (shown_at c + 2 * int i)"
    using assms by (simp add: shown_cells_def)
  then show "vcs_bytes True c ! (4 + 2 * i) = ucast (vcs_scr_readw c (shown_at c + 2 * int i))"
    "vcs_bytes True c ! (5 + 2 * i) = ucast (drop_bit 8 (vcs_scr_readw c (shown_at c + 2 * int i)))"
    using cell_bytes_nth [OF assms] by (simp_all add: vcs_bytes_def nth_append)
qed

lemma write_char_byte:
  assumes "K = vga_contract ty b e bufs" "vcs_steady K c" "i < length (shown_cells c)"
    and "c' = vcs_scr_writew vga_con ((vcs_scr_readw c (shown_at c + 2 * int i) AND 0xff00) OR ucast x) (shown_at c + 2 * int i) c"
  shows "vcs_wrote K c c'" "vcs_bytes False c' = (vcs_bytes False c)[i := x]"
    "vcs_bytes True c' = (vcs_bytes True c)[4 + 2 * i := x]"
proof -
  show "vcs_wrote K c c'" by (rule writew_steady [OF assms])
  show "vcs_bytes False c' = (vcs_bytes False c)[i := x]"
    unfolding writew_bytes(1) [OF assms] cell_parts ..
  have "((vcs_bytes True c)[4 + 2 * i := x])[5 + 2 * i := vcs_bytes True c ! (5 + 2 * i)] = (vcs_bytes True c)[4 + 2 * i := x]"
    by (metis list_update_id list_update_swap n_not_Suc_n eval_nat_numeral(3) plus_nat.simps(2))
  then show "vcs_bytes True c' = (vcs_bytes True c)[4 + 2 * i := x]"
    unfolding writew_bytes(2) [OF assms] cell_parts shown_bytes_nth(2) [OF assms(3)] .
qed

lemma write_attr_byte:
  assumes "K = vga_contract ty b e bufs" "vcs_steady K c" "i < length (shown_cells c)"
    and "c' = vcs_scr_writew vga_con (push_bit 8 (ucast x) OR (vcs_scr_readw c (shown_at c + 2 * int i) AND 0xff)) (shown_at c + 2 * int i) c"
  shows "vcs_wrote K c c'" "vcs_bytes True c' = (vcs_bytes True c)[5 + 2 * i := x]"
proof -
  show "vcs_wrote K c c'" by (rule writew_steady [OF assms])
  show "vcs_bytes True c' = (vcs_bytes True c)[5 + 2 * i := x]"
    unfolding writew_bytes(2) [OF assms] cell_parts shown_bytes_nth(1) [OF assms(3), symmetric] list_update_id ..
qed

lemma vga_screen_pos: "screen_pos vga_con (vc c) p (is_visible c) = shown_at c + 2 * p"
  by (rule screen_pos_linear) (simp add: vga_con_def)

text \<open>The loops go from one cell to the next in memory, at the end of a row too.\<close>

lemma next_cell:
  assumes "vcs_steady K c" "vcs_wrote K c c1" "viewed = is_visible c"
  shows "(if col + 1 = vc_cols (vc c)
      then F (screen_pos vga_con (vc c1) (q + vc_cols (vc c) - col) viewed) 0 (q + vc_cols (vc c) - col + vc_cols (vc c))
      else F (shown_at c + 2 * q + 2) (col + 1) (q + vc_cols (vc c) - col))
    = F (shown_at c1 + 2 * (q + 1)) (if col + 1 = vc_cols (vc c) then 0 else col + 1)
        (q + 1 + vc_cols (vc c1) - (if col + 1 = vc_cols (vc c) then 0 else col + 1))"
proof (cases "col + 1 = vc_cols (vc c)")
  case True
  then have p: "q + vc_cols (vc c) - col = q + 1" by simp
  have "viewed = is_visible c1" "vc_cols (vc c1) = vc_cols (vc c)"
    using assms by (simp_all add: vcs_wrote_def)
  then show ?thesis
    unfolding p using True by (simp add: vga_screen_pos)
next
  case False
  have "q + vc_cols (vc c) - col = q + 1 + vc_cols (vc c1) - (col + 1)"
    "shown_at c + 2 * q + 2 = shown_at c1 + 2 * (q + 1)"
    using assms(2) vcs_wrote_shown [OF assms(1,2)] by (simp_all add: vcs_wrote_def)
  then show ?thesis
    using False by (simp only: if_False)
qed

lemma vcs_wrote_facts:
  assumes "vcs_steady K c" "vcs_wrote K c c1" "viewed = is_visible c"
  shows "vcs_steady K c1" "viewed = is_visible c1" "length (shown_cells c1) = length (shown_cells c)"
    "vc_cols (vc c1) = vc_cols (vc c)"
  using assms by (simp_all add: vcs_wrote_def shown_cells_def)

lemma write_chars_bytes:
  assumes K: "K = vga_contract ty b e bufs" and "vcs_steady K c"
    and "viewed = is_visible c" "q + length bs \<le> length (shown_cells c)"
    and "write_chars vga_con viewed bs (shown_at c + 2 * int q) col (int q + vc_cols (vc c) - col) c = (org, c')"
  shows "vcs_wrote K c c' \<and> vcs_bytes False c' = put_at q bs (vcs_bytes False c)"
  using assms(2-)
proof (induction bs arbitrary: q col c)
  case Nil
  then show ?case by (simp add: vcs_wrote_def)
next
  case (Cons x bs)
  define c1 where "c1 = vcs_scr_writew vga_con ((vcs_scr_readw c (shown_at c + 2 * int q) AND 0xff00) OR ucast x) (shown_at c + 2 * int q) c"
  have "q < length (shown_cells c)" using Cons.prems(3) by simp
  note w = write_char_byte [OF K Cons.prems(1) this c1_def]
  note s = vcs_wrote_facts [OF Cons.prems(1) w(1) Cons.prems(2)]
  have "int q + 1 = int (Suc q)" by simp
  from Cons.prems(4) have "write_chars vga_con viewed bs (shown_at c1 + 2 * int (Suc q))
      (if col + 1 = vc_cols (vc c) then 0 else col + 1)
      (int (Suc q) + vc_cols (vc c1) - (if col + 1 = vc_cols (vc c) then 0 else col + 1)) c1 = (org, c')"
    unfolding write_chars.simps Let_def c1_def [symmetric] \<open>int q + 1 = int (Suc q)\<close> [symmetric]
    using next_cell [OF Cons.prems(1) w(1) Cons.prems(2), of col "\<lambda>org col p. write_chars vga_con viewed bs org col p c1" "int q"]
    by simp
  from Cons.IH [OF s(1,2) _ this] Cons.prems(3) s(3)
  have "vcs_wrote K c1 c' \<and> vcs_bytes False c' = put_at (Suc q) bs (vcs_bytes False c1)"
    by simp
  then show ?case
    using vcs_wrote_trans [OF w(1)] w(2) by simp
qed

lemma write_words_bytes:
  assumes K: "K = vga_contract ty b e bufs" and "vcs_steady K c"
    and "viewed = is_visible c" "2 * q + length bs \<le> 2 * length (shown_cells c)"
    and "write_words vga_con viewed bs (shown_at c + 2 * int q) col (int q + vc_cols (vc c) - col) c = (org, c')"
  shows "vcs_wrote K c c' \<and> vcs_bytes True c' = put_at (4 + 2 * q) bs (vcs_bytes True c)"
  using assms(2-)
proof (induction bs arbitrary: q col c rule: induct_list012)
  case 1
  then show ?case by (simp add: vcs_wrote_def)
next
  case (2 x)
  then have "q < length (shown_cells c)" by simp
  then show ?case
    using 2 write_char_byte [OF K 2(1) _ refl, of q x] by auto
next
  case (3 x y bs)
  define c1 where "c1 = vcs_scr_writew vga_con (push_bit 8 (ucast y) OR ucast x) (shown_at c + 2 * int q) c"
  have q: "q < length (shown_cells c)" using 3(5) by simp
  note w = writew_steady(1) [OF K 3(3) q c1_def] writew_bytes(2) [OF K 3(3) q c1_def, unfolded cell_parts]
  note s = vcs_wrote_facts [OF 3(3) w(1) 3(4)]
  have "int q + 1 = int (Suc q)" by simp
  from 3(6) have "write_words vga_con viewed bs (shown_at c1 + 2 * int (Suc q))
      (if col + 1 = vc_cols (vc c) then 0 else col + 1)
      (int (Suc q) + vc_cols (vc c1) - (if col + 1 = vc_cols (vc c) then 0 else col + 1)) c1 = (org, c')"
    unfolding write_words.simps Let_def c1_def [symmetric] \<open>int q + 1 = int (Suc q)\<close> [symmetric]
    using next_cell [OF 3(3) w(1) 3(4), of col "\<lambda>org col p. write_words vga_con viewed bs org col p c1" "int q"]
    by simp
  from 3(1) [OF s(1,2) _ this] 3(5) s(3)
  have "vcs_wrote K c1 c' \<and> vcs_bytes True c' = put_at (4 + 2 * Suc q) bs (vcs_bytes True c1)"
    by simp
  then show ?case
    using vcs_wrote_trans [OF w(1)] w(2) by simp
qed


lemma write_cells_bytes:
  assumes K: "K = vga_contract ty b e bufs" and st: "vcs_steady K c" and v: "viewed = is_visible c"
    and bs: "bs \<noteq> []" and len: "i + length bs \<le> 2 * length (shown_cells c)"
    and r: "write_cells vga_con viewed bs (int i) c = (org, c')"
  shows "vcs_wrote K c c' \<and> vcs_bytes True c' = put_at (4 + i) bs (vcs_bytes True c)"
proof -
  obtain x rest where b: "bs = x # rest" using bs by (cases bs) auto
  define col where "col = int (i div 2) mod vc_cols (vc c)"
  have pos: "screen_pos vga_con (vc c) (int i div 2) viewed = shown_at c + 2 * int (i div 2)"
    by (simp add: v vga_screen_pos zdiv_int)
  then have pos': "screen_pos vga_con (vc c) (int (i div 2)) viewed = shown_at c + 2 * int (i div 2)"
    by (simp add: zdiv_int)
  show ?thesis
  proof (cases "even i")
    case True
    then have "write_words vga_con viewed bs (shown_at c + 2 * int (i div 2)) col
        (int (i div 2) + vc_cols (vc c) - col) c = (org, c')"
      using r b pos by (simp add: write_cells_def Let_def col_def zdiv_int odd_iff_mod_2_eq_one)
    from write_words_bytes [OF K st v _ this] show ?thesis
      using True len by simp
  next
    case False
    define c1 where "c1 = vcs_scr_writew vga_con (push_bit 8 (ucast x) OR
      (vcs_scr_readw c (shown_at c + 2 * int (i div 2)) AND 0xff)) (shown_at c + 2 * int (i div 2)) c"
    have h: "i = 2 * (i div 2) + 1" "(int i + 1) div 2 = int (Suc (i div 2))" "int i mod 2 \<noteq> 0"
      using False by presburger+
    have "i div 2 < length (shown_cells c)"
      using len h(1) unfolding b by simp
    note w = write_attr_byte [OF K st this c1_def]
    note s = vcs_wrote_facts [OF st w(1) v]
    define col1 where "col1 = (if col + 1 = vc_cols (vc c) then 0 else col + 1)"
    have "screen_pos vga_con (vc c1) (int (Suc (i div 2))) viewed = shown_at c1 + 2 * int (Suc (i div 2))"
      "shown_at c1 = shown_at c"
      using s(2) vga_screen_pos [of c1 "int (Suc (i div 2))"] vcs_wrote_shown [OF st w(1)] by simp_all
    then have "write_words vga_con viewed rest (shown_at c1 + 2 * int (Suc (i div 2))) col1
        (int (Suc (i div 2)) + vc_cols (vc c1) - col1) c1 = (org, c')"
      using r h(3) unfolding write_cells_def b Let_def pos' h(2) c1_def [symmetric] col_def [symmetric] zdiv_int [of i 2, simplified, symmetric]
      by (auto simp: col1_def s(4) c1_def [symmetric] split: if_splits) (simp add: ac_simps)
    moreover have e: "4 + 2 * Suc (i div 2) = Suc (4 + i)" "5 + 2 * (i div 2) = 4 + i"
      using h(1) by simp_all
    moreover have "2 * Suc (i div 2) + length rest \<le> 2 * length (shown_cells c1)"
      using len h(1) s(3) unfolding b by simp
    ultimately have "vcs_wrote K c1 c' \<and> vcs_bytes True c' = put_at (Suc (4 + i)) rest (vcs_bytes True c1)"
      using write_words_bytes [OF K s(1,2)] by metis
    then show ?thesis
      using vcs_wrote_trans [OF w(1)] w(2) unfolding b put_at.simps e by simp
  qed
qed

lemma write_round_bytes:
  assumes K: "K = vga_contract ty b e bufs" and st: "vcs_steady K c" and v: "viewed = is_visible c"
    and bs: "bs \<noteq> []" and len: "int i + int (length bs) \<le> vcs_size attr (vc c)" and at: "attr \<longrightarrow> 4 \<le> i"
  shows "\<exists>c'. write_round vga_con attr viewed (int i) bs c = Inr c' \<and> vcs_wrote K c c' \<and>
    vcs_bytes attr c' = put_at i bs (vcs_bytes attr c)"
proof -
  note g = steady_cells(1,3) [OF st]
  have cells: "length (shown_cells c) = nat (vc_rows (vc c) * vc_cols (vc c))"
    by (simp add: shown_cells_def)
  have update: "\<exists>c'. update_region vga_con p n c1 = Inr c' \<and> vcs_wrote K c c' \<and> vcs_bytes attr c' = vcs_bytes attr c1"
    if "vcs_wrote K c c1" for c1 p n
  proof -
    have "vcs_steady K c1" using that by (simp add: vcs_wrote_def)
    then obtain c2 where "update_region vga_con p n c1 = Inr c2" "vcs_wrote K c1 c2" "shown_cells c2 = shown_cells c1"
      using update_region_steady [OF K] by blast
    then show ?thesis
      using vcs_wrote_trans [OF that] by (auto simp: vcs_bytes_def vcs_wrote_def)
  qed
  show ?thesis
  proof (cases attr)
    case False
    let ?col = "int i mod vc_cols (vc c)"
    obtain org c1 where w: "write_chars vga_con viewed bs (shown_at c + 2 * int i) ?col (int i + vc_cols (vc c) - ?col) c = (org, c1)"
      by (cases "write_chars vga_con viewed bs (shown_at c + 2 * int i) ?col (int i + vc_cols (vc c) - ?col) c") auto
    have "i + length bs \<le> length (shown_cells c)"
      using False len g by (simp add: cells vcs_size_def)
    from write_chars_bytes [OF K st v this w] show ?thesis
      using False update [of c1] g w v
      by (auto simp: write_round_def Let_def vga_screen_pos)
  next
    case True
    define j where "j = i - 4"
    have j: "i = 4 + j" using at True by (simp add: j_def)
    obtain org c1 where w: "write_cells vga_con viewed bs (int j) c = (org, c1)"
      by (cases "write_cells vga_con viewed bs (int j) c") auto
    have "j + length bs \<le> 2 * length (shown_cells c)"
      using True len g by (simp add: cells vcs_size_def j)
    from write_cells_bytes [OF K st v bs this w] show ?thesis
      using True update [of c1] g w bs by (auto simp: write_round_def Let_def j)
  qed
qed

lemma vcs_write_loop_bytes:
  assumes K: "K = vga_contract ty b e bufs" and bsz: "0 < bsz"
  shows "vcs_steady K c \<Longrightarrow> viewed = is_visible c \<Longrightarrow> int i + int (length bs) \<le> vcs_size attr (vc c) \<Longrightarrow>
    (attr \<longrightarrow> 4 \<le> i) \<Longrightarrow> length bs < fuel \<Longrightarrow>
    \<exists>c'. vcs_write_loop vga_con bsz attr viewed (\<lambda>_ _. 0) fuel (int i) bs written c = Inr (Inr (written + int (length bs)), c') \<and>
      vcs_wrote K c c' \<and> vcs_bytes attr c' = put_at i bs (vcs_bytes attr c)"
proof (induction fuel arbitrary: i bs written c)
  case (Suc fuel)
  show ?case
  proof (cases "bs = []")
    case True
    then show ?thesis using Suc.prems(1) by (simp add: vcs_wrote_def)
  next
    case False
    define n where "n = min (length bs) (nat bsz)"
    have n: "0 < n" "n \<le> length bs" "min (int (length bs)) bsz = int n"
      using False bsz by (auto simp: n_def)
    let ?bs = "take n bs" and ?rest = "drop n bs"
    have lens: "length ?bs = n" "int (length ?rest) = int (length bs) - int n" using n by simp_all
    obtain c1 where r: "write_round vga_con attr viewed (int i) ?bs c = Inr c1" "vcs_wrote K c c1"
      "vcs_bytes attr c1 = put_at i ?bs (vcs_bytes attr c)"
      using write_round_bytes [OF K Suc.prems(1,2), of ?bs i attr] Suc.prems(3,4) n False by auto
    note s = vcs_wrote_facts [OF Suc.prems(1) r(2) Suc.prems(2)] vcs_wrote_size [OF r(2), of attr]
    have pre: "int (i + n) + int (length ?rest) \<le> vcs_size attr (vc c1)" "attr \<longrightarrow> 4 \<le> i + n" "length ?rest < fuel"
      using Suc.prems(3-5) n s(5) lens by auto
    obtain c2 where c2: "vcs_write_loop vga_con bsz attr viewed (\<lambda>_ _. 0) fuel (int (i + n)) ?rest (written + int n) c1
        = Inr (Inr (written + int n + int (length ?rest)), c2)"
      "vcs_wrote K c1 c2" "vcs_bytes attr c2 = put_at (i + n) ?rest (vcs_bytes attr c1)"
      using Suc.IH [OF s(1,2) pre, of "written + int n"] by blast
    have "put_at i bs (vcs_bytes attr c) = vcs_bytes attr c2"
      using put_at_append [of i ?bs ?rest] r(3) c2(3) lens(1) by simp
    moreover have "int i < vcs_size attr (vc c)" "int n \<le> vcs_size attr (vc c) - int i"
      using Suc.prems(3) n by linarith+
    ultimately show ?thesis
      using False r c2 n lens vcs_wrote_trans [OF r(2) c2(2)] by (simp add: Let_def)
  qed
qed simp





section \<open>Writing in any state\<close>

text \<open>
  Whatever the cursor, the selection and the view are, writing returns and keeps the invariant: the cells it
  stores are cells of the screen.
\<close>

definition vcs_base :: "bool \<Rightarrow> vc_data \<Rightarrow> int" where
  "vcs_base viewed v = (if viewed then vc_visible_origin v else vc_origin v)"

lemma vga_screen_pos_base: "screen_pos vga_con v p viewed = vcs_base viewed v + 2 * p"
  by (simp add: screen_pos_def screenpos_def vcs_base_def vga_con_def)

definition vcs_kept :: "vga contract \<Rightarrow> vga con \<Rightarrow> vga con \<Rightarrow> bool" where
  "vcs_kept K c c' \<longleftrightarrow> keeps K c c' \<and> vc c' = vc c"

lemma vcs_kept_trans: "vcs_kept K a b \<Longrightarrow> vcs_kept K b c \<Longrightarrow> vcs_kept K a c"
  by (auto simp: vcs_kept_def intro: keeps_trans)

lemma base_cells:
  assumes wf: "wf_con (vga_contract ty b e bufs) c" and q: "0 \<le> q" "q < vc_rows (vc c) * vc_cols (vc c)"
  shows "vcs_base viewed (vc c) + 2 * q \<in> scr_region (vga_contract ty b e bufs)"
proof -
  let ?a = "vcs_base viewed (vc c) + 2 * q"
  note g = wf_geomD [OF wf_con_geom [OF wf]]
  have "2 * q + 2 * 1 \<le> vc_screenbuf_size (vc c)"
    using q g by (simp add: mult.left_commute)
  moreover have "screenpos vga_con (vc c) (2 * q) viewed = ?a"
    using vga_screen_pos_base [of "vc c" q viewed] by (simp add: screen_pos_def)
  ultimately have "{?a ..< ?a + 2 * 1} \<subseteq> scr_region (vga_contract ty b e bufs)"
    using vga.screenpos_region [OF wf_con_vc [OF wf], of "2 * q" 1 viewed] q by simp
  then show ?thesis by (rule subsetD) simp
qed

lemma writew_kept:
  assumes wf: "wf_con (vga_contract ty b e bufs) c" and q: "0 \<le> q" "q < vc_rows (vc c) * vc_cols (vc c)"
  shows "vcs_kept (vga_contract ty b e bufs) c (vcs_scr_writew vga_con w (vcs_base viewed (vc c) + 2 * q) c)"
proof -
  let ?K = "vga_contract ty b e bufs" and ?a = "vcs_base viewed (vc c) + 2 * q"
  have m: "keeps ?K c (upd_mem (scr_writew w ?a) c)"
    using wf base_cells [OF wf q] by (intro keeps_upd_mem same_off_writew) simp_all
  have "keeps ?K c (add_softcursor vga_con (upd_vt d (\<lambda>t. t\<lparr>cursor_original := None\<rparr>) (upd_mem (scr_writew w ?a) c)))" for d
    using keeps_step [OF keeps_step [OF m vga.cursor_original_ok] vga.add_softcursor_ok] .
  moreover have "vc (add_softcursor vga_con c1) = vc c1" for c1
    by (simp add: add_softcursor_def Let_def vga_con_def)
  ultimately show ?thesis
    using m by (cases "?a = vc_pos (vc c)") (simp_all add: vcs_kept_def vcs_scr_writew_def Let_def)
qed

lemma next_cell_base:
  fixes v :: vc_data and col q :: int
  defines "col1 \<equiv> if col + 1 = vc_cols v then 0 else col + 1"
  shows "(if col + 1 = vc_cols v
      then F (screen_pos vga_con v (q + vc_cols v - col) viewed) 0 (q + vc_cols v - col + vc_cols v)
      else F (vcs_base viewed v + 2 * q + 2) (col + 1) (q + vc_cols v - col))
    = F (vcs_base viewed v + 2 * (q + 1)) col1 (q + 1 + vc_cols v - col1)"
proof (cases "col + 1 = vc_cols v")
  case True
  then have p: "q + vc_cols v - col = q + 1" by simp
  show ?thesis unfolding p using True by (simp add: vga_screen_pos_base col1_def)
next
  case False
  have "q + vc_cols v - col = q + 1 + vc_cols v - (col + 1)"
    "vcs_base viewed v + 2 * q + 2 = vcs_base viewed v + 2 * (q + 1)" by simp_all
  then show ?thesis using False by (simp only: if_False col1_def)
qed

lemma write_chars_kept:
  assumes "wf_con (vga_contract ty b e bufs) c" "0 \<le> q" "q + int (length bs) \<le> vc_rows (vc c) * vc_cols (vc c)"
  shows "vcs_kept (vga_contract ty b e bufs) c
    (snd (write_chars vga_con viewed bs (vcs_base viewed (vc c) + 2 * q) col (q + vc_cols (vc c) - col) c))"
  using assms
proof (induction bs arbitrary: q col c)
  case Nil
  then show ?case by (simp add: vcs_kept_def)
next
  case (Cons x bs)
  let ?K = "vga_contract ty b e bufs" and ?org = "vcs_base viewed (vc c) + 2 * q"
  define c1 where "c1 = vcs_scr_writew vga_con ((vcs_scr_readw c ?org AND 0xff00) OR ucast x) ?org c"
  have k: "vcs_kept ?K c c1"
    unfolding c1_def using Cons.prems by (intro writew_kept) simp_all
  then have v: "vc c1 = vc c" "wf_con ?K c1" by (auto simp: vcs_kept_def dest: keeps_wf)
  let ?col = "if col + 1 = vc_cols (vc c) then 0 else col + 1"
  have rest: "vcs_kept ?K c1 (snd (write_chars vga_con viewed bs (vcs_base viewed (vc c) + 2 * (q + 1)) ?col
      (q + 1 + vc_cols (vc c) - ?col) c1))"
    using Cons.IH [OF v(2), of "q + 1" ?col] Cons.prems by (simp add: v(1))
  show ?case
    unfolding write_chars.simps Let_def c1_def [symmetric] v(1)
      next_cell_base [of col "vc c" "\<lambda>org col p. write_chars vga_con viewed bs org col p c1" q viewed]
    by (rule vcs_kept_trans [OF k rest])
qed

lemma write_words_kept:
  assumes "wf_con (vga_contract ty b e bufs) c" "0 \<le> q" "2 * q + int (length bs) \<le> 2 * (vc_rows (vc c) * vc_cols (vc c))"
  shows "vcs_kept (vga_contract ty b e bufs) c
    (snd (write_words vga_con viewed bs (vcs_base viewed (vc c) + 2 * q) col (q + vc_cols (vc c) - col) c))"
  using assms
proof (induction bs arbitrary: q col c rule: induct_list012)
  case 1
  then show ?case by (simp add: vcs_kept_def)
next
  case (2 x)
  then show ?case using writew_kept [OF 2(1,2)] by simp
next
  case (3 x y bs)
  let ?K = "vga_contract ty b e bufs" and ?org = "vcs_base viewed (vc c) + 2 * q"
  define c1 where "c1 = vcs_scr_writew vga_con (push_bit 8 (ucast y) OR ucast x) ?org c"
  have k: "vcs_kept ?K c c1"
    unfolding c1_def using 3(3-5) by (intro writew_kept) simp_all
  then have v: "vc c1 = vc c" "wf_con ?K c1" by (auto simp: vcs_kept_def dest: keeps_wf)
  let ?col = "if col + 1 = vc_cols (vc c) then 0 else col + 1"
  have rest: "vcs_kept ?K c1 (snd (write_words vga_con viewed bs (vcs_base viewed (vc c) + 2 * (q + 1)) ?col
      (q + 1 + vc_cols (vc c) - ?col) c1))"
    using 3(1) [OF v(2), of "q + 1" ?col] 3(4,5) by (simp add: v(1))
  show ?case
    unfolding write_words.simps Let_def c1_def [symmetric] v(1)
      next_cell_base [of col "vc c" "\<lambda>org col p. write_words vga_con viewed bs org col p c1" q viewed]
    by (rule vcs_kept_trans [OF k rest])
qed

lemma write_cells_kept:
  assumes wf: "wf_con (vga_contract ty b e bufs) c"
    and p: "0 \<le> p" "p + int (length bs) \<le> 2 * (vc_rows (vc c) * vc_cols (vc c))"
  shows "vcs_kept (vga_contract ty b e bufs) c (snd (write_cells vga_con viewed bs p c))"
proof (cases bs)
  case (Cons x rest)
  let ?K = "vga_contract ty b e bufs" and ?q = "p div 2"
  let ?col = "?q mod vc_cols (vc c)" and ?org = "vcs_base viewed (vc c) + 2 * ?q"
  have q: "0 \<le> ?q" "?q < vc_rows (vc c) * vc_cols (vc c)"
    using p Cons by simp_all
  show ?thesis
  proof (cases "p mod 2 = 0")
    case True
    then have "2 * ?q + int (length bs) \<le> 2 * (vc_rows (vc c) * vc_cols (vc c))"
      using p by presburger
    then show ?thesis
      using write_words_kept [OF wf q(1), of bs viewed ?col] True Cons
      by (simp add: write_cells_def Let_def vga_screen_pos_base)
  next
    case False
    define c1 where "c1 = vcs_scr_writew vga_con (push_bit 8 (ucast x) OR (vcs_scr_readw c ?org AND 0xff)) ?org c"
    define col1 where "col1 = (if ?col + 1 = vc_cols (vc c) then 0 else ?col + 1)"
    have k: "vcs_kept ?K c c1"
      unfolding c1_def using wf q by (intro writew_kept)
    then have v: "vc c1 = vc c" "wf_con ?K c1" by (auto simp: vcs_kept_def dest: keeps_wf)
    have half: "(p + 1) div 2 = ?q + 1" "2 * (?q + 1) + int (length rest) \<le> 2 * (vc_rows (vc c) * vc_cols (vc c))"
      using False p Cons by (simp_all add: algebra_simps) presburger+
    have at: "(if ?col + 1 = vc_cols (vc c) then (screen_pos vga_con (vc c) (?q + 1) viewed, 0) else (?org + 2, ?col + 1))
        = (vcs_base viewed (vc c) + 2 * (?q + 1), col1)"
      by (simp add: col1_def vga_screen_pos_base)
    have "vcs_kept ?K c1 (snd (write_words vga_con viewed rest (vcs_base viewed (vc c) + 2 * (?q + 1)) col1
        (?q + 1 + vc_cols (vc c) - col1) c1))"
      using write_words_kept [OF v(2), of "?q + 1" rest viewed col1] q(1) half(2) v(1) by simp
    then show ?thesis
      using vcs_kept_trans [OF k] False
      unfolding write_cells_def Let_def Cons list.case vga_screen_pos_base c1_def [symmetric] half(1) v(1)
        at [unfolded vga_screen_pos_base] by simp
  qed
qed (use wf in \<open>simp add: vcs_kept_def write_cells_def Let_def\<close>)

text \<open>The header can only be written on a console that is not seen; then only the cursor moves.\<close>

lemma putconsxy_kept:
  assumes wf: "wf_con K c" and v: "viewed = is_visible c"
  obtains c1 where "(if p < 4 \<and> \<not> viewed then putconsxy sw x y c else Inr c) = Inr c1" "keeps K c c1"
    "vc_rows (vc c1) = vc_rows (vc c)" "vc_cols (vc c1) = vc_cols (vc c)"
proof -
  let ?c = "upd_vc (gotoxy (uint x) (uint y)) c"
  have k: "keeps K c ?c"
    by (rule keeps_upd_vc [OF wf]) (erule gotoxy_wf, simp_all add: gotoxy_def Let_def vc_ids_def settled_def)
  then have put: "putconsxy sw x y c = Inr ?c" if "\<not> is_visible c"
    using that keeps_visible [OF k] by (simp add: putconsxy_def set_cursor_def)
  show thesis
  proof (cases "p < 4 \<and> \<not> viewed")
    case True
    show thesis
    proof (rule that [OF _ k])
      show "(if p < 4 \<and> \<not> viewed then putconsxy sw x y c else Inr c) = Inr ?c"
        using True put v by simp
    qed (simp_all add: gotoxy_def Let_def)
  next
    case False
    then have "(if p < 4 \<and> \<not> viewed then putconsxy sw x y c else Inr c) = Inr c" by auto
    from that [OF this keeps_refl [OF wf] refl refl] show thesis .
  qed
qed

lemma write_round_kept:
  assumes wf: "wf_con (vga_contract ty b e bufs) c" and v: "viewed = is_visible c"
    and p: "0 \<le> p" "p + int (length bs) \<le> vcs_size attr (vc c)"
  shows "res_ok (keeps (vga_contract ty b e bufs) c) (write_round vga_con attr viewed p bs c)"
proof -
  let ?K = "vga_contract ty b e bufs"
  have cols: "vc_cols (vc c) \<noteq> 0"
    using wf_geomD(1) [OF wf_con_geom [OF wf]] by simp
  have update: "res_ok (keeps ?K c0) (update_region vga_con a n c2)" if "vcs_kept ?K c0 c2" for c0 c2 a n
  proof -
    have k: "keeps ?K c0 c2" using that by (simp add: vcs_kept_def)
    show ?thesis
      using vga.update_region_ok [OF keeps_wf [OF k]] keeps_trans [OF k] by (rule res_ok_mono)
  qed
  show ?thesis
  proof (cases attr)
    case False
    let ?col = "p mod vc_cols (vc c)"
    have "vcs_kept ?K c (snd (write_chars vga_con viewed bs (vcs_base viewed (vc c) + 2 * p) ?col (p + vc_cols (vc c) - ?col) c))"
      using write_chars_kept [OF wf p(1)] p(2) False by (simp add: vcs_size_def)
    then show ?thesis
      using False cols update by (auto simp: write_round_def Let_def vga_screen_pos_base split: prod.split)
  next
    case True
    define k where "k = (if p < 4 then min (nat (4 - p)) (length bs) else 0)"
    let ?head = "take (nat p) ([0, 0] @ getconsxy (vc c)) @ take k bs @ drop (nat p + k) ([0, 0] @ getconsxy (vc c))"
    obtain c1 where c1: "(if p < 4 \<and> \<not> viewed then putconsxy vga_con (?head ! 2) (?head ! 3) c else Inr c) = Inr c1"
      "keeps ?K c c1" "vc_rows (vc c1) = vc_rows (vc c)" "vc_cols (vc c1) = vc_cols (vc c)"
      by (rule putconsxy_kept [OF wf v])
    have "res_ok (keeps ?K c1) (update_region vga_con a n (snd (write_cells vga_con viewed (drop k bs) (p + int k - 4) c1)))"
      if "drop k bs \<noteq> []" for a n
    proof (rule update, rule write_cells_kept [OF keeps_wf [OF c1(2)]])
      show "0 \<le> p + int k - 4"
        using that by (auto simp: k_def split: if_splits)
      then show "p + int k - 4 + int (length (drop k bs)) \<le> 2 * (vc_rows (vc c1) * vc_cols (vc c1))"
        using that p(2) True c1(3,4) by (simp add: vcs_size_def)
    qed
    then have "res_ok (keeps ?K c) (update_region vga_con a n (snd (write_cells vga_con viewed (drop k bs) (p + int k - 4) c1)))"
      if "drop k bs \<noteq> []" for a n
      using that keeps_trans [OF c1(2)] res_ok_mono by blast
    then show ?thesis
      unfolding write_round_def Let_def k_def [symmetric] c1(1)
      using True cols c1(2) by (simp add: case_prod_beta)
  qed
qed

lemma vcs_write_loop_kept:
  assumes bsz: "0 < bsz" and un: "\<forall>p n. 0 \<le> uncopied p n"
  shows "wf_con (vga_contract ty b e bufs) c \<Longrightarrow> viewed = is_visible c \<Longrightarrow> 0 \<le> pos \<Longrightarrow> length bs < fuel \<Longrightarrow>
    res_ok (\<lambda>(_, c'). keeps (vga_contract ty b e bufs) c c')
      (vcs_write_loop vga_con bsz attr viewed uncopied fuel pos bs written c)"
proof (induction fuel arbitrary: pos bs written c)
  case (Suc fuel)
  let ?K = "vga_contract ty b e bufs" and ?size = "vcs_size attr (vc c)"
  define n0 where "n0 = min (int (length bs)) bsz - uncopied pos (min (int (length bs)) bsz)"
  define n where "n = (if n0 > ?size - pos then ?size - pos else n0)"
  show ?case
  proof (cases "bs = [] \<or> n0 \<le> 0 \<or> ?size \<le> pos")
    case True
    then show ?thesis
      using Suc.prems(1) by (auto simp: Let_def n0_def)
  next
    case False
    then have n: "0 < n" "n \<le> int (length bs)" "pos + n \<le> ?size"
      using un [THEN spec, THEN spec, of pos "min (int (length bs)) bsz"] by (auto simp: n_def n0_def)
    have round: "res_ok (keeps ?K c) (write_round vga_con attr viewed pos (take (nat n) bs) c)"
      using n by (intro write_round_kept Suc.prems) simp_all
    then obtain c1 where c1: "write_round vga_con attr viewed pos (take (nat n) bs) c = Inr c1" "keeps ?K c c1"
      by (auto simp: res_ok_ex)
    have "res_ok (\<lambda>(_, c'). keeps ?K c1 c')
        (vcs_write_loop vga_con bsz attr viewed uncopied fuel (pos + n) (drop (nat n) bs) (written + n) c1)"
      using n Suc.prems(2-4) keeps_visible [OF c1(2)] by (intro Suc.IH keeps_wf [OF c1(2)]) auto
    then have "res_ok (\<lambda>(_, c'). keeps ?K c c')
        (vcs_write_loop vga_con bsz attr viewed uncopied fuel (pos + n) (drop (nat n) bs) (written + n) c1)"
      by (rule res_ok_mono) (auto intro: keeps_trans [OF c1(2)])
    moreover have "vcs_write_loop vga_con bsz attr viewed uncopied (Suc fuel) pos bs written c =
        vcs_write_loop vga_con bsz attr viewed uncopied fuel (pos + n) (drop (nat n) bs) (written + n) c1"
      using False c1(1) unfolding vcs_write_loop.simps Let_def n0_def [symmetric] n_def [symmetric] by simp
    ultimately show ?thesis by simp
  qed
qed simp

lemma vcs_write_keeps:
  assumes "wf_con (vga_contract ty b e bufs) c" "0 < bsz" "\<forall>p n. 0 \<le> uncopied p n"
  shows "res_ok (\<lambda>(_, c'). keeps (vga_contract ty b e bufs) c c') (vcs_write vga_con bsz attr uncopied pos buf c)"
proof (cases "pos < 0 \<or> vcs_size attr (vc c) < pos")
  case False
  let ?buf = "if int (length buf) > vcs_size attr (vc c) - pos then take (nat (vcs_size attr (vc c) - pos)) buf else buf"
  have "res_ok (\<lambda>(_, c'). keeps (vga_contract ty b e bufs) c c')
      (vcs_write_loop vga_con bsz attr (is_visible c) uncopied (Suc (length ?buf)) pos ?buf 0 c)"
    using False by (intro vcs_write_loop_kept assms refl) simp_all
  then show ?thesis
    using False unfolding vcs_write_def Let_def by (simp only: if_False)
qed (use assms(1) in \<open>simp add: vcs_write_def\<close>)

end
