(* ===== verification/Vt_Tiocl.thy ===== *)
theory Vt_Tiocl
  imports Selection Vt_Ioctl
begin

text \<open>
  The \<open>TIOCLINUX\<close> request of a console, \<open>tioclinux\<close> of drivers/char/vt.c: selection and pasting, blanking, scrolling
  and what user space asks of the state.

  \<open>tiocl_user\<close> is what is found in the memory of the process: the type of the request, the selection, the word table,
  a byte and a number of lines; \<open>None\<close> and the \<open>bad\<close> fields are faults.
\<close>

record tiocl_user =
  tiocl_type :: "u8 option"
  selection_bad :: bool
  sel_xs :: u16
  sel_ys :: u16
  sel_xe :: u16
  sel_ye :: u16
  sel_mode :: int
  lut_bad :: bool
  lut_words :: "32 word list"
  byte_arg :: "u8 option"
  lines_arg :: "int option"
  put_bad :: bool

text \<open>Whether the tty is a console's, the permissions of the caller, and what memory and the line discipline answer.\<close>

record tiocl_env =
  console_tty :: bool
  own_tty :: bool
  admin :: bool
  no_buffer :: bool
  throttled :: "nat \<Rightarrow> bool"
  paste_room :: "nat \<Rightarrow> int"

definition err_ret :: "errno option \<Rightarrow> ioctl_ret" where
  "err_ret e = (case e of None \<Rightarrow> Inr 0 | Some x \<Rightarrow> Inl x)"

definition put_ret :: "tiocl_user \<Rightarrow> ioctl_ret" where
  "put_ret u = (if put_bad u then Inl EFAULT else Inr 0)"

text \<open>
  The request on a console's tty. The result is the return value, the byte stored in the process's memory if there is one,
  and the state; \<open>fuel\<close> bounds the rounds of pasting, which waits for the line discipline.
\<close>

definition tioclinux ::
  "'d consw \<Rightarrow> tiocl_env \<Rightarrow> tiocl_user \<Rightarrow> nat \<Rightarrow> selection \<times> 'd kcon
     \<Rightarrow> (ioctl_ret \<times> u8 option \<times> selection \<times> 'd kcon) res" where
  "tioclinux sw e u fuel = (\<lambda>(s, k).
     let c = kc k; d = display_fg (vc c); same = (\<lambda>r. Inr (r, None, s, k)) in
     if \<not> console_tty e then same (Inl EINVAL)
     else if \<not> own_tty e \<and> \<not> admin e then same (Inl EPERM)
     else case tiocl_type u of
         None \<Rightarrow> same (Inl EFAULT)
       | Some ty \<Rightarrow>
           if ty = 2 \<comment> \<open>\<open>TIOCL_SETSEL\<close>\<close>
           then res_bind (set_selection sw (selection_bad u) (no_buffer e) (sel_xs u) (sel_ys u) (sel_xe u) (sel_ye u)
                    (sel_mode u) (s, c)) (\<lambda>(r, s', c'). Inr (err_ret r, None, s', k\<lparr>kc := c'\<rparr>))
           else if ty = 3 \<comment> \<open>\<open>TIOCL_PASTESEL\<close>\<close>
           then res_bind (paste_selection sw (throttled e) (paste_room e) fuel (s, c)) (\<lambda>(_, c').
                  Inr (Inr 0, None, s, k\<lparr>kc := c'\<rparr>))
           else if ty = 4 \<comment> \<open>\<open>TIOCL_UNBLANKSCREEN\<close>\<close>
           then res_bind (unblank_screen sw c) (\<lambda>c'. Inr (Inr 0, None, s, k\<lparr>kc := c'\<rparr>))
           else if ty = 5 \<comment> \<open>\<open>TIOCL_SELLOADLUT\<close>\<close>
           then let (r, s') = sel_loadlut (lut_words u) (lut_bad u) s in Inr (err_ret r, None, s', k)
           else if ty = 6 \<comment> \<open>\<open>TIOCL_GETSHIFTSTATE\<close>\<close>
           then Inr (put_ret u, Some (ucast (shift_state (kb k))), s, k)
           else if ty = 7 \<comment> \<open>\<open>TIOCL_GETMOUSEREPORTING\<close>\<close>
           then Inr (put_ret u, Some (word_of_int (vc_report_mouse (vc c))), s, k)
           else if ty = 10 \<comment> \<open>\<open>TIOCL_SETVESABLANK\<close>, through a signed \<open>char\<close>\<close>
           then (case byte_arg u of
                   None \<Rightarrow> same (Inl EFAULT)
                 | Some x \<Rightarrow> Inr (Inr 0, None, s,
                     k\<lparr>kc := upd_vt d (\<lambda>t. t\<lparr>blank_mode := (if sint x < 4 then sint x else 0)\<rparr>) c\<rparr>))
           else if ty = 11 \<comment> \<open>\<open>TIOCL_SETKMSGREDIRECT\<close>\<close>
           then (if \<not> admin e then same (Inl EPERM)
                 else case byte_arg u of
                     None \<Rightarrow> same (Inl EFAULT)
                   | Some x \<Rightarrow> Inr (Inr 0, None, s\<lparr>kmsg_redirect := sint x\<rparr>, k))
           else if ty = 12 \<comment> \<open>\<open>TIOCL_GETFGCONSOLE\<close>\<close>
           then (case fg_console (vts c d) of
                   None \<Rightarrow> Inl Null_deref
                 | Some n \<Rightarrow> (case get_console c n of None \<Rightarrow> Inl Dangling | Some v \<Rightarrow> same (Inr (vc_num v))))
           else if ty = 13 \<comment> \<open>\<open>TIOCL_SCROLLCONSOLE\<close>\<close>
           then (case lines_arg u of
                   None \<Rightarrow> same (Inl EFAULT)
                 | Some n \<Rightarrow> Inr (Inr 0, None, s, k\<lparr>kc := scroll_down n c\<rparr>))
           else if ty = 14 \<comment> \<open>\<open>TIOCL_BLANKSCREEN\<close>\<close>
           then res_bind (do_blank_screen sw d False (c\<lparr>ignore_poke := True\<rparr>)) (\<lambda>c'.
                  Inr (Inr 0, None, s, k\<lparr>kc := c'\<rparr>))
           else if ty = 15 \<comment> \<open>\<open>TIOCL_BLANKEDSCREEN\<close>\<close>
           then same (Inr (if vt_blanked (vts c d) then 1 else 0))
           else same (Inl EINVAL))"

end
