(* ===== verification/Tiocl_Props.thy ===== *)
theory Tiocl_Props
  imports System_Inv Selection_Props Vt_Tiocl
begin

text \<open>Every \<open>TIOCLINUX\<close> request returns and keeps the invariant of the driver.\<close>

lemma paste_loop_ends:
  assumes "\<forall>k. \<not> thr k \<and> 0 < room k"
  shows "length xs \<le> fuel \<Longrightarrow> res_ok (\<lambda>_. True) (paste_loop thr room fuel k xs)"
proof (induction fuel arbitrary: k xs)
  case (Suc fuel)
  show ?case
  proof (cases "xs = []")
    case False
    have "0 < room k" using assms by blast
    then have "0 < nat (min (int (length xs)) (room k))"
      using False by simp
    then have "length (drop (nat (min (int (length xs)) (room k))) xs) \<le> fuel"
      unfolding length_drop using Suc.prems by linarith
    from Suc.IH [OF this, of "Suc k"] show ?thesis
      using assms False by (auto simp: Let_def res_ok_ex)
  qed simp
qed simp

text \<open>
  When a request can be made: a selection on the console in front; pasting while the line discipline takes some bytes in
  every round; the console in front and blanking on a display in use.
\<close>

definition tiocl_ready :: "tiocl_env \<Rightarrow> tiocl_user \<Rightarrow> nat \<Rightarrow> selection \<Rightarrow> 'd con \<Rightarrow> bool" where
  "tiocl_ready e u fuel s c \<longleftrightarrow>
     (tiocl_type u = Some 2 \<longrightarrow> is_visible c) \<and>
     (tiocl_type u = Some 3 \<longrightarrow> (\<forall>k. \<not> throttled e k \<and> 0 < paste_room e k) \<and>
        (case sel_buffer s of None \<Rightarrow> True | Some xs \<Rightarrow> length xs \<le> fuel)) \<and>
     (tiocl_type u \<in> {Some 12, Some 14} \<longrightarrow> fg_console (vt c) \<noteq> None)"

lemma tioclinux_sys:
  assumes wf: "wf_con (vga_contract VIDEO_TYPE_VGAC b e bufs) (kc k)" "wf_kb N (kb k)"
    and r: "tiocl_ready env u fuel s (kc k)"
  shows "res_ok (\<lambda>(_, _, _, k'). sys_ok N (vga_contract VIDEO_TYPE_VGAC b e bufs) k k') (tioclinux vga_con env u fuel (s, k))"
proof -
  let ?K = "vga_contract VIDEO_TYPE_VGAC b e bufs"
  let ?c = "kc k"
  let ?d = "display_fg (vc ?c)"
  let ?ok = "\<lambda>r. res_ok (\<lambda>(_, _, _, k'). sys_ok N ?K k k') r"
  have same: "?ok (Inr (x, y, z, k))" for x :: ioctl_ret and y :: "u8 option" and z
    using sys_ok_refl [OF wf] by simp
  have keep: "sys_ok N ?K k (k\<lparr>kc := c'\<rparr>)" if "keeps ?K ?c c'" for c'
    using keeps_sys_ok [of ?K k "k\<lparr>kc := c'\<rparr>"] that wf(2) by simp
  have poke: "res_ok (keeps ?K ?c) (poke_blanked_console vga_con ?d ?c)"
    by (rule vga.poke_blanked_console_ok [OF wf(1)])
  have sel: "?ok (res_bind (set_selection vga_con (selection_bad u) (no_buffer env) (sel_xs u) (sel_ys u) (sel_xe u) (sel_ye u)
      (sel_mode u) (s, ?c)) (\<lambda>(r, s', c'). Inr (err_ret r, None, s', k\<lparr>kc := c'\<rparr>)))" if "is_visible ?c"
    using set_selection_keeps [OF wf(1) that, of "selection_bad u" "no_buffer env" "sel_xs u" "sel_ys u" "sel_xe u" "sel_ye u" "sel_mode u" s]
      keep by auto
  have paste: "?ok (res_bind (paste_selection vga_con (throttled env) (paste_room env) fuel (s, ?c))
      (\<lambda>(_, c'). Inr (Inr 0, None, s, k\<lparr>kc := c'\<rparr>)))" if "tiocl_type u = Some 3"
  proof -
    have "res_ok (\<lambda>_. True) (case sel_buffer s of None \<Rightarrow> Inr []
        | Some xs \<Rightarrow> paste_loop (throttled env) (paste_room env) fuel 0 xs)"
      using r that by (auto simp: tiocl_ready_def intro!: paste_loop_ends split: option.splits)
    then show ?thesis
      using poke keep by (auto simp: paste_selection_def res_ok_ex)
  qed
  have unblank: "?ok (res_bind (unblank_screen vga_con ?c) (\<lambda>c'. Inr (Inr 0, None, s, k\<lparr>kc := c'\<rparr>)))"
    using vga.unblank_screen_ok [OF wf(1)] keep by (auto simp: res_ok_ex)
  have blank: "?ok (res_bind (do_blank_screen vga_con ?d False (?c\<lparr>ignore_poke := True\<rparr>))
      (\<lambda>c'. Inr (Inr 0, None, s, k\<lparr>kc := c'\<rparr>)))" if "tiocl_type u = Some 14"
  proof -
    have kp: "keeps ?K ?c (?c\<lparr>ignore_poke := True\<rparr>)" using wf(1) by simp
    have "fg_console (vts (?c\<lparr>ignore_poke := True\<rparr>) ?d) \<noteq> None"
      using r that by (simp add: tiocl_ready_def vt_def)
    then obtain c2 where c2: "do_blank_screen vga_con ?d False (?c\<lparr>ignore_poke := True\<rparr>) = Inr c2"
      "framed ({b ..< e} \<union> bufs) (vts ?c) (?c\<lparr>ignore_poke := True\<rparr>) c2" "wf_con ?K c2"
      using do_blank_screen_ok [OF keeps_wf [OF kp], of ?d False] by (auto simp: res_ok_ex)
    have "stays ({b ..< e} \<union> bufs) ?c c2"
      using stays_trans [OF keeps_stays [OF kp]] framed_stays [of _ "?c\<lparr>ignore_poke := True\<rparr>" c2] c2(2) by simp
    then show ?thesis
      using c2(1,3) wf(2) by (simp add: sys_ok_def)
  qed
  have vesa: "sys_ok N ?K k (k\<lparr>kc := upd_vt ?d (\<lambda>t. t\<lparr>blank_mode := m\<rparr>) ?c\<rparr>)" for m
    using wf(1) by (intro keep keeps_upd_vt) (simp_all add: vt_ids_def)
  have scroll: "sys_ok N ?K k (k\<lparr>kc := scroll_down n ?c\<rparr>)" for n
    using wf(1) by (intro keep) (simp add: scroll_down_def vga.scrolldelta_ok)
  have front: "?ok (case fg_console (vts ?c ?d) of None \<Rightarrow> Inl Null_deref
      | Some n \<Rightarrow> (case get_console ?c n of None \<Rightarrow> Inl Dangling | Some v \<Rightarrow> Inr (Inr (vc_num v) :: ioctl_ret, None, s, k)))"
    if t: "tiocl_type u = Some 12"
  proof -
    obtain n where "fg_console (vts ?c ?d) = Some n"
      using r t by (auto simp: tiocl_ready_def vt_def)
    then show ?thesis
      using wf_conD(3) [OF wf(1), of ?d n] same by (auto split: option.split)
  qed
  show ?thesis
  proof (cases "\<not> console_tty env \<or> (\<not> own_tty env \<and> \<not> admin env) \<or> tiocl_type u = None")
    case True
    then show ?thesis using same by (auto simp: tioclinux_def Let_def)
  next
    case False
    then obtain ty where ty: "tiocl_type u = Some ty" "\<not> \<not> console_tty env" "\<not> (\<not> own_tty env \<and> \<not> admin env)" by blast
    have vis: "ty = 2 \<Longrightarrow> is_visible ?c" using r ty(1) by (simp add: tiocl_ready_def)
    show ?thesis
      unfolding tioclinux_def Let_def prod.case ty(1) option.case if_not_P [OF ty(2)] if_not_P [OF ty(3)]
      using same sel [OF vis] paste unblank blank vesa scroll front ty(1)
      by (auto split: option.split prod.split simp: sys_ok_refl [OF wf])
  qed
qed

end
