(* ===== verification/Vt_System.thy ===== *)
theory Vt_System
  imports Vt_Requests Vc_Screen_Props Tiocl_Props
begin

text \<open>
  The driver as a whole: everything that enters it from outside, as steps on its state in any
  order, and the invariant that no step breaks. The steps are a key event, a process writing to a console or to its screen memory device, a
  kernel message, a selection with the mouse, an ioctl of a console, \<open>TIOCLINUX\<close> included, and the parts of the work queue handler of a display: the switch, the poke and the
  blanking that were requested. Scrolling back through video memory is left out: it may move the window that is seen
  past the end of video memory (see the header).
\<close>

section \<open>Steps\<close>

datatype sys_event =
    Key kenv "int \<Rightarrow> u8" int bool input_event \<comment> \<open>of a keyboard of this display\<close>
  | Write int bool "nat \<Rightarrow> bool" "int list"
  | Message int bool bool "int list"
  | Select int selection bool bool u16 u16 u16 u16 int
  | Vcs_write int bool int "int \<Rightarrow> int \<Rightarrow> int" int "u8 list"
  | Tiocl int tiocl_env tiocl_user selection nat
  | Request int request
  | Work_switch kenv int
  | Work_poke int
  | Work_blank int

definition sys_step :: "'d consw \<Rightarrow> sys_event \<Rightarrow> 'd kcon \<Rightarrow> 'd kcon res" where
  "sys_step sw ev s =
     (case ev of
        Key e xlate d hw_raw key \<Rightarrow> kbd_event sw e xlate (Some d) hw_raw key s
      | Write n irq stopped buf \<Rightarrow>
          on_con_res (in_console (Some n) (\<lambda>c. res_bind (vt_write sw irq stopped buf c) (\<lambda>(_, c'). Inr c'))) s
      | Message n printable crash msg \<Rightarrow> on_con_res (in_console (Some n) (vt_console_print sw printable crash msg)) s
      | Select n sel bad af xs ys xe ye mode \<Rightarrow>
          on_con_res (in_console (Some n)
            (\<lambda>c. res_bind (set_selection sw bad af xs ys xe ye mode (sel, c)) (\<lambda>(_, _, c'). Inr c'))) s
      | Vcs_write n attr bsz uncopied pos buf \<Rightarrow>
          on_con_res (in_console (Some n)
            (\<lambda>c. res_bind (vcs_write sw bsz attr uncopied pos buf c) (\<lambda>(_, c'). Inr c'))) s
      | Tiocl n e u sel fuel \<Rightarrow>
          in_kconsole (Some n) (\<lambda>s. res_bind (tioclinux sw e u fuel (sel, s)) (\<lambda>(_, _, _, s'). Inr s')) s
      | Request n r \<Rightarrow> in_kconsole (Some n) (request_step sw r) s
      | Work_switch e d \<Rightarrow> callback_switch sw e d s
      | Work_poke d \<Rightarrow> callback_poke sw d s
      | Work_blank d \<Rightarrow> on_con_res (callback_blank sw d) s)"

text \<open>
  When a step can happen: events come for displays in use and key codes the tables have, writes and messages
  go to consoles that exist, a selection is made on the console in front of its display, the handler runs after a request; a switch needs a display that is not blanked by
  other means than its palette or graphics mode.
\<close>

definition enabled :: "nat \<Rightarrow> vga kcon \<Rightarrow> sys_event \<Rightarrow> bool" where
  "enabled N s ev \<longleftrightarrow>
     (case ev of
        Key e xlate d hw_raw key \<Rightarrow> fg_console (vts (kc s) d) \<noteq> None \<and>
          (case key of Key_event k v \<Rightarrow> 0 \<le> k \<and> k < int N \<and> k < 512 | _ \<Rightarrow> True)
      | Write n irq stopped buf \<Rightarrow> get_console (kc s) n \<noteq> None \<and> (\<forall>ch \<in> set buf. 0 \<le> ch \<and> ch < 256)
      | Message n printable crash msg \<Rightarrow> get_console (kc s) n \<noteq> None
      | Select n sel bad af xs ys xe ye mode \<Rightarrow>
          (case get_console (kc s) n of None \<Rightarrow> False | Some v \<Rightarrow> fg_console (vts (kc s) (display_fg v)) = Some n)
      | Vcs_write n attr bsz uncopied pos buf \<Rightarrow>
          get_console (kc s) n \<noteq> None \<and> 0 < bsz \<and> (\<forall>p k. 0 \<le> uncopied p k)
      | Tiocl n e u sel fuel \<Rightarrow>
          (case get_console (kc s) n of None \<Rightarrow> False | Some v \<Rightarrow> tiocl_ready e u fuel sel ((kc s)\<lparr>vc := v\<rparr>))
      | Request n r \<Rightarrow> request_enabled N (kc s) n r
      | Work_switch e d \<Rightarrow> fg_console (vts (kc s) d) \<noteq> None \<and> want_vc (vts (kc s) d) \<noteq> None \<and>
          (vt_blanked (vts (kc s) d) \<longrightarrow> vga_is_gfx (drv (kc s)) \<or> vga_palette_blanked (drv (kc s)))
      | Work_poke d \<Rightarrow> True
      | Work_blank d \<Rightarrow> fg_console (vts (kc s) d) \<noteq> None)"

inductive reaches :: "nat \<Rightarrow> vga kcon \<Rightarrow> vga kcon \<Rightarrow> bool" for N s0 where
  start: "reaches N s0 s0"
| step: "reaches N s0 s \<Longrightarrow> enabled N s ev \<Longrightarrow> sys_step vga_con ev s = Inr s' \<Longrightarrow> reaches N s0 s'"

text \<open>One step.\<close>

lemma sys_step_ok:
  assumes inv: "sys_inv N (vga_contract VIDEO_TYPE_VGAC b e bufs) s" and en: "enabled N s ev"
  shows "case sys_step vga_con ev s of
      Inl f \<Rightarrow> f = Null_deref \<and> (\<exists>n irq stopped buf. ev = Write n irq stopped buf)
    | Inr s' \<Rightarrow> sys_ok N (vga_contract VIDEO_TYPE_VGAC b e bufs) s s'"
proof -
  let ?K = "vga_contract VIDEO_TYPE_VGAC b e bufs"
  note wf = sys_invD [OF inv]
  have total: ?thesis if "res_ok (sys_ok N ?K s) (sys_step vga_con ev s)"
    using that by (auto simp: res_ok_ex)
  show ?thesis
  proof (cases ev)
    case (Key env xlate d hw_raw key)
    have "res_ok (\<lambda>s'. wf_kb N (kb s') \<and> keeps ?K (kc s) (kc s')) (kbd_event vga_con env xlate (Some d) hw_raw key s)"
      using en Key wf wf_pool_front [OF wf(1,3)]
      by (intro vga.kbd_event_ok) (auto simp: enabled_def)
    then show ?thesis
      using Key keeps_sys_ok by (intro total) (auto simp: sys_step_def res_ok_ex)
  next
    case (Write n irq stopped buf)
    let ?f = "\<lambda>c. res_bind (vt_write vga_con irq stopped buf c) (\<lambda>(_, c'). Inr c')"
    have ex: "get_console (kc s) n \<noteq> None" "\<forall>ch \<in> set buf. 0 \<le> ch \<and> ch < 256"
      using en Write by (simp_all add: enabled_def)
    have "run_ok True ?K (kc s) id (in_console (Some n) ?f (kc s))"
    proof (rule in_console_run_ok [OF wf(1) ex(1)])
      fix c' assume c': "refocus (kc s) c'" "wf_con ?K c'" "vc_num (vc c') = n"
      have "get_console (kc s) n = Some (vc c')"
        using c'(1,3) get_console_own [of c'] by (simp add: refocus_sel)
      then have "run_ok True ?K c' snd (vt_write vga_con irq stopped buf c')"
        using c'(2) ex(2) all_settledD [OF wf(4)] by (intro vga.vt_write_run_ok) auto
      then show "run_ok True ?K c' id (?f c')"
        by (cases "vt_write vga_con irq stopped buf c'") (auto simp: case_prod_beta)
    qed
    then show ?thesis
      using Write wf(2) by (cases "in_console (Some n) ?f (kc s)") (auto simp: sys_step_def on_con_res_def intro: keeps_sys_ok)
  next
    case (Message n printable crash msg)
    have ex: "get_console (kc s) n \<noteq> None"
      using en Message by (simp add: enabled_def)
    have "res_ok (keeps ?K (kc s)) (in_console (Some n) (vt_console_print vga_con printable crash msg) (kc s))"
      by (rule keeps_in_console [OF wf(1) refl ex]) (rule kernel_message_keeps)
    then show ?thesis
      using Message wf(2) by (intro total) (auto simp: sys_step_def on_con_res_def res_ok_ex intro!: keeps_sys_ok)
  next
    case (Select n sel bad af xs ys xe ye mode)
    let ?f = "\<lambda>c. res_bind (set_selection vga_con bad af xs ys xe ye mode (sel, c)) (\<lambda>(_, _, c'). Inr c')"
    obtain v where v: "get_console (kc s) n = Some v" "fg_console (vts (kc s) (display_fg v)) = Some n"
      using en Select by (auto simp: enabled_def split: option.splits)
    have "res_ok (keeps ?K (kc s)) (in_console (Some n) ?f (kc s))"
    proof (rule keeps_in_console [OF wf(1) refl])
      fix c' assume c': "wf_con ?K c'" "vts c' = vts (kc s)" "vc_num (vc c') = n" "get_console c' = get_console (kc s)"
      then have "vc c' = v"
        using v(1) get_console_own [of c'] by simp
      then have "is_visible c'"
        using v(2) c'(2,3) by (simp add: is_visible_def vt_def)
      then obtain r s' c2 where "set_selection vga_con bad af xs ys xe ye mode (sel, c') = Inr (r, s', c2)" "keeps ?K c' c2"
        using set_selection_keeps [OF c'(1)] by blast
      then show "res_ok (keeps ?K c') (?f c')" by simp
    qed (use v in simp)
    then show ?thesis
      using Select wf(2) by (intro total) (auto simp: sys_step_def on_con_res_def res_ok_ex intro!: keeps_sys_ok)
  next
    case (Vcs_write n attr bsz uncopied pos buf)
    let ?f = "\<lambda>c. res_bind (vcs_write vga_con bsz attr uncopied pos buf c) (\<lambda>(_, c'). Inr c')"
    have ex: "get_console (kc s) n \<noteq> None" "0 < bsz" "\<forall>p k. 0 \<le> uncopied p k"
      using en Vcs_write by (simp_all add: enabled_def)
    have "res_ok (keeps ?K (kc s)) (in_console (Some n) ?f (kc s))"
    proof (rule keeps_in_console [OF wf(1) refl ex(1)])
      fix c' assume "wf_con ?K c'"
      then have "res_ok (\<lambda>(_, c2). keeps ?K c' c2) (vcs_write vga_con bsz attr uncopied pos buf c')"
        using ex(2,3) by (rule vcs_write_keeps)
      then show "res_ok (keeps ?K c') (?f c')" by (auto simp: res_ok_ex)
    qed
    then show ?thesis
      using Vcs_write wf(2) by (intro total) (auto simp: sys_step_def on_con_res_def res_ok_ex intro!: keeps_sys_ok)
  next
    case (Tiocl n env u sel fuel)
    obtain v where v: "get_console (kc s) n = Some v" "tiocl_ready env u fuel sel ((kc s)\<lparr>vc := v\<rparr>)"
      using en Tiocl by (auto simp: enabled_def split: option.splits)
    have "res_ok (sys_ok N ?K s) (in_kconsole (Some n) (\<lambda>s. res_bind (tioclinux vga_con env u fuel (sel, s)) (\<lambda>(_, _, _, s'). Inr s')) s)"
    proof (rule in_kconsole_sys [OF wf(1,2)])
      fix s' :: "vga kcon" assume s': "refocus (kc s) (kc s')" "vc_num (vc (kc s')) = n" "wf_kb N (kb s')" "wf_con ?K (kc s')"
      have "vc (kc s') = v"
        using v(1) s'(2) get_console_own [of "kc s'"] refocus_sel [OF s'(1)] by simp
      then have "tiocl_ready env u fuel sel (kc s')"
        using v(2) refocus_sel [OF s'(1)] by (simp add: tiocl_ready_def is_visible_def vt_def)
      from tioclinux_sys [OF s'(4,3) this]
      show "res_ok (sys_ok N ?K s') (res_bind (tioclinux vga_con env u fuel (sel, s')) (\<lambda>(_, _, _, s''). Inr s''))"
        by (auto simp: res_ok_ex)
    qed (use v in simp)
    then show ?thesis
      using Tiocl by (intro total) (simp add: sys_step_def)
  next
    case (Request n r)
    have en': "request_enabled N (kc s) n r" using en Request by (simp add: enabled_def)
    then have ex: "get_console (kc s) n \<noteq> None" by (auto simp: request_enabled_def split: option.splits)
    have "res_ok (sys_ok N ?K s) (in_kconsole (Some n) (request_step vga_con r) s)"
    proof (rule in_kconsole_sys [OF wf(1,2) ex])
      fix s' :: "vga kcon" assume s': "refocus (kc s) (kc s')" "vc_num (vc (kc s')) = n" "wf_kb N (kb s')" "wf_con ?K (kc s')"
      have "sys_inv N ?K s'"
        using s' wf(3,4) unfolding sys_inv_def wf_pool_def all_settled_def refocus_sel [OF s'(1)] by blast
      then show "res_ok (sys_ok N ?K s') (request_step vga_con r s')"
        using en' s'(2) request_enabled_refocus [OF s'(1)] by (intro request_ok) simp_all
    qed
    then show ?thesis
      using Request by (intro total) (simp add: sys_step_def)
  next
    case (Work_switch env d)
    then show ?thesis
      using callback_switch_sys [OF wf(1,2)] en by (intro total) (simp add: sys_step_def enabled_def)
  next
    case (Work_poke d)
    then show ?thesis
      using callback_poke_sys [OF wf(1,2)] by (intro total) (simp add: sys_step_def)
  next
    case (Work_blank d)
    then have "res_ok (\<lambda>c'. stays ({b ..< e} \<union> bufs) (kc s) c' \<and> wf_con ?K c') (callback_blank vga_con d (kc s))"
      using callback_blank_ok [OF wf(1)] en by (simp add: enabled_def)
    then show ?thesis
      using Work_blank on_con_res_sys [OF wf(2), of ?K] by (intro total) (simp add: sys_step_def)
  qed
qed


text \<open>
  C33. The invariant of the driver. Whatever keys are pressed, whatever processes write to whatever consoles
  and screen memory devices, select with the mouse and request of them, whatever the kernel prints and whenever the work queue handler switches, wakes or blanks the display, in any order
  and number: in every state that is reached, the invariants of consoles, displays, selection, character maps, video memory
  and keyboard hold, every console is registered with its display, nothing outside screen memory was written, and every
  step that is enabled completes, but for a write that asks for a console that does not exist.
\<close>

theorem reachable_safe:
  assumes "sys_inv N (vga_contract VIDEO_TYPE_VGAC b e bufs) s0" "reaches N s0 s"
  shows "sys_inv N (vga_contract VIDEO_TYPE_VGAC b e bufs) s \<and>
    same_off ({b ..< e} \<union> bufs) (mem (kc s0)) (mem (kc s)) \<and>
    (\<forall>ev f. enabled N s ev \<and> sys_step vga_con ev s = Inl f \<longrightarrow>
       f = Null_deref \<and> (\<exists>n irq stopped buf. ev = Write n irq stopped buf))"
proof -
  let ?K = "vga_contract VIDEO_TYPE_VGAC b e bufs"
  have "sys_inv N ?K s \<and> same_off ({b ..< e} \<union> bufs) (mem (kc s0)) (mem (kc s))"
    using assms(2)
  proof (induction rule: reaches.induct)
    case (step s ev s')
    then have "sys_ok N ?K s s'"
      using sys_step_ok [of N b e bufs s ev] by simp
    then have "sys_inv N ?K s'" "same_off ({b ..< e} \<union> bufs) (mem (kc s)) (mem (kc s'))"
      using step.IH sys_ok_inv stays_region by (blast, fastforce simp: sys_ok_def)
    then show ?case
      using step.IH by (blast intro: same_off_trans)
  qed (use assms(1) in simp)
  then show ?thesis
    using sys_step_ok [of N b e bufs s] by fastforce
qed

lemma sys_inv1: "sys_inv 255 (vga_contract VIDEO_TYPE_VGAC 0xb8000 0xc0000 bufs1) kcon1"
proof -
  have "wf_pool con1"
    by (auto simp: wf_pool_def get_console1 vts1 split: if_splits)
      (auto simp: con1_def con0_def vt0_def vc0_def vc1_def)
  moreover have "all_settled con1"
    by (simp add: all_settled_def get_console1 vc0_def vc1_def)
  ultimately show ?thesis
    by (simp add: sys_inv_def kcon1_sel wf_con1 wf_kb0)
qed

theorem reachable_safe_witness:
  "\<exists>s. reaches 255 kcon1 s \<and> sys_step vga_con (Work_switch env0 0) kcon1 = Inr s \<and>
    sys_inv 255 (vga_contract VIDEO_TYPE_VGAC 0xb8000 0xc0000 bufs1) s"
proof -
  have en: "enabled 255 kcon1 (Work_switch env0 0)"
    by (simp add: enabled_def kcon1_sel vts1) (simp add: vt0_def)
  obtain s where s: "sys_step vga_con (Work_switch env0 0) kcon1 = Inr s"
    using sys_step_ok [OF sys_inv1 en] by (cases "sys_step vga_con (Work_switch env0 0) kcon1") auto
  have r: "reaches 255 kcon1 s"
    using reaches.step [OF reaches.start en s] .
  then show ?thesis
    using s reachable_safe [OF sys_inv1 r] by blast
qed

end
