(* ===== verification/Kbd_Strings.thy ===== *)
theory Kbd_Strings
  imports Kbd_Tables
begin

text \<open>
  The strings of the function keys. The code packs them into one buffer, in the order of their keys, and moves
  what lies behind a string when its length changes. The abstract view is a table of strings; storing and reading
  a string refine the update and the lookup of that table.
\<close>

section \<open>The packed buffer\<close>

fun pack :: "int list option list \<Rightarrow> int list" where
  "pack [] = []"
| "pack (None # xs) = pack xs"
| "pack (Some s # xs) = s @ 0 # pack xs"

fun offsets :: "int \<Rightarrow> int list option list \<Rightarrow> int option list" where
  "offsets n [] = []"
| "offsets n (None # xs) = None # offsets n xs"
| "offsets n (Some s # xs) = Some n # offsets (n + int (length s) + 1) xs"

definition func_rep :: "int list option list \<Rightarrow> keyboard \<Rightarrow> bool" where
  "func_rep strs b \<longleftrightarrow>
     length strs = 256 \<and> (\<forall>s. Some s \<in> set strs \<longrightarrow> 0 \<notin> set s) \<and> func_table b = offsets 0 strs \<and>
     (\<exists>free. func_buf b = pack strs @ free \<and> int (length free) = funcbufleft b) \<and>
     funcbufsize b = int (length (func_buf b))"

lemma pack_append: "pack (xs @ ys) = pack xs @ pack ys"
  by (induction xs rule: pack.induct) simp_all

lemma pack_None [simp]: "pack (replicate k None) = []"
  by (induction k) simp_all

lemma offsets_length [simp]: "length (offsets n xs) = length xs"
  by (induction n xs rule: offsets.induct) simp_all

lemma offsets_append: "offsets n (xs @ ys) = offsets n xs @ offsets (n + int (length (pack xs))) ys"
  by (induction n xs rule: offsets.induct) (simp_all add: algebra_simps)

lemma offsets_None [simp]: "offsets n (replicate k None) = replicate k None"
  by (induction k) simp_all

lemma offsets_shift: "map (map_option (\<lambda>p. p + d)) (offsets n xs) = offsets (n + d) xs"
  by (induction n xs rule: offsets.induct) (simp_all add: algebra_simps)

text \<open>The table around entry \<open>i\<close>: what comes before, the entry, unused entries, and the next used ones.\<close>

lemma table_split:
  assumes "i < length strs"
  obtains A x k C where "strs = A @ x # replicate k None @ C" "length A = i" "C = [] \<or> (\<exists>s D. C = Some s # D)"
proof -
  let ?T = "drop (Suc i) strs"
  have "strs = take i strs @ strs ! i # ?T"
    using assms by (rule id_take_nth_drop)
  moreover have "takeWhile (\<lambda>p. p = None) ?T = replicate (length (takeWhile (\<lambda>p. p = None) ?T)) None"
    by (rule replicate_eqI) (auto dest: set_takeWhileD)
  then have "?T = replicate (length (takeWhile (\<lambda>p. p = None) ?T)) None @ dropWhile (\<lambda>p. p = None) ?T"
    by (metis takeWhile_dropWhile_id)
  moreover have "dropWhile (\<lambda>p. p = None) ?T = [] \<or> (\<exists>s D. dropWhile (\<lambda>p. p = None) ?T = Some s # D)"
    by (cases "dropWhile (\<lambda>p. p = None) ?T") (auto simp: dropWhile_eq_Cons_conv)
  ultimately show thesis
    using that [of "take i strs" "strs ! i"] assms by (metis length_take min.absorb4)
qed

lemma next_func_split:
  assumes "length T = Suc i" "C = [] \<or> (\<exists>s D. C = Some s # D)"
  shows "next_func i (T @ replicate k None @ offsets n C) = Suc i + k"
proof -
  have "takeWhile (\<lambda>p. p = None) (offsets n C) = []"
    using assms(2) by auto
  then have "takeWhile (\<lambda>p. p = None) (replicate k None @ offsets n C) = replicate k None"
    by (induction k) simp_all
  then show ?thesis
    using assms(1) by (simp add: next_func_def)
qed

section \<open>Copying\<close>

lemma move_rest:
  assumes "buf = L @ R @ free" "to + int (length R) \<le> int (length dst)" "0 \<le> to"
  shows "move_bytes to (int (length L)) (int (length R)) buf dst
    = Inr (take (nat to) dst @ R @ drop (nat to + length R) dst)"
  using assms by (simp add: move_bytes_def get_bytes_def put_bytes_def)

lemma put_between:
  assumes "take (length P) buf = P" "length P + length new + length R \<le> length buf"
  shows "put_bytes (int (length P)) new
      (take (length P + length new) buf @ R @ drop (length P + length new + length R) buf)
    = Inr (P @ new @ R @ drop (length P + length new + length R) buf)"
proof -
  have "take (length P) (take (length P + length new) buf) = P"
    using assms(1) by simp
  then show ?thesis
    using assms(2) by (simp add: put_bytes_def)
qed

lemma grow_size_ge: "0 < sz \<Longrightarrow> need \<le> grow_size sz need \<and> sz \<le> grow_size sz need"
proof (induction sz need rule: grow_size.induct)
  case (1 sz need)
  then show ?case
    by (cases "sz < need") (force simp: grow_size.simps [of sz need])+
qed


section \<open>Storing and reading a string\<close>

lemma string_at: "0 \<notin> set s \<Longrightarrow> c_string (P @ s @ 0 # rest) (int (length P)) = Inr s"
proof -
  assume "0 \<notin> set s"
  then have "takeWhile (\<lambda>ch. ch \<noteq> 0) (s @ 0 # rest) = s"
    by (induction s) auto
  then show ?thesis
    by (simp add: c_string_def Let_def)
qed

text \<open>The buffer with one string replaced, in either branch.\<close>

lemma replaced_rep:
  assumes "length (A @ x # replicate k None @ C) = 256" "\<forall>s. Some s \<in> set (A @ x # replicate k None @ C) \<longrightarrow> 0 \<notin> set s"
    and "0 \<notin> set cs" "func_buf b' = pack A @ (cs @ [0]) @ pack C @ free"
    and "func_table b' = offsets 0 A @ Some (int (length (pack A))) # replicate k None @
      offsets (int (length (pack A)) + int (length cs) + 1) C"
    and "int (length free) = funcbufleft b'" "funcbufsize b' = int (length (func_buf b'))"
  shows "func_rep (A @ Some cs # replicate k None @ C) b'"
  using assms by (auto simp: func_rep_def pack_append offsets_append)

text \<open>
  The two branches bring the buffer into the same shape: the strings before, room for the new string, the strings
  behind. \<open>P\<close>, \<open>X\<close> and \<open>R\<close> are the parts of the old buffer.
\<close>

lemma func_fits_run:
  assumes buf: "func_buf b = P @ X @ R @ free" and tab: "func_table b = tA @ p # replicate k None @ tC"
    and i: "length tA = i" and len: "length tA + Suc k + length tC = 256"
    and fj: "fj = int (length P + length X)" and ff: "ff = fj + int (length R)"
    and d: "delta = int (length new) - int (length X)" "delta \<le> int (length free)"
    and p: "p = (if X = [] then None else Some (int (length P)))"
    and C: "tC = [] \<longrightarrow> R = []"
  shows "\<exists>b'. func_fits i (i + Suc k) fj ff delta b = Inr b' \<and>
    func_buf b' = take (length P + length new) (func_buf b) @ R @ drop (length P + length new + length R) (func_buf b) \<and>
    func_table b' = tA @ Some (int (length P)) # replicate k None @ map (map_option (\<lambda>p. p + delta)) tC \<and>
    funcbufleft b' = funcbufleft b - delta \<and> funcbufsize b' = funcbufsize b"
proof -
  let ?L = "P @ X"
  have to: "fj + delta = int (length P + length new)" "nat (fj + delta) = length P + length new"
    using fj d(1) by simp_all
  have room: "length P + length new + length R \<le> length (func_buf b)"
    using buf d by simp
  have mv: "move_bytes (fj + delta) fj (ff - fj) (func_buf b) (func_buf b)
      = Inr (take (length P + length new) (func_buf b) @ R @ drop (length P + length new + length R) (func_buf b))"
    using move_rest [of "func_buf b" ?L R free "fj + delta" "func_buf b"] buf to room fj ff by simp
  show ?thesis
  proof (cases "i + Suc k < 256")
    case True
    have "shift_funcs (i + Suc k) delta (func_table b) = tA @ p # replicate k None @ map (map_option (\<lambda>p. p + delta)) tC"
      using i by (simp add: shift_funcs_def tab)
    then show ?thesis
      using True mv i p fj by (auto simp: func_fits_def Let_def nth_append list_update_append)
  next
    case False
    then have "length tC = 0"
      using i len by linarith
    then have "tC = []" "R = []"
      using C by simp_all
    then show ?thesis
      using False i p fj tab by (auto simp: func_fits_def Let_def nth_append list_update_append)
  qed
qed

lemma func_grows_run:
  assumes buf: "func_buf b = P @ X @ R @ free" and tab: "func_table b = tA @ p # replicate k None @ tC"
    and i: "length tA = i" and len: "length tA + Suc k + length tC = 256"
    and fj: "fj = int (length P + length X)" and ff: "ff = fj + int (length R)"
    and d: "delta = int (length new) - int (length X)" "0 \<le> delta"
    and p: "p = (if X = [] then None else Some (int (length P)))"
    and C: "R = [] \<longleftrightarrow> tC = []"
    and sz: "length fnw = nat sz" "ff + delta \<le> sz"
  shows "\<exists>b' buf1. func_grows i (i + Suc k) fj ff delta sz fnw b = Inr b' \<and>
    func_buf b' = take (length P + length new) buf1 @ R @ drop (length P + length new + length R) buf1 \<and>
    length buf1 = nat sz \<and> take (length P) buf1 = P \<and>
    func_table b' = tA @ Some (int (length P)) # replicate k None @ map (map_option (\<lambda>p. p + delta)) tC \<and>
    funcbufleft b' = funcbufleft b - delta + sz - funcbufsize b \<and> funcbufsize b' = sz"
proof -
  define buf1 where "buf1 = P @ X @ drop (length P + length X) fnw"
  have szn: "length P + length X + length R \<le> length fnw" "length P + length new + length R \<le> length fnw"
    using sz fj ff d by auto
  have l1: "length buf1 = nat sz" "take (length P) buf1 = P"
    using szn sz(1) by (simp_all add: buf1_def)
  have to: "fj + delta = int (length P + length new)" "nat (fj + delta) = length P + length new"
    using fj d(1) by simp_all
  have "P = [] \<and> X = []" if "\<not> fj > 0"
    using that fj by (cases P; cases X) auto
  then have first: "(if fj > 0 then move_bytes 0 0 fj (func_buf b) fnw else Inr fnw) = Inr buf1"
    using move_rest [of "func_buf b" "[]" "P @ X" "R @ free" 0 fnw] buf fj szn(1)
    by (cases "fj > 0") (auto simp: buf1_def)
  have second: "move_bytes (fj + delta) fj (ff - fj) (func_buf b) buf1
      = Inr (take (length P + length new) buf1 @ R @ drop (length P + length new + length R) buf1)"
    using move_rest [of "func_buf b" "P @ X" R free "fj + delta" buf1] buf to szn(2) fj ff l1(1) sz by auto
  have upd: "(if func_table b ! i = None then (func_table b)[i := Some fj] else func_table b)
      = tA @ Some (int (length P)) # replicate k None @ tC"
    using tab i p fj by (auto simp: nth_append list_update_append)
  have shift: "shift_funcs (i + Suc k) delta (tA @ Some (int (length P)) # replicate k None @ tC)
      = tA @ Some (int (length P)) # replicate k None @ map (map_option (\<lambda>p. p + delta)) tC"
    using i by (simp add: shift_funcs_def)
  show ?thesis
  proof (cases "R = []")
    case True
    then show ?thesis
      using C i ff first upd l1 by (auto simp: func_grows_def Let_def)
  next
    case False
    then have "ff > fj"
      using ff by simp
    then show ?thesis
      using first second upd shift l1 by (auto simp: func_grows_def Let_def)
  qed
qed


text \<open>Reading a string.\<close>

definition string_reply :: "int list option \<Rightarrow> errno option \<times> int list" where
  "string_reply p =
     (case p of None \<Rightarrow> (None, []) | Some s \<Rightarrow> (if length s > 511 then Some EOVERFLOW else None, take 511 s))"

lemma kdgkbsent_rep:
  assumes "func_rep strs b"
  shows "kdgkbsent f b = Inr (string_reply (strs ! unat f))"
proof -
  have i: "unat f < length strs"
    using assms word8(2) [of f] by (simp add: func_rep_def)
  obtain A x k C where s: "strs = A @ x # replicate k None @ C" "length A = unat f"
    by (rule table_split [OF i])
  obtain free where b: "func_table b = offsets 0 strs" "func_buf b = pack strs @ free"
    "\<forall>s. Some s \<in> set strs \<longrightarrow> 0 \<notin> set s"
    using assms unfolding func_rep_def by blast
  have tab: "func_table b ! unat f = (case x of None \<Rightarrow> None | Some s \<Rightarrow> Some (int (length (pack A))))"
    using s(2) b(1) by (cases x) (simp_all add: s(1) offsets_append nth_append)
  show ?thesis
  proof (cases x)
    case (Some c)
    then have "c_string (func_buf b) (int (length (pack A))) = Inr c"
      using b(2,3) s(1) string_at [of c "pack A"] by (simp add: pack_append)
    then show ?thesis
      using Some tab s by (simp add: kdgkbsent_def string_reply_def nth_append)
  qed (use tab s in \<open>simp add: kdgkbsent_def string_reply_def nth_append\<close>)
qed

lemma user_string_no_zero: "0 \<notin> set (user_string raw)"
  by (auto simp: user_string_def dest: set_takeWhileD)

text \<open>
  The table cut at the key whose string is stored: the strings before, its own string \<open>x\<close>, \<open>k\<close> unused keys and the rest.
\<close>

definition func_split ::
  "int list option list \<Rightarrow> int list option list \<Rightarrow> int list option \<Rightarrow> nat \<Rightarrow> int list option list \<Rightarrow> int list \<Rightarrow> keyboard \<Rightarrow> bool" where
  "func_split strs A x k C free b \<longleftrightarrow>
     strs = A @ x # replicate k None @ C \<and> (C = [] \<or> (\<exists>s D. C = Some s # D)) \<and> length strs = 256 \<and>
     (\<forall>s. Some s \<in> set strs \<longrightarrow> 0 \<notin> set s) \<and> func_table b = offsets 0 strs \<and> func_buf b = pack strs @ free \<and>
     int (length free) = funcbufleft b \<and> funcbufsize b = int (length (func_buf b))"

definition rest_at :: "int list option list \<Rightarrow> int list option \<Rightarrow> int" where
  "rest_at A x = int (length (pack A) + length (pack [x]))"

definition free_at :: "int list option list \<Rightarrow> int list option \<Rightarrow> int list option list \<Rightarrow> int" where
  "free_at A x C = rest_at A x + int (length (pack C))"

definition growth :: "int list option \<Rightarrow> int list \<Rightarrow> int" where
  "growth x cs = 1 - int (length (pack [x])) + int (length cs)"

definition own_offset :: "int list option list \<Rightarrow> int list option \<Rightarrow> int option" where
  "own_offset A x = (if pack [x] = [] then None else Some (int (length (pack A))))"

lemma func_splitE:
  assumes "func_rep strs b"
  obtains A x k C free where "func_split strs A x k C free b" "length A = unat (f :: u8)"
proof -
  have "unat f < length strs"
    using assms word8(2) [of f] by (simp add: func_rep_def)
  from table_split [OF this] show thesis
    using that assms unfolding func_rep_def func_split_def by metis
qed

lemma func_split_buf:
  assumes "func_split strs A x k C free b"
  shows "func_buf b = pack A @ pack [x] @ pack C @ free"
    "func_table b = offsets 0 A @ own_offset A x # replicate k None @ offsets (rest_at A x) C"
    "length (offsets 0 A) + Suc k + length (offsets (rest_at A x) C) = 256"
    "pack C = [] \<longleftrightarrow> offsets (rest_at A x) C = []"
    "funcbufsize b - funcbufleft b = free_at A x C" "int (length free) = funcbufleft b"
    "funcbufsize b = int (length (func_buf b))"
proof -
  have s: "strs = A @ x # replicate k None @ C" "func_table b = offsets 0 strs" "func_buf b = pack strs @ free"
    "C = [] \<or> (\<exists>s D. C = Some s # D)" "length strs = 256"
    and l: "int (length free) = funcbufleft b" "funcbufsize b = int (length (func_buf b))"
    using assms unfolding func_split_def by blast+
  show buf: "func_buf b = pack A @ pack [x] @ pack C @ free"
    using s(1,3) by (cases x) (simp_all add: pack_append)
  show "func_table b = offsets 0 A @ own_offset A x # replicate k None @ offsets (rest_at A x) C"
    using s(1,2) by (cases x) (simp_all add: offsets_append own_offset_def rest_at_def algebra_simps)
  show "length (offsets 0 A) + Suc k + length (offsets (rest_at A x) C) = 256" "pack C = [] \<longleftrightarrow> offsets (rest_at A x) C = []"
    using s(1,4,5) by auto
  show "funcbufsize b - funcbufleft b = free_at A x C" "int (length free) = funcbufleft b"
    "funcbufsize b = int (length (func_buf b))"
    using l buf by (simp_all add: free_at_def rest_at_def)
qed

text \<open>What the code reads off the old table: the next string, where it starts, and the length of the old string.\<close>

lemma func_split_next:
  assumes "func_split strs A x k C free b" "length A = i"
  shows "next_func i (func_table b) = i + Suc k"
    "(if i + Suc k < 256 then the (func_table b ! (i + Suc k)) else free_at A x C) = rest_at A x"
proof -
  have C: "C = [] \<or> (\<exists>s D. C = Some s # D)"
    using assms(1) by (simp add: func_split_def)
  note tab = func_split_buf(2,3) [OF assms(1)]
  show "next_func i (func_table b) = i + Suc k"
    using next_func_split [of "offsets 0 A @ [own_offset A x]" i C k "rest_at A x"] assms(2) C tab by simp
  show "(if i + Suc k < 256 then the (func_table b ! (i + Suc k)) else free_at A x C) = rest_at A x"
  proof (cases C)
    case (Cons c D)
    then obtain y where "C = Some y # D"
      using C by auto
    then show ?thesis
      using tab assms(2) by (simp add: nth_append)
  qed (use tab(2) assms(2) in \<open>simp add: free_at_def\<close>)
qed

lemma func_split_old:
  assumes "func_split strs A x k C free b" "length A = i"
  shows "(case func_table b ! i of None \<Rightarrow> Inr 1
      | Some q \<Rightarrow> res_bind (c_string (func_buf b) q) (\<lambda>s. Inr (- int (length s)))) = Inr (1 - int (length (pack [x])))"
proof (cases x)
  case (Some c)
  moreover have "0 \<notin> set c"
    using assms(1) Some by (simp add: func_split_def)
  ultimately show ?thesis
    using func_split_buf(1,2) [OF assms(1)] assms(2) string_at [of c "pack A"] by (simp add: own_offset_def nth_append)
qed (use func_split_buf(2) [OF assms(1)] assms(2) in \<open>simp add: own_offset_def nth_append\<close>)

text \<open>Making room for the new string, in the old buffer or a new one.\<close>

definition make_room ::
  "(int \<Rightarrow> int list option) \<Rightarrow> nat \<Rightarrow> nat \<Rightarrow> int \<Rightarrow> int \<Rightarrow> int \<Rightarrow> keyboard \<Rightarrow> (errno option \<times> keyboard) res" where
  "make_room newbuf i j fj ff delta b =
     (if delta \<le> funcbufleft b then res_bind (func_fits i j fj ff delta b) (\<lambda>b. Inr (None, b))
      else (case newbuf (grow_size 256 (ff + delta)) of
          None \<Rightarrow> Inr (Some ENOMEM, b)
        | Some fnw \<Rightarrow> res_bind (func_grows i j fj ff delta (grow_size 256 (ff + delta)) fnw b) (\<lambda>b. Inr (None, b))))"

lemma kdskbsent_run:
  assumes "func_split strs A x k C free b" "length A = unat f" "has_perm e"
  shows "kdskbsent e newbuf f raw b = res_bind
    (make_room newbuf (unat f) (unat f + Suc k) (rest_at A x) (free_at A x C) (growth x (user_string raw)) b)
    (\<lambda>(r, b1). if r \<noteq> None then Inr (r, b1)
       else (case func_table b1 ! unat f of None \<Rightarrow> Inl Null_deref
         | Some p \<Rightarrow> res_bind (put_bytes p (user_string raw @ [0]) (func_buf b1)) (\<lambda>buf. Inr (None, b1\<lparr>func_buf := buf\<rparr>))))"
  using assms(3) unfolding kdskbsent_def Let_def func_split_buf(5) [OF assms(1)] func_split_next [OF assms(1,2)]
    func_split_old [OF assms(1,2)] res_bind_simps make_room_def growth_def by simp

text \<open>Room has been made: \<open>buf1\<close> is the buffer the strings behind were moved in.\<close>

definition room_made ::
  "int list option list \<Rightarrow> int list option \<Rightarrow> nat \<Rightarrow> int list option list \<Rightarrow> int list \<Rightarrow> int list \<Rightarrow> keyboard \<Rightarrow> bool" where
  "room_made A x k C new buf1 b1 \<longleftrightarrow>
     func_buf b1 = take (length (pack A) + length new) buf1 @ pack C @ drop (length (pack A) + length new + length (pack C)) buf1 \<and>
     take (length (pack A)) buf1 = pack A \<and> length (pack A) + length new + length (pack C) \<le> length buf1 \<and>
     func_table b1 = offsets 0 A @ Some (int (length (pack A))) # replicate k None @
       map (map_option (\<lambda>p. p + (int (length new) - int (length (pack [x]))))) (offsets (rest_at A x) C) \<and>
     funcbufleft b1 = int (length buf1) - int (length (pack A) + length new + length (pack C)) \<and>
     funcbufsize b1 = int (length buf1)"

lemma make_room_fits:
  assumes "func_split strs A x k C free b" "length A = i" "growth x cs \<le> funcbufleft b"
  shows "\<exists>b1. make_room newbuf i (i + Suc k) (rest_at A x) (free_at A x C) (growth x cs) b = Inr (None, b1) \<and>
    room_made A x k C (cs @ [0]) (func_buf b) b1"
proof -
  note B = func_split_buf [OF assms(1)]
  have d: "growth x cs = int (length (cs @ [0])) - int (length (pack [x]))" "growth x cs \<le> int (length free)"
    using assms(3) B(6) by (simp_all add: growth_def)
  obtain b1 where "func_fits i (i + Suc k) (rest_at A x) (free_at A x C) (growth x cs) b = Inr b1"
    "func_buf b1 = take (length (pack A) + length (cs @ [0])) (func_buf b) @ pack C
      @ drop (length (pack A) + length (cs @ [0]) + length (pack C)) (func_buf b)"
    "func_table b1 = offsets 0 A @ Some (int (length (pack A))) # replicate k None
      @ map (map_option (\<lambda>p. p + growth x cs)) (offsets (rest_at A x) C)"
    "funcbufleft b1 = funcbufleft b - growth x cs" "funcbufsize b1 = funcbufsize b"
    using func_fits_run [OF B(1,2) _ B(3) rest_at_def free_at_def d own_offset_def, of i] assms(2) B(4) by auto
  then show ?thesis
    using assms(3) B(1,6,7) d by (simp add: make_room_def room_made_def)
qed

lemma make_room_grows:
  assumes "func_split strs A x k C free b" "length A = i" "\<not> growth x cs \<le> funcbufleft b"
    and "newbuf (grow_size 256 (free_at A x C + growth x cs)) = Some fnw"
    and "length fnw = nat (grow_size 256 (free_at A x C + growth x cs))"
  shows "\<exists>b1 buf1. make_room newbuf i (i + Suc k) (rest_at A x) (free_at A x C) (growth x cs) b = Inr (None, b1) \<and>
    room_made A x k C (cs @ [0]) buf1 b1"
proof -
  let ?sz = "grow_size 256 (free_at A x C + growth x cs)"
  note B = func_split_buf [OF assms(1)]
  have sz: "free_at A x C + growth x cs \<le> ?sz" "256 \<le> ?sz"
    using grow_size_ge [of 256 "free_at A x C + growth x cs"] by simp_all
  have d: "growth x cs = int (length (cs @ [0])) - int (length (pack [x]))" "0 \<le> growth x cs"
    using assms(3) B(6) by (simp_all add: growth_def)
  obtain b1 buf1 where b1: "func_grows i (i + Suc k) (rest_at A x) (free_at A x C) (growth x cs) ?sz fnw b = Inr b1"
    "func_buf b1 = take (length (pack A) + length (cs @ [0])) buf1 @ pack C
      @ drop (length (pack A) + length (cs @ [0]) + length (pack C)) buf1"
    "length buf1 = nat ?sz" "take (length (pack A)) buf1 = pack A"
    "func_table b1 = offsets 0 A @ Some (int (length (pack A))) # replicate k None
      @ map (map_option (\<lambda>p. p + growth x cs)) (offsets (rest_at A x) C)"
    "funcbufleft b1 = funcbufleft b - growth x cs + ?sz - funcbufsize b" "funcbufsize b1 = ?sz"
    using func_grows_run [OF B(1,2) _ B(3) rest_at_def free_at_def d own_offset_def B(4) assms(5) sz(1), of i] assms(2) by auto
  have "int (length (pack A) + length (cs @ [0]) + length (pack C)) = free_at A x C + growth x cs"
    by (simp add: free_at_def rest_at_def growth_def)
  then have "length (pack A) + length (cs @ [0]) + length (pack C) \<le> length buf1"
    "funcbufleft b1 = int (length buf1) - int (length (pack A) + length (cs @ [0]) + length (pack C))"
    "funcbufsize b1 = int (length buf1)"
    using b1(3,6,7) sz B(5) by linarith+
  then show ?thesis
    using assms(3,4) b1(1,2,4,5) d(1) by (intro exI [of _ b1] exI [of _ buf1]) (simp add: make_room_def room_made_def)
qed

text \<open>Copying the new string into the room gives the representation of the new table.\<close>

lemma room_filled:
  assumes "func_split strs A x k C free b" "length A = i" "room_made A x k C (cs @ [0]) buf1 b1" "0 \<notin> set cs"
  shows "\<exists>b'. (case func_table b1 ! i of None \<Rightarrow> Inl Null_deref
      | Some p \<Rightarrow> res_bind (put_bytes p (cs @ [0]) (func_buf b1)) (\<lambda>buf. Inr (None :: errno option, b1\<lparr>func_buf := buf\<rparr>)))
    = Inr (None, b') \<and> func_rep (strs[i := Some cs]) b'"
proof -
  let ?new = "cs @ [0]" and ?P = "pack A" and ?R = "pack C"
  let ?free = "drop (length ?P + length ?new + length ?R) buf1"
  let ?b = "b1\<lparr>func_buf := ?P @ ?new @ ?R @ ?free\<rparr>"
  note b1 = assms(3) [unfolded room_made_def]
  have s: "strs = A @ x # replicate k None @ C" "length strs = 256" "\<forall>s. Some s \<in> set strs \<longrightarrow> 0 \<notin> set s"
    using assms(1) unfolding func_split_def by blast+
  have "rest_at A x + (int (length ?new) - int (length (pack [x]))) = int (length ?P) + int (length cs) + 1"
    by (simp add: rest_at_def)
  then have "func_table b1 = offsets 0 A @ Some (int (length ?P)) # replicate k None
      @ offsets (int (length ?P) + int (length cs) + 1) C"
    using b1 by (simp only: offsets_shift)
  moreover have "strs[i := Some cs] = A @ Some cs # replicate k None @ C"
    using s(1) assms(2) by (auto simp: list_update_append)
  ultimately have "func_rep (strs[i := Some cs]) ?b"
    using replaced_rep [of A x k C cs ?b ?free] s b1 assms(4) by simp
  moreover have "func_table b1 ! i = Some (int (length ?P))"
    using b1 assms(2) by (simp add: nth_append)
  moreover have "put_bytes (int (length ?P)) ?new (func_buf b1) = Inr (?P @ ?new @ ?R @ ?free)"
    using put_between [of ?P buf1 ?new ?R] b1 by simp
  ultimately show ?thesis by simp
qed

text \<open>
  C36. The strings of the function keys refine a table. Storing a string succeeds unless the caller has no
  right or there is no memory, when nothing changes; on success the packed buffer, grown if need be, represents the
  table with just that entry replaced. Reading gives the entry of the table, cut to 511 characters. No copy leaves a
  buffer, whatever the lengths of the strings are.
\<close>

theorem func_strings_refine:
  assumes "func_rep strs b" "\<forall>sz xs. newbuf sz = Some xs \<longrightarrow> length xs = nat sz"
  shows "\<exists>r b'. kdskbsent e newbuf f raw b = Inr (r, b') \<and>
    (case r of
       None \<Rightarrow> func_rep (strs[unat f := Some (user_string raw)]) b' \<and>
         (\<forall>g. kdgkbsent g b' = Inr (string_reply (strs[unat f := Some (user_string raw)] ! unat g)))
     | Some err \<Rightarrow> b' = b \<and> (err = EPERM \<and> \<not> has_perm e \<or> err = ENOMEM))"
proof -
  let ?cs = "user_string raw"
  let ?strs = "strs[unat f := Some ?cs]"
  have "\<exists>r b'. kdskbsent e newbuf f raw b = Inr (r, b') \<and>
    (case r of None \<Rightarrow> func_rep ?strs b' | Some err \<Rightarrow> b' = b \<and> (err = EPERM \<and> \<not> has_perm e \<or> err = ENOMEM))"
  proof (cases "has_perm e")
    case True
    obtain A x k C free where s: "func_split strs A x k C free b" "length A = unat f"
      by (rule func_splitE [OF assms(1)])
    note run = kdskbsent_run [OF s True, of newbuf raw]
    let ?room = "make_room newbuf (unat f) (unat f + Suc k) (rest_at A x) (free_at A x C) (growth x ?cs) b"
    consider "?room = Inr (Some ENOMEM, b)" | b1 buf1 where "?room = Inr (None, b1)" "room_made A x k C (?cs @ [0]) buf1 b1"
    proof (cases "growth x ?cs \<le> funcbufleft b")
      case False
      show thesis
      proof (cases "newbuf (grow_size 256 (free_at A x C + growth x ?cs))")
        case None
        then show thesis using that(1) False by (simp add: make_room_def)
      next
        case (Some fnw)
        then show thesis
          using that(2) make_room_grows [OF s False, of newbuf fnw] assms(2) by blast
      qed
    qed (use that make_room_fits [OF s] in blast)
    then show ?thesis
    proof cases
      case 2
      then show ?thesis
        using room_filled [OF s 2(2) user_string_no_zero] run by auto
    qed (use run in simp)
  qed (simp add: kdskbsent_def)
  then obtain r b' where r: "kdskbsent e newbuf f raw b = Inr (r, b')"
    "case r of None \<Rightarrow> func_rep ?strs b' | Some err \<Rightarrow> b' = b \<and> (err = EPERM \<and> \<not> has_perm e \<or> err = ENOMEM)"
    by blast
  then show ?thesis
    using kdgkbsent_rep [of ?strs b'] by (intro exI [of _ r] exI [of _ b']) (cases r; simp)
qed

lemma func_rep0: "func_rep (replicate 256 None) kb0"
  by (simp add: func_rep_def kb0_def)

theorem func_strings_refine_witness:
  "\<exists>b'. kdskbsent root_env (\<lambda>sz. Some (replicate (nat sz) 7)) 3 [0x1b, 0x5b, 0x41, 0, 9] kb0 = Inr (None, b') \<and>
    kdgkbsent 3 b' = Inr (None, [0x1b, 0x5b, 0x41])"
proof -
  let ?nb = "\<lambda>sz. Some (replicate (nat sz) (7::int))" and ?raw = "[0x1b, 0x5b, 0x41, 0, 9 :: int]"
  have u: "user_string ?raw = [0x1b, 0x5b, 0x41]"
    by (simp add: user_string_def)
  obtain r b' where r: "kdskbsent root_env ?nb 3 ?raw kb0 = Inr (r, b')"
    and c: "case r of
       None \<Rightarrow> func_rep ((replicate 256 None)[unat (3::u8) := Some (user_string ?raw)]) b' \<and>
         (\<forall>g. kdgkbsent g b' = Inr (string_reply ((replicate 256 None)[unat (3::u8) := Some (user_string ?raw)] ! unat g)))
     | Some err \<Rightarrow> b' = kb0 \<and> (err = EPERM \<and> \<not> has_perm root_env \<or> err = ENOMEM)"
    using func_strings_refine [OF func_rep0, of ?nb root_env 3 ?raw] by auto
  have "r = None"
  proof (rule ccontr)
    assume "r \<noteq> None"
    then have "r = Some ENOMEM"
      using c by (auto simp: root_env_def)
    then show False
      using r by (auto simp: kdskbsent_def root_env_def kb0_def Let_def next_func_def res_bind_Inr split: option.splits if_splits)
  qed
  then show ?thesis
    using r c u by (auto simp: string_reply_def)
qed

end
