(* ===== verification/Vt_Resize.thy ===== *)
theory Vt_Resize
  imports Vt_Ioctl
begin

text \<open>
  Resizing consoles: \<open>resize_screen\<close> and \<open>vc_resize\<close> of drivers/char/vt.c, and the requests \<open>VT_RESIZE\<close>
  and \<open>VT_RESIZEX\<close> of drivers/char/vt_ioctl.c, which resize every console of a display.

  \<open>newbuf n\<close> is the address of a new buffer of \<open>n\<close> bytes, \<open>None\<close> when there is no memory, and
  \<open>winsize tty\<close> the rows and columns the tty knows of and its process group.
\<close>

definition resize_screen :: "'d consw \<Rightarrow> int \<Rightarrow> int \<Rightarrow> 'd con \<Rightarrow> errno option \<times> 'd con" where
  "resize_screen sw width height c =
     (if is_visible c \<and> vc_mode (vc c) \<noteq> KD_GRAPHICS
      then (case con_resize sw of None \<Rightarrow> (None, c) | Some f \<Rightarrow> f width height c)
      else (None, c))"

text \<open>
  The rows of the old screen from \<open>ol\<close> on are copied to \<open>nl\<close>, \<open>rlth\<close> bytes of each, and filled up with
  \<open>rrem\<close> bytes of blanks. The result is where the next row would go, and the memory.
\<close>

fun copy_rows ::
  "int \<Rightarrow> int \<Rightarrow> int \<Rightarrow> int \<Rightarrow> u16 \<Rightarrow> int \<Rightarrow> nat \<Rightarrow> int \<Rightarrow> int \<Rightarrow> memory \<Rightarrow> (int \<times> memory) res" where
  "copy_rows rlth rrem old_row new_row erase scr_end 0 ol nl m =
     (if ol < scr_end then Inl No_return else Inr (nl, m))"
| "copy_rows rlth rrem old_row new_row erase scr_end (Suc fuel) ol nl m =
     (if ol < scr_end
      then
        let m1 = scr_memcpyw nl ol rlth m;
            m2 = (if rrem \<noteq> 0 then scr_memsetw (nl + rlth) erase rrem m1 else m1)
        in copy_rows rlth rrem old_row new_row erase scr_end fuel (ol + old_row) (nl + new_row) m2
      else Inr (nl, m))"

text \<open>The part of \<open>reset_terminal\<close>.\<close>

definition whole_screen :: "vc_data \<Rightarrow> vc_data" where
  "whole_screen v =
     (let v1 = v\<lparr>vc_top := 0, vc_bottom := vc_rows v\<rparr> in vte_decsc (gotoxy (vc_x v1) (vc_y v1) v1))"

definition tell_tty :: "(int \<Rightarrow> int \<times> int \<times> int) \<Rightarrow> 'd con \<Rightarrow> 'd con" where
  "tell_tty winsize c =
     (case vc_tty (vc c) of
        None \<Rightarrow> c
      | Some tty \<Rightarrow>
          let (rows, cols, pgrp) = winsize tty; v = vc c;
              c1 = (if (vc_rows v \<noteq> rows \<or> vc_cols v \<noteq> cols) \<and> pgrp > 0 then log (Kill_pg pgrp 28) c else c)
          in log (Set_winsize tty (vc_rows v) (vc_cols v) (vc_scan_lines v mod 65536)) c1)"

text \<open>From the allocation of the new buffer, at \<open>p\<close>, on.\<close>

definition resize_to ::
  "'d consw \<Rightarrow> (int \<Rightarrow> int \<times> int \<times> int) \<Rightarrow> int \<Rightarrow> int \<Rightarrow> int \<Rightarrow> 'd con \<Rightarrow> (errno option \<times> 'd con) res" where
  "resize_to sw winsize new_cols new_rows p c =
     (let old_rows = vc_rows (vc c); old_cols = vc_cols (vc c); old_row_size = vc_size_row (vc c);
          new_row_size = 2 * new_cols; ss = new_row_size * new_rows;
          (err, c1) = resize_screen sw new_cols new_rows c
      in if err \<noteq> None then Inr (err, snd (resize_screen sw old_cols old_rows c1))
         else
           let c2 = upd_vc (\<lambda>v. v\<lparr>vc_rows := new_rows, vc_cols := new_cols, vc_size_row := new_row_size,
                       vc_screenbuf_size := ss\<rparr>) c1;
               rlth = min old_row_size new_row_size; rrem = new_row_size - rlth;
               ol = vc_origin (vc c2) + (if new_rows < old_rows then (old_rows - new_rows) * old_row_size else 0);
               c3 = upd_vc (update_attr sw) c2; v = vc c3
           in
           res_bind (copy_rows rlth rrem old_row_size new_row_size (vc_video_erase_char v) (vc_scr_end v)
                (nat (vc_scr_end v - ol)) ol p (mem c3)) (\<lambda>(nl, m).
             let c4 = upd_mem (\<lambda>_. if p + ss > nl then scr_memsetw nl (vc_video_erase_char v) (p + ss - nl) m else m) c3;
                 c5 = upd_vt (display_fg v) (\<lambda>t. t\<lparr>kmalloced := True\<rparr>)
                        (upd_vc (\<lambda>v. v\<lparr>vc_screenbuf := p, vc_screenbuf_size := ss\<rparr>) c4);
                 c6 = tell_tty winsize (upd_vc whole_screen (set_origin sw c5))
             in res_bind (if is_visible c6 then update_screen sw c6 else Inr c6) (\<lambda>c7. Inr (None, c7))))"

definition vc_resize ::
  "'d consw \<Rightarrow> (int \<Rightarrow> int \<times> int \<times> int) \<Rightarrow> (int \<Rightarrow> int option) \<Rightarrow> int \<Rightarrow> int \<Rightarrow> 'd con
     \<Rightarrow> (errno option \<times> 'd con) res" where
  "vc_resize sw winsize newbuf cols lines c =
     (let new_cols = (if cols \<noteq> 0 then cols else vc_cols (vc c));
          new_rows = (if lines \<noteq> 0 then lines else vc_rows (vc c))
      in if cols > 32767 \<or> lines > 32767 then Inr (Some EINVAL, c)
         else if new_cols = vc_cols (vc c) \<and> new_rows = vc_rows (vc c) then Inr (None, c)
         else (case newbuf (2 * new_cols * new_rows) of
             None \<Rightarrow> Inr (Some ENOMEM, c)
           | Some p \<Rightarrow> resize_to sw winsize new_cols new_rows p c))"

section \<open>The requests\<close>

text \<open>\<open>vc_resize\<close> on each console of the pool; its result is ignored, and a null pointer is no error.\<close>

fun resize_all ::
  "'d consw \<Rightarrow> (int \<Rightarrow> int \<times> int \<times> int) \<Rightarrow> (int \<Rightarrow> int option) \<Rightarrow> int \<Rightarrow> int \<Rightarrow> int option list \<Rightarrow> 'd con \<Rightarrow> 'd con res" where
  "resize_all sw winsize newbuf cols lines [] c = Inr c"
| "resize_all sw winsize newbuf cols lines (p # ps) c =
     res_bind (case p of
         None \<Rightarrow> Inr c
       | Some n \<Rightarrow> in_console (Some n) (\<lambda>c. res_bind (vc_resize sw winsize newbuf cols lines c) (\<lambda>(_, c'). Inr c')) c)
       (resize_all sw winsize newbuf cols lines ps)"

text \<open>\<open>arg\<close> is the rows and columns that were read.\<close>

definition vt_resize ::
  "'d consw \<Rightarrow> (int \<Rightarrow> int \<times> int \<times> int) \<Rightarrow> (int \<Rightarrow> int option) \<Rightarrow> bool \<Rightarrow> (u16 \<times> u16) option \<Rightarrow> 'd con
     \<Rightarrow> (ioctl_ret \<times> 'd con) res" where
  "vt_resize sw winsize newbuf perm arg c =
     (if \<not> perm then Inr (Inl EPERM, c)
      else case arg of
          None \<Rightarrow> Inr (Inl EFAULT, c)
        | Some (ll, cc) \<Rightarrow>
            res_bind (resize_all sw winsize newbuf (uint cc) (uint ll) (vc_cons (vt c)) c) (\<lambda>c1. Inr (Inr 0, c1)))"

text \<open>\<open>VT_RESIZEX\<close> also sets the scan lines and the height of the font, of every entry of the pool.\<close>

definition set_video :: "int \<Rightarrow> int \<Rightarrow> vc_data \<Rightarrow> vc_data" where
  "set_video vlin clin v =
     (let v1 = (if vlin \<noteq> 0 then v\<lparr>vc_scan_lines := vlin\<rparr> else v)
      in if clin \<noteq> 0 then v1\<lparr>vc_font_height := clin\<rparr> else v1)"

fun resizex_all ::
  "'d consw \<Rightarrow> (int \<Rightarrow> int \<times> int \<times> int) \<Rightarrow> (int \<Rightarrow> int option) \<Rightarrow> int \<Rightarrow> int \<Rightarrow> int \<Rightarrow> int \<Rightarrow> int option list
     \<Rightarrow> 'd con \<Rightarrow> 'd con res" where
  "resizex_all sw winsize newbuf vlin clin cols lines [] c = Inr c"
| "resizex_all sw winsize newbuf vlin clin cols lines (p # ps) c =
     res_bind (case p of
         None \<Rightarrow> if vlin \<noteq> 0 \<or> clin \<noteq> 0 then Inl Null_deref else Inr c
       | Some n \<Rightarrow> in_console (Some n) (\<lambda>c.
           res_bind (vc_resize sw winsize newbuf cols lines (upd_vc (set_video vlin clin) c)) (\<lambda>(_, c'). Inr c')) c)
       (resizex_all sw winsize newbuf vlin clin cols lines ps)"

text \<open>A size given in pixels must agree with the one in characters; \<open>None\<close> if it does not.\<close>

definition lines_or_chars :: "int \<Rightarrow> int \<Rightarrow> int \<Rightarrow> int option" where
  "lines_or_chars n pixels char =
     (if n \<noteq> 0 then (if n \<noteq> pixels div char then None else Some n) else Some (pixels div char))"

definition vt_resizex ::
  "'d consw \<Rightarrow> (int \<Rightarrow> int \<times> int \<times> int) \<Rightarrow> (int \<Rightarrow> int option) \<Rightarrow> bool
     \<Rightarrow> (u16 \<times> u16 \<times> u16 \<times> u16 \<times> u16 \<times> u16) option \<Rightarrow> 'd con \<Rightarrow> (ioctl_ret \<times> 'd con) res" where
  "vt_resizex sw winsize newbuf perm arg c =
     (if \<not> perm then Inr (Inl EPERM, c)
      else case arg of
          None \<Rightarrow> Inr (Inl EFAULT, c)
        | Some (l, k, vl, cl, vcol, ccol) \<Rightarrow>
            let vlin = (if vl \<noteq> 0 then uint vl else vc_scan_lines (vc c) mod 65536); clin = uint cl;
                lines = (if cl \<noteq> 0 then lines_or_chars (uint l) vlin clin else Some (uint l));
                cols = (if vcol \<noteq> 0 \<and> ccol \<noteq> 0 then lines_or_chars (uint k) (uint vcol) (uint ccol) else Some (uint k))
            in (case (lines, cols) of
                  (Some ll, Some cc) \<Rightarrow>
                    if clin > 32 then Inr (Inl EINVAL, c)
                    else res_bind (resizex_all sw winsize newbuf vlin clin cc ll (vc_cons (vt c)) c) (\<lambda>c1. Inr (Inr 0, c1))
                | _ \<Rightarrow> Inr (Inl EINVAL, c)))"

end
