(* ===== verification/Resize_Props.thy ===== *)
theory Resize_Props
  imports System_Inv Vt_Resize
begin

text \<open>
  Resizing keeps the invariant: the new screen is a screen of the driver, the cursor is moved into it, and what is
  copied is what both screens have. The selection has to be gone or within the new screen, which the code does not see to.
\<close>

section \<open>Copying the rows\<close>

text \<open>\<open>n\<close> rows are left; the loop copies them all, whatever memory holds.\<close>

lemma copy_rows_ok:
  assumes "0 < old_row" "0 \<le> rlth" "0 \<le> rrem" "rlth + rrem = new_row" "scr_end = ol + int n * old_row" "n \<le> fuel"
  shows "\<exists>m'. copy_rows rlth rrem old_row new_row erase scr_end fuel ol nl m = Inr (nl + int n * new_row, m') \<and>
    same_off {nl ..< nl + int n * new_row} m m'"
  using assms(5,6)
proof (induction n arbitrary: fuel ol nl m)
  case 0
  then show ?case by (cases fuel) simp_all
next
  case (Suc n)
  obtain f where f: "fuel = Suc f" "n \<le> f"
    using Suc.prems(2) by (cases fuel) simp_all
  have ol: "ol < scr_end" "scr_end = (ol + old_row) + int n * old_row"
  proof -
    have "0 \<le> int n * old_row" "int (Suc n) * old_row = old_row + int n * old_row"
      using assms(1) by (simp_all add: algebra_simps)
    then show "ol < scr_end" "scr_end = (ol + old_row) + int n * old_row"
      using Suc.prems(1) assms(1) by linarith+
  qed
  define m2 where "m2 = (if rrem \<noteq> 0 then scr_memsetw (nl + rlth) erase rrem (scr_memcpyw nl ol rlth m) else scr_memcpyw nl ol rlth m)"
  let ?R = "{nl ..< nl + int (Suc n) * new_row}"
  have new: "nl + new_row + int n * new_row = nl + int (Suc n) * new_row" "0 \<le> int n * new_row"
    using assms(2-4) by (simp_all add: algebra_simps)
  have "new_row \<le> int (Suc n) * new_row"
    using new by linarith
  then have R: "{nl ..< nl + rlth} \<subseteq> ?R" "{nl + rlth ..< nl + rlth + rrem} \<subseteq> ?R"
    using assms(2-4) by (simp_all del: of_nat_Suc)
  have "same_off ?R m m2"
    unfolding m2_def using R by (simp add: same_off_memsetw same_off_memmovew)
  moreover obtain m' where "copy_rows rlth rrem old_row new_row erase scr_end f (ol + old_row) (nl + new_row) m2
      = Inr (nl + new_row + int n * new_row, m')" "same_off {nl + new_row ..< nl + new_row + int n * new_row} m2 m'"
    using Suc.IH [OF ol(2) f(2)] by blast
  moreover have "same_off ?R m2 m'"
    using calculation(3) new assms(2-4) by (auto simp: same_off_def)
  ultimately show ?case
    using ol(1) same_off_trans f(1) new(1) by (auto simp: m2_def Let_def simp del: of_nat_Suc)
qed

text \<open>What the new rows hold when they are not part of the old ones.\<close>

lemma copy_rows_cells:
  assumes "0 < old_row" "0 \<le> rlth" "0 \<le> rrem" "rlth + rrem = new_row" "rlth \<le> old_row"
    and "copy_rows rlth rrem old_row new_row erase scr_end fuel ol nl m = Inr (nl', m')"
    and "scr_end = ol + int n * old_row"
    and "\<forall>a. nl \<le> a \<and> a < nl + int n * new_row \<longrightarrow> \<not> (ol \<le> a \<and> a < scr_end)"
    and "n \<le> fuel" "i < n" "0 \<le> j" "j < new_row"
  shows "m' (nl + int i * new_row + j) = (if j < rlth then m (ol + int i * old_row + j) else erase)"
  using assms(6-10)
proof (induction n arbitrary: fuel ol nl m i)
  case (Suc n)
  have step: "int (Suc n) * r = r + int n * r" for r
    by (simp add: algebra_simps)
  have pos: "0 \<le> int n * old_row" "0 \<le> int n * new_row"
    using assms(1-4) by simp_all
  have ol: "ol < scr_end" "scr_end = (ol + old_row) + int n * old_row"
    using Suc.prems(2) assms(1) pos(1) step [of old_row] by linarith+
  obtain f where f: "fuel = Suc f" "n \<le> f"
    using Suc.prems(4) by (cases fuel) simp_all
  define m2 where "m2 = (if rrem \<noteq> 0 then scr_memsetw (nl + rlth) erase rrem (scr_memcpyw nl ol rlth m) else scr_memcpyw nl ol rlth m)"
  have run: "copy_rows rlth rrem old_row new_row erase scr_end f (ol + old_row) (nl + new_row) m2 = Inr (nl', m')"
    using Suc.prems(1) ol(1) by (simp add: f(1) m2_def Let_def)
  have sep: "\<not> (ol \<le> a \<and> a < scr_end)" if "nl \<le> a" "a < nl + new_row + int n * new_row" for a
    using Suc.prems(3) that step [of new_row] by simp
  have m2: "m2 (nl + x) = (if x < rlth then m (ol + x) else erase)" if "0 \<le> x" "x < new_row" for x
    using that assms(4) by (auto simp: m2_def scr_memsetw_def scr_memmovew_def)
  have old: "m2 a = m a" if "ol \<le> a" "a < scr_end" for a
  proof -
    have "\<not> (nl \<le> a \<and> a < nl + new_row)"
      using sep [of a] that pos(2) by linarith
    then show ?thesis
      using assms(2-4) by (auto simp: m2_def scr_memsetw_def scr_memmovew_def)
  qed
  show ?case
  proof (cases i)
    case 0
    have "same_off {nl + new_row ..< nl + new_row + int n * new_row} m2 m'"
      using copy_rows_ok [OF assms(1-4) ol(2) f(2), of erase "nl + new_row" m2] run by auto
    then have "m' (nl + j) = m2 (nl + j)"
      using assms(12) by (simp add: same_off_def)
    then show ?thesis
      using m2 [OF assms(11,12)] 0 by simp
  next
    case (Suc k)
    have k: "k < n" "int i * r = r + int k * r" for r
      using Suc Suc.prems(5) by (simp_all add: algebra_simps)
    have "m' (nl + new_row + int k * new_row + j) = (if j < rlth then m2 (ol + old_row + int k * old_row + j) else erase)"
    proof (rule Suc.IH [OF run ol(2) _ f(2) k(1)], intro allI impI)
      fix a assume "nl + new_row \<le> a \<and> a < nl + new_row + int n * new_row"
      then show "\<not> (ol + old_row \<le> a \<and> a < scr_end)"
        using sep [of a] assms(1-4) by linarith
    qed
    moreover have "m2 (ol + old_row + int k * old_row + j) = m (ol + old_row + int k * old_row + j)" if "j < rlth"
    proof (rule old)
      have "int (Suc k) * old_row \<le> int n * old_row" "0 \<le> int k * old_row"
        using k(1) assms(1) by (simp_all add: mult_right_mono)
      then show "ol \<le> ol + old_row + int k * old_row + j" "ol + old_row + int k * old_row + j < scr_end"
        using that ol(2) assms(1,5,11) k(2) [of old_row] Suc by (simp_all add: algebra_simps)
    qed
    ultimately show ?thesis
      using k(2) by (simp add: add.assoc)
  qed
qed simp

section \<open>The state\<close>

text \<open>The console with its cursor in the new screen and its origin at the new buffer.\<close>

definition fitted :: "vc_data \<Rightarrow> vc_data" where
  "fitted v = to_buf (v\<lparr>vc_top := 0, vc_bottom := vc_rows v, vc_x := min (vc_x v) (vc_cols v - 1),
     vc_y := min (vc_y v) (vc_rows v - 1), vc_need_wrap := False\<rparr>)"

definition at_origin :: "int \<Rightarrow> vc_data \<Rightarrow> vc_data" where
  "at_origin q v = v\<lparr>vc_origin := q, vc_visible_origin := q, vc_scr_end := q + vc_screenbuf_size v,
     vc_pos := q + vc_size_row v * vc_y v + 2 * vc_x v\<rparr>"

definition accepts_origin :: "vga con \<Rightarrow> bool" where
  "accepts_origin c \<longleftrightarrow> is_visible c \<and> \<not> vga_is_gfx (drv c) \<and> (vt_blanked (vt c) \<longrightarrow> vga_palette_blanked (drv c))"

lemma set_origin_vga:
  "set_origin vga_con c = (if accepts_origin c
     then c\<lparr>vc := at_origin (vga_vram_base (drv c)) (vc c), drv := (write_vga 12 0 (drv c))\<lparr>vga_rolled_over := 0\<rparr>\<rparr>
     else c\<lparr>vc := at_origin (vc_screenbuf (vc c)) (vc c)\<rparr>)"
  by (auto simp: set_origin_def vga_con_def vgacon_set_origin_def vga_set_mem_top_def upd_drv_def upd_vc_def
      Let_def at_origin_def accepts_origin_def)

lemma whole_screen_at:
  assumes "0 \<le> vc_x v" "0 \<le> vc_y v"
  shows "whole_screen (at_origin q v) = vte_decsc (at_origin q (fitted v))"
proof -
  have "gotoxy (vc_x v) (vc_y v) (at_origin q v\<lparr>vc_top := 0, vc_bottom := vc_rows v\<rparr>) = at_origin q (fitted v)"
    by (rule vc_data.equality) (use assms in \<open>simp_all add: gotoxy_def Let_def fitted_def to_buf_def at_origin_def min_def not_le mult.commute\<close>)
  then show ?thesis
    by (simp add: whole_screen_def Let_def at_origin_def)
qed

lemma set_origin_whole:
  assumes "0 \<le> vc_x (vc c)" "0 \<le> vc_y (vc c)"
  shows "upd_vc whole_screen (set_origin vga_con c) = upd_vc vte_decsc (set_origin vga_con (upd_vc fitted c))"
proof -
  have "accepts_origin (upd_vc fitted c) = accepts_origin c" "vc_screenbuf (fitted (vc c)) = vc_screenbuf (vc c)"
    by (simp_all add: accepts_origin_def is_visible_def vt_def upd_vc_def fitted_def to_buf_def)
  then show ?thesis
    by (simp add: set_origin_vga upd_vc_def whole_screen_at [OF assms])
qed

section \<open>The new screen\<close>

text \<open>The console with its new size and buffer, before it is placed.\<close>

definition new_size :: "int \<Rightarrow> int \<Rightarrow> int \<Rightarrow> vc_data \<Rightarrow> vc_data" where
  "new_size cols rows p v = fitted ((update_attr vga_con (v\<lparr>vc_rows := rows, vc_cols := cols, vc_size_row := 2 * cols,
     vc_screenbuf_size := 2 * cols * rows\<rparr>))\<lparr>vc_screenbuf := p, vc_screenbuf_size := 2 * cols * rows\<rparr>)"

lemma new_size_sel [simp]:
  "vc_num (new_size cols rows p v) = vc_num v" "display_fg (new_size cols rows p v) = display_fg v"
  "vc_uni_pagedir_loc (new_size cols rows p v) = vc_uni_pagedir_loc v" "vc_state (new_size cols rows p v) = vc_state v"
  "vc_npar (new_size cols rows p v) = vc_npar v" "vc_cols (new_size cols rows p v) = cols"
  "vc_rows (new_size cols rows p v) = rows" "vc_screenbuf_size (new_size cols rows p v) = 2 * cols * rows"
  "vc_size_row (new_size cols rows p v) = 2 * cols" "vc_screenbuf (new_size cols rows p v) = p"
  "vc_origin (new_size cols rows p v) = p"
  by (simp_all add: new_size_def fitted_def to_buf_def update_attr_def)

lemma new_size_wf:
  assumes "wf_vc R v" "0 < cols" "cols \<le> 256" "0 < rows" "rows \<le> 32767" "{p ..< p + 2 * cols * rows} \<subseteq> R"
  shows "wf_vc R (new_size cols rows p v)"
proof -
  have "wf_parser (new_size cols rows p v)" "wf_charsets (new_size cols rows p v)"
    using wf_vcD(2,3) [OF assms(1)]
    by (simp_all add: wf_parser_def wf_charsets_def new_size_def fitted_def to_buf_def update_attr_def)
  moreover have "wf_geom (new_size cols rows p v)"
    using wf_vcD(1) [OF assms(1)] assms(2-5)
    by (simp add: wf_geom_def new_size_def fitted_def to_buf_def update_attr_def min_def)
  moreover have "wf_addr R (new_size cols rows p v)"
    using assms(6) by (simp add: wf_addr_def new_size_def fitted_def to_buf_def update_attr_def mult.commute)
  ultimately show ?thesis by (simp add: wf_vc_def)
qed

definition resized :: "int \<Rightarrow> int \<Rightarrow> int \<Rightarrow> memory \<Rightarrow> vga con \<Rightarrow> vga con" where
  "resized cols rows p m c = upd_vt (display_fg (vc c)) (\<lambda>t. t\<lparr>kmalloced := True\<rparr>)
     (upd_mem (\<lambda>_. m) (upd_vc (new_size cols rows p) c))"

definition sel_fits :: "int \<Rightarrow> 'd con \<Rightarrow> bool" where
  "sel_fits ss c \<longleftrightarrow> sel_cons c \<noteq> Some (vc_num (vc c)) \<or> sel_start c = -1 \<or> sel_end c + 2 \<le> ss"

lemma resized_wf:
  assumes wf: "wf_con K c" and dims: "0 < cols" "cols \<le> 256" "0 < rows" "rows \<le> 32767" "2 * cols * rows \<le> scr_max K"
    and p: "{p ..< p + 2 * cols * rows} \<subseteq> scr_region K" and sel: "sel_fits (2 * cols * rows) c"
    and m: "same_off (scr_region K) (mem c) m"
    and ready: "is_visible c \<Longrightarrow> scr_ready K (drv c) p (2 * cols * rows)"
  shows "wf_con K (resized cols rows p m c)" "framed (scr_region K) (vts c) c (resized cols rows p m c)"
proof -
  let ?c1 = "upd_vc (new_size cols rows p) c"
  have wf1: "wf_con K ?c1"
    using wf_con_vc [OF wf] dims p sel ready
    by (intro wf_con_upd_vc_size [OF wf] new_size_wf) (auto simp: sel_fits_def)
  have k: "keeps K ?c1 (resized cols rows p m c)"
    unfolding resized_def using wf1 m
    by (intro keeps_step [OF keeps_upd_mem keeps_upd_vt]) (simp_all add: vt_ids_def)
  then show "wf_con K (resized cols rows p m c)" by (rule keeps_wf)
  have "get_console ?c1 n = (if n = vc_num (vc c) then Some (new_size cols rows p (vc c)) else get_console c n)" for n
    by (rule get_console_upd_vc) simp
  then have "framed (scr_region K) (vts c) c ?c1"
    by (simp add: framed_def)
  then show "framed (scr_region K) (vts c) c (resized cols rows p m c)"
    using k framed_keeps by blast
qed

lemma resize_to_run:
  assumes geom: "0 \<le> vc_x (vc c)" "0 \<le> vc_y (vc c)"
    and copy: "copy_rows (min (vc_size_row (vc c)) (2 * cols)) (2 * cols - min (vc_size_row (vc c)) (2 * cols))
      (vc_size_row (vc c)) (2 * cols) er (vc_scr_end (vc c)) (nat (vc_scr_end (vc c) - ol)) ol p (mem c) = Inr (nl, m)"
    and er: "er = vc_video_erase_char (update_attr vga_con (vc c))"
    and ol: "ol = vc_origin (vc c) + (if rows < vc_rows (vc c) then (vc_rows (vc c) - rows) * vc_size_row (vc c) else 0)"
    and m': "m' = (if p + 2 * cols * rows > nl then scr_memsetw nl er (p + 2 * cols * rows - nl) m else m)"
    and c6: "c6 = tell_tty winsize (upd_vc vte_decsc (set_origin vga_con (resized cols rows p m' c)))"
  shows "resize_to vga_con winsize cols rows p c =
    res_bind (if is_visible c6 then update_screen vga_con c6 else Inr c6) (\<lambda>c7. Inr (None, c7))"
proof -
  let ?v = "(vc c)\<lparr>vc_rows := rows, vc_cols := cols, vc_size_row := 2 * cols, vc_screenbuf_size := 2 * cols * rows\<rparr>"
  have rs: "resize_screen vga_con a b d = (None, d)" for a b and d :: "vga con"
    by (simp add: resize_screen_def vga_con_def)
  have u: "vc_video_erase_char (update_attr vga_con ?v) = er" "vc_scr_end (update_attr vga_con ?v) = vc_scr_end (vc c)"
    "display_fg (update_attr vga_con ?v) = display_fg (vc c)"
    by (simp_all add: er update_attr_def build_attr_def vga_con_def vgacon_build_attr_def)
  let ?c3 = "upd_vc (update_attr vga_con) (upd_vc (\<lambda>v. v\<lparr>vc_rows := rows, vc_cols := cols, vc_size_row := 2 * cols,
      vc_screenbuf_size := 2 * cols * rows\<rparr>) c)"
  let ?c5 = "upd_vt (display_fg (vc c)) (\<lambda>t. t\<lparr>kmalloced := True\<rparr>)
      (upd_vc (\<lambda>v. v\<lparr>vc_screenbuf := p, vc_screenbuf_size := 2 * cols * rows\<rparr>) (upd_mem (\<lambda>_. m') ?c3))"
  have xy: "0 \<le> vc_x (vc ?c5)" "0 \<le> vc_y (vc ?c5)"
    using geom by (simp_all add: update_attr_def)
  have "upd_vc fitted ?c5 = resized cols rows p m' c"
    by (simp add: resized_def upd_vc_def upd_mem_def upd_vt_def new_size_def)
  then have place: "upd_vc whole_screen (set_origin vga_con ?c5) = upd_vc vte_decsc (set_origin vga_con (resized cols rows p m' c))"
    using set_origin_whole [OF xy] by simp
  show ?thesis
    unfolding resize_to_def Let_def rs
    using copy by (simp add: u ol [symmetric] m' [symmetric] place c6 [symmetric] split del: if_split cong: if_cong)
qed

text \<open>The loop on a well-formed console.\<close>

definition rows_gone :: "int \<Rightarrow> vc_data \<Rightarrow> int" where
  "rows_gone rows v = (if rows < vc_rows v then vc_rows v - rows else 0)"

definition resized_cell :: "int \<Rightarrow> int \<Rightarrow> int \<Rightarrow> vga con \<Rightarrow> u16" where
  "resized_cell rows r k c =
     (let v = vc c in
      if r + rows_gone rows v < vc_rows v \<and> k < vc_cols v
      then mem c (vc_origin v + (r + rows_gone rows v) * vc_size_row v + 2 * k)
      else vc_video_erase_char (update_attr vga_con v))"

text \<open>The memory once the rest of the new screen is blank, and a new screen that is no part of the old one.\<close>

definition filled :: "int \<Rightarrow> int \<Rightarrow> u16 \<Rightarrow> memory \<Rightarrow> memory" where
  "filled nl bottom er m = (if bottom > nl then scr_memsetw nl er (bottom - nl) m else m)"

definition apart :: "int \<Rightarrow> int \<Rightarrow> vc_data \<Rightarrow> bool" where
  "apart p n v \<longleftrightarrow> (\<forall>a. p \<le> a \<and> a < p + n \<longrightarrow> \<not> (vc_origin v \<le> a \<and> a < vc_scr_end v))"

lemma new_cells:
  assumes g: "wf_geom (vc c)" "vc_scr_end (vc c) = vc_origin (vc c) + vc_screenbuf_size (vc c)"
    and dims: "0 < cols" "0 < rows"
    and ol: "ol = vc_origin (vc c) + (if rows < vc_rows (vc c) then (vc_rows (vc c) - rows) * vc_size_row (vc c) else 0)"
    and er: "er = vc_video_erase_char (update_attr vga_con (vc c))"
  obtains nl m where "copy_rows (min (vc_size_row (vc c)) (2 * cols)) (2 * cols - min (vc_size_row (vc c)) (2 * cols))
      (vc_size_row (vc c)) (2 * cols) er (vc_scr_end (vc c)) (nat (vc_scr_end (vc c) - ol)) ol p (mem c) = Inr (nl, m)"
    and "same_off {p ..< p + 2 * cols * rows} (mem c) (filled nl (p + 2 * cols * rows) er m)"
    and "apart p (2 * cols * rows) (vc c) \<longrightarrow> (\<forall>r k. 0 \<le> r \<and> r < rows \<and> 0 \<le> k \<and> k < cols \<longrightarrow>
      filled nl (p + 2 * cols * rows) er m (p + r * (2 * cols) + 2 * k) = resized_cell rows r k c)"
proof -
  let ?v = "vc c"
  let ?orow = "vc_size_row ?v" and ?nrow = "2 * cols"
  let ?rlth = "min ?orow ?nrow"
  let ?rrem = "?nrow - ?rlth"
  define n where "n = nat (min (vc_rows ?v) rows)"
  note gd = wf_geomD [OF g(1)]
  have orow: "?orow = 2 * vc_cols ?v" "0 < ?orow" using gd by simp_all
  have n: "int n = min (vc_rows ?v) rows" using gd dims by (simp add: n_def)
  have le: "int n * ?nrow \<le> rows * ?nrow" "int n * ?orow \<le> vc_rows ?v * ?orow"
    using n dims orow by (simp_all add: mult_right_mono)
  have bottom: "vc_scr_end ?v = ol + int n * ?orow"
    using g(2) gd by (simp add: ol n min_def algebra_simps)
  have "int n * 1 \<le> int n * ?orow"
    using orow(2) by (intro mult_left_mono) simp_all
  then have fuel: "n \<le> nat (vc_scr_end ?v - ol)"
    by (simp add: bottom)
  have sums: "0 \<le> ?rlth" "0 \<le> ?rrem" "?rlth + ?rrem = ?nrow" "?rlth \<le> ?orow"
    using orow dims by simp_all
  obtain m where m: "copy_rows ?rlth ?rrem ?orow ?nrow er (vc_scr_end ?v) (nat (vc_scr_end ?v - ol)) ol p (mem c)
      = Inr (p + int n * ?nrow, m)" "same_off {p ..< p + int n * ?nrow} (mem c) m"
    using copy_rows_ok [OF orow(2) sums(1-3) bottom fuel, of er p "mem c"] by blast
  let ?nl = "p + int n * ?nrow" and ?stop = "p + 2 * cols * rows"
  let ?m = "filled ?nl ?stop er m"
  have top: "?nl \<le> ?stop" using le(1) by (simp add: mult.commute)
  show thesis
  proof (rule that [OF m(1)])
    have copied: "same_off {p ..< ?stop} (mem c) m"
      using m(2) top by (auto simp: same_off_def)
    have "{?nl ..< ?nl + (?stop - ?nl)} \<subseteq> {p ..< ?stop}"
      using dims by simp
    from same_off_memsetw [OF this copied, of er] copied show "same_off {p ..< ?stop} (mem c) ?m"
      by (cases "?nl < ?stop") (simp_all only: filled_def if_True if_False)
  next
    show "apart p (2 * cols * rows) ?v \<longrightarrow> (\<forall>r k. 0 \<le> r \<and> r < rows \<and> 0 \<le> k \<and> k < cols \<longrightarrow>
        ?m (p + r * ?nrow + 2 * k) = resized_cell rows r k c)"
    proof (intro impI allI, elim conjE)
      fix r k assume "apart p (2 * cols * rows) ?v" and rk: "0 \<le> r" "r < rows" "0 \<le> k" "k < cols"
      then have sep: "\<forall>a. p \<le> a \<and> a < ?stop \<longrightarrow> \<not> (vc_origin ?v \<le> a \<and> a < vc_scr_end ?v)"
        by (simp add: apart_def)
      have gone: "r + rows_gone rows ?v < vc_rows ?v \<longleftrightarrow> r < int n"
        using rk by (simp add: rows_gone_def n)
      show "?m (p + r * ?nrow + 2 * k) = resized_cell rows r k c"
      proof (cases "r < int n")
        case True
        have "int (nat r + 1) * ?nrow \<le> int n * ?nrow"
          using True rk dims by (intro mult_right_mono) simp_all
        then have inside: "p + r * ?nrow + 2 * k < ?nl"
          using rk by (simp add: algebra_simps)
        have "m (p + int (nat r) * ?nrow + 2 * k) = (if 2 * k < ?rlth then mem c (ol + int (nat r) * ?orow + 2 * k) else er)"
        proof (rule copy_rows_cells [OF orow(2) sums m(1) bottom _ fuel])
          have "vc_origin ?v \<le> ol" using gd orow by (simp add: ol)
          then show "\<forall>a. p \<le> a \<and> a < p + int n * ?nrow \<longrightarrow> \<not> (ol \<le> a \<and> a < vc_scr_end ?v)"
            using sep top by fastforce
        qed (use True rk in simp_all)
        moreover have "ol + r * ?orow = vc_origin ?v + (r + rows_gone rows ?v) * ?orow"
          by (simp add: ol rows_gone_def algebra_simps)
        ultimately show ?thesis
          using True gone rk inside er orow(1) by (simp add: filled_def resized_cell_def Let_def scr_memsetw_def min_def)
      next
        case False
        have "int n * ?nrow \<le> r * ?nrow" "(r + 1) * ?nrow \<le> rows * ?nrow"
          using False rk dims by (simp_all add: mult_right_mono)
        moreover have "(r + 1) * ?nrow = r * ?nrow + ?nrow" "rows * ?nrow = 2 * cols * rows"
          by (simp_all add: algebra_simps)
        ultimately have "?nl \<le> p + r * ?nrow + 2 * k" "p + r * ?nrow + 2 * k < ?stop"
          using rk by linarith+
        then show ?thesis
          using False gone er by (simp add: filled_def resized_cell_def Let_def scr_memsetw_def)
      qed
    qed
  qed
qed

section \<open>Resizing\<close>

lemma tell_tty_keeps: "wf_con K c \<Longrightarrow> keeps K c (tell_tty winsize c)"
  by (auto simp: tell_tty_def Let_def split: option.split prod.split intro: keeps_step [OF keeps_log keeps_log])

lemma tell_tty_sel [simp]:
  "vc (tell_tty winsize c) = vc c" "mem (tell_tty winsize c) = mem c" "is_visible (tell_tty winsize c) = is_visible c"
  "drv (tell_tty winsize c) = drv c" "vt (tell_tty winsize c) = vt c"
  by (auto simp: tell_tty_def Let_def split: option.split prod.split)

text \<open>Redrawing a console in front whose display can be placed.\<close>

lemma update_screen_placed:
  assumes wf: "wf_con (vga_contract ty b e bufs) c" and vis: "is_visible c" and pl: "placeable_vga c"
  shows "res_ok (keeps (vga_contract ty b e bufs) c) (update_screen vga_con c)"
proof -
  let ?K = "vga_contract ty b e bufs"
  obtain c1 where c1: "hide_cursor vga_con c = Inr c1" "keeps ?K c c1" "placeable_vga c1"
    using hide_cursor_placeable [OF wf pl] by (auto simp: res_ok_ex)
  define ph where "ph = (vga_is_gfx (drv c1), vga_palette_blanked (drv c1))"
  have "wf_con (relaxed (vga_contract_at ty ph b e bufs)) c1"
    using keeps_wf [OF c1(2)] by (simp add: wf_con_relaxed wf_con_at ph_def)
  then have "keeps (relaxed (vga_contract_at ty ph b e bufs)) c1 (set_origin vga_con c1) \<and>
      wf_con (vga_contract_at ty ph b e bufs) (set_origin vga_con c1)"
    using keeps_visible [OF c1(2)] vis c1(3) by (intro vga_at.place) (auto simp: placeable_vga_def ph_def)
  then have k2: "keeps ?K c1 (set_origin vga_con c1)"
    by (simp add: keeps_def wf_con_at)
  have "res_ok (keeps ?K (set_origin vga_con c1)) (redraw_screen vga_con was (set_origin vga_con c1))" for was
    using keeps_wf [OF k2] by (rule vga.redraw_screen_ok)
  then have "res_ok (keeps ?K c) (redraw_screen vga_con was (set_origin vga_con c1))" for was
    by (rule res_ok_mono) (blast intro: keeps_trans c1(2) k2)
  then show ?thesis
    by (simp add: update_screen_def c1(1))
qed

text \<open>Resizing a console that is not seen, and one that is.\<close>

lemma resize_to_ok:
  assumes wf: "wf_con (vga_contract ty b e bufs) c"
    and dims: "0 < cols" "cols \<le> 256" "0 < rows" "rows \<le> 32767" "2 * cols * rows \<le> e - b"
    and p: "{p ..< p + 2 * cols * rows} \<subseteq> bufs" and sel: "sel_fits (2 * cols * rows) c"
    and pl: "is_visible c \<longrightarrow> placeable_vga c"
  obtains c' where "resize_to vga_con winsize cols rows p c = Inr (None, c')"
    "wf_con (vga_contract ty b e bufs) c'" "framed ({b ..< e} \<union> bufs) (vts c) c c'"
    "\<not> is_visible c \<longrightarrow> vc c' = vte_decsc (at_origin p (new_size cols rows p (vc c)))"
    "\<not> is_visible c \<and> apart p (2 * cols * rows) (vc c) \<longrightarrow> (\<forall>r k. 0 \<le> r \<and> r < rows \<and> 0 \<le> k \<and> k < cols \<longrightarrow>
      mem c' (p + r * (2 * cols) + 2 * k) = resized_cell rows r k c)"
proof -
  let ?K = "vga_contract ty b e bufs" and ?ss = "2 * cols * rows"
  define ph where "ph = (vga_is_gfx (drv c), vga_palette_blanked (drv c))"
  let ?A = "vga_contract_at ty ph b e bufs"
  note g = wf_geomD [OF wf_con_geom [OF wf]]
  define ol where "ol = vc_origin (vc c) + (if rows < vc_rows (vc c) then (vc_rows (vc c) - rows) * vc_size_row (vc c) else 0)"
  define er where "er = vc_video_erase_char (update_attr vga_con (vc c))"
  obtain nl m where m: "copy_rows (min (vc_size_row (vc c)) (2 * cols)) (2 * cols - min (vc_size_row (vc c)) (2 * cols))
      (vc_size_row (vc c)) (2 * cols) er (vc_scr_end (vc c)) (nat (vc_scr_end (vc c) - ol)) ol p (mem c) = Inr (nl, m)"
    "same_off {p ..< p + ?ss} (mem c) (filled nl (p + ?ss) er m)"
    "apart p ?ss (vc c) \<longrightarrow> (\<forall>r k. 0 \<le> r \<and> r < rows \<and> 0 \<le> k \<and> k < cols \<longrightarrow>
      filled nl (p + ?ss) er m (p + r * (2 * cols) + 2 * k) = resized_cell rows r k c)"
    by (rule new_cells [OF wf_con_geom [OF wf] wf_vcD(9) [OF wf_con_vc [OF wf]] dims(1,3) ol_def er_def, of p])
  let ?m = "filled nl (p + ?ss) er m"
  let ?c5 = "resized cols rows p ?m c"
  define c6 where "c6 = tell_tty winsize (upd_vc vte_decsc (set_origin vga_con ?c5))"
  have run: "resize_to vga_con winsize cols rows p c =
      res_bind (if is_visible c6 then update_screen vga_con c6 else Inr c6) (\<lambda>c7. Inr (None, c7))"
    by (rule resize_to_run [OF g(10,12) m(1) er_def ol_def filled_def c6_def])
  have off: "same_off ({b ..< e} \<union> bufs) (mem c) ?m"
    using m(2) p unfolding same_off_def by blast
  have region: "{p ..< p + ?ss} \<subseteq> {b ..< e} \<union> bufs" using p by blast
  have save: "keeps K c0 (tell_tty winsize (upd_vc vte_decsc c0))" if "wf_con K c0" for K and c0 :: "vga con"
    using that by (intro keeps_step [OF keeps_vc_step tell_tty_keeps] vte_decsc_step)
  have vis5: "is_visible ?c5 = is_visible c" "vt_blanked (vt ?c5) = vt_blanked (vt c)" "drv ?c5 = drv c"
    by (simp_all add: resized_def is_visible_def vt_def)
  show thesis
  proof (cases "is_visible c")
    case False
    have c5: "wf_con ?K ?c5" "framed ({b ..< e} \<union> bufs) (vts c) c ?c5"
      using resized_wf [OF wf dims(1-4) _ _ sel] dims(5) region off False by simp_all
    have so: "keeps ?K ?c5 (set_origin vga_con ?c5)"
      using c5(1) vis5(1) False by (intro set_origin_hidden) simp_all
    have k: "keeps ?K ?c5 c6"
      unfolding c6_def by (rule keeps_step [OF so save])
    have hidden: "\<not> accepts_origin ?c5"
      using vis5(1) False by (simp add: accepts_origin_def)
    have "\<not> is_visible c6"
      using keeps_visible [OF k] vis5(1) False by simp
    then have "resize_to vga_con winsize cols rows p c = Inr (None, c6)"
      by (simp add: run)
    moreover have "vc c6 = vte_decsc (at_origin p (new_size cols rows p (vc c)))" "mem c6 = ?m"
      using hidden by (simp_all add: c6_def set_origin_vga resized_def)
    ultimately show thesis
      using m(3) keeps_wf [OF k] framed_keeps [OF c5(2) k] by (intro that [of c6]) simp_all
  next
    case True
    have at: "wf_con (relaxed ?A) c"
      using wf by (simp add: wf_con_relaxed wf_con_at ph_def)
    have c5: "wf_con (relaxed ?A) ?c5" "framed ({b ..< e} \<union> bufs) (vts c) c ?c5"
      using resized_wf [OF at dims(1-4) _ _ sel] dims(5) region off by simp_all
    have so: "keeps (relaxed ?A) ?c5 (set_origin vga_con ?c5) \<and> wf_con ?A (set_origin vga_con ?c5)"
      using c5(1) vis5 True pl by (intro vga_at.place) (auto simp: placeable_vga_def ph_def)
    then have k: "keeps (relaxed ?A) ?c5 (set_origin vga_con ?c5)" "keeps ?A (set_origin vga_con ?c5) c6"
      unfolding c6_def using save by blast+
    have fr: "framed ({b ..< e} \<union> bufs) (vts c) c c6"
      using framed_keeps [OF framed_keeps [OF c5(2) k(1)] k(2)] by simp
    have wf6: "wf_con ?K c6" "(vga_is_gfx (drv c6), vga_palette_blanked (drv c6)) = ph"
      using keeps_wf [OF k(2)] by (simp_all add: wf_con_at)
    have vis6: "is_visible c6"
      using keeps_visible [OF k(1)] keeps_visible [OF k(2)] vis5(1) True by simp
    have "vt_blanked (vt c6) \<Longrightarrow> vt_blanked (vt ?c5)"
      using keeps_unblanked [OF k(1)] keeps_unblanked [OF k(2)] by blast
    then have "placeable_vga c6"
      using wf6(2) vis5(2) pl True by (auto simp: placeable_vga_def ph_def)
    then obtain c7 where c7: "update_screen vga_con c6 = Inr c7" "keeps ?K c6 c7"
      using update_screen_placed [OF wf6(1) vis6] by (auto simp: res_ok_ex)
    show thesis
      using vis6 c7 keeps_wf [OF c7(2)] framed_keeps [OF fr c7(2)] True by (intro that [of c7]) (simp_all add: run)
  qed
qed

lemma hidden_console:
  assumes "vc c' = vte_decsc (at_origin p (new_size cols rows p v))"
  shows "vc_cols (vc c') = cols" "vc_rows (vc c') = rows" "vc_size_row (vc c') = 2 * cols" "vc_origin (vc c') = p"
  using assms by (simp_all add: vte_decsc_def at_origin_def)

text \<open>Nothing is copied when the size is the old one.\<close>

lemma resized_cell_same:
  assumes "0 \<le> r" "r < vc_rows (vc c)" "0 \<le> k" "k < vc_cols (vc c)"
  shows "resized_cell (vc_rows (vc c)) r k c = mem c (vc_origin (vc c) + r * vc_size_row (vc c) + 2 * k)"
  using assms by (simp add: resized_cell_def rows_gone_def Let_def)


definition hidden1 :: "vga con" where
  "hidden1 = con1\<lparr>vc := vc1, pool := [0 \<mapsto> vc0]\<rparr>"

lemma wf_hidden1: "wf_con (vga_contract VIDEO_TYPE_VGAC 0xb8000 0xc0000 bufs1) hidden1"
proof (rule wf_con_refocus [OF _ wf_con1])
  have "get_console hidden1 = get_console con1"
    by (auto simp: fun_eq_iff get_console_def hidden1_def con1_def con0_def vc0_def vc1_def)
  then show "refocus con1 hidden1"
    unfolding hidden1_def by (rule refocusI)
qed


end
