(* ===== verification/Spec2Isabelle.thy ===== *)
theory Spec2Isabelle
  imports Output_Props Decvte_Props Keyboard_Text Vt_System Kbd_Strings Vc_Screen_Props Selection_Props Resize_Props
begin

text \<open>
  Verification of the Linux multi-console kernel driver (ruby-2.6 tree of the Linux Console
  Project): virtual consoles, the DEC VT terminal emulator, character output, the VGA text
  driver, the keyboard driver, console switching, the ioctls, selection and the screen memory devices.

  \<^bold>\<open>The program.\<close> A process writes bytes to a console's tty; \<open>do_con_write\<close>
  (drivers/char/vt.c) decodes UTF-8, translates characters to font positions
  (drivers/char/consolemap.c), draws glyphs, and passes everything else to the escape
  sequence parser \<open>terminal_emulation\<close> (drivers/char/decvte.c), whose operations move the
  cursor, scroll, erase, set attributes and modes and send replies. All drawing goes through
  the driver interface \<open>struct consw\<close>; its implementation here is the VGA text driver
  (drivers/video/console/vgacon.c). Key events come from the input core to
  drivers/char/keyboard.c, which turns them into characters in the input queue of the console
  in front, or into requests to switch consoles. A switch is carried out by the work queue
  handler of the display (\<open>vt_callback\<close> in vt.c) through both halves of the protocol in
  drivers/char/vt_ioctl.c, whose ioctls also set the modes, key tables and palette of a console.
  The mouse selects text through drivers/char/selection.c; the devices of drivers/char/vc_screen.c give
  the screen as a file. Kernel messages are printed by \<open>vt_console_print\<close>.

  \<^bold>\<open>The model.\<close> C structures are records, pointers are keys (a console is its number, a
  display its number, a buffer its address), 32-bit integers are integers with the wrap-around
  written out where it can happen, and bytes, cells and flag words are words. Functions
  return a fault or a value (\<open>VT_Prelude.res\<close>): a null dereference, a freed pointer, an array
  index out of range, a division by zero and a loop that does not end are values, so that their
  absence is a theorem. Calls into other subsystems that return nothing (flip buffers, work
  queues, signals, the beeper) are recorded in a trace.

  \<^item> \<open>VT_Prelude\<close>: integers, faults, cell memory and its block operations, arrays.
  \<^item> \<open>Vc_Data\<close>: \<open>vc_data\<close>, \<open>vt_struct\<close>, \<open>kbd_struct\<close> of include/linux/vt_kern.h and kbd_kern.h.
  \<^item> \<open>Consolemap\<close>: the translation tables and Unicode maps of consolemap.c.
  \<^item> \<open>Console\<close>, \<open>Vt_Core\<close>: the state \<open>'d con\<close>, the interface \<open>consw\<close> and the operations of
    vt.c, with \<open>clear_selection\<close> of selection.c.
  \<^item> \<open>Decvte\<close>, \<open>Emulator\<close>: the operations and the parser of decvte.c.
  \<^item> \<open>Con_Write\<close>: \<open>do_con_write\<close>, \<open>vt_console_print\<close> and the tty operations of vt.c.
  \<^item> \<open>Vgacon\<close>: the VGA driver with its registers.
  \<^item> \<open>Keyboard\<close>: keyboard.c, over \<open>'d kcon\<close>, a console state with the state of the keyboard.
  \<^item> \<open>Vt_Alloc\<close>, \<open>Vt_Switch\<close>: allocation of consoles, the work queue handler and the protocol of a
    console switch (vt.c, vt_ioctl.c).
  \<^item> \<open>Vt_Ioctl\<close>, \<open>Kbd_Ioctl\<close>: the other requests of vt_ioctl.c, those on the key tables apart.
  \<^item> \<open>Vt_Resize\<close>: \<open>vc_resize\<close> and the requests that resize consoles.
  \<^item> \<open>Selection\<close>, \<open>Vc_Screen\<close>: selection.c and vc_screen.c; \<open>Vt_Tiocl\<close>: \<open>tioclinux\<close> of vt.c.

  \<^bold>\<open>The proofs.\<close> \<open>Console_Inv\<close> defines the invariant \<open>wf_con\<close> of the whole console state and
  \<open>keeps\<close>, what every operation preserves. What the console code relies on of a display
  driver is the locale \<open>drawing_driver\<close>, extended by \<open>display_driver\<close> (scrolling and setting
  the origin) and \<open>screen_driver\<close> (what scrolling does to the cells); \<open>Console_Keep\<close>,
  \<open>Decvte_Inv\<close>, \<open>Emulator_Inv\<close>, \<open>Con_Write_Inv\<close> and \<open>Keyboard_Keep\<close> prove inside them that every
  operation returns and keeps the invariant, and \<open>Vgacon_Inv\<close> and \<open>Vga_Screen\<close> interpret them
  on the VGA driver. Its contract \<open>vga_contract ty b e bufs\<close> names the type of the card, the
  bounds of video memory and the addresses of the screen buffers. \<open>Screen\<close> states the editing operations on a
  grid of cells. \<open>Switch_Inv\<close> proves that the switch of consoles keeps the invariant, where other
  consoles change too; \<open>System_Inv\<close> is the invariant \<open>sys_inv\<close> of all displays, consoles and the keyboard,
  \<open>Vt_Requests\<close> and \<open>Tiocl_Props\<close> show that every request keeps it, and \<open>Vt_System\<close> is the driver as a transition
  system of all its entry points (C33). The other properties
  are in \<open>Emulator_Props\<close>, \<open>Vga_Screen\<close>, \<open>Output_Props\<close>, \<open>Decvte_Props\<close>,
  \<open>Keyboard_Props\<close>, \<open>Keyboard_Text\<close>, \<open>Switch_Props\<close>, \<open>Kbd_Tables\<close> (key maps), \<open>Kbd_Strings\<close> (the
  packed function key strings refine a table of strings), \<open>Vc_Screen_Props\<close>, \<open>Selection_Props\<close>,
  \<open>Resize_Props\<close> and
  here; \<open>Vga_Example\<close> is the concrete state of the witnesses.

  \<^bold>\<open>Bounds and fuel.\<close> The invariant bounds a console to 256 columns (the tab stop array) and
  32767 rows. \<open>do_update_region\<close> loops over rows with fuel one more than the number of cells,
  the console stepping loops of the keyboard with fuel one more than the number of
  consoles, and the rounds of the screen memory devices with fuel one more than the number of bytes
  asked for, and the loop of \<open>vc_resize\<close> over rows with the bytes of the old screen; that the fuel is enough is part of what is proved. \<open>paste_selection\<close> and
  \<open>vt_waitactive\<close> sleep until something outside happens: they have fuel, and running out of it is the value \<open>No_return\<close>.

  \<^bold>\<open>Not modelled.\<close> Disallocation of consoles, tty open and close, changing the driver of a display, font
  loading and adapter detection of the VGA driver, binding of input devices to displays and the ioctls
  that are calls into other subsystems (key codes, repeat rates, I/O ports, fonts), device nodes, the generic tty
  layer, /proc and sysfs output, the user space utilities and the files of the kernel that the tree
  changes in passing. Concurrency is not modelled: the console semaphore makes the
  operations atomic. Interrupts enter as arguments (\<open>irq\<close>). In the transition system there is no
  memory for new consoles (\<open>Vt_Alloc\<close> models their allocation, but the invariant of a fresh console is not proved),
  resizing is not a step, because \<open>vc_resize\<close> leaves a selection that may reach beyond the new screen (C32 assumes that
  it does not), and scrolling back is not one: \<open>vgacon_scroll\<close> takes positions modulo the video memory or
  the rolled-over part of it, which need not be a multiple of the row size, so that the window it shows may end past
  video memory.
\<close>

section \<open>The terminal emulator\<close>

text \<open>
  C1. The emulator is safe on every character in every well-formed state, but for one known
  defect. On the VGA driver, from any state that satisfies the invariant, one character makes
  \<open>terminal_emulation\<close> return a state that satisfies the invariant again, having written
  only to screen memory (video memory and the screen buffers); it faults exactly when the character completes a
  request to switch to a console that does not exist, and then by a null pointer dereference.
\<close>

theorem terminal_emulation_safe:
  assumes "wf_con (vga_contract ty b e bufs) c" "settled (vc c)"
  shows "if bad_switch ch c then terminal_emulation vga_con ch c = Inl Null_deref
    else \<exists>c'. terminal_emulation vga_con ch c = Inr c' \<and> wf_con (vga_contract ty b e bufs) c' \<and>
      settled (vc c') \<and> same_off ({b ..< e} \<union> bufs) (mem c) (mem c')"
proof -
  have "emu_ok (vga_contract ty b e bufs) (bad_switch ch c) c (terminal_emulation vga_con ch c)"
    using assms by (rule vga.terminal_emulation_emu_ok)
  then show ?thesis
    using keeps_confined keeps_settled [OF _ assms(2)]
    by (cases "bad_switch ch c") (fastforce simp: emu_ok_def res_ok_ex)+
qed

theorem terminal_emulation_safe_witness:
  "\<exists>c'. terminal_emulation vga_con 10 con0 = Inr c' \<and> wf_con vga0_contract c' \<and>
      settled (vc c') \<and> same_off ({0xb8000 ..< 0xc0000} \<union> {0x100000 ..< 0x100000 + 4000}) (mem con0) (mem c')"
  using terminal_emulation_safe [OF wf_con0 settled0, of 10] by (simp add: bad_switch_def)

section \<open>Console output\<close>

text \<open>
  C2. Plain text always gets written. From any state that satisfies the invariant, writing
  bytes below 0x80 other than the right bracket, escape sequences included, returns, takes every byte when the
  terminal is not stopped, keeps the invariant and writes only to screen memory.
\<close>

theorem vt_write_plain:
  assumes "wf_con (vga_contract ty b e bufs) c" "settled (vc c)"
    and "\<forall>ch \<in> set buf. 0 \<le> ch \<and> ch < 0x80 \<and> ch \<noteq> 0x5d"
  shows "\<exists>n c'. vt_write vga_con irq stopped buf c = Inr (n, c') \<and> n \<le> length buf \<and>
      ((\<forall>i < length buf. \<not> stopped i) \<longrightarrow> n = length buf) \<and>
      wf_con (vga_contract ty b e bufs) c' \<and> same_off ({b ..< e} \<union> bufs) (mem c) (mem c')"
proof -
  have "run_ok False (vga_contract ty b e bufs) c snd (vt_write vga_con irq stopped buf c)"
    using assms by (intro vga.vt_write_run_ok) auto
  then obtain n c' where "vt_write vga_con irq stopped buf c = Inr (n, c')"
    "keeps (vga_contract ty b e bufs) c c'"
    by (cases "vt_write vga_con irq stopped buf c") auto
  then show ?thesis
    using vt_write_count [of vga_con irq stopped buf c n c'] by (auto simp: keeps_def)
qed

theorem vt_write_plain_witness:
  "\<exists>c'. vt_write vga_con False (\<lambda>_. False) [0x48, 0x69, 0x0a] con0 = Inr (3, c') \<and> wf_con vga0_contract c'"
  using vt_write_plain [OF wf_con0 settled0, of "[0x48, 0x69, 0x0a]" False "\<lambda>_. False"] by auto

text \<open>
  C3. Whatever bytes are written, \<open>do_con_write\<close> either returns with the invariant kept and only
  screen memory written, or has met a request for a console that does not exist and faults by
  a null pointer dereference: it never runs out of an array, divides by zero, follows a freed
  pointer or loops for ever.
\<close>

theorem do_con_write_outcome:
  assumes "wf_con (vga_contract ty b e bufs) c" "settled (vc c)" "\<forall>ch \<in> set buf. 0 \<le> ch \<and> ch < 256"
  shows "case do_con_write vga_con irq stopped buf c of
      Inl f \<Rightarrow> f = Null_deref
    | Inr (n, c') \<Rightarrow> wf_con (vga_contract ty b e bufs) c' \<and>
        same_off ({b ..< e} \<union> bufs) (mem c) (mem c') \<and> n \<le> length buf"
proof -
  have r: "run_ok True (vga_contract ty b e bufs) c snd (do_con_write vga_con irq stopped buf c)"
    using assms by (intro vga.do_con_write_run_ok) auto
  show ?thesis
  proof (cases "do_con_write vga_con irq stopped buf c")
    case (Inr a)
    then have "do_con_write vga_con irq stopped buf c = Inr (fst a, snd a)"
      by simp
    from do_con_write_count [OF this] show ?thesis
      using r Inr by (simp add: case_prod_beta keeps_def)
  qed (use r in simp)
qed

theorem do_con_write_outcome_witness:
  "case do_con_write vga_con False (\<lambda>_. False) [27, 93, 80, 200] con0 of
      Inl f \<Rightarrow> f = Null_deref
    | Inr (n, c') \<Rightarrow> wf_con vga0_contract c' \<and>
        same_off ({0xb8000 ..< 0xc0000} \<union> {0x100000 ..< 0x100000 + 4000}) (mem con0) (mem c') \<and>
        n \<le> length [27, 93, 80, 200::int]"
  by (rule do_con_write_outcome [OF wf_con0 settled0]) simp

end
